(* ===== verification/Prelude.thy ===== *)
theory Prelude
  imports Main "HOL-Library.Word"
begin

text \<open>
  Shared vocabulary of the development.  Rust's \<open>str\<close> and byte slices are lists of bytes
  (\<open>string\<close>, a \<open>char\<close> is one byte of the UTF-8 encoding, so \<open>length\<close> is Rust's \<open>len()\<close>).
  The standard-library predicates on bytes, \<open>Iterator::position\<close>, decimal printing
  (\<open>format!("{}")\<close>) and slicing at a character boundary are defined here once, with the list
  lemmas every component uses.  The collection \<open>limits\<close> gathers the definitions of the
  program's named limits; \<open>bstr\<close> gathers the byte-string rules.
\<close>

named_theorems limits "definitions of the named limits of consts.rs"
named_theorems bstr "unfolding rules of the byte predicates"

section \<open>Bytes\<close>

definition byte :: "char \<Rightarrow> nat" where
  "byte c = of_char c"

lemma byte_less_256 [simp]: "byte c < 256"
  by (cases c) (auto simp: byte_def intro: order.strict_trans1 [of _ 255])

lemma byte_inject [simp]: "byte c = byte d \<longleftrightarrow> c = d"
  by (simp add: byte_def)

definition is_digit :: "char \<Rightarrow> bool" where
  "is_digit c \<longleftrightarrow> 48 \<le> byte c \<and> byte c \<le> 57"

definition is_upper :: "char \<Rightarrow> bool" where
  "is_upper c \<longleftrightarrow> 65 \<le> byte c \<and> byte c \<le> 90"

definition is_lower :: "char \<Rightarrow> bool" where
  "is_lower c \<longleftrightarrow> 97 \<le> byte c \<and> byte c \<le> 122"

definition is_alpha :: "char \<Rightarrow> bool" where
  "is_alpha c \<longleftrightarrow> is_upper c \<or> is_lower c"

definition is_alnum :: "char \<Rightarrow> bool" where
  "is_alnum c \<longleftrightarrow> is_alpha c \<or> is_digit c"

definition is_hex :: "char \<Rightarrow> bool" where
  "is_hex c \<longleftrightarrow> is_digit c \<or> (65 \<le> byte c \<and> byte c \<le> 70) \<or> (97 \<le> byte c \<and> byte c \<le> 102)"

definition is_ctl :: "char \<Rightarrow> bool" where
  "is_ctl c \<longleftrightarrow> byte c < 32 \<or> byte c = 127"

text \<open>\<open>to_ascii_lowercase\<close> on one byte, and on a string.\<close>

definition lower :: "char \<Rightarrow> char" where
  "lower c = (if is_upper c then char_of (byte c + 32) else c)"

definition lowers :: "string \<Rightarrow> string" where
  "lowers s = map lower s"

lemma byte_lower: "byte (lower c) = (if is_upper c then byte c + 32 else byte c)"
  by (auto simp: lower_def is_upper_def byte_def)

lemma lower_idem [simp]: "lower (lower c) = lower c"
proof -
  have "\<not> is_upper (lower c)" by (auto simp: is_upper_def byte_lower)
  then show ?thesis by (subst lower_def) simp
qed

lemma length_lowers [simp]: "length (lowers s) = length s"
  by (simp add: lowers_def)

lemma lowers_idem [simp]: "lowers (lowers s) = lowers s"
  by (simp add: lowers_def)

lemma lowers_Nil [simp]: "lowers s = [] \<longleftrightarrow> s = []"
  by (simp add: lowers_def)

section \<open>Lists\<close>

text \<open>\<open>Iterator::position\<close>: the first index whose element satisfies the predicate.\<close>

fun position :: "('a \<Rightarrow> bool) \<Rightarrow> 'a list \<Rightarrow> nat option" where
  "position P [] = None"
| "position P (x # xs) = (if P x then Some 0 else map_option Suc (position P xs))"

lemma position_None_iff: "position P xs = None \<longleftrightarrow> (\<forall>x \<in> set xs. \<not> P x)"
  by (induction xs) auto

lemma position_SomeD:
  "position P xs = Some i \<Longrightarrow> i < length xs \<and> P (xs ! i) \<and> (\<forall>j < i. \<not> P (xs ! j))"
proof (induction xs arbitrary: i)
  case (Cons x xs)
  then show ?case
    by (cases i) (auto split: if_splits simp: less_Suc_eq_0_disj)
qed simp

lemma position_SomeI:
  "i < length xs \<Longrightarrow> P (xs ! i) \<Longrightarrow> (\<And>j. j < i \<Longrightarrow> \<not> P (xs ! j)) \<Longrightarrow> position P xs = Some i"
proof (induction xs arbitrary: i)
  case (Cons x xs)
  show ?case
  proof (cases i)
    case 0
    with Cons.prems show ?thesis by simp
  next
    case (Suc k)
    have "\<not> P x" using Cons.prems(3) [of 0] Suc by simp
    moreover have "position P xs = Some k"
    proof (rule Cons.IH)
      show "k < length xs" and "P (xs ! k)" using Cons.prems Suc by auto
      show "\<not> P (xs ! j)" if "j < k" for j using Cons.prems(3) [of "Suc j"] Suc that by simp
    qed
    ultimately show ?thesis using Suc by simp
  qed
qed simp

lemma position_cong:
  "length xs = length ys \<Longrightarrow> (\<And>i. i < length xs \<Longrightarrow> P (xs ! i) = Q (ys ! i)) \<Longrightarrow>
   position P xs = position Q ys"
proof (induction xs arbitrary: ys)
  case (Cons x xs)
  then obtain y ys' where ys: "ys = y # ys'" by (cases ys) auto
  have "P x = Q y" using Cons.prems(2) [of 0] ys by simp
  moreover have "position P xs = position Q ys'"
  proof (rule Cons.IH)
    show "length xs = length ys'" using Cons.prems(1) ys by simp
    show "P (xs ! i) = Q (ys' ! i)" if "i < length xs" for i
      using Cons.prems(2) [of "Suc i"] ys that by simp
  qed
  ultimately show ?case by (simp add: ys)
qed simp

text \<open>\<open>Vec::swap_remove\<close>: the last element takes the removed one's place.\<close>

definition swap_remove :: "nat \<Rightarrow> 'a list \<Rightarrow> 'a list" where
  "swap_remove i xs = (if i < length xs then butlast (xs[i := last xs]) else xs)"

lemma length_swap_remove: "i < length xs \<Longrightarrow> length (swap_remove i xs) = length xs - 1"
  by (simp add: swap_remove_def)

lemma position_append:
  "(\<And>x. x \<in> set xs \<Longrightarrow> \<not> P x) \<Longrightarrow> P y \<Longrightarrow> position P (xs @ y # ys) = Some (length xs)"
  by (induction xs) auto

lemma position_eq_append [simp]: "d \<notin> set xs \<Longrightarrow> position ((=) d) (xs @ d # ys) = Some (length xs)"
  by (rule position_append) auto

lemma position_takeWhile:
  "position P xs = (if \<exists>x \<in> set xs. P x then Some (length (takeWhile (\<lambda>x. \<not> P x) xs)) else None)"
  by (induction xs) auto

lemma position_ex: "\<exists>x \<in> set xs. P x \<Longrightarrow> \<exists>i. position P xs = Some i"
  using position_None_iff [of P xs] by auto

section \<open>Splitting strings\<close>

text \<open>\<open>str::split\<close> on one byte: never empty, and joining the pieces gives the string back.\<close>

fun split_char :: "char \<Rightarrow> string \<Rightarrow> string list" where
  "split_char d [] = [[]]"
| "split_char d (c # s) =
     (if c = d then [] # split_char d s
      else (case split_char d s of [] \<Rightarrow> [[c]] | t # ts \<Rightarrow> (c # t) # ts))"

fun join_char :: "char \<Rightarrow> string list \<Rightarrow> string" where
  "join_char d [] = []"
| "join_char d [t] = t"
| "join_char d (t # ts) = t @ d # join_char d ts"

lemma split_char_nonempty [simp]: "split_char d s \<noteq> []"
  by (induction s) (auto split: list.splits)

lemma join_split_char: "join_char d (split_char d s) = s"
proof (induction s)
  case (Cons c s)
  then show ?case
    by (cases "split_char d s"; cases "tl (split_char d s)") auto
qed simp

lemma split_char_none: "d \<notin> set t \<Longrightarrow> split_char d t = [t]"
  by (induction t) auto

lemma split_char_append: "d \<notin> set t \<Longrightarrow> split_char d (t @ d # s) = t # split_char d s"
  by (induction t) auto

lemma split_join_char:
  "ts \<noteq> [] \<Longrightarrow> (\<And>t. t \<in> set ts \<Longrightarrow> d \<notin> set t) \<Longrightarrow> split_char d (join_char d ts) = ts"
  by (induction d ts rule: join_char.induct) (auto simp: split_char_none split_char_append)

lemma split_char_pieces: "t \<in> set (split_char d s) \<Longrightarrow> d \<notin> set t"
  by (induction s arbitrary: t) (auto split: list.splits if_splits)

lemma join_char_snoc:
  "join_char d (ts @ [t]) = join_char d ts @ (if ts = [] then [] else [d]) @ t"
  by (induction d ts rule: join_char.induct) auto

lemma join_char_Nil_iff: "\<forall>t \<in> set ts. t \<noteq> [] \<Longrightarrow> join_char d ts = [] \<longleftrightarrow> ts = []"
  by (induction d ts rule: join_char.induct) auto

text \<open>\<open>str::splitn\<close>: at most \<open>n\<close> pieces, the last takes the rest.\<close>

fun splitn_char :: "nat \<Rightarrow> char \<Rightarrow> string \<Rightarrow> string list" where
  "splitn_char 0 d s = []"
| "splitn_char (Suc 0) d s = [s]"
| "splitn_char (Suc (Suc n)) d s =
     (case position ((=) d) s of
        None \<Rightarrow> [s]
      | Some i \<Rightarrow> take i s # splitn_char (Suc n) d (drop (Suc i) s))"

lemma splitn_char_append [simp]:
  "d \<notin> set a \<Longrightarrow> splitn_char (Suc (Suc n)) d (a @ d # b) = a # splitn_char (Suc n) d b"
  by simp

lemma splitn_char_length: "length (splitn_char n d s) \<le> n"
  by (induction n d s rule: splitn_char.induct) (auto split: option.splits)

text \<open>\<open>str::split_once\<close>.\<close>

definition split_once :: "char \<Rightarrow> string \<Rightarrow> (string \<times> string) option" where
  "split_once d s = (case position ((=) d) s of
     None \<Rightarrow> None | Some i \<Rightarrow> Some (take i s, drop (Suc i) s))"

lemma split_once_append: "d \<notin> set a \<Longrightarrow> split_once d (a @ d # b) = Some (a, b)"
  by (simp add: split_once_def)

lemma split_once_none: "d \<notin> set s \<Longrightarrow> split_once d s = None"
  using position_None_iff [of "(=) d" s] by (auto simp: split_once_def)

section \<open>64-bit signed integers\<close>

definition i64_min :: int where "i64_min = - (2 ^ 63)"
definition i64_max :: int where "i64_max = 2 ^ 63 - 1"

definition in_i64 :: "int \<Rightarrow> bool" where
  "in_i64 v \<longleftrightarrow> i64_min \<le> v \<and> v \<le> i64_max"

text \<open>\<open>checked_mul\<close>, \<open>checked_add\<close>, \<open>checked_sub\<close>: the exact result, or nothing.\<close>

definition checked :: "int \<Rightarrow> int option" where
  "checked v = (if in_i64 v then Some v else None)"

definition clamp_int :: "int \<Rightarrow> int \<Rightarrow> int \<Rightarrow> int" where
  "clamp_int lo hi v = (if v < lo then lo else if hi < v then hi else v)"

lemma clamp_int_range: "lo \<le> hi \<Longrightarrow> lo \<le> clamp_int lo hi v \<and> clamp_int lo hi v \<le> hi"
  by (simp add: clamp_int_def)

section \<open>Decimal printing\<close>

text \<open>\<open>format!("{}", n)\<close> of an unsigned and of a signed integer.\<close>

fun dec :: "nat \<Rightarrow> string" where
  "dec n = (if n < 10 then [char_of (48 + n)] else dec (n div 10) @ [char_of (48 + n mod 10)])"

declare dec.simps [simp del]

definition dec_int :: "int \<Rightarrow> string" where
  "dec_int i = (if i < 0 then CHR ''-'' # dec (nat (- i)) else dec (nat i))"

definition digit_val :: "char \<Rightarrow> nat" where
  "digit_val c = byte c - 48"

text \<open>The value of a digit string, most significant first.\<close>

definition digits_val :: "string \<Rightarrow> nat" where
  "digits_val s = foldl (\<lambda>v c. v * 10 + digit_val c) 0 s"

lemma digits_val_snoc [simp]: "digits_val (s @ [c]) = digits_val s * 10 + digit_val c"
  by (simp add: digits_val_def)

lemma digits_val_Nil [simp]: "digits_val [] = 0"
  by (simp add: digits_val_def)

lemma byte_char_of_digit [simp]: "(n::nat) < 10 \<Longrightarrow> byte (char_of (48 + n)) = 48 + n"
  by (simp add: byte_def)

lemma is_digit_char_of [simp]: "(n::nat) < 10 \<Longrightarrow> is_digit (char_of (48 + n))"
  by (simp add: is_digit_def)

lemma dec_nonempty [simp]: "dec n \<noteq> []"
  by (subst dec.simps) simp

lemma dec_digits: "\<forall>c \<in> set (dec n). is_digit c"
proof (induction n rule: dec.induct)
  case (1 n)
  then show ?case by (subst dec.simps) auto
qed

lemma digits_val_dec [simp]: "digits_val (dec n) = n"
proof (induction n rule: dec.induct)
  case (1 n)
  show ?case
  proof (cases "n < 10")
    case True
    then show ?thesis by (subst dec.simps) (simp add: digits_val_def digit_val_def)
  next
    case False
    with 1 show ?thesis by (subst dec.simps) (simp add: digit_val_def)
  qed
qed

lemma digits_val_bound: "\<forall>c \<in> set s. is_digit c \<Longrightarrow> digits_val s < 10 ^ length s"
proof (induction s rule: rev_induct)
  case (snoc c s)
  then have "digits_val s < 10 ^ length s" and "digit_val c \<le> 9"
    by (auto simp: is_digit_def digit_val_def)
  then show ?case by simp
qed simp

lemma length_dec: "n < 10 ^ k \<Longrightarrow> 0 < k \<Longrightarrow> length (dec n) \<le> k"
proof (induction k arbitrary: n)
  case (Suc k)
  show ?case
  proof (cases "n < 10")
    case True
    then show ?thesis by (subst dec.simps) simp
  next
    case False
    with Suc.prems have "n div 10 < 10 ^ k" and "0 < k"
      by (auto intro: less_mult_imp_div_less simp: mult.commute) (cases k, auto)
    then have "length (dec (n div 10)) \<le> k" by (rule Suc.IH)
    with False show ?thesis by (subst dec.simps) simp
  qed
qed simp

section \<open>Character boundaries and truncation\<close>

text \<open>\<open>str::is_char_boundary\<close>: the ends, and every byte that is not a continuation byte.\<close>

definition is_cont :: "char \<Rightarrow> bool" where
  "is_cont c \<longleftrightarrow> 128 \<le> byte c \<and> byte c < 192"

definition is_char_boundary :: "string \<Rightarrow> nat \<Rightarrow> bool" where
  "is_char_boundary s i \<longleftrightarrow> i = 0 \<or> i = length s \<or> (i < length s \<and> \<not> is_cont (s ! i))"

text \<open>The loop \<open>while n > 0 && !s.is_char_boundary(n) { n -= 1 }\<close>.\<close>

fun back_to_boundary :: "string \<Rightarrow> nat \<Rightarrow> nat" where
  "back_to_boundary s 0 = 0"
| "back_to_boundary s (Suc n) =
     (if is_char_boundary s (Suc n) then Suc n else back_to_boundary s n)"

lemma back_to_boundary_le: "back_to_boundary s n \<le> n"
  by (induction n) auto

lemma back_to_boundary_ok: "is_char_boundary s (back_to_boundary s n)"
  by (induction n) (auto simp: is_char_boundary_def)

lemma back_to_boundary_greatest:
  "m \<le> n \<Longrightarrow> is_char_boundary s m \<Longrightarrow> m \<le> back_to_boundary s n"
  by (induction n) (auto simp: le_Suc_eq)

definition ascii :: "string \<Rightarrow> bool" where
  "ascii s \<longleftrightarrow> (\<forall>c \<in> set s. byte c < 128)"

lemma ascii_boundary: "ascii s \<Longrightarrow> i \<le> length s \<Longrightarrow> is_char_boundary s i"
  unfolding ascii_def is_char_boundary_def is_cont_def by (metis linorder_not_le nat_less_le nth_mem)

lemma back_to_boundary_ascii: "ascii s \<Longrightarrow> n \<le> length s \<Longrightarrow> back_to_boundary s n = n"
  by (cases n) (auto simp: ascii_boundary)

text \<open>\<open>str::chars\<close> as the byte strings of the characters.\<close>

function utf8_chars :: "string \<Rightarrow> string list" where
  "utf8_chars [] = []"
| "utf8_chars (c # cs) = (c # takeWhile is_cont cs) # utf8_chars (dropWhile is_cont cs)"
  by pat_completeness auto
termination
  by (relation "measure length") (auto simp: le_imp_less_Suc length_dropWhile_le)

lemma concat_utf8_chars: "concat (utf8_chars s) = s"
  by (induction s rule: utf8_chars.induct) auto

lemma utf8_chars_tail: "ch \<in> set (utf8_chars s) \<Longrightarrow> \<exists>c t. ch = c # t \<and> list_all is_cont t"
  by (induction s rule: utf8_chars.induct) (auto simp: list_all_iff dest: set_takeWhileD)

lemmas byte_preds [bstr] =
  is_digit_def is_upper_def is_lower_def is_alpha_def is_alnum_def is_hex_def is_ctl_def
  is_cont_def byte_def

end
