(* ===== verification/CStr.thy ===== *)
theory CStr
  imports Prelude
begin

text \<open>
  The C string rules of \<open>src/src/cstr.rs\<close>: truncation to a C buffer, \<open>strtoll\<close> with saturation,
  the \<open>strtok_r\<close> walk, the \<open>sscanf\<close> cursor, field splitting and the UUID shape tests.  A
  cursor (\<open>Tok\<close>, \<open>Scan\<close>) is the string it has not consumed yet; every method returns its result
  and the new rest.  The lemmas give each routine its reference meaning: truncation is the
  longest prefix on a character boundary, \<open>strtoll\<close> is the clamped mathematical value, the
  token walk is splitting with the empty pieces dropped, and a printed record scans back.
\<close>

section \<open>Comparison and truncation\<close>

definition eq_ic :: "string \<Rightarrow> string \<Rightarrow> bool" where
  "eq_ic a b \<longleftrightarrow> lowers a = lowers b"

definition starts_with_ic :: "string \<Rightarrow> string \<Rightarrow> bool" where
  "starts_with_ic s prefix \<longleftrightarrow>
     length prefix \<le> length s \<and> lowers (take (length prefix) s) = lowers prefix"

definition trunc :: "string \<Rightarrow> nat \<Rightarrow> string" where
  "trunc s cap = (let max = cap - 1 in
     if length s \<le> max then s else take (back_to_boundary s max) s)"

definition until_nul :: "string \<Rightarrow> string" where
  "until_nul s = (case position (\<lambda>c. byte c = 0) s of Some i \<Rightarrow> take i s | None \<Rightarrow> s)"

lemma eq_ic_refl [simp]: "eq_ic a a"
  by (simp add: eq_ic_def)

lemma eq_ic_sym: "eq_ic a b \<longleftrightarrow> eq_ic b a"
  by (auto simp: eq_ic_def)

lemma eq_ic_trans: "eq_ic a b \<Longrightarrow> eq_ic b c \<Longrightarrow> eq_ic a c"
  by (simp add: eq_ic_def)

lemma eq_ic_length: "eq_ic a b \<Longrightarrow> length a = length b"
  unfolding eq_ic_def by (metis length_lowers)

lemma length_trunc: "0 < cap \<Longrightarrow> length (trunc s cap) < cap"
  using back_to_boundary_le [of s "cap - 1"] by (auto simp: trunc_def Let_def)

lemma trunc_id: "length s < cap \<Longrightarrow> trunc s cap = s"
  by (auto simp: trunc_def Let_def)

lemma trunc_prefix: "\<exists>r. s = trunc s cap @ r"
  by (cases "length s \<le> cap - 1")
    (auto simp: trunc_def Let_def intro: exI [of _ "drop (back_to_boundary s (cap - 1)) s"])

lemma trunc_ascii: "ascii s \<Longrightarrow> trunc s cap = take (cap - 1) s"
  by (auto simp: trunc_def Let_def back_to_boundary_ascii)

lemma trunc_longest:
  "m \<le> length s \<Longrightarrow> m \<le> cap - 1 \<Longrightarrow> is_char_boundary s m \<Longrightarrow> m \<le> length (trunc s cap)"
  using back_to_boundary_greatest [of m "cap - 1" s]
  by (auto simp: trunc_def Let_def)

section \<open>strtoll\<close>

definition is_c_space :: "char \<Rightarrow> bool" where
  "is_c_space c \<longleftrightarrow> byte c \<in> {32, 9, 10, 11, 12, 13}"

text \<open>The digit loop: the value so far, whether it has left the range, the rest.\<close>

fun strtoll_digits :: "bool \<Rightarrow> int \<Rightarrow> bool \<Rightarrow> string \<Rightarrow> int \<times> bool" where
  "strtoll_digits neg v ov [] = (v, ov)"
| "strtoll_digits neg v ov (c # cs) =
     (if is_digit c then
        (let d = int (byte c - 48);
             r = (if ov then None
                  else case checked (v * 10) of
                    None \<Rightarrow> None
                  | Some x \<Rightarrow> checked (if neg then x - d else x + d))
         in case r of
              Some x \<Rightarrow> strtoll_digits neg x ov cs
            | None \<Rightarrow> strtoll_digits neg v True cs)
      else (v, ov))"

definition strtoll_sign :: "string \<Rightarrow> bool \<times> nat" where
  "strtoll_sign r = (case r of
      c # _ \<Rightarrow> if c = CHR ''+'' \<or> c = CHR ''-'' then (c = CHR ''-'', 1) else (False, 0)
    | [] \<Rightarrow> (False, 0))"

definition strtoll :: "string \<Rightarrow> int \<times> nat" where
  "strtoll s =
     (let sp = takeWhile is_c_space s;
          r = drop (length sp) s;
          (neg, sg) = strtoll_sign r;
          ds = takeWhile is_digit (drop sg r);
          i = length sp + sg + length ds
      in if ds = [] then (0, 0)
         else (let (v, ov) = strtoll_digits neg 0 False (drop sg r)
               in (if ov then (if neg then i64_min else i64_max) else v, i)))"

definition atoll :: "string \<Rightarrow> int" where
  "atoll s = fst (strtoll s)"

definition atoi :: "string \<Rightarrow> int" where
  "atoi s = sint (word_of_int (fst (strtoll s)) :: 32 word)"

text \<open>
  The loop keeps the exact value while it fits; once it has overflowed it stays overflowed,
  and the exact value stays out of range because more digits only move it away from zero.
\<close>

definition signed_val :: "bool \<Rightarrow> nat \<Rightarrow> int" where
  "signed_val neg n = (if neg then - int n else int n)"

lemma strtoll_digits_take:
  "strtoll_digits neg v ov s = strtoll_digits neg v ov (takeWhile is_digit s)"
  by (induction neg v ov s rule: strtoll_digits.induct) (auto simp: Let_def split: option.splits)

lemma strtoll_digits_overflow:
  "\<forall>c \<in> set ds. is_digit c \<Longrightarrow> strtoll_digits neg v True ds = (v, True)"
  by (induction ds) auto

lemma foldl_digits_mono: "n \<le> foldl (\<lambda>v c. v * 10 + digit_val c) n ds"
proof (induction ds arbitrary: n)
  case (Cons c ds)
  have "n \<le> n * 10 + digit_val c" by simp
  also have "\<dots> \<le> foldl (\<lambda>v c. v * 10 + digit_val c) (n * 10 + digit_val c) ds"
    by (rule Cons.IH)
  finally show ?case by simp
qed simp

lemma signed_val_out_mono:
  "\<not> in_i64 (signed_val neg m) \<Longrightarrow> m \<le> n \<Longrightarrow> \<not> in_i64 (signed_val neg n)"
  by (auto simp: in_i64_def signed_val_def i64_min_def i64_max_def split: if_splits)

lemma strtoll_digits_spec:
  "\<forall>c \<in> set ds. is_digit c \<Longrightarrow> in_i64 (signed_val neg n) \<Longrightarrow>
   (if in_i64 (signed_val neg (foldl (\<lambda>v c. v * 10 + digit_val c) n ds))
    then strtoll_digits neg (signed_val neg n) False ds =
      (signed_val neg (foldl (\<lambda>v c. v * 10 + digit_val c) n ds), False)
    else snd (strtoll_digits neg (signed_val neg n) False ds))"
proof (induction ds arbitrary: n)
  case (Cons c ds)
  let ?n' = "n * 10 + digit_val c"
  have dig: "is_digit c" "\<forall>c \<in> set ds. is_digit c" using Cons.prems(1) by auto
  have val: "(if neg then signed_val neg n * 10 - int (byte c - 48)
              else signed_val neg n * 10 + int (byte c - 48)) = signed_val neg ?n'"
    by (simp add: signed_val_def digit_val_def)
  show ?case
  proof (cases "in_i64 (signed_val neg ?n')")
    case True
    then have "in_i64 (signed_val neg n * 10)"
      by (auto simp: in_i64_def signed_val_def i64_min_def i64_max_def split: if_splits)
    with True val dig have
      "strtoll_digits neg (signed_val neg n) False (c # ds) =
       strtoll_digits neg (signed_val neg ?n') False ds"
      by (auto simp: checked_def Let_def)
    then show ?thesis using Cons.IH [OF dig(2) True] by simp
  next
    case False
    then have "strtoll_digits neg (signed_val neg n) False (c # ds) =
       (signed_val neg n, True)"
      using val dig by (auto simp: checked_def Let_def strtoll_digits_overflow split: if_splits)
    moreover note signed_val_out_mono [OF False foldl_digits_mono [of ?n' ds]]
    ultimately show ?thesis by simp
  qed
qed simp

text \<open>The mathematical reading of a numeric prefix: white space, a sign, a digit run.\<close>

definition num_prefix :: "string \<Rightarrow> string \<Rightarrow> bool \<Rightarrow> string \<Rightarrow> string \<Rightarrow> bool" where
  "num_prefix sp sign neg ds rest \<longleftrightarrow>
     (\<forall>c \<in> set sp. is_c_space c) \<and>
     (sign = [] \<and> \<not> neg \<or> sign = ''+'' \<and> \<not> neg \<or> sign = ''-'' \<and> neg) \<and>
     ds \<noteq> [] \<and> (\<forall>c \<in> set ds. is_digit c) \<and>
     (rest = [] \<or> \<not> is_digit (hd rest))"

lemma takeWhile_run:
  "(\<forall>c \<in> set xs. P c) \<Longrightarrow> ys = [] \<or> \<not> P (hd ys) \<Longrightarrow> takeWhile P (xs @ ys) = xs"
  by (cases ys) (auto simp: takeWhile_append)

lemma digit_not_sign [simp]:
  "is_digit c \<Longrightarrow> c \<noteq> CHR ''+''" "is_digit c \<Longrightarrow> c \<noteq> CHR ''-''" "is_digit c \<Longrightarrow> \<not> is_c_space c"
  by (auto simp: is_digit_def is_c_space_def byte_def)

lemma sign_not_space [simp]: "\<not> is_c_space (CHR ''+'')" "\<not> is_c_space (CHR ''-'')"
  by (auto simp: is_c_space_def byte_def)

lemma strtoll_sign_prefix:
  assumes "num_prefix sp sign neg ds rest"
  shows "strtoll_sign (sign @ ds @ rest) = (neg, length sign)"
proof -
  from assms obtain d ds' where "ds = d # ds'" "is_digit d"
    by (cases ds) (auto simp: num_prefix_def)
  with assms show ?thesis
    by (auto simp: num_prefix_def strtoll_sign_def)
qed

lemma strtoll_loop_clamp:
  "\<forall>c \<in> set ds. is_digit c \<Longrightarrow>
   (let (v, ov) = strtoll_digits neg 0 False ds
    in if ov then if neg then i64_min else i64_max else v) =
   clamp_int i64_min i64_max (signed_val neg (digits_val ds))"
  using strtoll_digits_spec [of ds neg 0, folded digits_val_def]
  by (auto simp: signed_val_def clamp_int_def in_i64_def i64_min_def i64_max_def
      split: prod.splits if_splits)

lemma strtoll_saturates:
  assumes "num_prefix sp sign neg ds rest"
  shows "strtoll (sp @ sign @ ds @ rest) =
    (clamp_int i64_min i64_max (signed_val neg (digits_val ds)),
     length sp + length sign + length ds)"
proof -
  obtain d ds' where ds: "ds = d # ds'" and dd: "is_digit d"
    using assms by (cases ds) (auto simp: num_prefix_def)
  have sp: "takeWhile is_c_space (sp @ sign @ ds @ rest) = sp"
    using assms ds dd by (intro takeWhile_run) (auto simp: num_prefix_def)
  have run: "takeWhile is_digit (ds @ rest) = ds"
    using assms by (intro takeWhile_run) (auto simp: num_prefix_def)
  have loop: "strtoll_digits neg 0 False (ds @ rest) = strtoll_digits neg 0 False ds"
    using strtoll_digits_take [of neg 0 False "ds @ rest"] run by simp
  obtain v ov where vo: "strtoll_digits neg 0 False ds = (v, ov)" by fastforce
  have all: "\<forall>c \<in> set ds. is_digit c" and ne: "ds \<noteq> []" using assms by (auto simp: num_prefix_def)
  have "(if ov then if neg then i64_min else i64_max else v) =
      clamp_int i64_min i64_max (signed_val neg (digits_val ds))"
    using strtoll_loop_clamp [OF all, of neg] by (simp add: vo)
  then show ?thesis
    using ne by (simp add: strtoll_def sp strtoll_sign_prefix [OF assms] run loop vo Let_def)
qed

lemma strtoll_dec:
  "int n \<le> i64_max \<Longrightarrow> rest = [] \<or> \<not> is_digit (hd rest) \<Longrightarrow>
   strtoll (dec n @ rest) = (int n, length (dec n))"
  using strtoll_saturates [of "[]" "[]" False "dec n" rest] dec_digits [of n]
  by (auto simp: num_prefix_def clamp_int_def signed_val_def i64_min_def)

lemma strtoll_range: "in_i64 (fst (strtoll s))"
proof -
  have loop: "in_i64 (fst (strtoll_digits neg v ov t))" if "in_i64 v" for neg v ov t
    using that
    by (induction neg v ov t rule: strtoll_digits.induct)
      (auto simp: Let_def checked_def split: option.splits if_splits)
  have "in_i64 0" "in_i64 i64_min" "in_i64 i64_max"
    by (simp_all add: in_i64_def i64_min_def i64_max_def)
  then show ?thesis
    using loop by (auto simp: strtoll_def Let_def split: prod.splits list.splits)
      (metis fst_conv)+
qed


section \<open>The strtok walk\<close>

text \<open>\<open>Tok::next\<close> on the unconsumed rest: the token, and what is left after its delimiter.\<close>

definition tok_next :: "string \<Rightarrow> string \<Rightarrow> string option \<times> string" where
  "tok_next delims rest =
     (let s = dropWhile (\<lambda>c. c \<in> set delims) rest in
      if s = [] then (None, s)
      else (case position (\<lambda>c. c \<in> set delims) s of
              Some i \<Rightarrow> (Some (take i s), drop (Suc i) s)
            | None \<Rightarrow> (Some s, [])))"

definition tok_rest :: "string \<Rightarrow> string option \<times> string" where
  "tok_rest rest = tok_next [] rest"

lemma tok_next_shorter: "tok_next d s = (Some t, r) \<Longrightarrow> length r < length s"
proof -
  have "length (dropWhile (\<lambda>c. c \<in> set d) s) \<le> length s" by (rule length_dropWhile_le)
  then show "tok_next d s = (Some t, r) \<Longrightarrow> length r < length s"
    by (auto simp: tok_next_def Let_def dest!: position_SomeD split: if_splits option.splits)
qed

text \<open>The caller's loop \<open>while let Some(t) = tok.next(d)\<close>: every token of the string.\<close>

function tokens :: "string \<Rightarrow> string \<Rightarrow> string list" where
  "tokens d s = (case tok_next d s of (None, _) \<Rightarrow> [] | (Some t, r) \<Rightarrow> t # tokens d r)"
  by pat_completeness auto
termination
  by (relation "measure (\<lambda>(d, s). length s)") (auto dest: tok_next_shorter [OF sym])

declare tokens.simps [simp del]

lemma tokens_step: "tok_next d s = (Some t, r) \<Longrightarrow> tokens d s = t # tokens d r"
  by (simp add: tokens.simps [of d s])

lemma tokens_stop: "tok_next d s = (None, r) \<Longrightarrow> tokens d s = []"
  by (simp add: tokens.simps [of d s])

lemma tokens_Nil [simp]: "tokens d [] = []"
  by (rule tokens_stop [of _ _ "[]"]) (simp add: tok_next_def)

text \<open>The reference: split at every delimiter, drop the empty pieces.\<close>

fun split_set :: "string \<Rightarrow> string \<Rightarrow> string list" where
  "split_set d [] = [[]]"
| "split_set d (c # s) =
     (if c \<in> set d then [] # split_set d s
      else (case split_set d s of [] \<Rightarrow> [[c]] | t # ts \<Rightarrow> (c # t) # ts))"

lemma split_set_nonempty [simp]: "split_set d s \<noteq> []"
  by (induction s) (auto split: list.splits)

lemma split_set_dropWhile:
  "filter (\<lambda>t. t \<noteq> []) (split_set d (dropWhile (\<lambda>c. c \<in> set d) s)) =
   filter (\<lambda>t. t \<noteq> []) (split_set d s)"
  by (induction s) auto

lemma split_set_none: "\<forall>c \<in> set s. c \<notin> set d \<Longrightarrow> split_set d s = [s]"
  by (induction s) auto

lemma split_set_append:
  "\<forall>c \<in> set t. c \<notin> set d \<Longrightarrow> c \<in> set d \<Longrightarrow> split_set d (t @ c # s) = t # split_set d s"
  by (induction t) auto

lemma position_take: "position P s = Some i \<Longrightarrow> c \<in> set (take i s) \<Longrightarrow> \<not> P c"
  by (auto dest!: position_SomeD simp: in_set_conv_nth)

lemma tokens_split: "tokens d s = filter (\<lambda>t. t \<noteq> []) (split_set d s)"
proof (induction d s rule: tokens.induct)
  case (1 d s)
  let ?P = "\<lambda>c. c \<in> set d"
  define u where "u = dropWhile ?P s"
  have eq: "filter (\<lambda>t. t \<noteq> []) (split_set d s) = filter (\<lambda>t. t \<noteq> []) (split_set d u)"
    unfolding u_def by (rule split_set_dropWhile [symmetric])
  have tn: "tok_next d s = (if u = [] then (None, u) else case position ?P u of
      Some i \<Rightarrow> (Some (take i u), drop (Suc i) u) | None \<Rightarrow> (Some u, []))"
    unfolding tok_next_def Let_def u_def by (rule refl)
  have hd: "u \<noteq> [] \<Longrightarrow> \<not> ?P (hd u)" unfolding u_def by (rule hd_dropWhile)
  show ?case
  proof (cases "u = []")
    case True
    then show ?thesis using tn by (simp add: eq tokens_stop [of d s "[]"])
  next
    case False
    show ?thesis
    proof (cases "position ?P u")
      case None
      then have "split_set d u = [u]" by (intro split_set_none) (simp add: position_None_iff)
      with None False tn show ?thesis by (simp add: eq tokens_step [of d s u "[]"])
    next
      case (Some i)
      then have i: "i < length u" "?P (u ! i)" "\<forall>j<i. \<not> ?P (u ! j)"
        by (auto dest!: position_SomeD)
      then have "0 < i" using hd False by (cases i) (auto simp: hd_conv_nth)
      have pre: "\<forall>c \<in> set (take i u). \<not> ?P c" using position_take [OF Some] by auto
      have sp: "split_set d u = take i u # split_set d (drop (Suc i) u)"
        using split_set_append [OF pre i(2), of "drop (Suc i) u"] id_take_nth_drop [OF i(1)] by simp
      have tk: "tok_next d s = (Some (take i u), drop (Suc i) u)"
        using Some False tn by simp
      have "take i u \<noteq> []" using \<open>0 < i\<close> False by simp
      then show ?thesis
        using "1.IH" [OF tk [symmetric] refl] by (simp add: eq sp tokens_step [OF tk])
    qed
  qed
qed

section \<open>The sscanf cursor\<close>

definition scan_set_not :: "nat \<Rightarrow> string \<Rightarrow> string \<Rightarrow> string option \<times> string" where
  "scan_set_not mx excl r =
     (let n = back_to_boundary r (length (takeWhile (\<lambda>c. c \<notin> set excl) (take mx r))) in
      if n = 0 then (None, r) else (Some (take n r), drop n r))"

definition scan_lit :: "char \<Rightarrow> string \<Rightarrow> bool \<times> string" where
  "scan_lit c r = (case r of x # r' \<Rightarrow> if x = c then (True, r') else (False, r) | [] \<Rightarrow> (False, r))"

definition scan_int :: "string \<Rightarrow> int option \<times> string" where
  "scan_int r = (let (v, used) = strtoll r in
     if used = 0 then (None, r) else (Some v, drop used r))"

definition scan_word :: "nat \<Rightarrow> string \<Rightarrow> string option \<times> string" where
  "scan_word mx r0 =
     (let r = dropWhile is_c_space r0;
          n = back_to_boundary r (length (takeWhile (\<lambda>c. \<not> is_c_space c) (take mx r))) in
      if n = 0 then (None, r) else (Some (take n r), drop n r))"

datatype fmt = FSet nat string | FLit string | FInt | FWord nat

datatype conv = ConvS string | ConvI int

fun scan_lits :: "string \<Rightarrow> string \<Rightarrow> bool \<times> string" where
  "scan_lits [] r = (True, r)"
| "scan_lits (c # l) r = (case scan_lit c r of (True, r') \<Rightarrow> scan_lits l r' | (False, r') \<Rightarrow> (False, r'))"

fun sscanf :: "string \<Rightarrow> fmt list \<Rightarrow> conv list" where
  "sscanf r [] = []"
| "sscanf r (FSet mx excl # ds) =
     (case scan_set_not mx excl r of (Some s, r') \<Rightarrow> ConvS s # sscanf r' ds | (None, _) \<Rightarrow> [])"
| "sscanf r (FLit l # ds) =
     (case scan_lits l r of (True, r') \<Rightarrow> sscanf r' ds | (False, _) \<Rightarrow> [])"
| "sscanf r (FInt # ds) =
     (case scan_int r of (Some v, r') \<Rightarrow> ConvI v # sscanf r' ds | (None, _) \<Rightarrow> [])"
| "sscanf r (FWord mx # ds) =
     (case scan_word mx r of (Some s, r') \<Rightarrow> ConvS s # sscanf r' ds | (None, _) \<Rightarrow> [])"

text \<open>The number of conversions never exceeds the number of converting directives.\<close>

fun is_conv :: "fmt \<Rightarrow> bool" where
  "is_conv (FLit l) = False"
| "is_conv d = True"

lemma sscanf_count: "length (sscanf r ds) \<le> length (filter is_conv ds)"
  by (induction r ds rule: sscanf.induct) (auto split: prod.splits option.splits bool.splits)

text \<open>Every string conversion keeps within the field width of its directive.\<close>

lemma scan_set_not_width: "scan_set_not mx excl r = (Some s, r') \<Longrightarrow>
   length s \<le> mx \<and> s \<noteq> [] \<and> (\<forall>c \<in> set s. c \<notin> set excl) \<and> r = s @ r'"
proof -
  assume h: "scan_set_not mx excl r = (Some s, r')"
  let ?w = "takeWhile (\<lambda>c. c \<notin> set excl) (take mx r)"
  let ?n = "back_to_boundary r (length ?w)"
  have n: "?n \<noteq> 0" "s = take ?n r" "r' = drop ?n r"
    using h by (auto simp: scan_set_not_def Let_def split: if_splits)
  have le: "?n \<le> length ?w" by (rule back_to_boundary_le)
  have lw: "length ?w \<le> mx" "length ?w \<le> length r"
    using length_takeWhile_le [of "\<lambda>c. c \<notin> set excl" "take mx r"] by auto
  have w: "?w = take (length ?w) r"
    by (metis takeWhile_eq_take take_take min.absorb1 length_takeWhile_le length_take min.bounded_iff)
  have "set s \<subseteq> set ?w"
    using n(2) le w by (metis set_take_subset_set_take)
  then show ?thesis
    using n le lw by (auto dest: set_takeWhileD)
qed

lemma scan_set_not_field:
  assumes "f \<noteq> []" "length f \<le> mx" "\<forall>c \<in> set f. c \<notin> set excl" "ascii (f @ r)"
    and "r = [] \<or> hd r \<in> set excl"
  shows "scan_set_not mx excl (f @ r) = (Some f, r)"
proof -
  have "takeWhile (\<lambda>c. c \<notin> set excl) (take mx (f @ r)) = f"
    using assms(2,3,5) by (cases r; cases "mx - length f") (auto simp: takeWhile_append)
  then show ?thesis
    using assms(1,4) by (simp add: scan_set_not_def Let_def back_to_boundary_ascii)
qed

lemma scan_int_dec:
  "int n \<le> i64_max \<Longrightarrow> r = [] \<or> \<not> is_digit (hd r) \<Longrightarrow> scan_int (dec n @ r) = (Some (int n), r)"
  by (simp add: scan_int_def strtoll_dec)

section \<open>Fields and shapes\<close>

fun split_fields :: "string \<Rightarrow> nat \<Rightarrow> string list" where
  "split_fields s 0 = []"
| "split_fields s (Suc m) =
     (case position ((=) (CHR ''|'')) s of
        Some i \<Rightarrow> take i s # split_fields (drop (Suc i) s) m
      | None \<Rightarrow> [s])"

definition is_uuid :: "string \<Rightarrow> bool" where
  "is_uuid s \<longleftrightarrow> length s = 36 \<and>
     list_all (\<lambda>(i, c). if i \<in> {8, 13, 18, 23} then c = CHR ''-'' else is_hex c)
       (enumerate 0 s)"

definition has_uuid_dashes :: "string \<Rightarrow> bool" where
  "has_uuid_dashes s \<longleftrightarrow> length s = 36 \<and>
     s ! 8 = CHR ''-'' \<and> s ! 13 = CHR ''-'' \<and> s ! 18 = CHR ''-'' \<and> s ! 23 = CHR ''-''"

definition display_width :: "string \<Rightarrow> nat" where
  "display_width s = length (filter (\<lambda>c. \<not> is_cont c) s)"

definition mask_nick :: "string \<Rightarrow> nat \<Rightarrow> string" where
  "mask_nick msk cap =
     (let n = (case position ((=) (CHR ''!'')) msk of Some i \<Rightarrow> i | None \<Rightarrow> length msk)
      in trunc (take n msk) cap)"

fun pad_right_loop :: "nat \<Rightarrow> string \<Rightarrow> string" where
  "pad_right_loop 0 out = out"
| "pad_right_loop (Suc k) out = pad_right_loop k (out @ '' '')"

definition pad_right :: "string \<Rightarrow> nat \<Rightarrow> string" where
  "pad_right s w = pad_right_loop (w - length s) s"

lemma split_fields_le: "length (split_fields s m) \<le> m"
  by (induction s m rule: split_fields.induct) (auto split: option.splits)

lemma split_fields_append [simp]:
  "CHR ''|'' \<notin> set a \<Longrightarrow> split_fields (a @ CHR ''|'' # b) (Suc m) = a # split_fields b m"
  by simp

lemma split_fields_no_bar: "f \<in> set (split_fields s m) \<Longrightarrow> CHR ''|'' \<notin> set f"
proof (induction s m rule: split_fields.induct)
  case (2 s m)
  show ?case
  proof (cases "position ((=) (CHR ''|'')) s")
    case None
    with 2 show ?thesis by (auto simp: position_None_iff)
  next
    case (Some i)
    then show ?thesis using 2 position_take [OF Some] by auto
  qed
qed simp

lemma split_fields_join:
  "fs \<noteq> [] \<Longrightarrow> (\<And>f. f \<in> set fs \<Longrightarrow> CHR ''|'' \<notin> set f) \<Longrightarrow> length fs \<le> m \<Longrightarrow>
   split_fields (join_char (CHR ''|'') fs) m = fs"
proof (induction "CHR ''|''" fs arbitrary: m rule: join_char.induct)
  case (2 t)
  then obtain k where "m = Suc k" by (cases m) auto
  moreover have "position ((=) (CHR ''|'')) t = None"
    using 2 by (auto simp: position_None_iff)
  ultimately show ?case by simp
next
  case (3 t u ts)
  then obtain k where "m = Suc k" by (cases m) auto
  with 3 show ?case by simp
qed simp

lemma is_uuid_dashes: "is_uuid s \<Longrightarrow> has_uuid_dashes s"
proof -
  assume u: "is_uuid s"
  then have len: "length s = 36" by (simp add: is_uuid_def)
  have "s ! i = CHR ''-''" if "i \<in> {8, 13, 18, 23}" for i
  proof -
    have "(i, s ! i) \<in> set (enumerate 0 s)"
      using that len by (auto simp: enumerate_eq_zip in_set_zip intro!: exI [of _ i])
    with u that show ?thesis by (fastforce simp: is_uuid_def list_all_iff)
  qed
  with len show ?thesis by (simp add: has_uuid_dashes_def)
qed

lemma pad_right_loop_eq: "pad_right_loop k out = out @ replicate k (CHR '' '')"
  by (induction k arbitrary: out) (auto simp: replicate_append_same)

lemma pad_right_length: "length (pad_right s w) = max (length s) w"
  by (simp add: pad_right_def pad_right_loop_eq)

end
