(* ===== verification/Glob.thy ===== *)
theory Glob
  imports CStr
begin

text \<open>
  The two glob routines: \<open>auth::wildcard_match\<close>, a greedy matcher that backtracks to the last
  \<open>*\<close>, and \<open>glob_overlap::glob_overlap\<close>, the two-row dynamic program that decides whether some
  string is matched by both of two patterns.  Both are proved against one recursive meaning of
  patterns, \<open>glob\<close>: the matcher computes it, and two patterns overlap exactly when a common
  match exists.  Ban safety (theory Auth) rests on both.
\<close>

section \<open>The meaning of a pattern\<close>

abbreviation star :: char where "star \<equiv> CHR ''*''"
abbreviation quest :: char where "quest \<equiv> CHR ''?''"

definition sym_ok :: "char \<Rightarrow> char \<Rightarrow> bool" where
  "sym_ok c x \<longleftrightarrow> c = quest \<or> lower c = lower x"

fun glob :: "string \<Rightarrow> string \<Rightarrow> bool" where
  "glob [] t = (t = [])"
| "glob (c # p) [] = (c = star \<and> glob p [])"
| "glob (c # p) (x # t) =
     (if c = star then glob p (x # t) \<or> glob (c # p) t else sym_ok c x \<and> glob p t)"

lemma ex_le_Suc: "(\<exists>k \<le> Suc n. P k) \<longleftrightarrow> P 0 \<or> (\<exists>k \<le> n. P (Suc k))"
  by (metis Suc_le_mono le0 not0_implies_Suc)

lemma glob_star: "glob (star # p) t \<longleftrightarrow> (\<exists>k \<le> length t. glob p (drop k t))"
proof (induction t)
  case (Cons x t)
  then show ?case by (simp add: ex_le_Suc)
qed simp

lemma glob_star_append: "glob (star # p) t \<Longrightarrow> glob (star # p) (s @ t)"
  by (induction s) auto

lemma glob_Nil: "glob p [] \<longleftrightarrow> (\<forall>c \<in> set p. c = star)"
  by (induction p) auto

text \<open>A segment with no star matches symbol by symbol.\<close>

definition seg_ok :: "string \<Rightarrow> string \<Rightarrow> bool" where
  "seg_ok seg t \<longleftrightarrow> star \<notin> set seg \<and> list_all2 sym_ok seg t"

lemma glob_seg:
  "star \<notin> set seg \<Longrightarrow> glob (seg @ q) t \<longleftrightarrow>
     length seg \<le> length t \<and> seg_ok seg (take (length seg) t) \<and> glob q (drop (length seg) t)"
proof (induction seg arbitrary: t)
  case (Cons c seg)
  then show ?case by (cases t) (auto simp: seg_ok_def)
qed (simp add: seg_ok_def)

text \<open>
  Greedy is enough: once a segment between two stars has matched at the earliest place, a
  later place cannot succeed where the earliest one fails.
\<close>

lemma glob_greedy:
  assumes "seg_ok seg u"
  shows "glob (star # seg @ star # q) (u @ t) \<longleftrightarrow> glob (star # q) t"
proof
  have len: "length seg = length u" and ns: "star \<notin> set seg"
    using assms by (auto simp: seg_ok_def list_all2_lengthD)
  show "glob (star # q) t \<Longrightarrow> glob (star # seg @ star # q) (u @ t)"
    using assms len ns by (auto simp: glob_star [of "seg @ star # q"] glob_seg simp del: glob.simps intro!: exI [of _ 0])
  assume "glob (star # seg @ star # q) (u @ t)"
  then obtain k where "k \<le> length (u @ t)" "glob (seg @ star # q) (drop k (u @ t))"
    unfolding glob_star by blast
  then have g: "glob (star # q) (drop (length seg + k) (u @ t))"
    using ns by (simp add: glob_seg add.commute del: glob.simps drop_append)
  have "drop (length seg + k) (u @ t) = drop k t" using len by simp
  then show "glob (star # q) t"
    using g glob_star_append [of q "drop k t" "take k t"] by simp
qed

section \<open>wildcard_match\<close>

text \<open>
  The main loop over the indices of the code: position in the pattern and in the text, the
  last star and where its text run began.  \<open>None\<close> is \<open>return false\<close>, \<open>Some i\<close> is leaving the
  loop with the pattern at \<open>i\<close>.
\<close>

function wm_loop :: "string \<Rightarrow> string \<Rightarrow> nat \<Rightarrow> nat \<Rightarrow> nat option \<Rightarrow> nat \<Rightarrow> nat option" where
  "wm_loop p t i j st st_t =
     (if j < length t then
        (if i < length p \<and> p ! i = star then wm_loop p t (i + 1) j (Some i) j
         else if i < length p \<and> (p ! i = quest \<or> lower (p ! i) = lower (t ! j))
         then wm_loop p t (i + 1) (j + 1) st st_t
         else (case st of
             Some s \<Rightarrow> wm_loop p t (s + 1) (st_t + 1) (Some s) (st_t + 1)
           | None \<Rightarrow> None))
      else Some i)"
  by pat_completeness auto
termination
proof (relation "measures [
    \<lambda>(p, t, i, j, st, st_t). case st of None \<Rightarrow> 0 | Some s \<Rightarrow> if s < i \<and> st_t \<le> j then 0 else 1,
    \<lambda>(p, t, i, j, st, st_t). case st of None \<Rightarrow> Suc (length p) | Some s \<Rightarrow> length p - s,
    \<lambda>(p, t, i, j, st, st_t). length t - st_t,
    \<lambda>(p, t, i, j, st, st_t). length t - j]", goal_cases)
qed (auto split: option.splits)

declare wm_loop.simps [simp del]

definition wildcard_match :: "string \<Rightarrow> string \<Rightarrow> bool" where
  "wildcard_match p t = (case wm_loop p t 0 0 None 0 of
      None \<Rightarrow> False
    | Some i \<Rightarrow> i + length (takeWhile (\<lambda>c. c = star) (drop i p)) = length p)"

definition wm_result :: "string \<Rightarrow> nat option \<Rightarrow> bool" where
  "wm_result p r = (case r of None \<Rightarrow> False | Some i \<Rightarrow> i \<le> length p \<and> glob (drop i p) [])"

text \<open>What the loop keeps: the segment after the last star matches the text since its run.\<close>

definition wm_inv :: "string \<Rightarrow> string \<Rightarrow> nat \<Rightarrow> nat \<Rightarrow> nat option \<Rightarrow> nat \<Rightarrow> bool" where
  "wm_inv p t i j st st_t \<longleftrightarrow> i \<le> length p \<and> j \<le> length t \<and>
     (case st of None \<Rightarrow> True | Some s \<Rightarrow>
        (\<exists>a seg. p = a @ star # seg @ drop i p \<and> s = length a \<and> i = s + 1 + length seg \<and>
           st_t \<le> j \<and> seg_ok seg (take (j - st_t) (drop st_t t))))"

definition wm_goal :: "string \<Rightarrow> string \<Rightarrow> nat \<Rightarrow> nat \<Rightarrow> nat option \<Rightarrow> nat \<Rightarrow> bool" where
  "wm_goal p t i j st st_t = (case st of
      None \<Rightarrow> glob (drop i p) (drop j t)
    | Some s \<Rightarrow> glob (drop s p) (drop st_t t))"

lemma wm_inv_Some:
  assumes "wm_inv p t i j (Some s) st_t"
  obtains seg u where "drop s p = star # seg @ drop i p" "drop (s + 1) p = seg @ drop i p"
    "drop st_t t = u @ drop j t"
    "seg_ok seg u" "i = s + 1 + length seg" "j = st_t + length u" "length seg = length u" "i \<le> length p" "j \<le> length t"
proof -
  from assms obtain a seg where p: "p = a @ star # seg @ drop i p" "s = length a"
    "i = s + 1 + length seg" and ok: "st_t \<le> j" "seg_ok seg (take (j - st_t) (drop st_t t))"
    and le: "i \<le> length p" "j \<le> length t"
    by (auto simp: wm_inv_def)
  let ?u = "take (j - st_t) (drop st_t t)"
  have "drop s p = star # seg @ drop i p"
    by (subst p(1), subst p(2)) simp
  moreover from this have "drop (s + 1) p = seg @ drop i p"
    by (metis drop_drop add.commute drop0 drop_Suc_Cons One_nat_def plus_1_eq_Suc)
  moreover have "drop st_t t = ?u @ drop j t"
    using ok(1) by (metis append_take_drop_id drop_drop le_add_diff_inverse2)
  moreover have "length seg = length ?u" using ok(2) by (auto simp: seg_ok_def list_all2_lengthD)
  moreover have "j = st_t + length ?u" using ok(1) le(2) by simp
  ultimately show thesis using ok(2) p(3) le by (intro that)
qed

lemma wm_inv_fresh:
  assumes "s < length p" and "p ! s = star" and "j \<le> length t"
  shows "wm_inv p t (s + 1) j (Some s) j"
proof -
  have "p = take s p @ star # [] @ drop (s + 1) p"
    using id_take_nth_drop [OF assms(1)] assms(2) by simp
  moreover have "s = length (take s p)" "s + 1 = s + 1 + length []" using assms(1) by auto
  moreover have "seg_ok [] (take (j - j) (drop j t))" by (simp add: seg_ok_def)
  ultimately show ?thesis
    unfolding wm_inv_def option.case using assms(1,3) by (intro conjI exI) auto
qed

lemma wm_loop_correct:
  "wm_inv p t i j st st_t \<Longrightarrow> wm_result p (wm_loop p t i j st st_t) = wm_goal p t i j st st_t"
proof (induction p t i j st st_t rule: wm_loop.induct)
  case (1 p t i j st st_t)
  note step = wm_loop.simps [of p t i j st st_t]
  have le: "i \<le> length p" "j \<le> length t" using "1.prems" by (auto simp: wm_inv_def)
  show ?case
  proof (cases "j < length t")
    case False
    with le have jend: "drop j t = []" by simp
    have "wm_result p (wm_loop p t i j st st_t) = glob (drop i p) []"
    proof -
      have "wm_loop p t i j st st_t = Some i" using False by (simp add: step)
      then show ?thesis using le by (simp add: wm_result_def)
    qed
    also have "\<dots> = wm_goal p t i j st st_t"
    proof (cases st)
      case None
      then show ?thesis using jend by (simp add: wm_goal_def)
    next
      case (Some s)
      with "1.prems" obtain seg u where u: "drop s p = star # seg @ drop i p" "drop st_t t = u @ drop j t"
        "seg_ok seg u" "length seg = length u" by (auto elim: wm_inv_Some)
      have "glob (star # seg @ drop i p) u = glob (drop i p) []"
      proof -
        have ns: "star \<notin> set seg" using u(3) by (simp add: seg_ok_def)
        have "glob (seg @ drop i p) (drop k u) \<longleftrightarrow> k = 0 \<and> glob (drop i p) []" if "k \<le> length u" for k
          using that u(3,4) ns by (auto simp: glob_seg)
        then show ?thesis unfolding glob_star by auto
      qed
      then show ?thesis using Some u jend by (simp add: wm_goal_def del: glob.simps)
    qed
    finally show ?thesis .
  next
    case True
    obtain x where x: "drop j t = x # drop (j + 1) t"
      using True by (metis Cons_nth_drop_Suc Suc_eq_plus1)
    show ?thesis
    proof (cases "i < length p \<and> p ! i = star")
      case True
      then have di: "drop i p = star # drop (i + 1) p"
        by (metis Cons_nth_drop_Suc Suc_eq_plus1)
      have inv: "wm_inv p t (i + 1) j (Some i) j"
        using True le by (intro wm_inv_fresh) auto
      have "wm_result p (wm_loop p t i j st st_t) = wm_goal p t (i + 1) j (Some i) j"
        using "1.IH"(1) [OF \<open>j < length t\<close> True inv] True \<open>j < length t\<close> by (simp add: step)
      also have "\<dots> = wm_goal p t i j st st_t"
      proof (cases st)
        case None
        then show ?thesis by (simp add: wm_goal_def)
      next
        case (Some s)
        with "1.prems" obtain seg u where u: "drop s p = star # seg @ drop i p"
          "drop st_t t = u @ drop j t" "seg_ok seg u" by (auto elim: wm_inv_Some)
        show ?thesis using glob_greedy [OF u(3), of "drop (i + 1) p" "drop j t"]
          by (simp add: wm_goal_def Some u di del: glob.simps)
      qed
      finally show ?thesis .
    next
      case nostar: False
      show ?thesis
      proof (cases "i < length p \<and> (p ! i = quest \<or> lower (p ! i) = lower (t ! j))")
        case True
        then have di: "drop i p = p ! i # drop (i + 1) p"
          by (metis Cons_nth_drop_Suc Suc_eq_plus1)
        have x': "drop j t = t ! j # drop (j + 1) t"
          using \<open>j < length t\<close> by (metis Cons_nth_drop_Suc Suc_eq_plus1)
        have ok: "sym_ok (p ! i) (t ! j)" "p ! i \<noteq> star" using True nostar by (auto simp: sym_ok_def)
        have inv: "wm_inv p t (i + 1) (j + 1) st st_t"
        proof (cases st)
          case None
          then show ?thesis using True \<open>j < length t\<close> by (simp add: wm_inv_def)
        next
          case (Some s)
          with "1.prems" obtain a seg where a: "p = a @ star # seg @ drop i p" "s = length a"
            "i = s + 1 + length seg" "st_t \<le> j" "seg_ok seg (take (j - st_t) (drop st_t t))"
            by (auto simp: wm_inv_def)
          have "take (j + 1 - st_t) (drop st_t t) = take (j - st_t) (drop st_t t) @ [t ! j]"
            using a(4) \<open>j < length t\<close> by (simp add: Suc_diff_le take_Suc_conv_app_nth)
          then have "seg_ok (seg @ [p ! i]) (take (j + 1 - st_t) (drop st_t t))"
            using a(5) ok by (auto simp: seg_ok_def list_all2_appendI)
          moreover have "p = a @ star # (seg @ [p ! i]) @ drop (i + 1) p"
            using a(1) di by simp
          moreover have "i + 1 = s + 1 + length (seg @ [p ! i])" "st_t \<le> j + 1" using a(3,4) by auto
          ultimately show ?thesis
            using a(2) Some True \<open>j < length t\<close> unfolding wm_inv_def Some option.case
            by (intro conjI exI [of _ a] exI [of _ "seg @ [p ! i]"]) auto
        qed
        have "wm_result p (wm_loop p t i j st st_t) = wm_goal p t (i + 1) (j + 1) st st_t"
          using "1.IH"(2) [OF \<open>j < length t\<close> nostar True inv] True nostar \<open>j < length t\<close>
          by (simp add: step)
        also have "\<dots> = wm_goal p t i j st st_t"
          using ok x' di by (simp add: wm_goal_def split: option.splits)
        finally show ?thesis .
      next
        case nomatch: False
        have fail: "\<not> glob (drop i p) (drop j t)"
        proof (cases "i < length p")
          case True
          then have "drop i p = p ! i # drop (i + 1) p" "drop j t = t ! j # drop (j + 1) t"
            using \<open>j < length t\<close> by (metis Cons_nth_drop_Suc Suc_eq_plus1)+
          then show ?thesis using nostar nomatch True by (simp add: sym_ok_def)
        next
          case False
          then show ?thesis using le x by simp
        qed
        show ?thesis
        proof (cases st)
          case None
          have "wm_loop p t i j st st_t = None"
            unfolding step using nostar nomatch None \<open>j < length t\<close> by auto
          then show ?thesis using fail None by (simp add: wm_result_def wm_goal_def)
        next
          case (Some s)
          with "1.prems" obtain seg u where u: "drop s p = star # seg @ drop i p"
            "drop (s + 1) p = seg @ drop i p"
            "drop st_t t = u @ drop j t" "seg_ok seg u" "length seg = length u"
            "i = s + 1 + length seg" "j = st_t + length u" by (auto elim: wm_inv_Some)
          have "st_t < length t" using u(7) \<open>j < length t\<close> by simp
          then have dt: "drop st_t t = t ! st_t # drop (st_t + 1) t"
            by (metis Cons_nth_drop_Suc Suc_eq_plus1)
          have sp: "star # drop (s + 1) p = drop s p" using u by simp
          have "s < length p" using u(1) by (metis drop_all leI list.distinct(1))
          then have inv: "wm_inv p t (s + 1) (st_t + 1) (Some s) (st_t + 1)"
            using sp u(1) \<open>st_t < length t\<close>
            by (intro wm_inv_fresh) (auto simp: hd_drop_conv_nth [symmetric])
          have "star \<notin> set seg" using u(4) by (simp add: seg_ok_def)
          then have "\<not> glob (drop (s + 1) p) (drop st_t t)"
            using fail u by (simp add: glob_seg)
          then have "glob (drop s p) (drop st_t t) = glob (drop s p) (drop (st_t + 1) t)"
            using dt sp by (metis glob.simps(3))
          moreover have "wm_loop p t i j st st_t =
              wm_loop p t (s + 1) (st_t + 1) (Some s) (st_t + 1)"
            unfolding step using nostar nomatch Some \<open>j < length t\<close> by auto
          moreover note "1.IH"(3) [OF \<open>j < length t\<close> nostar nomatch Some inv]
          ultimately show ?thesis by (simp only: wm_goal_def Some option.case)
        qed
      qed
    qed
  qed
qed

lemma wm_loop_range:
  "wm_loop p t i j st st_t = Some k \<Longrightarrow> i \<le> length p \<Longrightarrow>
   (case st of None \<Rightarrow> True | Some s \<Rightarrow> s < length p) \<Longrightarrow> k \<le> length p"
proof (induction p t i j st st_t rule: wm_loop.induct)
  case (1 p t i j st st_t)
  show ?case
    using "1.prems" "1.IH" unfolding wm_loop.simps [of p t i j st st_t]
    by (auto split: if_splits option.splits)
qed

lemma takeWhile_length_all: "length (takeWhile P xs) = length xs \<longleftrightarrow> (\<forall>x \<in> set xs. P x)"
  by (induction xs) auto

lemma wildcard_match_glob: "wildcard_match p t = glob p t"
proof -
  have tw: "(i + length (takeWhile (\<lambda>c. c = star) (drop i p)) = length p) =
      glob (drop i p) []" if "i \<le> length p" for i
  proof -
    have "(i + n = length p) = (n = length (drop i p))" for n using that by auto
    then show ?thesis by (simp only: takeWhile_length_all glob_Nil)
  qed
  have out: "i \<le> length p" if "wm_loop p t 0 0 None 0 = Some i" for i
    using that wm_loop_range [of p t 0 0 None 0 i] by simp
  have "wm_inv p t 0 0 None 0" by (simp add: wm_inv_def)
  from wm_loop_correct [OF this] show ?thesis
    using tw out by (auto simp: wildcard_match_def wm_result_def wm_goal_def split: option.splits)
qed

section \<open>glob_overlap\<close>

definition GLOB_OVERLAP_MAX :: nat where [limits]: "GLOB_OVERLAP_MAX = 256"

text \<open>
  The two rolling rows are arrays of \<open>GLOB_OVERLAP_MAX + 2\<close> cells (a \<open>u8\<close> that only ever
  holds 0 or 1, here a \<open>bool\<close>).  Each loop runs its index down to 0.
\<close>

fun ov_last_row :: "string \<Rightarrow> nat \<Rightarrow> bool list \<Rightarrow> bool list" where
  "ov_last_row b 0 row = row"
| "ov_last_row b (Suc j) row =
     ov_last_row b j (row[j := (if b ! j = star then row ! (j + 1) else False)])"

definition ov_cell :: "char \<Rightarrow> char \<Rightarrow> bool list \<Rightarrow> bool list \<Rightarrow> nat \<Rightarrow> bool" where
  "ov_cell x y next cur j =
     (if x = star \<or> y = star then next ! j \<or> cur ! (j + 1)
      else if x = quest \<or> y = quest \<or> lower x = lower y then next ! (j + 1)
      else False)"

fun ov_row :: "char \<Rightarrow> string \<Rightarrow> bool list \<Rightarrow> nat \<Rightarrow> bool list \<Rightarrow> bool list" where
  "ov_row x b next 0 cur = cur"
| "ov_row x b next (Suc j) cur =
     ov_row x b next j (cur[j := ov_cell x (b ! j) next cur j])"

fun ov_rows :: "string \<Rightarrow> string \<Rightarrow> nat \<Rightarrow> bool list \<Rightarrow> bool list \<Rightarrow> bool list" where
  "ov_rows a b 0 next cur = next"
| "ov_rows a b (Suc i) next cur =
     (let lb = length b;
          cur1 = cur[lb := (if a ! i = star then next ! lb else False)];
          cur2 = ov_row (a ! i) b next lb cur1
      in ov_rows a b i cur2 next)"

definition glob_overlap :: "string \<Rightarrow> string \<Rightarrow> bool" where
  "glob_overlap a b =
     (let la = length a; lb = length b in
      if GLOB_OVERLAP_MAX < la \<or> GLOB_OVERLAP_MAX < lb then True
      else (let zero = replicate (GLOB_OVERLAP_MAX + 2) False;
                next = ov_last_row b lb (zero[lb := True])
            in ov_rows a b la next zero ! 0))"

text \<open>The recursion the source comment states, which the rows tabulate.\<close>

fun ov :: "string \<Rightarrow> string \<Rightarrow> bool" where
  "ov [] [] = True"
| "ov [] (y # b) = (y = star \<and> ov [] b)"
| "ov (x # a) [] = (x = star \<and> ov a [])"
| "ov (x # a) (y # b) =
     (if x = star \<or> y = star then ov a (y # b) \<or> ov (x # a) b
      else (x = quest \<or> y = quest \<or> lower x = lower y) \<and> ov a b)"

definition row_ok :: "string \<Rightarrow> string \<Rightarrow> nat \<Rightarrow> bool list \<Rightarrow> bool" where
  "row_ok a b j row \<longleftrightarrow> (\<forall>k. j \<le> k \<longrightarrow> k \<le> length b \<longrightarrow> row ! k = ov a (drop k b))"

lemma row_ok_step:
  "row_ok a b (Suc j) row \<Longrightarrow> j < length row \<Longrightarrow> v = ov a (drop j b) \<Longrightarrow> row_ok a b j (row[j := v])"
  by (auto simp: row_ok_def nth_list_update)

lemma ov_last_row_ok:
  "j \<le> length b \<Longrightarrow> length b < length row \<Longrightarrow> row_ok [] b j row \<Longrightarrow>
   row_ok [] b 0 (ov_last_row b j row) \<and> length (ov_last_row b j row) = length row"
proof (induction b j row rule: ov_last_row.induct)
  case (2 b j row)
  have "drop j b = b ! j # drop (Suc j) b" using "2.prems"(1) by (simp add: Cons_nth_drop_Suc)
  moreover have "row ! (j + 1) = ov [] (drop (Suc j) b)" using "2.prems" by (simp add: row_ok_def)
  ultimately have "row_ok [] b j (row[j := (if b ! j = star then row ! (j + 1) else False)])"
    using "2.prems" by (intro row_ok_step) auto
  then show ?case using "2.prems" "2.IH" by simp
qed simp

lemma ov_row_ok:
  assumes "row_ok a b 0 next"
  shows "j \<le> length b \<Longrightarrow> length b < length cur \<Longrightarrow> row_ok (x # a) b j cur \<Longrightarrow>
    row_ok (x # a) b 0 (ov_row x b next j cur) \<and> length (ov_row x b next j cur) = length cur"
proof (induction j arbitrary: cur)
  case (Suc j)
  have b: "drop j b = b ! j # drop (Suc j) b" using Suc.prems(1) by (simp add: Cons_nth_drop_Suc)
  have "next ! j = ov a (drop j b)" "next ! (j + 1) = ov a (drop (Suc j) b)"
    "cur ! (j + 1) = ov (x # a) (drop (Suc j) b)"
    using assms Suc.prems by (auto simp: row_ok_def)
  then have "row_ok (x # a) b j (cur[j := ov_cell x (b ! j) next cur j])"
    using Suc.prems by (intro row_ok_step) (auto simp: ov_cell_def b)
  then show ?case using Suc.prems Suc.IH by simp
qed simp

lemma ov_rows_ok:
  "i \<le> length a \<Longrightarrow> length b < length next \<Longrightarrow> length cur = length next \<Longrightarrow>
   row_ok (drop i a) b 0 next \<Longrightarrow> ov_rows a b i next cur ! 0 = ov a b"
proof (induction a b i "next" cur rule: ov_rows.induct)
  case (1 a b "next" cur)
  then show ?case by (simp add: row_ok_def)
next
  case (2 a b i "next" cur)
  let ?c1 = "cur[length b := (if a ! i = star then next ! length b else False)]"
  have a: "drop i a = a ! i # drop (Suc i) a" using "2.prems"(1) by (simp add: Cons_nth_drop_Suc)
  have "next ! length b = ov (drop (Suc i) a) []" using "2.prems" by (simp add: row_ok_def)
  then have "row_ok (drop i a) b (length b) ?c1"
    using "2.prems" by (auto simp: row_ok_def a)
  then have c1: "row_ok (a ! i # drop (Suc i) a) b (length b) ?c1" unfolding a .
  have row: "row_ok (drop i a) b 0 (ov_row (a ! i) b next (length b) ?c1)"
    "length (ov_row (a ! i) b next (length b) ?c1) = length ?c1"
    using ov_row_ok [OF "2.prems"(4) order.refl _ c1] "2.prems"(2,3) unfolding a by auto
  have len: "length ?c1 = length next" using "2.prems"(3) by simp
  have "ov_rows a b i (ov_row (a ! i) b next (length b) ?c1) next ! 0 = ov a b"
  proof (rule "2.IH" [OF refl refl refl])
    show "i \<le> length a" using "2.prems"(1) by simp
    show "length b < length (ov_row (a ! i) b next (length b) ?c1)"
      unfolding row(2) len by (rule "2.prems"(2))
    show "length next = length (ov_row (a ! i) b next (length b) ?c1)"
      unfolding row(2) len by (rule refl)
  qed (rule row(1))
  then show ?case by (simp only: ov_rows.simps Let_def)
qed

lemma glob_overlap_ov:
  assumes "length a \<le> GLOB_OVERLAP_MAX" and "length b \<le> GLOB_OVERLAP_MAX"
  shows "glob_overlap a b = ov a b"
proof -
  define z where "z = replicate (GLOB_OVERLAP_MAX + 2) False"
  have z: "length z = GLOB_OVERLAP_MAX + 2" by (simp add: z_def)
  have lb: "length b < length (z[length b := True])" using assms(2) z by simp
  have "row_ok [] b (length b) (z[length b := True])"
    using lb by (simp add: row_ok_def)
  from ov_last_row_ok [OF _ lb this] have
    "row_ok [] b 0 (ov_last_row b (length b) (z[length b := True]))"
    "length (ov_last_row b (length b) (z[length b := True])) = GLOB_OVERLAP_MAX + 2"
    using z by auto
  then have "ov_rows a b (length a) (ov_last_row b (length b) (z[length b := True])) z ! 0 = ov a b"
    using assms z by (intro ov_rows_ok) auto
  then show ?thesis
    unfolding glob_overlap_def Let_def z_def [symmetric] using assms by simp
qed

text \<open>Overlap is exactly a common match.\<close>

lemma ov_common: "ov a b \<Longrightarrow> \<exists>s. glob a s \<and> glob b s"
proof (induction a b rule: ov.induct)
  case 1
  then show ?case by (auto intro: exI [of _ "[]"])
next
  case (2 y b)
  then show ?case by (auto simp: glob_Nil intro: exI [of _ "[]"])
next
  case (3 x a)
  then show ?case by (auto simp: glob_Nil intro: exI [of _ "[]"])
next
  case (4 x a y b)
  have absorb: "\<exists>s. glob (star # p) s \<and> glob (c # q) s"
    if "glob (star # p) s" "glob q s" for p q c s
  proof (cases "c = star")
    case True
    with that show ?thesis by (cases s) (auto intro!: exI [of _ s])
  next
    case False
    with that show ?thesis by (intro exI [of _ "c # s"]) (simp add: sym_ok_def)
  qed
  have skip: "glob (star # p) s" if "glob p s" for p s
    using that by (cases s) auto
  show ?case
  proof (cases "x = star \<or> y = star")
    case False
    with "4.prems" obtain s where s: "glob a s" "glob b s"
      and c: "x = quest \<or> y = quest \<or> lower x = lower y" using "4.IH"(3) by auto
    have "\<exists>z. sym_ok x z \<and> sym_ok y z" using c by (auto simp: sym_ok_def)
    then obtain z where "sym_ok x z" "sym_ok y z" by blast
    with s False show ?thesis by (intro exI [of _ "z # s"]) auto
  next
    case True
    with "4.prems" consider s where "glob a s" "glob (y # b) s"
      | s where "glob (x # a) s" "glob b s" using "4.IH"(1,2) by auto
    then show ?thesis
    proof cases
      case 1
      show ?thesis
      proof (cases "x = star")
        case True
        with 1 skip show ?thesis by blast
      next
        case False
        with \<open>x = star \<or> y = star\<close> have "y = star" by simp
        with 1 absorb [of b s a x] show ?thesis by blast
      qed
    next
      case 2
      show ?thesis
      proof (cases "y = star")
        case True
        with 2 skip show ?thesis by blast
      next
        case False
        with \<open>x = star \<or> y = star\<close> have "x = star" by simp
        with 2 absorb [of a s b y] show ?thesis by blast
      qed
    qed
  qed
qed

lemma common_ov: "glob a s \<Longrightarrow> glob b s \<Longrightarrow> ov a b"
proof (induction a b arbitrary: s rule: ov.induct)
  case (4 x a y b)
  note IH = "4.IH"
  show ?case
  proof (cases "x = star \<or> y = star")
    case False
    with "4.prems" obtain z t where s: "s = z # t" by (cases s) auto
    with "4.prems" False have "glob a t" "glob b t" "sym_ok x z" "sym_ok y z" by auto
    with False IH(3) show ?thesis by (auto simp: sym_ok_def)
  next
    case True
    from "4.prems" have "ov a (y # b) \<or> ov (x # a) b"
    proof (induction s)
      case Nil
      with True IH(1) [OF True, of "[]"] show ?case by auto
    next
      case (Cons z t)
      show ?case
      proof (cases "x = star")
        case xs: True
        with Cons.prems have "glob a (z # t) \<or> glob (x # a) t" by simp
        then show ?thesis
        proof
          assume "glob a (z # t)"
          with IH(1) [OF True] Cons.prems show ?thesis by blast
        next
          assume xa: "glob (x # a) t"
          show ?thesis
          proof (cases "y = star")
            case True
            with Cons.prems have "glob b (z # t) \<or> glob (y # b) t" by simp
            then show ?thesis using Cons.IH xa Cons.prems IH(2) [OF \<open>x = star \<or> y = star\<close>] by blast
          next
            case False
            with Cons.prems have "glob b t" by simp
            then show ?thesis using xa IH(2) [OF True] by blast
          qed
        qed
      next
        case False
        with True have ys: "y = star" by simp
        with Cons.prems have "glob b (z # t) \<or> glob (y # b) t" by simp
        moreover have "glob a t" using False Cons.prems by simp
        ultimately show ?thesis using IH(1,2) [OF True] Cons.prems by blast
      qed
    qed
    with True show ?thesis by simp
  qed
qed (auto simp: glob_Nil)

lemma ov_iff: "ov a b \<longleftrightarrow> (\<exists>s. glob a s \<and> glob b s)"
  using ov_common common_ov by blast

lemma glob_overlap_complete: "glob a s \<Longrightarrow> glob b s \<Longrightarrow> glob_overlap a b"
proof (cases "length a \<le> GLOB_OVERLAP_MAX \<and> length b \<le> GLOB_OVERLAP_MAX")
  case True
  then show "glob a s \<Longrightarrow> glob b s \<Longrightarrow> glob_overlap a b"
    by (auto simp: glob_overlap_ov intro: common_ov)
qed (auto simp: glob_overlap_def Let_def)

section \<open>The two matchers against their meaning\<close>

text \<open>What a mask means, as rules: the language a pattern stands for.\<close>

inductive matches :: "string \<Rightarrow> string \<Rightarrow> bool" where
  matches_Nil: "matches [] []"
| matches_sym: "matches p t \<Longrightarrow> c \<noteq> star \<Longrightarrow> sym_ok c d \<Longrightarrow> matches (c # p) (d # t)"
| matches_star: "matches p t \<Longrightarrow> matches (star # p) (s @ t)"

inductive_cases matches_NilE: "matches [] t"
inductive_cases matches_ConsE: "matches (c # p) t"

lemma matches_star_iff: "matches (star # p) t \<longleftrightarrow> (\<exists>k \<le> length t. matches p (drop k t))"
proof
  assume "matches (star # p) t"
  then obtain s u where "t = s @ u" "matches p u" by (auto elim: matches_ConsE)
  then show "\<exists>k \<le> length t. matches p (drop k t)" by (intro exI [of _ "length s"]) simp
next
  assume "\<exists>k \<le> length t. matches p (drop k t)"
  then show "matches (star # p) t" using matches_star [of p _ "take _ t"] by (metis append_take_drop_id)
qed

lemma matches_sym_iff: "c \<noteq> star \<Longrightarrow> matches (c # p) t \<longleftrightarrow> (\<exists>d u. t = d # u \<and> sym_ok c d \<and> matches p u)"
  by (auto elim: matches_ConsE intro: matches_sym)

lemma matches_Nil_iff: "matches [] t \<longleftrightarrow> t = []"
  by (auto elim: matches_NilE intro: matches_Nil)

lemma glob_matches: "glob p t \<longleftrightarrow> matches p t"
proof (induction p arbitrary: t)
  case Nil
  then show ?case by (cases t) (simp_all add: matches_Nil_iff)
next
  case (Cons c p)
  show ?case
  proof (cases "c = star")
    case True
    then show ?thesis using Cons by (simp add: glob_star matches_star_iff)
  next
    case False
    then show ?thesis using Cons by (cases t) (auto simp: matches_sym_iff)
  qed
qed

text \<open>C32: the greedy matcher of masks, with its one backtracking point, accepts exactly the texts
  the mask means, on every pattern and text.\<close>

theorem wildcard_match_correct: "wildcard_match p t \<longleftrightarrow> matches p t"
  by (simp add: wildcard_match_glob glob_matches)

text \<open>C31: up to 256 bytes each, the overlap table says exactly whether some text is matched by
  both masks; a longer mask counts as overlapping.\<close>

theorem glob_overlap_exact:
  "glob_overlap a b \<longleftrightarrow>
     length a > GLOB_OVERLAP_MAX \<or> length b > GLOB_OVERLAP_MAX \<or>
     (\<exists>s. wildcard_match a s \<and> wildcard_match b s)"
proof (cases "length a \<le> GLOB_OVERLAP_MAX \<and> length b \<le> GLOB_OVERLAP_MAX")
  case True
  then show ?thesis by (simp add: glob_overlap_ov ov_iff wildcard_match_glob)
next
  case False
  then show ?thesis by (auto simp: glob_overlap_def Let_def)
qed

end
