(* ===== verification/Limits.thy ===== *)
theory Limits
  imports Prelude
begin

text \<open>
  The limits and intervals of \<open>src/src/consts.rs\<close> the modelled components use, one definition
  each, collected in \<open>limits\<close> for evaluation.  Sizes and counts are \<open>nat\<close> (the code's
  \<open>usize\<close>), times and setting values are \<open>int\<close> (\<open>i64\<close> and \<open>i32\<close>).
\<close>

definition VERSION_RESPONSE :: string where [limits]: "VERSION_RESPONSE = ''A robot may not injure a human being''"
definition DEFAULT_LOG_LEVEL :: "32 word" where [limits]: "DEFAULT_LOG_LEVEL = 0"
definition LOG_LEVEL_MAX :: nat where [limits]: "LOG_LEVEL_MAX = 63"
definition BOT_LOG_FILE_SIZE :: int where [limits]: "BOT_LOG_FILE_SIZE = 10 * 1024 * 1024"
definition BOT_LOG_SIZE_MIN :: int where [limits]: "BOT_LOG_SIZE_MIN = 1024"
definition BOT_LOG_SIZE_MAX :: int where [limits]: "BOT_LOG_SIZE_MAX = 1024 * 1024 * 1024"
definition UPGRADE_PREPARE_TTL :: int where [limits]: "UPGRADE_PREPARE_TTL = 900"
definition UPGRADE_OPS_WAIT :: int where [limits]: "UPGRADE_OPS_WAIT = 180"
definition BOT_UPDATE_VARIANT :: string where [limits]: "BOT_UPDATE_VARIANT = ''rs''"
definition JOIN_RETRY_TIME :: int where [limits]: "JOIN_RETRY_TIME = 10"
definition NICK_TAKE_TIME :: int where [limits]: "NICK_TAKE_TIME = 20"
definition NICK_RETRY_TIME :: int where [limits]: "NICK_RETRY_TIME = 10"
definition DEAD_SERVER_TIMEOUT :: int where [limits]: "DEAD_SERVER_TIMEOUT = 120"
definition CHECK_LAG_TIMEOUT :: int where [limits]: "CHECK_LAG_TIMEOUT = 60"
definition IRC_REGISTER_TIMEOUT :: int where [limits]: "IRC_REGISTER_TIMEOUT = 90"
definition ROSTER_REFRESH_INTERVAL :: int where [limits]: "ROSTER_REFRESH_INTERVAL = 120"
definition HUB_RECONNECT_DELAY :: int where [limits]: "HUB_RECONNECT_DELAY = 30"
definition IRC_RECONNECT_MIN_INTERVAL :: int where [limits]: "IRC_RECONNECT_MIN_INTERVAL = 10"
definition IRC_THROTTLE_BACKOFF :: int where [limits]: "IRC_THROTTLE_BACKOFF = 60"
definition IRC_THROTTLE_BACKOFF_MAX :: int where [limits]: "IRC_THROTTLE_BACKOFF_MAX = 1800"
definition IRC_BAN_BACKOFF :: int where [limits]: "IRC_BAN_BACKOFF = 900"
definition IRC_BAN_BACKOFF_MAX :: int where [limits]: "IRC_BAN_BACKOFF_MAX = 86400"
definition IRC_BAN_STATED_MAX :: int where [limits]: "IRC_BAN_STATED_MAX = 2592000"
definition IRC_BAN_GRACE :: int where [limits]: "IRC_BAN_GRACE = 30"
definition MAX_SERVERS :: nat where [limits]: "MAX_SERVERS = 10"
definition MAX_USER_RECORDS :: nat where [limits]: "MAX_USER_RECORDS = 40"
definition MAX_USER_MASKS :: nat where [limits]: "MAX_USER_MASKS = 200"
definition MAX_CHAN :: nat where [limits]: "MAX_CHAN = 65"
definition MAX_BUFFER :: nat where [limits]: "MAX_BUFFER = 16384"
definition MAX_NICK :: nat where [limits]: "MAX_NICK = 10"
definition OP_GRANT_HOLD_MAX :: nat where [limits]: "OP_GRANT_HOLD_MAX = 8"
definition OP_GRANT_HOLD_SECS :: int where [limits]: "OP_GRANT_HOLD_SECS = 15"
definition MAX_MEMBER_NICK :: nat where [limits]: "MAX_MEMBER_NICK = 32"
definition MAX_PASS :: nat where [limits]: "MAX_PASS = 128"
definition MAX_KEY :: nat where [limits]: "MAX_KEY = 31"
definition MAX_MASK_LEN :: nat where [limits]: "MAX_MASK_LEN = 256"
definition MAX_TRUSTED_BOTS :: nat where [limits]: "MAX_TRUSTED_BOTS = 200"
definition UUID_BUF :: nat where [limits]: "UUID_BUF = 37"
definition USER_NAME_BUF :: nat where [limits]: "USER_NAME_BUF = 64"
definition CFG_GLOBAL_LINE_MAX :: nat where [limits]: "CFG_GLOBAL_LINE_MAX = 1088"
definition CFG_BOT_FIELD_LINE :: nat where [limits]: "CFG_BOT_FIELD_LINE = 320"
definition CFG_USER_LINE_MAX :: nat where [limits]: "CFG_USER_LINE_MAX = 384"
definition CFG_MASK_LINE_MAX :: nat where [limits]: "CFG_MASK_LINE_MAX = 352"
definition CFG_BLINE_MAX :: nat where [limits]: "CFG_BLINE_MAX = 448"
definition CFG_MAX_GLOBALS :: nat where [limits]: "CFG_MAX_GLOBALS = 64"
definition CFG_BOT_SYNC_FIELDS :: nat where [limits]: "CFG_BOT_SYNC_FIELDS = 8"
definition CFG_PAYLOAD_SLACK :: nat where [limits]: "CFG_PAYLOAD_SLACK = 8192"
definition C_MODES_MAX :: nat where [limits]: "C_MODES_MAX = 64"
definition C_SETTINGS_MAX :: nat where [limits]: "C_SETTINGS_MAX = 512"
definition D_SETTINGS_MAX :: nat where [limits]: "D_SETTINGS_MAX = 512"
definition BAN_REASON_MAX :: nat where [limits]: "BAN_REASON_MAX = 120"
definition BAN_MASK_MAX :: nat where [limits]: "BAN_MASK_MAX = 120"
definition BAN_SETTER_MAX :: nat where [limits]: "BAN_SETTER_MAX = 63"
definition MAX_BANS_PER_CHAN :: nat where [limits]: "MAX_BANS_PER_CHAN = 100"
definition MAX_GLOBAL_BANS :: nat where [limits]: "MAX_GLOBAL_BANS = 100"
definition CFG_MAX_CHANNELS :: nat where [limits]: "CFG_MAX_CHANNELS = CFG_MAX_GLOBALS"
definition C_LINE_MAX :: nat where [limits]: "C_LINE_MAX = 2 + MAX_CHAN + 1 + C_MODES_MAX + 1 + C_SETTINGS_MAX + 24"
definition D_LINE_MAX :: nat where [limits]: "D_LINE_MAX = 2 + C_MODES_MAX + 1 + D_SETTINGS_MAX + 24"
definition B_LINE_MAX :: nat where [limits]: "B_LINE_MAX = 2 + MAX_CHAN + 1 + BAN_MASK_MAX + 1 + 24 + 8 + BAN_SETTER_MAX + 1 + BAN_REASON_MAX + 40"
definition CFG_MAX_BANS :: nat where [limits]: "CFG_MAX_BANS = MAX_GLOBAL_BANS + CFG_MAX_CHANNELS * MAX_BANS_PER_CHAN"
definition MAX_CONFIG_PAYLOAD :: nat where [limits]: "MAX_CONFIG_PAYLOAD = CFG_MAX_GLOBALS * CFG_GLOBAL_LINE_MAX + CFG_MAX_CHANNELS * C_LINE_MAX + D_LINE_MAX + CFG_MAX_BANS * B_LINE_MAX + MAX_USER_RECORDS * CFG_USER_LINE_MAX + MAX_USER_MASKS * CFG_MASK_LINE_MAX + CFG_BOT_SYNC_FIELDS * CFG_BOT_FIELD_LINE + MAX_TRUSTED_BOTS * CFG_BLINE_MAX + CFG_PAYLOAD_SLACK"
definition MAX_HUB_FRAME :: nat where [limits]: "MAX_HUB_FRAME = MAX_CONFIG_PAYLOAD + 64"
definition MAX_ROSTER_SIZE :: nat where [limits]: "MAX_ROSTER_SIZE = 500"
definition MAX_SEEN_HASHES :: nat where [limits]: "MAX_SEEN_HASHES = 4096"
definition NONCE_CACHE_SIZE :: nat where [limits]: "NONCE_CACHE_SIZE = 4096"
definition NONCE_TTL_SECONDS :: int where [limits]: "NONCE_TTL_SECONDS = 60"
definition CONFIG_WRITE_DEBOUNCE_S :: int where [limits]: "CONFIG_WRITE_DEBOUNCE_S = 5"
definition A2A_LABEL :: string where [limits]: "A2A_LABEL = ''ircbot-A2A-v1''"
definition A2K_LABEL :: string where [limits]: "A2K_LABEL = ''ircbot-A2K-v1''"
definition A2_LABEL :: string where [limits]: "A2_LABEL = ''ircbot-A2-v1''"
definition A2S_LABEL :: string where [limits]: "A2S_LABEL = ''ircbot-A2S-v1''"
definition A2R_LABEL :: string where [limits]: "A2R_LABEL = ''ircbot-A2R-v1''"
definition B2_LABEL :: string where [limits]: "B2_LABEL = ''ircbot-B2-v1''"
definition A2_TS_SKEW :: int where [limits]: "A2_TS_SKEW = 30"
definition B2_TS_SKEW :: int where [limits]: "B2_TS_SKEW = 60"
definition A2_AUTH_REPLY_MIN_INTERVAL :: int where [limits]: "A2_AUTH_REPLY_MIN_INTERVAL = 3"
definition A2_AUTH_REPLY_GLOBAL_INTERVAL :: int where [limits]: "A2_AUTH_REPLY_GLOBAL_INTERVAL = 1"
definition SEAL_OVERHEAD :: nat where [limits]: "SEAL_OVERHEAD = 32 + 12 + 16"
definition SEAL_MAX_PLAINTEXT :: nat where [limits]: "SEAL_MAX_PLAINTEXT = 1024"
definition A2_NICK_MAX :: nat where [limits]: "A2_NICK_MAX = 64"
definition A2_B64_MAX :: nat where [limits]: "A2_B64_MAX = 4 * ((SEAL_MAX_PLAINTEXT + SEAL_OVERHEAD + 3 - 1) div 3)"
definition A2_LINE_MAX :: nat where [limits]: "A2_LINE_MAX = 5 + A2_B64_MAX"
definition A2R_TEXT_MAX :: nat where [limits]: "A2R_TEXT_MAX = 240"
definition A2R_PT_MAX :: nat where [limits]: "A2R_PT_MAX = A2R_TEXT_MAX + 24"
definition DCC_MAX_SESSIONS :: nat where [limits]: "DCC_MAX_SESSIONS = 4"
definition DCC_OFFER_TIMEOUT :: int where [limits]: "DCC_OFFER_TIMEOUT = 120"
definition DCC_CONNECT_TIMEOUT :: int where [limits]: "DCC_CONNECT_TIMEOUT = 20"
definition DCC_IDLE_TIMEOUT :: int where [limits]: "DCC_IDLE_TIMEOUT = 3600"
definition DCC_MIN_PORT :: nat where [limits]: "DCC_MIN_PORT = 1024"
definition DCC_OUTBUF_MAX :: nat where [limits]: "DCC_OUTBUF_MAX = 512 * 1024"
definition BOT_PROTO_VERSION :: int where [limits]: "BOT_PROTO_VERSION = 2"
definition GCM_IV_LEN :: nat where [limits]: "GCM_IV_LEN = 12"
definition GCM_TAG_LEN :: nat where [limits]: "GCM_TAG_LEN = 16"
definition HUB_KEY_RAW_LEN :: nat where [limits]: "HUB_KEY_RAW_LEN = 64"
definition COMBINED_KEY_B64 :: nat where [limits]: "COMBINED_KEY_B64 = 88"
definition MAX_HUB_KEY_SIZE :: nat where [limits]: "MAX_HUB_KEY_SIZE = 128"
definition MAX_OPT_FLAGS :: nat where [limits]: "MAX_OPT_FLAGS = 32"
definition MAX_CONFIG_SIZE :: int where [limits]: "MAX_CONFIG_SIZE = 1024 * 1024"
definition BOT_STATUS_MAX_LINES :: nat where [limits]: "BOT_STATUS_MAX_LINES = 30"
definition OP_REQUEST_MIN_INTERVAL :: int where [limits]: "OP_REQUEST_MIN_INTERVAL = 5"
definition OPT_HUB_ONLY_MUTATIONS :: char where [limits]: "OPT_HUB_ONLY_MUTATIONS = CHR ''h''"
definition CMD_PING :: nat where [limits]: "CMD_PING = 0x01"
definition CMD_CONFIG_PUSH :: nat where [limits]: "CMD_CONFIG_PUSH = 0x02"
definition CMD_CONFIG_PULL :: nat where [limits]: "CMD_CONFIG_PULL = 0x03"
definition CMD_CONFIG_DATA :: nat where [limits]: "CMD_CONFIG_DATA = 0x04"
definition CMD_UPDATE_PUBKEY :: nat where [limits]: "CMD_UPDATE_PUBKEY = 0x05"
definition CMD_INVITE_REQUEST :: nat where [limits]: "CMD_INVITE_REQUEST = 0x09"
definition CMD_BOT_KEY_UPDATE :: nat where [limits]: "CMD_BOT_KEY_UPDATE = 0x40"
definition CMD_BOT_DELTA :: nat where [limits]: "CMD_BOT_DELTA = 0x45"
definition CMD_OP_REQUEST :: nat where [limits]: "CMD_OP_REQUEST = 0x28"
definition CMD_OP_GRANT :: nat where [limits]: "CMD_OP_GRANT = 0x29"
definition CMD_OP_FAILED :: nat where [limits]: "CMD_OP_FAILED = 0x2A"
definition CMD_BOT_RELAY :: nat where [limits]: "CMD_BOT_RELAY = 0x50"
definition CMD_BOT_MSG :: nat where [limits]: "CMD_BOT_MSG = 0x51"
definition CMD_BOT_PRESENCE :: nat where [limits]: "CMD_BOT_PRESENCE = 0x56"
definition CMD_BOT_TREE :: nat where [limits]: "CMD_BOT_TREE = 0x58"
definition CMD_CHAN_REQUEST :: nat where [limits]: "CMD_CHAN_REQUEST = 0x59"
definition CMD_CHAN_ACTION :: nat where [limits]: "CMD_CHAN_ACTION = 0x5A"
definition CMD_CHAN_REPLY :: nat where [limits]: "CMD_CHAN_REPLY = 0x5B"
definition CMD_CHAN_PROBE :: nat where [limits]: "CMD_CHAN_PROBE = 0x6D"
definition CMD_CHAN_PROBE_ACK :: nat where [limits]: "CMD_CHAN_PROBE_ACK = 0x6E"
definition CMD_CHAN_DO :: nat where [limits]: "CMD_CHAN_DO = 0x6F"
definition CMD_CHAN_DONE :: nat where [limits]: "CMD_CHAN_DONE = 0x70"
definition CHAN_DO_NICK_MAX :: nat where [limits]: "CHAN_DO_NICK_MAX = 30"
definition CMD_CHAN_EVENT :: nat where [limits]: "CMD_CHAN_EVENT = 0x7B"
definition CHAN_EVENT_TARGET_MAX :: nat where [limits]: "CHAN_EVENT_TARGET_MAX = 120"
definition CHAN_EVENT_DETAIL_MAX :: nat where [limits]: "CHAN_EVENT_DETAIL_MAX = 160"
definition CHAN_EVENT_DEDUPE_SECS :: int where [limits]: "CHAN_EVENT_DEDUPE_SECS = 10"
definition CHAN_EVENT_WINDOW_SECS :: int where [limits]: "CHAN_EVENT_WINDOW_SECS = 60"
definition CHAN_EVENT_WINDOW_MAX :: nat where [limits]: "CHAN_EVENT_WINDOW_MAX = 20"
definition CHAN_EVENT_TRACK :: nat where [limits]: "CHAN_EVENT_TRACK = 32"
definition ISUPPORT_MODES_DEFAULT :: int where [limits]: "ISUPPORT_MODES_DEFAULT = 3"
definition ISUPPORT_MODES_MAX :: int where [limits]: "ISUPPORT_MODES_MAX = 12"
definition NICKLEN_DEFAULT :: int where [limits]: "NICKLEN_DEFAULT = 30"
definition MAXLIST_DEFAULT :: int where [limits]: "MAXLIST_DEFAULT = 100"
definition BAN_LIST_CAP :: int where [limits]: "BAN_LIST_CAP = 200"
definition JOB_KICK :: nat where [limits]: "JOB_KICK = 0"
definition JOB_BAN :: nat where [limits]: "JOB_BAN = 1"
definition JOB_OP :: nat where [limits]: "JOB_OP = 2"
definition JOB_MODE :: nat where [limits]: "JOB_MODE = 3"
definition JOB_LIMIT :: nat where [limits]: "JOB_LIMIT = 4"
definition JOB_COUNT :: nat where [limits]: "JOB_COUNT = 5"
definition JOB_STEP_MS :: int where [limits]: "JOB_STEP_MS = 1500"
definition MAX_PENDING_JOBS :: nat where [limits]: "MAX_PENDING_JOBS = 32"
definition JOB_MIN_VERSION :: string where [limits]: "JOB_MIN_VERSION = ''2.4.7''"
definition JOB_MAX_AGE_MS :: int where [limits]: "JOB_MAX_AGE_MS = 30000"
definition ENF_SWEEP_SECS :: int where [limits]: "ENF_SWEEP_SECS = 5"
definition MAX_BAN_TRACK :: nat where [limits]: "MAX_BAN_TRACK = CFG_MAX_BANS + MAX_GLOBAL_BANS * CFG_MAX_CHANNELS"
definition ENF_RESWEEP_MS :: int where [limits]: "ENF_RESWEEP_MS = 2000"
definition ENF_KICKS_PER_SWEEP :: nat where [limits]: "ENF_KICKS_PER_SWEEP = 4"
definition MAX_OFFENCES :: nat where [limits]: "MAX_OFFENCES = 64"
definition ENF_RECENT :: nat where [limits]: "ENF_RECENT = 32"
definition ENF_CYCLE_MIN_SECS :: int where [limits]: "ENF_CYCLE_MIN_SECS = 600"
definition MAX_FLOOD_TRACK :: nat where [limits]: "MAX_FLOOD_TRACK = 64"
definition MAX_IGNORES :: nat where [limits]: "MAX_IGNORES = 64"
definition MAX_HOST_TRACK :: nat where [limits]: "MAX_HOST_TRACK = 64"
definition FLOOD_HOST_MAX :: nat where [limits]: "FLOOD_HOST_MAX = 128"
definition QUIET_FILL_MS :: int where [limits]: "QUIET_FILL_MS = 60000"
definition MAX_SENDQ :: nat where [limits]: "MAX_SENDQ = 256"
definition SENDQ_LANES :: nat where [limits]: "SENDQ_LANES = 3"
definition SENDQ_LANE_PROTO :: nat where [limits]: "SENDQ_LANE_PROTO = 0"
definition SENDQ_LANE_PROT :: nat where [limits]: "SENDQ_LANE_PROT = 1"
definition SENDQ_LANE_REST :: nat where [limits]: "SENDQ_LANE_REST = 2"
definition SENDQ_DEF_BURST :: int where [limits]: "SENDQ_DEF_BURST = 10"
definition SENDQ_DEF_INTERVAL_MS :: int where [limits]: "SENDQ_DEF_INTERVAL_MS = 100"
definition SENDQ_MIN_BURST :: int where [limits]: "SENDQ_MIN_BURST = 1"
definition SENDQ_MAX_BURST :: int where [limits]: "SENDQ_MAX_BURST = 100"
definition SENDQ_MIN_INTERVAL_MS :: int where [limits]: "SENDQ_MIN_INTERVAL_MS = 0"
definition SENDQ_MAX_INTERVAL_MS :: int where [limits]: "SENDQ_MAX_INTERVAL_MS = 10000"
definition SENDQ_LINE_MAX :: nat where [limits]: "SENDQ_LINE_MAX = 510"
definition CMD_UPGRADE_PREPARE :: nat where [limits]: "CMD_UPGRADE_PREPARE = 0x5E"
definition CMD_UPGRADE_READY :: nat where [limits]: "CMD_UPGRADE_READY = 0x5F"
definition CMD_UPGRADE_COMMIT :: nat where [limits]: "CMD_UPGRADE_COMMIT = 0x60"
definition CMD_UPGRADE_RESULT :: nat where [limits]: "CMD_UPGRADE_RESULT = 0x61"
definition CMD_UPGRADE_ABORT :: nat where [limits]: "CMD_UPGRADE_ABORT = 0x62"
definition CMD_ACTIVITY :: nat where [limits]: "CMD_ACTIVITY = 0x69"
definition CMD_ACTIVITY_QUERY :: nat where [limits]: "CMD_ACTIVITY_QUERY = 0x6A"
definition CMD_ACTIVITY_REPLY :: nat where [limits]: "CMD_ACTIVITY_REPLY = 0x6B"
definition ACTIVITY_BUCKET :: int where [limits]: "ACTIVITY_BUCKET = 3600"
definition ACTIVITY_MAX_FUTURE :: int where [limits]: "ACTIVITY_MAX_FUTURE = 300"
definition ACTIVITY_QUERY_TIMEOUT :: int where [limits]: "ACTIVITY_QUERY_TIMEOUT = 3"
definition MAX_ACTIVITY_QUERIES :: nat where [limits]: "MAX_ACTIVITY_QUERIES = 4"
definition ACTIVITY_REQ_ID_MAX :: nat where [limits]: "ACTIVITY_REQ_ID_MAX = 32"
definition CHAN_REQUEST_MIN_INTERVAL :: int where [limits]: "CHAN_REQUEST_MIN_INTERVAL = 5"
definition CHAN_REQUEST_RETRY_TIME :: int where [limits]: "CHAN_REQUEST_RETRY_TIME = 60"
definition CHAN_REQUEST_MAX_RETRIES :: int where [limits]: "CHAN_REQUEST_MAX_RETRIES = 5"
definition CHAN_REQUEST_COOLOFF :: int where [limits]: "CHAN_REQUEST_COOLOFF = 300"
definition CHAN_REPLY_ACCEPT_WINDOW :: int where [limits]: "CHAN_REPLY_ACCEPT_WINDOW = 45"
definition MAX_UNBAN_JOBS :: nat where [limits]: "MAX_UNBAN_JOBS = 8"
definition UNBAN_JOB_TTL :: int where [limits]: "UNBAN_JOB_TTL = 30"
definition UNBAN_MAX_REMOVALS :: int where [limits]: "UNBAN_MAX_REMOVALS = 6"
definition MAX_BOT_TREE_ROWS :: nat where [limits]: "MAX_BOT_TREE_ROWS = 256"
definition MAX_TREE_DEPTH :: int where [limits]: "MAX_TREE_DEPTH = 32"
definition TREE_VERSION_MAX :: nat where [limits]: "TREE_VERSION_MAX = 15"
definition TREE_VARIANT_MAX :: nat where [limits]: "TREE_VARIANT_MAX = 7"
definition TREE_SERVER_MAX :: nat where [limits]: "TREE_SERVER_MAX = 63"
definition TREE_NAME_MAX :: nat where [limits]: "TREE_NAME_MAX = 64"
definition BOT_TREE_STALE_AFTER :: int where [limits]: "BOT_TREE_STALE_AFTER = 660"
definition BOT_PRESENCE_REPORT_INTERVAL :: int where [limits]: "BOT_PRESENCE_REPORT_INTERVAL = 120"
definition IRC_REFUSAL_LEN :: nat where [limits]: "IRC_REFUSAL_LEN = 256"

end
