(* ===== verification/State.thy ===== *)
theory State
  imports Limits CStr
begin

text \<open>
  The bot's state and its records (\<open>src/src/state.rs\<close>), with the small rules that file states:
  last-writer-wins acceptance, nick validity, the replay cache.  A Rust struct is a record with
  the same fields (prefixed, because record fields are global here); \<open>Vec\<close> and fixed arrays
  are lists; bit sets keep their width as words.  The fields no modelled component reads
  (sockets, keys, the upgrade and presence bookkeeping) are left out.  Clock reads are a
  parameter of every operation, gathered with the answers of the two sockets in \<open>env\<close>.
\<close>

unbundle bit_operations_syntax

section \<open>Enumerations\<close>

datatype chan_status = CS_None | CS_Out | CS_In

datatype chan_req = Unban | Invite | Key

fun chan_req_idx :: "chan_req \<Rightarrow> nat" where
  "chan_req_idx Unban = 0" | "chan_req_idx Invite = 1" | "chan_req_idx Key = 2"

definition CHAN_REQ_KIND_COUNT :: nat where [limits]: "CHAN_REQ_KIND_COUNT = 3"

fun chan_req_token :: "chan_req \<Rightarrow> string" where
  "chan_req_token Unban = ''unban''"
| "chan_req_token Invite = ''invite''"
| "chan_req_token Key = ''key''"

definition chan_req_from_token :: "string \<Rightarrow> chan_req option" where
  "chan_req_from_token tok =
     find (\<lambda>k. eq_ic tok (chan_req_token k)) [Unban, Invite, Key]"

datatype cset_id = EnforceModes | Bitch | ProtectOps | Revenge | StopNetHack | EnforceBans
  | DynamicBans | DontKickOps | Cycle | DynamicLimit | BanTime | BanType | BanIdle
  | LimitGap | LimitDelay | IgnoreTime

definition CS_COUNT :: nat where [limits]: "CS_COUNT = 16"

definition cset_all :: "cset_id list" where
  "cset_all = [EnforceModes, Bitch, ProtectOps, Revenge, StopNetHack, EnforceBans,
     DynamicBans, DontKickOps, Cycle, DynamicLimit, BanTime, BanType, BanIdle,
     LimitGap, LimitDelay, IgnoreTime]"

fun cset_idx :: "cset_id \<Rightarrow> nat" where
  "cset_idx EnforceModes = 0" | "cset_idx Bitch = 1" | "cset_idx ProtectOps = 2"
| "cset_idx Revenge = 3" | "cset_idx StopNetHack = 4" | "cset_idx EnforceBans = 5"
| "cset_idx DynamicBans = 6" | "cset_idx DontKickOps = 7" | "cset_idx Cycle = 8"
| "cset_idx DynamicLimit = 9" | "cset_idx BanTime = 10" | "cset_idx BanType = 11"
| "cset_idx BanIdle = 12" | "cset_idx LimitGap = 13" | "cset_idx LimitDelay = 14"
| "cset_idx IgnoreTime = 15"

datatype flood_kind = FL_Chan | FL_Ctcp | FL_Join | FL_Nick | FL_Deop | FL_Kick | FL_Ban
  | BotCmd | BotMsg | BotCtcp | Sendq

definition FL_COUNT :: nat where [limits]: "FL_COUNT = 11"
definition FL_CHAN_COUNT :: nat where [limits]: "FL_CHAN_COUNT = 7"

definition flood_all :: "flood_kind list" where
  "flood_all = [FL_Chan, FL_Ctcp, FL_Join, FL_Nick, FL_Deop, FL_Kick, FL_Ban,
     BotCmd, BotMsg, BotCtcp, Sendq]"

fun flood_idx :: "flood_kind \<Rightarrow> nat" where
  "flood_idx FL_Chan = 0" | "flood_idx FL_Ctcp = 1" | "flood_idx FL_Join = 2"
| "flood_idx FL_Nick = 3" | "flood_idx FL_Deop = 4" | "flood_idx FL_Kick = 5"
| "flood_idx FL_Ban = 6" | "flood_idx BotCmd = 7" | "flood_idx BotMsg = 8"
| "flood_idx BotCtcp = 9" | "flood_idx Sendq = 10"

lemma cset_idx_less [simp]: "cset_idx c < CS_COUNT"
  by (cases c) (simp_all add: CS_COUNT_def)

lemma flood_idx_less [simp]: "flood_idx k < FL_COUNT"
  by (cases k) (simp_all add: FL_COUNT_def)

lemma cset_all_idx: "map cset_idx cset_all = [0..<CS_COUNT]"
  by (simp add: cset_all_def CS_COUNT_def upt_rec)

lemma flood_all_idx: "map flood_idx flood_all = [0..<FL_COUNT]"
  by (simp add: flood_all_def FL_COUNT_def upt_rec)

section \<open>Records\<close>

record user_record =
  u_uuid :: string
  u_name :: string
  u_pubkey_b64 :: string
  u_has_pubkey :: bool
  u_typ :: char
  u_is_active :: bool
  u_last_seen :: int
  u_timestamp :: int
  u_last_auth_reply :: int
  u_act_pending :: int

record trusted_bot =
  tb_mask :: string
  tb_uuid :: string
  tb_pub_key :: string
  tb_has_pub :: bool
  tb_ts :: int

definition tb_nick :: "trusted_bot \<Rightarrow> string" where
  "tb_nick tb = mask_nick (tb_mask tb) MAX_NICK"

record mask_record =
  m_uuid :: string
  m_mask :: string
  m_is_active :: bool
  m_last_used :: int
  m_timestamp :: int
  m_act_pending :: int

record roster_entry =
  r_nick :: string
  r_hostmask :: string
  r_is_op :: bool
  r_is_halfop :: bool
  r_is_voice :: bool
  r_authorised :: bool
  r_auth_gen :: "32 word"

record flood_spec =
  fs_present :: bool
  fs_off :: bool
  fs_n :: int
  fs_s :: int

record chan_settings =
  cs_present :: "32 word"
  cs_val :: "int list"
  cs_fl :: "flood_spec list"
  cs_bad_sendq :: bool

record flood_window =
  w_start_ms :: int
  w_count :: int

record flood_src =
  fsrc_host :: string
  fsrc_last_ms :: int
  fsrc_w :: "flood_window list"
  fsrc_victim_auth :: "8 word"

record ignore_ent =
  ig_key :: string
  ig_since_ms :: int
  ig_until_ms :: int

record host_flood =
  hf_host :: string
  hf_last_ms :: int
  hf_msg :: flood_window
  hf_ctcp :: flood_window

record cmd_flood =
  cf_uuid :: string
  cf_last_ms :: int
  cf_w :: flood_window
  cf_notified :: bool

record bot_flood =
  bf_ignores :: "ignore_ent list"
  bf_quiet_until_ms :: int
  bf_quiet_logged :: bool
  bf_host_flood :: "host_flood list"
  bf_cmd_flood :: "cmd_flood list"

record live_ban =
  lb_mask :: string
  lb_setter :: string
  lb_when :: int

record cfg_ban =
  b_chan :: string
  b_mask :: string
  b_flags :: string
  b_setter :: string
  b_reason :: string
  b_expires :: int
  b_ts :: int
  b_active :: bool
  b_push_pending :: bool

record isupport =
  is_modes :: int
  is_maxlist_b :: int
  is_prefix_modes :: string
  is_prefix_syms :: string
  is_cm_a :: string
  is_cm_b :: string
  is_cm_c :: string
  is_cm_d :: string
  is_nicklen :: int

record sendq =
  q_lanes :: "string list list"
  q_total :: nat
  q_burst :: int
  q_interval_ms :: int
  q_credit_ms :: int
  q_last_ms :: int
  q_dropped :: nat
  q_hold :: nat

record chan_event_lim =
  ev_seen :: "(string \<times> int) list"
  ev_window :: "int list"
  ev_widx :: nat
  ev_suppressed :: nat
  ev_sup_chan :: string
  ev_sup_action :: string

record chan =
  c_name :: string
  c_key :: string
  c_status :: chan_status
  c_is_managed :: bool
  c_timestamp :: int
  c_last_who_request :: int
  c_roster :: "roster_entry list"
  c_last_join_attempt :: int
  c_join_disabled :: bool
  c_i_am_opped :: bool
  c_op_request_pending :: bool
  c_last_op_request_time :: int
  c_op_request_retry_count :: int
  c_last_access_request :: "int list"
  c_access_retry_count :: "int list"
  c_cfg_modes :: string
  c_cfg_settings :: string
  c_cfg_set :: chan_settings
  c_cfg_ts :: int
  c_cfg_active :: bool
  c_enf_dirty :: bool
  c_enf_ops_check :: bool
  c_ban_cap_warned :: bool
  c_enf_last_sweep_ms :: int
  c_enf_last_limit :: int
  c_enf_last_cycle :: int
  c_live_flags :: "64 word"
  c_live_key :: string
  c_live_limit :: int
  c_live_known :: bool
  c_live_created :: int
  c_bans :: "live_ban list"
  c_ban_list_open :: bool
  c_ban_list_known :: bool
  c_ban_overflow_logged :: bool
  c_who_done :: bool
  c_enf_pending :: bool
  c_flood :: "flood_src list"
  c_modes :: "32 word"
  c_op_grant_held :: "(string \<times> int) list"

datatype server_block_kind = SB_None | Throttled | Banned | BannedTemp | BannedPerm

record server_block =
  sb_kind :: server_block_kind
  sb_until :: int
  sb_strikes :: int
  sb_reason :: string

record unban_job =
  uj_channel :: string
  uj_hostmask :: string
  uj_started :: int
  uj_removed :: int
  uj_active :: bool

datatype job_act = Deop | Dehalf | Reop | Kick | BanNuh | BanMask | Unban_job | Mode_job | Limit_job

record pending_job =
  j_used :: bool
  j_act :: job_act
  j_chan :: string
  j_target :: string
  j_reason :: string
  j_created_ms :: int

record ban_track =
  bt_chan :: string
  bt_mask :: string
  bt_last_match :: int
  bt_set_at :: int
  bt_checked_at :: int
  bt_overlap_ok :: bool

record offence_ent =
  of_key :: string
  of_when :: int
  of_count :: "32 word"

record enf_recent =
  er_key :: string
  er_when_ms :: int

text \<open>A row of the bot tree the hub pushes.\<close>

record bot_tree_row =
  tr_kind :: char
  tr_depth :: int
  tr_name :: string
  tr_uuid :: string
  tr_version :: string
  tr_variant :: string
  tr_server :: string
  tr_uptime :: int
  tr_started :: int
  tr_has_started :: bool
  tr_online :: bool

record nonce_cache =
  nc_entries :: "(64 word \<times> int) list"
  nc_idx :: nat

text \<open>A DCC chat, without its socket; \<open>dc_poll\<close> is the poll token that tells it from a later one.\<close>

datatype dcc_phase = DccFree | DccOffered | DccConnecting | DccOpen

record dcc_session =
  dc_phase :: dcc_phase
  dc_poll :: "nat option"
  dc_token :: "32 word"
  dc_phase_since :: int
  dc_last_active :: int
  dc_failed :: bool
  dc_nick :: string
  dc_botnick :: string
  dc_user_host :: string
  dc_uuid :: string
  dc_name :: string
  dc_peer :: string
  dc_inbuf :: string
  dc_outbuf :: string

text \<open>The sealed replies of the command that is running.\<close>

record a2r_ctx =
  ar_active :: bool
  ar_key :: string
  ar_aad :: string
  ar_nick :: string
  ar_seq :: "64 word"

text \<open>A command that waits for the hub's activity times.\<close>

datatype actq_kind = ActAdmins | ActOpers | ActMatch

record activity_query =
  aq_id :: string
  aq_kind :: actq_kind
  aq_arg :: string
  aq_nick :: string
  aq_dcc :: "(nat \<times> 32 word) option"
  aq_a2r :: a2r_ctx
  aq_deadline :: int

text \<open>A network upgrade this bot has acknowledged, and the report it still owes for one.\<close>

record upgrade_report =
  ur_id :: string
  ur_ops :: "string list"
  ur_since :: int

record upgrade =
  up_id :: string
  up_target :: string
  up_variant :: string
  up_base :: string
  up_prepared :: int
  up_installed_id :: string
  up_report :: "upgrade_report option"

record hub_entry =
  he_addr :: string
  he_ed_pub :: string
  he_ed_pub_set :: bool

datatype hub_auth_state = HA_None | SentUuid | SentSignature | HA_Complete

section \<open>Default values\<close>

definition default_flood_spec :: flood_spec where
  "default_flood_spec = \<lparr>fs_present = False, fs_off = False, fs_n = 0, fs_s = 0\<rparr>"

definition default_settings :: chan_settings where
  "default_settings = \<lparr>cs_present = 0, cs_val = replicate CS_COUNT 0,
     cs_fl = replicate FL_COUNT default_flood_spec, cs_bad_sendq = False\<rparr>"

definition default_window :: flood_window where
  "default_window = \<lparr>w_start_ms = 0, w_count = 0\<rparr>"

definition default_src :: flood_src where
  "default_src = \<lparr>fsrc_host = [], fsrc_last_ms = 0,
     fsrc_w = replicate FL_CHAN_COUNT default_window, fsrc_victim_auth = 0\<rparr>"

definition default_ignore :: ignore_ent where
  "default_ignore = \<lparr>ig_key = [], ig_since_ms = 0, ig_until_ms = 0\<rparr>"

definition default_host_flood :: host_flood where
  "default_host_flood = \<lparr>hf_host = [], hf_last_ms = 0, hf_msg = default_window,
     hf_ctcp = default_window\<rparr>"

definition default_cmd_flood :: cmd_flood where
  "default_cmd_flood = \<lparr>cf_uuid = [], cf_last_ms = 0, cf_w = default_window,
     cf_notified = False\<rparr>"

definition default_bot_flood :: bot_flood where
  "default_bot_flood = \<lparr>bf_ignores = replicate MAX_IGNORES default_ignore,
     bf_quiet_until_ms = 0, bf_quiet_logged = False,
     bf_host_flood = replicate MAX_HOST_TRACK default_host_flood,
     bf_cmd_flood = replicate MAX_USER_RECORDS default_cmd_flood\<rparr>"

definition default_cfg_ban :: cfg_ban where
  "default_cfg_ban = \<lparr>b_chan = [], b_mask = [], b_flags = [], b_setter = [], b_reason = [],
     b_expires = 0, b_ts = 0, b_active = False, b_push_pending = False\<rparr>"

definition default_isupport :: isupport where
  "default_isupport = \<lparr>is_modes = ISUPPORT_MODES_DEFAULT, is_maxlist_b = 0,
     is_prefix_modes = ''ov'', is_prefix_syms = ''@+'', is_cm_a = ''beI'', is_cm_b = ''k'',
     is_cm_c = ''l'', is_cm_d = ''imnpst'', is_nicklen = NICKLEN_DEFAULT\<rparr>"

definition default_sendq :: "int \<Rightarrow> sendq" where
  "default_sendq t0 = \<lparr>q_lanes = replicate SENDQ_LANES [], q_total = 0,
     q_burst = SENDQ_DEF_BURST, q_interval_ms = SENDQ_DEF_INTERVAL_MS,
     q_credit_ms = SENDQ_DEF_BURST * SENDQ_DEF_INTERVAL_MS, q_last_ms = t0,
     q_dropped = 0, q_hold = 0\<rparr>"

definition default_event_lim :: chan_event_lim where
  "default_event_lim = \<lparr>ev_seen = replicate CHAN_EVENT_TRACK ([], 0),
     ev_window = replicate CHAN_EVENT_WINDOW_MAX 0, ev_widx = 0, ev_suppressed = 0,
     ev_sup_chan = [], ev_sup_action = []\<rparr>"

definition default_chan :: chan where
  "default_chan = \<lparr>c_name = [], c_key = [], c_status = CS_None, c_is_managed = False,
     c_timestamp = 0, c_last_who_request = 0, c_roster = [], c_last_join_attempt = 0,
     c_join_disabled = False, c_i_am_opped = False, c_op_request_pending = False,
     c_last_op_request_time = 0, c_op_request_retry_count = 0,
     c_last_access_request = replicate CHAN_REQ_KIND_COUNT 0,
     c_access_retry_count = replicate CHAN_REQ_KIND_COUNT 0,
     c_cfg_modes = [], c_cfg_settings = [], c_cfg_set = default_settings, c_cfg_ts = 0,
     c_cfg_active = False, c_enf_dirty = False, c_enf_ops_check = False,
     c_ban_cap_warned = False, c_enf_last_sweep_ms = 0, c_enf_last_limit = 0,
     c_enf_last_cycle = 0, c_live_flags = 0, c_live_key = [], c_live_limit = 0,
     c_live_known = False, c_live_created = 0, c_bans = [], c_ban_list_open = False,
     c_ban_list_known = False, c_ban_overflow_logged = False, c_who_done = False,
     c_enf_pending = False, c_flood = [], c_modes = 0, c_op_grant_held = []\<rparr>"

definition default_server_block :: server_block where
  "default_server_block = \<lparr>sb_kind = SB_None, sb_until = 0, sb_strikes = 0, sb_reason = []\<rparr>"

definition default_unban_job :: unban_job where
  "default_unban_job = \<lparr>uj_channel = [], uj_hostmask = [], uj_started = 0, uj_removed = 0,
     uj_active = False\<rparr>"

definition default_job :: pending_job where
  "default_job = \<lparr>j_used = False, j_act = Deop, j_chan = [], j_target = [], j_reason = [],
     j_created_ms = 0\<rparr>"

definition default_track :: ban_track where
  "default_track = \<lparr>bt_chan = [], bt_mask = [], bt_last_match = 0, bt_set_at = 0,
     bt_checked_at = 0, bt_overlap_ok = False\<rparr>"

definition default_offence :: offence_ent where
  "default_offence = \<lparr>of_key = [], of_when = 0, of_count = 0\<rparr>"

definition default_recent :: enf_recent where
  "default_recent = \<lparr>er_key = [], er_when_ms = 0\<rparr>"

definition default_dcc :: dcc_session where
  "default_dcc = \<lparr>dc_phase = DccFree, dc_poll = None, dc_token = 0, dc_phase_since = 0,
     dc_last_active = 0, dc_failed = False, dc_nick = [], dc_botnick = [], dc_user_host = [],
     dc_uuid = [], dc_name = [], dc_peer = [], dc_inbuf = [], dc_outbuf = []\<rparr>"

definition default_a2r :: a2r_ctx where
  "default_a2r = \<lparr>ar_active = False, ar_key = replicate 32 (CHR 0x00), ar_aad = [], ar_nick = [],
     ar_seq = 0\<rparr>"

definition default_upgrade :: upgrade where
  "default_upgrade = \<lparr>up_id = [], up_target = [], up_variant = [], up_base = [], up_prepared = 0,
     up_installed_id = [], up_report = None\<rparr>"

definition nonce_new :: "nat \<Rightarrow> nonce_cache" where
  "nonce_new cap = \<lparr>nc_entries = replicate cap (0, 0), nc_idx = 0\<rparr>"

definition default_row :: bot_tree_row where
  "default_row = \<lparr>tr_kind = CHR 0x00, tr_depth = 0, tr_name = [], tr_uuid = [], tr_version = [],
     tr_variant = [], tr_server = [], tr_uptime = 0, tr_started = 0, tr_has_started = False,
     tr_online = False\<rparr>"

definition default_hub :: hub_entry where
  "default_hub = \<lparr>he_addr = [], he_ed_pub = replicate 32 (CHR 0x00), he_ed_pub_set = False\<rparr>"

definition default_bot :: trusted_bot where
  "default_bot = \<lparr>tb_mask = [], tb_uuid = [], tb_pub_key = replicate HUB_KEY_RAW_LEN (CHR 0x00),
     tb_has_pub = False, tb_ts = 0\<rparr>"

definition default_user :: user_record where
  "default_user = \<lparr>u_uuid = [], u_name = [], u_pubkey_b64 = [], u_has_pubkey = False,
     u_typ = CHR 0x00, u_is_active = False, u_last_seen = 0, u_timestamp = 0,
     u_last_auth_reply = 0, u_act_pending = 0\<rparr>"

definition default_mask :: mask_record where
  "default_mask = \<lparr>m_uuid = [], m_mask = [], m_is_active = False, m_last_used = 0, m_timestamp = 0,
     m_act_pending = 0\<rparr>"

section \<open>The bot state\<close>

record bot_state =
  st_status :: "32 word"
  st_current_nick :: string
  st_target_nick :: string
  st_server_list :: "string list"
  st_current_server_index :: nat
  st_server_blocks :: "server_block list"
  st_irc_server_idx :: "nat option"
  st_irc_refusal_ban :: bool
  st_irc_refusal :: string
  st_irc_blocked_logged :: bool
  st_nick_generation_attempt :: nat
  st_irc :: bool                            \<comment> \<open>\<open>irc.is_some()\<close>: a socket to the server\<close>
  st_dcc :: "dcc_session list"
  st_dcc_reply :: "nat option"
  st_a2r :: a2r_ctx
  st_chans :: "chan list"
  st_trusted_bots :: "trusted_bot list"
  st_user_records :: "user_record list"
  st_mask_records :: "mask_record list"
  st_config_dirty :: bool
  st_opt_flags :: string
  st_bot_uuid :: string
  st_hubs :: "hub_entry list"
  st_hub :: bool                            \<comment> \<open>\<open>hub.is_some()\<close>\<close>
  st_hub_authenticated :: bool
  st_hub_connected :: bool
  st_hub_connecting :: bool
  st_hub_connect_time :: int
  st_hub_auth_state :: hub_auth_state
  st_current_hub :: string
  st_last_hub_connect_attempt :: int
  st_last_hub_pong_sent :: int
  st_presence_server :: string
  st_last_presence_sent :: int
  st_unban_jobs :: "unban_job list"
  st_sendq :: sendq
  st_isup :: isupport
  st_net_modes :: string
  st_net_settings :: string
  st_net_set :: chan_settings
  st_net_ts :: int
  st_cfg_bans :: "cfg_ban list"
  st_chan_event :: chan_event_lim
  st_cfg_gen :: "32 word"
  st_enf_seen_gen :: "32 word"
  st_jobs :: "pending_job list"
  st_ban_track :: "ban_track list"
  st_auth_gen :: "32 word"
  st_auth_seen_cfg_gen :: "32 word"
  st_auth_fp :: "64 word"
  st_auth_fp_ms :: int
  st_offences :: "offence_ent list"
  st_enf_recent :: "enf_recent list"
  st_enf_recent_idx :: nat
  st_enf_last_minute :: int
  st_flood :: bot_flood
  st_actual_server_name :: string
  st_actual_hostname :: string
  st_actual_hostname_ts :: int
  st_current_nick_ts :: int
  st_last_irc_attempt :: int
  st_connection_time :: int
  st_last_pong_time :: int
  st_nick_release_time :: int
  st_last_nick_attempt :: int
  st_nick_refused :: string
  st_pong_pending :: bool
  st_nick_change_pending :: bool
  st_last_auth_reply_any :: int
  st_admin_delta_pending :: bool
  st_recent_nonces :: nonce_cache
  st_admin_nonces :: nonce_cache
  st_opt_flags_ts :: int
  st_self_pub_set :: bool
  st_last_hub_activity :: int
  st_last_op_request_sent :: int
  st_last_chan_request_sent :: int
  st_chan_req_fallback_idx :: nat
  st_bot_tree :: "bot_tree_row list"
  st_bot_tree_ts :: int
  st_user :: string
  st_gecos :: string
  st_vhost :: string
  st_log_level :: "32 word"
  st_log_max :: int
  st_bot_start_time :: int
  st_last_hub_ping_time :: int
  st_hub_key :: string
  st_hub_key_raw :: string
  st_self_pub :: string
  st_hub_remote_ed_pub :: string
  st_hub_remote_ed_pub_set :: bool
  st_session_key :: string
  st_activity :: "activity_query list"
  st_upgrade :: upgrade
  st_rnd :: nat                             \<comment> \<open>draws made from the random generator\<close>
  st_disk :: "string option"                \<comment> \<open>the plaintext the configuration file holds\<close>
  st_hub_raw :: "string list"               \<comment> \<open>handshake messages given to the hub link\<close>
  st_irc_out :: "string list"               \<comment> \<open>lines given to the IRC socket, oldest first\<close>
  st_hub_out :: "(nat \<times> string) list"       \<comment> \<open>frames given to the hub link, oldest first\<close>

text \<open>\<open>BotState::new\<close>, at the time \<open>t\<close> and the monotonic time \<open>ms\<close>.\<close>

definition bot_new :: "int \<Rightarrow> int \<Rightarrow> bot_state" where
  "bot_new t ms = \<lparr>st_status = 0, st_current_nick = [], st_target_nick = [], st_server_list = [],
     st_current_server_index = 0, st_server_blocks = replicate MAX_SERVERS default_server_block,
     st_irc_server_idx = None, st_irc_refusal_ban = False, st_irc_refusal = [],
     st_irc_blocked_logged = False, st_nick_generation_attempt = 0, st_irc = False,
     st_dcc = replicate DCC_MAX_SESSIONS default_dcc, st_dcc_reply = None, st_a2r = default_a2r,
     st_chans = [], st_trusted_bots = [], st_user_records = [], st_mask_records = [],
     st_config_dirty = False, st_opt_flags = [], st_bot_uuid = [], st_hubs = [], st_hub = False,
     st_hub_authenticated = False, st_hub_connected = False, st_hub_connecting = False,
     st_hub_connect_time = 0, st_hub_auth_state = HA_None, st_current_hub = [],
     st_last_hub_connect_attempt = 0, st_last_hub_pong_sent = 0, st_presence_server = [],
     st_last_presence_sent = 0, st_unban_jobs = replicate MAX_UNBAN_JOBS default_unban_job,
     st_sendq = default_sendq ms, st_isup = default_isupport, st_net_modes = [],
     st_net_settings = [], st_net_set = default_settings, st_net_ts = 0, st_cfg_bans = [],
     st_chan_event = default_event_lim, st_cfg_gen = 0, st_enf_seen_gen = 0,
     st_jobs = replicate MAX_PENDING_JOBS default_job, st_ban_track = [], st_auth_gen = 0,
     st_auth_seen_cfg_gen = 0, st_auth_fp = 0, st_auth_fp_ms = 0,
     st_offences = replicate MAX_OFFENCES default_offence,
     st_enf_recent = replicate ENF_RECENT default_recent, st_enf_recent_idx = 0,
     st_enf_last_minute = 0, st_flood = default_bot_flood,
     st_actual_server_name = [], st_actual_hostname = [], st_actual_hostname_ts = 0,
     st_current_nick_ts = t, st_last_irc_attempt = 0, st_connection_time = 0,
     st_last_pong_time = t, st_nick_release_time = t - NICK_TAKE_TIME, st_last_nick_attempt = 0,
     st_nick_refused = [], st_pong_pending = False, st_nick_change_pending = False,
     st_last_auth_reply_any = 0, st_admin_delta_pending = False,
     st_recent_nonces = nonce_new NONCE_CACHE_SIZE, st_admin_nonces = nonce_new MAX_SEEN_HASHES,
     st_opt_flags_ts = 0, st_self_pub_set = False, st_last_hub_activity = 0,
     st_last_op_request_sent = 0, st_last_chan_request_sent = 0, st_chan_req_fallback_idx = 0,
     st_bot_tree = [], st_bot_tree_ts = 0, st_user = [], st_gecos = [], st_vhost = [],
     st_log_level = DEFAULT_LOG_LEVEL, st_log_max = BOT_LOG_FILE_SIZE, st_bot_start_time = t,
     st_last_hub_ping_time = 0, st_hub_key = [],
     st_hub_key_raw = replicate HUB_KEY_RAW_LEN (CHR 0x00),
     st_self_pub = replicate HUB_KEY_RAW_LEN (CHR 0x00),
     st_hub_remote_ed_pub = replicate 32 (CHR 0x00), st_hub_remote_ed_pub_set = False,
     st_session_key = replicate 32 (CHR 0x00), st_activity = [], st_upgrade = default_upgrade, st_rnd = 0, st_disk = None, st_hub_raw = [],
     st_irc_out = [], st_hub_out = []\<rparr>"

text \<open>A new bot without its large tables, for examples that do not look at them.\<close>

definition lean_bot :: bot_state where
  "lean_bot = (bot_new 0 0)\<lparr>st_recent_nonces := nonce_new 0, st_admin_nonces := nonce_new 0,
     st_dcc := [], st_unban_jobs := [], st_offences := [], st_enf_recent := [],
     st_flood := default_bot_flood\<lparr>bf_ignores := [], bf_host_flood := [], bf_cmd_flood := []\<rparr>,
     st_hub_key_raw := [], st_self_pub := [], st_hub_remote_ed_pub := [], st_session_key := []\<rparr>"

text \<open>
  What an operation reads from outside: the wall clock in seconds, the monotonic clock in
  milliseconds, and whether each socket takes what it is given (a socket may answer
  differently after every line, so the answer may depend on all that was sent before).  The
  hub link encrypts first, so its answer is one of three: the frame was queued, it could not
  be sealed, the link failed (a write error or a full buffer).
\<close>

datatype hub_ans = HubQueued | HubNoSeal | HubError

record env =
  e_now :: int
  e_ms :: int
  e_irc_ok :: "string list \<Rightarrow> string \<Rightarrow> bool"
  e_hub :: "(nat \<times> string) list \<Rightarrow> nat \<Rightarrow> string \<Rightarrow> hub_ans"
  e_dcc :: "nat \<Rightarrow> string \<Rightarrow> string option"      \<comment> \<open>what a chat's socket leaves unsent, or its error\<close>
  e_seal :: "string \<Rightarrow> string option"            \<comment> \<open>a sealed reply in base64\<close>
  e_sha :: "string \<Rightarrow> 64 word"                  \<comment> \<open>the first 8 bytes of a SHA-256 digest, big endian\<close>
  e_rand :: "nat \<Rightarrow> nat"                        \<comment> \<open>a random index below its argument\<close>
  e_rnd :: "nat \<Rightarrow> nat \<Rightarrow> string option"    \<comment> \<open>the \<open>k\<close>th draw of \<open>n\<close> random bytes, unless it fails\<close>
  e_version :: string                           \<comment> \<open>\<open>BOT_VERSION\<close>, which the build may override\<close>
  e_gm_time :: "int \<Rightarrow> string \<Rightarrow> string option" \<comment> \<open>a UTC time in a \<open>chrono\<close> format, if it has a date\<close>
  e_arch :: string
  e_libc :: string
  e_prepare :: "string \<Rightarrow> string \<Rightarrow> string \<Rightarrow> string \<Rightarrow> string option"
    \<comment> \<open>the updater's check of a build: version, variant, oldest source, base; the reason it cannot\<close>
  e_commit :: "string \<Rightarrow> string \<Rightarrow> string \<Rightarrow> string \<Rightarrow> string option"
    \<comment> \<open>the updater's install of a build: why it refused, or none when the process was replaced\<close>
  e_rollback :: bool                            \<comment> \<open>the updater's return to the retained build\<close>
  e_marker :: "(string \<times> string \<times> string \<times> string list) option"
    \<comment> \<open>the hand-off note of an upgrade: run, version, variant, channels held ops in\<close>
  e_disk :: "string \<Rightarrow> bool"                    \<comment> \<open>whether the encrypted file can be replaced\<close>
  e_hub_raw :: "string \<Rightarrow> bool"                 \<comment> \<open>whether the hub link takes a handshake message\<close>
  e_b64 :: "string \<Rightarrow> string"                   \<comment> \<open>base64, padded\<close>
  e_unb64 :: "string \<Rightarrow> string option"          \<comment> \<open>its decoder, strict\<close>
  e_unb64_any :: "string \<Rightarrow> string option"      \<comment> \<open>its decoder, padding and trailing bits ignored\<close>
  e_x_pub :: "string \<Rightarrow> string"                 \<comment> \<open>the X25519 public key of a private one\<close>
  e_x_dh :: "string \<Rightarrow> string \<Rightarrow> string option" \<comment> \<open>X25519, refused when not contributory\<close>
  e_ed_pub :: "string \<Rightarrow> string"                \<comment> \<open>the Ed25519 public key of a seed\<close>
  e_ed_sign :: "string \<Rightarrow> string \<Rightarrow> string"
  e_ed_verify :: "string \<Rightarrow> string \<Rightarrow> string \<Rightarrow> bool"
  e_hkdf :: "string \<Rightarrow> string \<Rightarrow> string \<Rightarrow> nat \<Rightarrow> string option" \<comment> \<open>input, salt, info, length\<close>
  e_gcm_enc :: "string \<Rightarrow> string \<Rightarrow> string \<Rightarrow> string \<Rightarrow> (string \<times> string) option"
    \<comment> \<open>AES-256-GCM: key, nonce, associated data, text\<close>
  e_gcm_dec :: "string \<Rightarrow> string \<Rightarrow> string \<Rightarrow> string \<Rightarrow> string \<Rightarrow> string option"

text \<open>An environment in which every socket takes what it is given, for examples; its ciphers keep
  nothing secret.\<close>

definition calm_env :: "int \<Rightarrow> env" where
  "calm_env t = \<lparr>e_now = t, e_ms = t * 1000, e_irc_ok = \<lambda>_ _. True, e_hub = \<lambda>_ _ _. HubQueued,
     e_dcc = \<lambda>_ _. Some [], e_seal = \<lambda>_. None, e_sha = \<lambda>_. 0, e_rand = \<lambda>_. 0,
     e_rnd = \<lambda>k n. Some (replicate n (CHR 0x00)), e_version = ''2.4.8'', e_gm_time = \<lambda>_ _. None, e_arch = [],
     e_libc = [], e_prepare = \<lambda>_ _ _ _. None, e_commit = \<lambda>_ _ _ _. Some [], e_rollback = False, e_marker = None,
     e_disk = \<lambda>_. True,
     e_hub_raw = \<lambda>_. True, e_b64 = \<lambda>s. s, e_unb64 = Some, e_unb64_any = (\<lambda>s. if s = [] then None else Some s),
     e_x_pub = \<lambda>k. k, e_x_dh = \<lambda>_ _. Some [], e_ed_pub = \<lambda>k. k, e_ed_sign = \<lambda>_ _. [],
     e_ed_verify = \<lambda>_ _ _. True, e_hkdf = \<lambda>_ _ _ n. Some (replicate n (CHR 0x00)),
     e_gcm_enc = \<lambda>_ _ _ pt. Some (pt, replicate GCM_TAG_LEN (CHR 0x00)),
     e_gcm_dec = \<lambda>_ _ _ ct _. Some ct\<rparr>"

definition S_CONNECTED :: "32 word" where "S_CONNECTED = 1"
definition S_AUTHED :: "32 word" where "S_AUTHED = 2"

definition is_connected :: "bot_state \<Rightarrow> bool" where
  "is_connected st \<longleftrightarrow> st_status st AND S_CONNECTED \<noteq> 0"

definition is_opt_set :: "bot_state \<Rightarrow> char \<Rightarrow> bool" where
  "is_opt_set st c \<longleftrightarrow> c \<in> set (st_opt_flags st)"

end
