(* ===== verification/Ring.thy ===== *)
theory Ring
  imports Main
begin

text \<open>
  A fixed array written round and round by an index, as the replay cache, the event limiter and
  the recent-action memory use it.  Read from the index on, the array is a bounded queue: oldest
  element first, a push drops the head and appends.
\<close>

definition ring_push :: "'a \<Rightarrow> 'a list \<times> nat \<Rightarrow> 'a list \<times> nat" where
  "ring_push x r = ((fst r)[snd r := x], (snd r + 1) mod length (fst r))"

definition ring_ok :: "nat \<Rightarrow> 'a list \<times> nat \<Rightarrow> bool" where
  "ring_ok cap r \<longleftrightarrow> length (fst r) = cap \<and> snd r < cap"

definition ring_list :: "'a list \<times> nat \<Rightarrow> 'a list" where
  "ring_list r = rotate (snd r) (fst r)"

lemma ring_push_ok [simp, intro]: "ring_ok cap r \<Longrightarrow> ring_ok cap (ring_push x r)"
  by (auto simp: ring_ok_def ring_push_def)

lemma ring_pushes_ok: "ring_ok cap r \<Longrightarrow> ring_ok cap (foldl (\<lambda>r x. ring_push x r) r es)"
  by (induction es arbitrary: r) auto

lemma ring_list_length: "ring_ok cap r \<Longrightarrow> length (ring_list r) = cap"
  by (simp add: ring_ok_def ring_list_def)

lemma ring_list_set: "set (ring_list r) = set (fst r)"
  by (simp add: ring_list_def)

lemma ring_hd: "ring_ok cap r \<Longrightarrow> hd (ring_list r) = fst r ! snd r"
  by (cases "fst r") (auto simp: ring_ok_def ring_list_def hd_rotate_conv_nth)

lemma ring_push_list:
  assumes "ring_ok cap r"
  shows "ring_list (ring_push x r) = tl (ring_list r) @ [x]"
proof (rule nth_equalityI)
  obtain xs i where r: "r = (xs, i)" by (cases r)
  have i: "i < length xs" "length xs = cap" using assms r by (auto simp: ring_ok_def)
  show "length (ring_list (ring_push x r)) = length (tl (ring_list r) @ [x])"
    using i by (simp add: r ring_list_def ring_push_def)
  fix n assume "n < length (ring_list (ring_push x r))"
  then have n: "n < length xs" by (simp add: r ring_list_def ring_push_def)
  have wrap: "((i + 1) mod length xs + n) mod length xs = (i + (n + 1)) mod length xs"
    by (simp add: mod_simps add.assoc)
  have l: "ring_list (ring_push x r) ! n = xs[i := x] ! ((i + (n + 1)) mod length xs)"
    using n wrap by (simp add: r ring_list_def ring_push_def nth_rotate)
  show "ring_list (ring_push x r) ! n = (tl (ring_list r) @ [x]) ! n"
  proof (cases "n + 1 < length xs")
    case True
    then have "(i + (n + 1)) mod length xs \<noteq> i"
      using i by (cases "i + (n + 1) < length xs") (auto simp: mod_if not_less)
    then show ?thesis
      using True less_diff_conv [of n "length xs" 1]
      by (simp add: l) (simp add: r ring_list_def nth_append nth_tl nth_rotate)
  next
    case False
    then have "n + 1 = length xs" using n by simp
    then have "(i + (n + 1)) mod length xs = i" using i by simp
    then show ?thesis
      using i False n less_diff_conv [of n "length xs" 1]
      by (simp add: l) (simp add: r ring_list_def nth_append)
  qed
qed

lemma ring_pushes_list:
  "ring_ok cap r \<Longrightarrow> 0 < cap \<Longrightarrow>
     ring_list (foldl (\<lambda>r x. ring_push x r) r es) = drop (length es) (ring_list r @ es)"
proof (induction es arbitrary: r)
  case (Cons e es)
  have "ring_list r \<noteq> []" using ring_list_length [OF Cons.prems(1)] Cons.prems(2) by auto
  then show ?case
    using Cons.IH [OF ring_push_ok [OF Cons.prems(1)] Cons.prems(2), of e]
    by (cases "ring_list r") (simp_all add: ring_push_list [OF Cons.prems(1)])
qed simp

text \<open>The last \<open>cap\<close> elements pushed are in the ring.\<close>

lemma ring_stays:
  assumes "ring_ok cap r" "length es < cap"
  shows "x \<in> set (fst (foldl (\<lambda>r x. ring_push x r) (ring_push x r) es))"
proof -
  have "0 < cap" using assms by simp
  then have "ring_list (foldl (\<lambda>r x. ring_push x r) (ring_push x r) es) =
      drop (length es) (tl (ring_list r) @ [x] @ es)"
    using ring_pushes_list [OF ring_push_ok [OF assms(1)], of x es]
    by (simp add: ring_push_list [OF assms(1)])
  also have "x \<in> set \<dots>"
    using assms ring_list_length [OF assms(1)] by simp
  finally show ?thesis using ring_list_set by metis
qed

end
