(* ===== verification/Lww.thy ===== *)
theory Lww
  imports State Ring "HOL-Library.List_Lexorder" "HOL-Library.Multiset"
begin

text \<open>
  The small rules of \<open>src/src/state.rs\<close>: the stamp of a changed record, when a replicated record
  replaces the one held, the validity of nicks, and the replay cache of nonces.

  The locale \<open>lww\<close> is the interface between the acceptance tests and the code that applies
  replicated records: an acceptance test is a strict weak order, and from that alone a node
  that applies the same records in another order ends up with a record of the same rank;
  \<open>lww_total\<close> adds that records of the same rank are equal, and then it is the same record.
\<close>

section \<open>Acceptance\<close>

definition lww_next_ts :: "int \<Rightarrow> int \<Rightarrow> int" where
  "lww_next_ts now prev = (if now > prev then now else prev + 1)"

definition lww_accepts :: "int \<Rightarrow> bool \<Rightarrow> int \<Rightarrow> bool \<Rightarrow> bool" where
  "lww_accepts in_ts in_active cur_ts cur_active \<longleftrightarrow>
     in_ts > cur_ts \<or> (in_ts = cur_ts \<and> cur_active \<and> \<not> in_active)"

definition opt_accepts :: "int \<Rightarrow> string \<Rightarrow> int \<Rightarrow> string \<Rightarrow> bool" where
  "opt_accepts in_ts in_flags cur_ts cur_flags \<longleftrightarrow>
     in_ts > cur_ts \<or> (in_ts = cur_ts \<and> map byte in_flags > map byte cur_flags)"

lemma lww_next_ts_newer: "lww_accepts (lww_next_ts now prev) a prev b"
  by (simp add: lww_accepts_def lww_next_ts_def)

section \<open>The interface of an acceptance test\<close>

locale lww =
  fixes acc :: "'a \<Rightarrow> 'a \<Rightarrow> bool"
  assumes asym: "acc a b \<Longrightarrow> \<not> acc b a"
    and negtrans: "acc a c \<Longrightarrow> acc a b \<or> acc b c"
begin

definition same :: "'a \<Rightarrow> 'a \<Rightarrow> bool" where
  "same a b \<longleftrightarrow> \<not> acc a b \<and> \<not> acc b a"

definition merge :: "'a \<Rightarrow> 'a \<Rightarrow> 'a" where
  "merge cur new = (if acc new cur then new else cur)"

lemma irrefl: "\<not> acc a a"
  using asym by blast

lemma trans: "acc a b \<Longrightarrow> acc b c \<Longrightarrow> acc a c"
  using asym negtrans by blast

lemma same_trans: "same a b \<Longrightarrow> same b c \<Longrightarrow> same a c"
  unfolding same_def using negtrans by blast

lemma merges_from: "foldl merge c xs \<in> insert c (set xs)"
  by (induction xs arbitrary: c) (auto simp: merge_def split: if_splits)

lemma merges_top: "x = c \<or> x \<in> set xs \<Longrightarrow> \<not> acc x (foldl merge c xs)"
proof (induction xs arbitrary: c x)
  case Nil
  then show ?case by (simp add: irrefl)
next
  case (Cons y ys)
  have m: "\<not> acc c (merge c y)" "\<not> acc y (merge c y)"
    using asym irrefl by (auto simp: merge_def)
  have "\<not> acc (merge c y) (foldl merge (merge c y) ys)" using Cons.IH by simp
  moreover have "\<not> acc x (merge c y) \<or> x \<in> set ys" using Cons.prems m by auto
  moreover have "x \<in> set ys \<Longrightarrow> \<not> acc x (foldl merge (merge c y) ys)" using Cons.IH by simp
  ultimately show ?case using negtrans by auto
qed

lemma merge_idem: "merge (merge c x) x = merge c x"
  using irrefl by (simp add: merge_def)

lemma merges_stable: "x = c \<or> x \<in> set xs \<Longrightarrow> merge (foldl merge c xs) x = foldl merge c xs"
  using merges_top unfolding merge_def by auto

lemma converge: "mset (c # xs) = mset (d # ys) \<Longrightarrow> same (foldl merge c xs) (foldl merge d ys)"
proof -
  assume "mset (c # xs) = mset (d # ys)"
  then have "set (c # xs) = set (d # ys)" by (rule mset_eq_setD)
  then have e: "insert c (set xs) = insert d (set ys)" by simp
  have "\<not> acc (foldl merge c xs) (foldl merge d ys)"
    using merges_top merges_from [of c xs] e by blast
  moreover have "\<not> acc (foldl merge d ys) (foldl merge c xs)"
    using merges_top merges_from [of d ys] e by blast
  ultimately show ?thesis by (simp add: same_def)
qed

end

locale lww_total = lww +
  assumes same_eq: "\<not> acc a b \<Longrightarrow> \<not> acc b a \<Longrightarrow> a = b"
begin

lemma converge_eq: "mset (c # xs) = mset (d # ys) \<Longrightarrow> foldl merge c xs = foldl merge d ys"
  using converge same_eq unfolding same_def by blast

end

definition opt_acc :: "int \<times> string \<Rightarrow> int \<times> string \<Rightarrow> bool" where
  "opt_acc n c = opt_accepts (fst n) (snd n) (fst c) (snd c)"

definition ts_acc :: "int \<times> bool \<Rightarrow> int \<times> bool \<Rightarrow> bool" where
  "ts_acc n c = lww_accepts (fst n) (snd n) (fst c) (snd c)"

lemma inj_map_byte: "map byte s = map byte t \<longleftrightarrow> s = t"
  by (rule inj_map_eq_map) (simp add: inj_def)

interpretation opt: lww_total opt_acc
proof unfold_locales
  fix a b c :: "int \<times> string"
  show "opt_acc a b \<Longrightarrow> \<not> opt_acc b a" by (auto simp: opt_acc_def opt_accepts_def)
  show "opt_acc a c \<Longrightarrow> opt_acc a b \<or> opt_acc b c"
    unfolding opt_acc_def opt_accepts_def using less_trans not_less_iff_gr_or_eq by metis
  show "\<not> opt_acc a b \<Longrightarrow> \<not> opt_acc b a \<Longrightarrow> a = b"
    by (cases a; cases b) (auto simp: opt_acc_def opt_accepts_def not_less order_antisym inj_map_byte
        intro: antisym dest!: order_antisym[of "map byte _"])
qed

interpretation ts: lww_total ts_acc
  by unfold_locales (auto simp: ts_acc_def lww_accepts_def)

section \<open>Nicks and control bytes\<close>

definition is_valid_bot_nick :: "string \<Rightarrow> bool" where
  "is_valid_bot_nick nick \<longleftrightarrow> nick \<noteq> [] \<and> length nick < MAX_NICK \<and> CHR ''|'' \<notin> set nick"

definition rfc_nick_byte :: "nat \<Rightarrow> char \<Rightarrow> bool" where
  "rfc_nick_byte i c \<longleftrightarrow> is_alpha c \<or> c \<in> {CHR ''['', CHR '']'', CHR 0x5C, CHR 0x60, CHR ''_'', CHR ''^'', CHR ''{'', CHR ''}''} \<or> ((is_digit c \<or> c = CHR ''-'') \<and> i \<noteq> 0)"

definition is_rfc_nick :: "string \<Rightarrow> bool" where
  "is_rfc_nick nick \<longleftrightarrow> is_valid_bot_nick nick \<and>
     list_all (\<lambda>(i, c). rfc_nick_byte i c) (enumerate 0 nick)"

definition has_control_bytes :: "string \<Rightarrow> bool" where
  "has_control_bytes buf \<longleftrightarrow> list_ex (\<lambda>b. byte b < 0x20 \<or> byte b = 0x7f) buf"

section \<open>The replay cache\<close>

definition nonce_seen :: "nonce_cache \<Rightarrow> 64 word \<Rightarrow> int \<Rightarrow> bool" where
  "nonce_seen nc nonce now \<longleftrightarrow>
     list_ex (\<lambda>(n, ts). n = nonce \<and> now - ts \<le> NONCE_TTL_SECONDS) (nc_entries nc)"

definition nonce_record :: "nonce_cache \<Rightarrow> 64 word \<Rightarrow> int \<Rightarrow> nonce_cache" where
  "nonce_record nc nonce now =
     nc\<lparr>nc_entries := (nc_entries nc)[nc_idx nc := (nonce, now)],
        nc_idx := (nc_idx nc + 1) mod length (nc_entries nc)\<rparr>"

definition nonce_records :: "nonce_cache \<Rightarrow> (64 word \<times> int) list \<Rightarrow> nonce_cache" where
  "nonce_records nc es = foldl (\<lambda>c (n, t). nonce_record c n t) nc es"

definition nonce_ok :: "nat \<Rightarrow> nonce_cache \<Rightarrow> bool" where
  "nonce_ok cap nc \<longleftrightarrow> length (nc_entries nc) = cap \<and> nc_idx nc < cap"

lemma nonce_new_ok: "0 < cap \<Longrightarrow> nonce_ok cap (nonce_new cap)"
  by (simp add: nonce_ok_def nonce_new_def)

lemma nonce_record_ok: "nonce_ok cap nc \<Longrightarrow> nonce_ok cap (nonce_record nc n t)"
  by (auto simp: nonce_ok_def nonce_record_def)

lemma nonce_records_ok: "nonce_ok cap nc \<Longrightarrow> nonce_ok cap (nonce_records nc es)"
  unfolding nonce_records_def
  by (induction es arbitrary: nc) (auto intro: nonce_record_ok split: prod.splits)

definition nc_ring :: "nonce_cache \<Rightarrow> (64 word \<times> int) list \<times> nat" where
  "nc_ring nc = (nc_entries nc, nc_idx nc)"

lemma nc_ring_record: "nc_ring (nonce_record nc n t) = ring_push (n, t) (nc_ring nc)"
  by (simp add: nc_ring_def nonce_record_def ring_push_def)

lemma nc_ring_records: "nc_ring (nonce_records nc es) = foldl (\<lambda>r x. ring_push x r) (nc_ring nc) es"
  unfolding nonce_records_def
  by (induction es arbitrary: nc) (auto simp: nc_ring_record split: prod.splits)

lemma nonce_stays:
  assumes "nonce_ok cap nc" "length es < cap"
  shows "(n, t) \<in> set (nc_entries (nonce_records (nonce_record nc n t) es))"
proof -
  have "ring_ok cap (nc_ring nc)" using assms by (simp add: ring_ok_def nc_ring_def nonce_ok_def)
  then show ?thesis
    using ring_stays [of cap "nc_ring nc" es "(n, t)"] assms(2)
      nc_ring_records [of "nonce_record nc n t" es]
    by (simp add: nc_ring_record) (metis fst_conv nc_ring_def)
qed

text \<open>A nonce the cache reports was recorded, or is one of the zero entries it starts with.\<close>

lemma nonce_entries_from:
  "set (nc_entries (nonce_records nc es)) \<subseteq> set (nc_entries nc) \<union> set es"
proof (induction es arbitrary: nc)
  case (Cons e es)
  obtain n t where e: "e = (n, t)" by (cases e)
  have "set (nc_entries (nonce_record nc n t)) \<subseteq> insert e (set (nc_entries nc))"
    unfolding nonce_record_def e by (auto dest: set_update_subset_insert[THEN subsetD])
  then show ?case using Cons [of "nonce_record nc n t"] by (auto simp: nonce_records_def e)
qed (simp add: nonce_records_def)

section \<open>Properties\<close>

text \<open>The hub-pushed opt flags a node holds after one more push.\<close>

definition opt_take :: "int \<times> string \<Rightarrow> int \<times> string \<Rightarrow> int \<times> string" where
  "opt_take cur new = (if opt_accepts (fst new) (snd new) (fst cur) (snd cur) then new else cur)"

lemma opt_take_merge: "opt_take = opt.merge"
  by (intro ext) (simp add: opt_take_def opt.merge_def opt_acc_def)

text \<open>Two nodes that have seen the same stamped flag strings, in any order and each starting
  from any one of them, hold the same flags; seeing one again changes nothing.\<close>

theorem opt_flags_converge:
  assumes "mset (c # xs) = mset (d # ys)"
  shows "foldl opt_take c xs = foldl opt_take d ys \<and>
    (\<forall>x \<in> set xs. opt_take (foldl opt_take c xs) x = foldl opt_take c xs)"
  unfolding opt_take_merge using opt.converge_eq [OF assms] opt.merges_stable by blast

lemma opt_flags_converge_witness:
  "foldl opt_take (1, ''a'') [(2, ''b''), (2, ''h'')] = foldl opt_take (2, ''h'') [(1, ''a''), (2, ''b'')] \<and>
   opt_take (foldl opt_take (1, ''a'') [(2, ''b''), (2, ''h'')]) (2, ''b'') =
     foldl opt_take (1, ''a'') [(2, ''b''), (2, ''h'')]"
proof -
  have "mset ((1, ''a'') # [(2, ''b''), (2, ''h'')]) = mset ((2, ''h'') # [(1::int, ''a''), (2, ''b'')])" by simp
  from opt_flags_converge [OF this] show ?thesis by auto
qed

text \<open>A nonce recorded in the replay cache is reported as seen for its whole lifetime, unless
  the cache has since taken as many nonces as it has places.\<close>

theorem nonce_replay_detected:
  assumes "0 < cap" "length before + length after < cap + length before"
    "now - t \<le> NONCE_TTL_SECONDS"
  shows "nonce_seen (nonce_records (nonce_record (nonce_records (nonce_new cap) before) n t) after) n now"
proof -
  have "nonce_ok cap (nonce_records (nonce_new cap) before)"
    using assms nonce_new_ok nonce_records_ok by blast
  then have "(n, t) \<in> set (nc_entries (nonce_records (nonce_record (nonce_records (nonce_new cap) before) n t) after))"
    using nonce_stays assms by simp
  then show ?thesis unfolding nonce_seen_def list_ex_iff using assms(3) by auto
qed

lemma nonce_replay_detected_witness:
  "nonce_seen (nonce_records (nonce_record (nonce_records (nonce_new 2) [(7, 1), (8, 2), (9, 3)]) 5 100) [(6, 101)]) 5 160"
  by (rule nonce_replay_detected) (simp_all add: limits)

end
