(* ===== verification/HubOut.thy ===== *)
theory HubOut
  imports Lww
begin

text \<open>
  The frames the bot sends to its hub on its own account (\<open>src/src/hub_client.rs\<close>): \<open>send_frame\<close> and
  \<open>disconnect\<close>, the activity report \<open>send_activity\<close>, the record push \<open>push_lines\<close>, and the limited
  enforcement events \<open>chan_event\<close>.  Encryption and the socket are the parameter \<open>e_hub\<close>; what was
  sent is the list \<open>st_hub_out\<close> of opcode and payload, oldest first.
\<close>

section \<open>The link\<close>

definition hub_disconnect :: "env \<Rightarrow> bot_state \<Rightarrow> bot_state" where
  "hub_disconnect e st = st\<lparr>st_hub := False, st_hub_connected := False,
     st_hub_authenticated := False, st_hub_connecting := False, st_hub_connect_time := 0,
     st_hub_auth_state := HA_None, st_session_key := replicate 32 (CHR 0x00), st_current_hub := [],
     st_last_hub_connect_attempt := e_now e, st_last_hub_pong_sent := 0,
     st_presence_server := [], st_last_presence_sent := 0\<rparr>"

definition drop_link :: "bot_state \<Rightarrow> bot_state" where
  "drop_link st = st\<lparr>st_hub := False, st_hub_connected := False,
     st_hub_authenticated := False, st_hub_connecting := False, st_hub_auth_state := HA_None,
     st_session_key := replicate 32 (CHR 0x00)\<rparr>"

definition link_ready :: "bot_state \<Rightarrow> bool" where
  "link_ready st \<longleftrightarrow> st_hubs st \<noteq> [] \<and> st_hub st \<and> st_hub_authenticated st"

definition send_frame :: "env \<Rightarrow> bot_state \<Rightarrow> nat \<Rightarrow> string \<Rightarrow> bool \<times> bot_state" where
  "send_frame e st cmd payload =
     (if \<not> st_hub_authenticated st \<or> \<not> st_hub st then (False, st)
      else if length payload > MAX_BUFFER - 64 then (False, st)
      else case e_hub e (st_hub_out st) cmd payload of
             HubNoSeal \<Rightarrow> (False, st)
           | HubError \<Rightarrow> (False, hub_disconnect e st)
           | HubQueued \<Rightarrow> (True, st\<lparr>st_hub_out := st_hub_out st @ [(cmd, payload)]\<rparr>))"

definition push_lines :: "env \<Rightarrow> bot_state \<Rightarrow> string \<Rightarrow> bool \<times> bot_state" where
  "push_lines e st lines =
     (if \<not> link_ready st \<or> lines = [] then (False, st)
      else send_frame e st CMD_CONFIG_PUSH lines)"

lemma hub_disconnect_out [simp]:
  "st_hub_out (hub_disconnect e st) = st_hub_out st"
  "st_chan_event (hub_disconnect e st) = st_chan_event st"
  "st_user_records (hub_disconnect e st) = st_user_records st"
  "st_mask_records (hub_disconnect e st) = st_mask_records st"
  by (simp_all add: hub_disconnect_def)

lemma send_frame_out:
  "send_frame e st cmd payload = (ok, st') \<Longrightarrow>
     st_hub_out st' = st_hub_out st @ (if ok then [(cmd, payload)] else []) \<and>
     (ok \<longrightarrow> length payload \<le> MAX_BUFFER - 64) \<and>
     st_chan_event st' = st_chan_event st \<and> st_user_records st' = st_user_records st \<and>
     st_mask_records st' = st_mask_records st"
  by (auto simp: send_frame_def split: if_splits hub_ans.splits)

lemma send_frame_ok:
  "st_hub_authenticated st \<Longrightarrow> st_hub st \<Longrightarrow> length payload \<le> MAX_BUFFER - 64 \<Longrightarrow>
     (\<And>out c p. e_hub e out c p = HubQueued) \<Longrightarrow>
     send_frame e st cmd payload = (True, st\<lparr>st_hub_out := st_hub_out st @ [(cmd, payload)]\<rparr>)"
  by (simp add: send_frame_def)

section \<open>Activity reports\<close>

definition act_line :: "nat \<Rightarrow> nat \<Rightarrow> bot_state \<Rightarrow> nat \<Rightarrow> string option" where
  "act_line nu tot st i =
     (if i < nu then
        let u = st_user_records st ! i in
        if u_act_pending u > 0
        then Some (''a|'' @ u_uuid u @ ''|'' @ dec_int (u_act_pending u) @ [CHR 0x0A]) else None
      else if i < tot then
        let m = st_mask_records st ! (i - nu) in
        if m_act_pending m > 0
        then Some (''m|'' @ m_uuid m @ ''|'' @ m_mask m @ ''|'' @ dec_int (m_act_pending m) @ [CHR 0x0A])
        else None
      else None)"

definition act_clear :: "nat \<Rightarrow> bot_state \<Rightarrow> nat \<Rightarrow> bot_state" where
  "act_clear nu st j =
     (if j < nu
      then st\<lparr>st_user_records := (st_user_records st)[j := (st_user_records st ! j)\<lparr>u_act_pending := 0\<rparr>]\<rparr>
      else st\<lparr>st_mask_records :=
             (st_mask_records st)[j - nu := (st_mask_records st ! (j - nu))\<lparr>m_act_pending := 0\<rparr>]\<rparr>)"

fun send_activity_loop :: "env \<Rightarrow> nat \<Rightarrow> nat \<Rightarrow> bot_state \<Rightarrow> string \<Rightarrow> nat \<Rightarrow> nat list \<Rightarrow> bot_state" where
  "send_activity_loop e nu tot st buf first [] = st"
| "send_activity_loop e nu tot st buf first (i # rest) =
     (let line = act_line nu tot st i;
          w = (case line of None \<Rightarrow> 0 | Some l \<Rightarrow> length l)
      in if buf \<noteq> [] \<and> (i = tot \<or> length buf + w > MAX_BUFFER - 64) then
           (case send_frame e st CMD_ACTIVITY buf of
              (False, st') \<Rightarrow> st'
            | (True, st') \<Rightarrow>
                send_activity_loop e nu tot (foldl (act_clear nu) st' [first..<i])
                  (case line of None \<Rightarrow> [] | Some l \<Rightarrow> l) i rest)
         else send_activity_loop e nu tot st
                (buf @ (case line of None \<Rightarrow> [] | Some l \<Rightarrow> l))
                (if buf = [] then i else first) rest)"

definition send_activity :: "env \<Rightarrow> bot_state \<Rightarrow> bot_state" where
  "send_activity e st =
     (if \<not> st_hub_authenticated st \<or> \<not> st_hub st then st
      else let nu = length (st_user_records st); tot = nu + length (st_mask_records st)
           in send_activity_loop e nu tot st [] 0 [0..<tot + 1])"

text \<open>The time a record still owes the hub, users first, then masks.\<close>

definition pend :: "nat \<Rightarrow> bot_state \<Rightarrow> nat \<Rightarrow> int" where
  "pend nu st j = (if j < nu then u_act_pending (st_user_records st ! j)
                   else m_act_pending (st_mask_records st ! (j - nu)))"

definition act_text :: "nat \<Rightarrow> nat \<Rightarrow> bot_state \<Rightarrow> nat \<Rightarrow> string" where
  "act_text nu tot st i = (case act_line nu tot st i of None \<Rightarrow> [] | Some l \<Rightarrow> l)"

definition act_dims :: "nat \<Rightarrow> nat \<Rightarrow> bot_state \<Rightarrow> bool" where
  "act_dims nu tot st \<longleftrightarrow> length (st_user_records st) = nu \<and> nu + length (st_mask_records st) = tot"

lemma act_clear_dims: "act_dims nu tot st \<Longrightarrow> act_dims nu tot (act_clear nu st j)"
  by (simp add: act_dims_def act_clear_def)

lemma act_clear_pend:
  "act_dims nu tot st \<Longrightarrow> j < tot \<Longrightarrow> k < tot \<Longrightarrow>
     pend nu (act_clear nu st j) k = (if k = j then 0 else pend nu st k)"
  by (auto simp: act_dims_def act_clear_def pend_def nth_list_update)

lemma act_clear_line:
  "act_dims nu tot st \<Longrightarrow> k \<noteq> j \<Longrightarrow> act_line nu tot (act_clear nu st j) k = act_line nu tot st k"
proof -
  assume "act_dims nu tot st" "k \<noteq> j"
  show ?thesis
  proof (cases "k < nu")
    case False
    then have "j < nu \<or> k - nu \<noteq> j - nu" using \<open>k \<noteq> j\<close> by arith
    then show ?thesis using False by (auto simp: act_clear_def act_line_def Let_def)
  qed (use \<open>k \<noteq> j\<close> in \<open>auto simp: act_clear_def act_line_def Let_def\<close>)
qed

lemma act_clear_out [simp]: "st_hub_out (act_clear nu st j) = st_hub_out st"
  "st_hub (act_clear nu st j) = st_hub st"
  "st_hub_authenticated (act_clear nu st j) = st_hub_authenticated st"
  by (simp_all add: act_clear_def)

lemma act_clears:
  assumes "act_dims nu tot st" "\<forall>j \<in> set js. j < tot"
  shows "act_dims nu tot (foldl (act_clear nu) st js)"
    "k < tot \<Longrightarrow> pend nu (foldl (act_clear nu) st js) k = (if k \<in> set js then 0 else pend nu st k)"
    "k \<notin> set js \<Longrightarrow> act_line nu tot (foldl (act_clear nu) st js) k = act_line nu tot st k"
    "st_hub_out (foldl (act_clear nu) st js) = st_hub_out st"
    "st_hub (foldl (act_clear nu) st js) = st_hub st"
    "st_hub_authenticated (foldl (act_clear nu) st js) = st_hub_authenticated st"
  using assms
  by (induction js arbitrary: st)
     (auto simp: act_clear_dims act_clear_pend act_clear_line)

lemma act_line_pend: "k < tot \<Longrightarrow> act_line nu tot st k = None \<Longrightarrow> pend nu st k \<le> 0"
  by (auto simp: act_line_def pend_def Let_def split: if_splits)

lemma act_line_nonempty: "act_line nu tot st k = Some l \<Longrightarrow> l \<noteq> []"
  by (auto simp: act_line_def Let_def split: if_splits)

text \<open>
  The loop's invariant against the records \<open>s0\<close> it began with: below \<open>first\<close> everything is
  settled, from \<open>first\<close> on nothing has changed, and \<open>buf\<close> holds the lines between \<open>first\<close>
  and \<open>i\<close>.
\<close>

definition act_inv :: "nat \<Rightarrow> nat \<Rightarrow> bot_state \<Rightarrow> bot_state \<Rightarrow> string \<Rightarrow> nat \<Rightarrow> nat \<Rightarrow> bool" where
  "act_inv nu tot s0 st buf first i \<longleftrightarrow>
     act_dims nu tot st \<and> first \<le> i \<and> first \<le> tot \<and>
     buf = concat (map (act_text nu tot s0) [first..<i]) \<and>
     (\<forall>j < first. pend nu st j \<le> 0) \<and>
     (\<forall>j < tot. first \<le> j \<longrightarrow> pend nu st j = pend nu s0 j \<and> act_line nu tot st j = act_line nu tot s0 j)"

definition act_sent :: "nat \<Rightarrow> nat \<Rightarrow> bot_state \<Rightarrow> (nat \<times> string) list \<Rightarrow> bot_state \<Rightarrow> nat \<Rightarrow> nat \<Rightarrow> bool" where
  "act_sent nu tot s0 out st' first k \<longleftrightarrow>
     first \<le> k \<and> k \<le> tot \<and> (\<exists>frames. st_hub_out st' = out @ frames \<and>
       (\<forall>(c, p) \<in> set frames. c = CMD_ACTIVITY \<and> p \<noteq> [] \<and> length p \<le> MAX_BUFFER - 64) \<and>
       concat (map snd frames) = concat (map (act_text nu tot s0) [first..<k])) \<and>
     (\<forall>j < k. pend nu st' j \<le> 0) \<and> (\<forall>j < tot. k \<le> j \<longrightarrow> pend nu st' j = pend nu s0 j)"

lemma act_sent_join:
  assumes "act_sent nu tot s0 (out @ fr) st' i k" "first \<le> i"
    and "\<forall>(c, p) \<in> set fr. c = CMD_ACTIVITY \<and> p \<noteq> [] \<and> length p \<le> MAX_BUFFER - 64"
    and "concat (map snd fr) = concat (map (act_text nu tot s0) [first..<i])"
  shows "act_sent nu tot s0 out st' first k"
proof -
  obtain fs where fs: "st_hub_out st' = (out @ fr) @ fs"
    "\<forall>(c, p) \<in> set fs. c = CMD_ACTIVITY \<and> p \<noteq> [] \<and> length p \<le> MAX_BUFFER - 64"
    "concat (map snd fs) = concat (map (act_text nu tot s0) [i..<k])" "i \<le> k"
    using assms(1) by (auto simp: act_sent_def)
  have "[first..<k] = [first..<i] @ [i..<k]"
    using assms(2) fs(4) by (metis le_add_diff_inverse upt_add_eq_append)
  then have "concat (map snd (fr @ fs)) = concat (map (act_text nu tot s0) [first..<k])"
    using fs(3) assms(4) by simp
  then have "\<exists>frames. st_hub_out st' = out @ frames \<and>
      (\<forall>(c, p) \<in> set frames. c = CMD_ACTIVITY \<and> p \<noteq> [] \<and> length p \<le> MAX_BUFFER - 64) \<and>
      concat (map snd frames) = concat (map (act_text nu tot s0) [first..<k])"
    using fs(1,2) assms(3) by (intro exI [of _ "fr @ fs"]) auto
  then show ?thesis using assms(1,2) by (auto simp: act_sent_def)
qed

lemma act_inv_flush:
  assumes inv: "act_inv nu tot s0 st buf first i" and i: "i \<le> tot"
    and st': "st_user_records st' = st_user_records st" "st_mask_records st' = st_mask_records st"
  shows "act_inv nu tot s0 (foldl (act_clear nu) st' [first..<i]) (act_text nu tot s0 i) i (Suc i)"
proof -
  have d: "act_dims nu tot st'" using inv st' by (simp add: act_inv_def act_dims_def)
  have p: "pend nu st' j = pend nu st j" "act_line nu tot st' j = act_line nu tot st j" for j
    by (simp_all add: pend_def act_line_def st')
  have js: "\<forall>j \<in> set [first..<i]. j < tot" using i by auto
  note c = act_clears [OF d js]
  show ?thesis
    using inv i unfolding act_inv_def
    by (auto simp: c p)
qed

lemma act_inv_keep:
  assumes inv: "act_inv nu tot s0 st buf first i" and i: "i < tot" and "buf \<noteq> []"
  shows "act_inv nu tot s0 st (buf @ act_text nu tot s0 i) first (Suc i)"
  using assms unfolding act_inv_def by auto

lemma act_inv_skip:
  assumes inv: "act_inv nu tot s0 st [] first i" and i: "i \<le> tot"
  shows "act_inv nu tot s0 st (act_text nu tot s0 i) i (Suc i)"
proof -
  have "pend nu st j \<le> 0" if "j < i" for j
  proof (cases "j < first")
    case False
    then have "act_text nu tot s0 j = []" using inv that by (auto simp: act_inv_def)
    then have "act_line nu tot st j = None"
      using inv that i False act_line_nonempty
      by (auto simp: act_inv_def act_text_def split: option.splits)
    then show ?thesis using act_line_pend that i by (meson less_le_trans)
  qed (use inv in \<open>auto simp: act_inv_def\<close>)
  then show ?thesis using inv i unfolding act_inv_def by auto
qed

lemma act_inv_text:
  "act_inv nu tot s0 st buf first i \<Longrightarrow> i \<le> tot \<Longrightarrow> act_text nu tot st i = act_text nu tot s0 i"
  by (cases "i = tot") (auto simp: act_inv_def act_text_def act_dims_def act_line_def)

lemma act_sent_stop:
  assumes "act_inv nu tot s0 st buf first i" "st_user_records st' = st_user_records st"
    "st_mask_records st' = st_mask_records st" "st_hub_out st' = out"
  shows "act_sent nu tot s0 out st' first first"
proof -
  have "pend nu st' j = pend nu st j" for j by (simp add: pend_def assms)
  then show ?thesis using assms(1,4) by (simp add: act_sent_def act_inv_def)
qed

definition hub_always :: "env \<Rightarrow> bool" where
  "hub_always e \<longleftrightarrow> (\<forall>out c p. e_hub e out c p = HubQueued)"

text \<open>Nothing stops the loop: the link takes every frame and every line fits one.\<close>

definition act_flow :: "env \<Rightarrow> nat \<Rightarrow> nat \<Rightarrow> bot_state \<Rightarrow> bot_state \<Rightarrow> string \<Rightarrow> bool" where
  "act_flow e nu tot s0 st buf \<longleftrightarrow> hub_always e \<and> st_hub st \<and> st_hub_authenticated st \<and>
     length buf \<le> MAX_BUFFER - 64 \<and> (\<forall>j. length (act_text nu tot s0 j) \<le> MAX_BUFFER - 64)"

lemma act_loop:
  assumes "act_inv nu tot s0 st buf first i" "i = Suc tot \<Longrightarrow> first = tot" "rest = [i..<Suc tot]"
    "i \<le> Suc tot"
  shows "\<exists>k. act_sent nu tot s0 (st_hub_out st) (send_activity_loop e nu tot st buf first rest) first k
    \<and> (act_flow e nu tot s0 st buf \<longrightarrow> k = tot)"
  using assms
proof (induction rest arbitrary: st buf first i)
  case Nil
  then have "i = Suc tot" by (simp split: if_splits)
  then show ?case using Nil act_sent_stop [OF Nil.prems(1)] by auto
next
  case (Cons j rest)
  have i: "i \<le> tot" "j = i" "rest = [Suc i..<Suc tot]"
    using Cons.prems(3) [symmetric] unfolding upt_eq_Cons_conv by auto
  note inv = Cons.prems(1)
  have upto: "first \<le> i" "first \<le> tot" using inv by (auto simp: act_inv_def)
  have t: "(case act_line nu tot st i of None \<Rightarrow> [] | Some l \<Rightarrow> l) = act_text nu tot s0 i"
    using act_inv_text [OF inv i(1)] by (simp add: act_text_def)
  let ?w = "case act_line nu tot st i of None \<Rightarrow> 0 | Some l \<Rightarrow> length l"
  show ?case
  proof (cases "buf \<noteq> [] \<and> (i = tot \<or> length buf + ?w > MAX_BUFFER - 64)")
    case True
    obtain ok st' where s: "send_frame e st CMD_ACTIVITY buf = (ok, st')" by fastforce
    note o = send_frame_out [OF s]
    show ?thesis
    proof (cases ok)
      case False
      then have "send_activity_loop e nu tot st buf first (j # rest) = st'"
        using True s i by (simp add: Let_def)
      moreover have "act_sent nu tot s0 (st_hub_out st) st' first first"
        using act_sent_stop [OF inv] o False by simp
      moreover have "\<not> act_flow e nu tot s0 st buf"
        using s False by (auto simp: act_flow_def hub_always_def send_frame_def)
      ultimately show ?thesis by auto
    next
      case okT: True
      let ?s = "foldl (act_clear nu) st' [first..<i]"
      have eq: "send_activity_loop e nu tot st buf first (j # rest) =
          send_activity_loop e nu tot ?s (act_text nu tot s0 i) i rest"
        using True s okT i t by (simp add: Let_def)
      have inv': "act_inv nu tot s0 ?s (act_text nu tot s0 i) i (Suc i)"
        using act_inv_flush [OF inv i(1)] o by simp
      obtain k where k: "act_sent nu tot s0 (st_hub_out ?s)
          (send_activity_loop e nu tot ?s (act_text nu tot s0 i) i rest) i k"
          and all: "act_flow e nu tot s0 ?s (act_text nu tot s0 i) \<longrightarrow> k = tot"
        using Cons.IH [OF inv'] i by auto
      have d: "act_dims nu tot st'" using inv o by (simp add: act_inv_def act_dims_def)
      have "st_hub st' = st_hub st \<and> st_hub_authenticated st' = st_hub_authenticated st"
        using s okT by (auto simp: send_frame_def split: if_splits hub_ans.splits)
      then have fl: "act_flow e nu tot s0 st buf \<longrightarrow> k = tot"
        using all act_clears(5,6) [OF d] i by (auto simp: act_flow_def)
      from d have "st_hub_out ?s = st_hub_out st @ [(CMD_ACTIVITY, buf)]"
        using o okT act_clears(4) i by simp
      then have "act_sent nu tot s0 (st_hub_out st)
          (send_activity_loop e nu tot ?s (act_text nu tot s0 i) i rest) first k"
      proof (intro act_sent_join [OF _ upto(1), of nu tot s0 _ "[(CMD_ACTIVITY, buf)]"])
        show "concat (map snd [(CMD_ACTIVITY, buf)]) = concat (map (act_text nu tot s0) [first..<i])"
          using inv by (simp add: act_inv_def)
        show "\<forall>(c, p) \<in> set [(CMD_ACTIVITY, buf)].
            c = CMD_ACTIVITY \<and> p \<noteq> [] \<and> length p \<le> MAX_BUFFER - 64"
          using o okT True by simp
      qed (use k \<open>st_hub_out ?s = _\<close> in simp)
      then show ?thesis using eq fl by auto
    qed
  next
    case False
    have eq: "send_activity_loop e nu tot st buf first (j # rest) =
        send_activity_loop e nu tot st (buf @ act_text nu tot s0 i) (if buf = [] then i else first) rest"
      using False i t by (auto simp: Let_def)
    show ?thesis
    proof (cases "buf = []")
      case True
      have inv': "act_inv nu tot s0 st (act_text nu tot s0 i) i (Suc i)"
        using act_inv_skip inv i True by simp
      obtain k where k: "act_sent nu tot s0 (st_hub_out st)
          (send_activity_loop e nu tot st (act_text nu tot s0 i) i rest) i k"
          and all: "act_flow e nu tot s0 st (act_text nu tot s0 i) \<longrightarrow> k = tot"
        using Cons.IH [OF inv'] i by auto
      have "act_flow e nu tot s0 st buf \<longrightarrow> k = tot"
        using all by (auto simp: act_flow_def)
      moreover from k have "act_sent nu tot s0 (st_hub_out st)
          (send_activity_loop e nu tot st (act_text nu tot s0 i) i rest) first k"
        by (rule act_sent_join [OF _ upto(1), of nu tot s0 _ "[]", simplified])
           (use inv True in \<open>simp add: act_inv_def\<close>)
      ultimately show ?thesis using eq True by auto
    next
      case b: False
      then have lt: "i < tot" using False i by auto
      have "length (act_text nu tot s0 i) = ?w"
        using t by (auto split: option.splits)
      then have "act_flow e nu tot s0 st buf \<longrightarrow> act_flow e nu tot s0 st (buf @ act_text nu tot s0 i)"
        using False b by (auto simp: act_flow_def)
      then show ?thesis
        using Cons.IH [OF act_inv_keep [OF inv lt b]] eq b i lt by auto
    qed
  qed
qed

section \<open>Enforcement events\<close>

definition CHAN_EVENT_ACTIONS :: "string list" where
  "CHAN_EVENT_ACTIONS = [''deop'', ''reop'', ''kick'', ''ban'', ''unban'', ''moderevert'',
     ''limit'', ''floodtrip'', ''ignore'']"

definition event_char :: "string \<Rightarrow> string" where
  "event_char ch = (if length ch = 1 \<and> (is_ctl (hd ch) \<or> hd ch = CHR ''|'') then '' '' else ch)"

fun event_clean_loop :: "nat \<Rightarrow> string \<Rightarrow> string list \<Rightarrow> string" where
  "event_clean_loop cap out [] = out"
| "event_clean_loop cap out (ch # chs) =
     (if length out + length ch + 1 > cap then out
      else event_clean_loop cap (out @ event_char ch) chs)"

definition event_clean :: "nat \<Rightarrow> string \<Rightarrow> string" where
  "event_clean cap src = event_clean_loop cap [] (utf8_chars src)"

text \<open>The scan of \<open>lim.seen\<close>: the slot of \<open>key\<close>, and the oldest of the slots passed.\<close>

fun ev_scan :: "(string \<times> int) list \<Rightarrow> string \<Rightarrow> nat \<Rightarrow> nat \<Rightarrow> (string \<times> int) list \<Rightarrow> nat option \<times> nat" where
  "ev_scan seen key i oldest [] = (None, oldest)"
| "ev_scan seen key i oldest (x # xs) =
     (if snd x \<noteq> 0 \<and> fst x = key then (Some i, oldest)
      else ev_scan seen key (i + 1) (if snd x < snd (seen ! oldest) then i else oldest) xs)"

definition ev_limited :: "chan_event_lim \<Rightarrow> nat option \<Rightarrow> int \<Rightarrow> bool" where
  "ev_limited lim slot t \<longleftrightarrow>
     (case slot of None \<Rightarrow> False | Some i \<Rightarrow> t - snd (ev_seen lim ! i) < CHAN_EVENT_DEDUPE_SECS) \<or>
     (let first = ev_window lim ! ev_widx lim in first \<noteq> 0 \<and> t - first < CHAN_EVENT_WINDOW_SECS)"

definition ev_stamp :: "chan_event_lim \<Rightarrow> int \<Rightarrow> chan_event_lim" where
  "ev_stamp lim t = lim\<lparr>ev_window := (ev_window lim)[ev_widx lim := t],
     ev_widx := (ev_widx lim + 1) mod CHAN_EVENT_WINDOW_MAX\<rparr>"

text \<open>The summary of what the limiter held back, sent after an event that went out.\<close>

definition ev_summary :: "env \<Rightarrow> bot_state \<Rightarrow> int \<Rightarrow> bot_state" where
  "ev_summary e st t =
     (let lim = st_chan_event st; first = ev_window lim ! ev_widx lim
      in if first = 0 \<or> t - first \<ge> CHAN_EVENT_WINDOW_SECS then
           let sd = dec (ev_suppressed lim) @ '' events suppressed'';
               out = ev_sup_chan lim @ ''|'' @ ev_sup_action lim @ ''|*|'' @ sd
           in if length out < MAX_CHAN + 16 + CHAN_EVENT_TARGET_MAX + CHAN_EVENT_DETAIL_MAX + 8 then
                (case send_frame e (st\<lparr>st_chan_event := ev_stamp lim t\<rparr>) CMD_CHAN_EVENT out of
                   (True, st') \<Rightarrow> st'\<lparr>st_chan_event := (st_chan_event st')\<lparr>ev_suppressed := 0\<rparr>\<rparr>
                 | (False, st') \<Rightarrow> st')
              else st
         else st)"

text \<open>The second half of \<open>chan_event\<close>: the limiter, for a cleaned event and its dedupe key.\<close>

definition chan_event_emit :: "env \<Rightarrow> bot_state \<Rightarrow> string \<Rightarrow> string \<Rightarrow> string \<Rightarrow> string \<Rightarrow> bool \<times> bot_state" where
  "chan_event_emit e st chan action key out =
     (let t = e_now e;
          lim = st_chan_event st;
          sc = ev_scan (ev_seen lim) key 0 0 (ev_seen lim)
      in if ev_limited lim (fst sc) t then
           (False, st\<lparr>st_chan_event := lim\<lparr>ev_suppressed := ev_suppressed lim + 1,
              ev_sup_chan := trunc chan MAX_CHAN, ev_sup_action := trunc action 16\<rparr>\<rparr>)
         else
           let slot = (case fst sc of Some i \<Rightarrow> i | None \<Rightarrow> snd sc);
               lim1 = lim\<lparr>ev_seen := (ev_seen lim)[slot := (key, t)]\<rparr>
           in if length out \<ge> MAX_CHAN + 16 + CHAN_EVENT_TARGET_MAX + CHAN_EVENT_DETAIL_MAX + 8
              then (False, st\<lparr>st_chan_event := lim1\<rparr>)
              else
                (case send_frame e (st\<lparr>st_chan_event := ev_stamp lim1 t\<rparr>) CMD_CHAN_EVENT out of
                   (sent, st') \<Rightarrow>
                     (sent, if sent \<and> ev_suppressed (st_chan_event st') > 0
                            then ev_summary e st' t else st')))"

definition chan_event :: "env \<Rightarrow> bot_state \<Rightarrow> string \<Rightarrow> string \<Rightarrow> string \<Rightarrow> string \<Rightarrow> bool \<times> bot_state" where
  "chan_event e st chan action target detail =
     (if \<not> (chan \<noteq> [] \<and> hd chan \<in> {CHR ''#'', CHR ''&''}) then (False, st)
      else if action \<notin> set CHAN_EVENT_ACTIONS \<or> length chan \<ge> MAX_CHAN then (False, st)
      else if st_hubs st = [] \<or> \<not> st_hub st \<or> \<not> st_hub_authenticated st then (False, st)
      else
        let tgt = event_clean (CHAN_EVENT_TARGET_MAX + 1) target;
            det = event_clean (CHAN_EVENT_DETAIL_MAX + 1) detail
        in if tgt = [] then (False, st)
        else
          let key = lowers (chan @ ''|'' @ action @ ''|'' @ tgt)
          in if length key \<ge> MAX_CHAN + 16 + CHAN_EVENT_TARGET_MAX + 4 then (False, st)
             else chan_event_emit e st chan action key
                    (chan @ ''|'' @ action @ ''|'' @ tgt @ ''|'' @ det))"

lemma chan_event_cases:
  "chan_event e st chan action target detail = (False, st) \<or>
   (\<exists>key out. chan_event e st chan action target detail = chan_event_emit e st chan action key out)"
  unfolding chan_event_def Let_def by (simp only: split: if_split) blast

text \<open>What the hub is given holds no control byte and no delimiter, and fits the buffer.\<close>

lemma event_clean_loop_len:
  "length out < cap \<Longrightarrow> \<forall>ch \<in> set chs. ch \<noteq> [] \<Longrightarrow> length (event_clean_loop cap out chs) < cap"
proof (induction chs arbitrary: out)
  case (Cons ch chs)
  have "length (event_char ch) \<le> length ch" using Cons.prems by (cases ch) (auto simp: event_char_def)
  then show ?case using Cons by auto
qed simp

text \<open>A byte under 0x20 never starts a longer character in UTF-8 text.\<close>

definition utf8_heads :: "string \<Rightarrow> bool" where
  "utf8_heads s \<longleftrightarrow> list_all (\<lambda>ch. length ch = 1 \<or> byte (hd ch) \<ge> 128) (utf8_chars s)"

lemma event_char_ok:
  assumes "ch = c # t" "list_all is_cont t" "length ch = 1 \<or> byte (hd ch) \<ge> 128" "d \<in> set (event_char ch)"
  shows "d \<noteq> CHR ''|'' \<and> \<not> is_ctl d"
  using assms
  by (auto simp: event_char_def list_all_iff is_cont_def is_ctl_def byte_def split: if_splits)

lemma event_clean_loop_set:
  "d \<in> set (event_clean_loop cap out chs) \<Longrightarrow> d \<in> set out \<or> (\<exists>ch \<in> set chs. d \<in> set (event_char ch))"
proof (induction chs arbitrary: out)
  case (Cons ch chs)
  then show ?case using Cons.IH [of "out @ event_char ch"] by (auto split: if_splits)
qed simp

lemma event_clean_ok:
  assumes "utf8_heads src" "d \<in> set (event_clean cap src)"
  shows "d \<noteq> CHR ''|'' \<and> \<not> is_ctl d"
proof -
  obtain ch where ch: "ch \<in> set (utf8_chars src)" "d \<in> set (event_char ch)"
    using event_clean_loop_set assms(2) unfolding event_clean_def by fastforce
  obtain c t where c: "ch = c # t" "list_all is_cont t" using utf8_chars_tail [OF ch(1)] by auto
  have "length ch = 1 \<or> byte (hd ch) \<ge> 128" using assms(1) ch(1) by (simp add: utf8_heads_def list_all_iff)
  then show ?thesis using event_char_ok [OF c _ ch(2)] by simp
qed

lemma event_clean_length: "0 < cap \<Longrightarrow> length (event_clean cap src) < cap"
  unfolding event_clean_def using utf8_chars_tail by (intro event_clean_loop_len) auto

section \<open>The rate limit\<close>

definition ev_ring :: "chan_event_lim \<Rightarrow> int list \<times> nat" where
  "ev_ring lim = (ev_window lim, ev_widx lim)"

definition ev_ok :: "chan_event_lim \<Rightarrow> bool" where
  "ev_ok lim \<longleftrightarrow> ring_ok CHAN_EVENT_WINDOW_MAX (ev_ring lim)"

lemma default_event_lim_ok: "ev_ok default_event_lim"
  by (simp add: ev_ok_def default_event_lim_def ev_ring_def ring_ok_def limits)

lemma ev_stamp_ring: "ev_ok lim \<Longrightarrow> ev_ring (ev_stamp lim t) = ring_push t (ev_ring lim)"
  by (simp add: ev_ok_def ev_ring_def ev_stamp_def ring_push_def ring_ok_def)

text \<open>The last \<open>k\<close> stamps lie in the window of seconds that begins at \<open>T\<close>.\<close>

definition ev_recent :: "int \<Rightarrow> nat \<Rightarrow> chan_event_lim \<Rightarrow> bool" where
  "ev_recent T k lim \<longleftrightarrow> ev_ok lim \<and> k \<le> CHAN_EVENT_WINDOW_MAX \<and>
     (\<forall>x \<in> set (drop (CHAN_EVENT_WINDOW_MAX - k) (ring_list (ev_ring lim))).
        T \<le> x \<and> x < T + CHAN_EVENT_WINDOW_SECS)"

lemma ev_recent_ring: "ev_ring lim = ev_ring lim' \<Longrightarrow> ev_recent T k lim = ev_recent T k lim'"
  by (simp add: ev_recent_def ev_ok_def)

lemma ev_recent_stamp:
  assumes "ev_recent T k lim" "k < CHAN_EVENT_WINDOW_MAX" "T \<le> t" "t < T + CHAN_EVENT_WINDOW_SECS"
  shows "ev_recent T (k + 1) (ev_stamp lim t)"
proof -
  let ?r = "ring_list (ev_ring lim)"
  have ok: "ring_ok CHAN_EVENT_WINDOW_MAX (ev_ring lim)" using assms(1) by (simp add: ev_recent_def ev_ok_def)
  have len: "length ?r = CHAN_EVENT_WINDOW_MAX" using ring_list_length [OF ok] .
  have "ring_list (ev_ring (ev_stamp lim t)) = tl ?r @ [t]"
    using assms(1) ring_push_list [OF ok] by (simp add: ev_recent_def ev_stamp_ring)
  moreover have "drop (CHAN_EVENT_WINDOW_MAX - (k + 1)) (tl ?r) = drop (CHAN_EVENT_WINDOW_MAX - k) ?r"
    using assms(2) by (simp add: drop_Suc [symmetric] Suc_diff_Suc)
  moreover have "ev_ok (ev_stamp lim t)"
    using ok assms(1) by (simp add: ev_ok_def ev_recent_def ev_stamp_ring)
  ultimately show ?thesis using assms len by (auto simp: ev_recent_def)
qed

lemma ev_recent_full:
  assumes "ev_recent T k lim" "0 < T" "t < T + CHAN_EVENT_WINDOW_SECS"
    "ev_window lim ! ev_widx lim = 0 \<or> t - ev_window lim ! ev_widx lim \<ge> CHAN_EVENT_WINDOW_SECS"
  shows "k < CHAN_EVENT_WINDOW_MAX"
proof (rule ccontr)
  assume "\<not> k < CHAN_EVENT_WINDOW_MAX"
  then have k: "k = CHAN_EVENT_WINDOW_MAX" using assms(1) by (simp add: ev_recent_def)
  have ok: "ring_ok CHAN_EVENT_WINDOW_MAX (ev_ring lim)" using assms(1) by (simp add: ev_recent_def ev_ok_def)
  have "ring_list (ev_ring lim) \<noteq> []"
    using ring_list_length [OF ok] by (auto simp: limits)
  then have "hd (ring_list (ev_ring lim)) \<in> set (ring_list (ev_ring lim))" by simp
  then have "T \<le> ev_window lim ! ev_widx lim"
    using assms(1) k ring_hd [OF ok] by (simp add: ev_recent_def) (simp add: ev_ring_def)
  then show False using assms by auto
qed

text \<open>One call: as many frames as stamps at most.\<close>

definition ev_step :: "int \<Rightarrow> nat \<Rightarrow> bot_state \<Rightarrow> bot_state \<Rightarrow> bool" where
  "ev_step T k st st' \<longleftrightarrow> (\<exists>k'. k \<le> k' \<and> ev_recent T k' (st_chan_event st') \<and>
     length (st_hub_out st') \<le> length (st_hub_out st) + (k' - k))"

lemma ev_step_refl: "ev_recent T k (st_chan_event st') \<Longrightarrow>
    length (st_hub_out st') \<le> length (st_hub_out st) \<Longrightarrow> ev_step T k st st'"
  by (auto simp: ev_step_def intro!: exI [of _ k])

lemma ev_step_frame:
  assumes "ev_recent T (k + 1) (st_chan_event st1)" "st_hub_out st1 = st_hub_out st"
    "send_frame e st1 cmd p = (ok, st')"
  shows "ev_step T k st st'" "ev_recent T (k + 1) (st_chan_event st')"
    "length (st_hub_out st') \<le> length (st_hub_out st) + 1"
  using assms send_frame_out [OF assms(3)] by (auto simp: ev_step_def intro!: exI [of _ "k + 1"])

lemma ev_step_add:
  assumes "ev_step T k' st1 st2" "k \<le> k'" "length (st_hub_out st1) \<le> length (st_hub_out st) + (k' - k)"
  shows "ev_step T k st st2"
proof -
  obtain k2 where "k' \<le> k2" "ev_recent T k2 (st_chan_event st2)"
    "length (st_hub_out st2) \<le> length (st_hub_out st1) + (k2 - k')"
    using assms(1) by (auto simp: ev_step_def)
  then show ?thesis using assms(2,3) unfolding ev_step_def by (intro exI [of _ k2]) auto
qed

lemma ev_summary_step:
  assumes "ev_recent T k (st_chan_event st)" "0 < T" "T \<le> t" "t < T + CHAN_EVENT_WINDOW_SECS"
  shows "ev_step T k st (ev_summary e st t)"
proof (cases "ev_summary e st t = st")
  case True
  then show ?thesis using assms ev_step_refl by simp
next
  case False
  let ?lim = "st_chan_event st"
  obtain out ok st' where f: "ev_window ?lim ! ev_widx ?lim = 0 \<or>
        t - ev_window ?lim ! ev_widx ?lim \<ge> CHAN_EVENT_WINDOW_SECS"
    and s: "send_frame e (st\<lparr>st_chan_event := ev_stamp ?lim t\<rparr>) CMD_CHAN_EVENT out = (ok, st')"
    and r: "ev_summary e st t =
        (if ok then st'\<lparr>st_chan_event := (st_chan_event st')\<lparr>ev_suppressed := 0\<rparr>\<rparr> else st')"
    using False unfolding ev_summary_def Let_def by (auto split: if_splits prod.splits bool.splits)
  have k: "k < CHAN_EVENT_WINDOW_MAX" using ev_recent_full [OF assms(1,2,4) f] .
  have "ev_recent T (k + 1) (ev_stamp ?lim t)" using ev_recent_stamp [OF assms(1) k assms(3,4)] .
  then have "ev_step T k st st'"
    using ev_step_frame(1) [of T k "st\<lparr>st_chan_event := ev_stamp ?lim t\<rparr>" st, OF _ _ s] by simp
  then show ?thesis using r
    by (auto simp: ev_step_def ev_recent_ring [of "ev_suppressed_update _ _" "st_chan_event st'"] ev_ring_def)
qed

lemma chan_event_emit_step:
  assumes "ev_recent T k (st_chan_event st)" "0 < T" "T \<le> e_now e" "e_now e < T + CHAN_EVENT_WINDOW_SECS"
  shows "ev_step T k st (snd (chan_event_emit e st chan action key out))"
proof -
  define t where "t = e_now e"
  define lim where "lim = st_chan_event st"
  define sc where "sc = ev_scan (ev_seen lim) key 0 0 (ev_seen lim)"
  define slot where "slot = (case fst sc of Some i \<Rightarrow> i | None \<Rightarrow> snd sc)"
  define lim1 where "lim1 = lim\<lparr>ev_seen := (ev_seen lim)[slot := (key, t)]\<rparr>"
  obtain sent st1 where s: "send_frame e (st\<lparr>st_chan_event := ev_stamp lim1 t\<rparr>) CMD_CHAN_EVENT out = (sent, st1)"
    by fastforce
  have ring: "ev_recent T k lim'" if "ev_ring lim' = ev_ring lim" for lim'
    using assms(1) that ev_recent_ring unfolding lim_def by blast
  note defs = t_def [symmetric] lim_def [symmetric] sc_def [symmetric] slot_def [symmetric]
    lim1_def [symmetric]
  have r: "snd (chan_event_emit e st chan action key out) =
      (if ev_limited lim (fst sc) t then
         st\<lparr>st_chan_event := lim\<lparr>ev_suppressed := ev_suppressed lim + 1,
            ev_sup_chan := trunc chan MAX_CHAN, ev_sup_action := trunc action 16\<rparr>\<rparr>
       else if length out \<ge> MAX_CHAN + 16 + CHAN_EVENT_TARGET_MAX + CHAN_EVENT_DETAIL_MAX + 8
       then st\<lparr>st_chan_event := lim1\<rparr>
       else if sent \<and> ev_suppressed (st_chan_event st1) > 0 then ev_summary e st1 t else st1)"
    unfolding chan_event_emit_def Let_def defs s by simp
  show ?thesis
  proof (cases "ev_limited lim (fst sc) t \<or>
      length out \<ge> MAX_CHAN + 16 + CHAN_EVENT_TARGET_MAX + CHAN_EVENT_DETAIL_MAX + 8")
    case True
    then show ?thesis unfolding r by (intro ev_step_refl) (auto simp: ring ev_ring_def lim1_def)
  next
    case False
    then have "ev_window lim1 ! ev_widx lim1 = 0 \<or>
        t - ev_window lim1 ! ev_widx lim1 \<ge> CHAN_EVENT_WINDOW_SECS"
      by (auto simp: ev_limited_def Let_def lim1_def)
    moreover have rec: "ev_recent T k lim1" by (simp add: ring ev_ring_def lim1_def)
    ultimately have "k < CHAN_EVENT_WINDOW_MAX"
      using assms(2,4) ev_recent_full [of T k lim1 t] by (simp add: t_def)
    then have r1: "ev_recent T (k + 1) (ev_stamp lim1 t)"
      using assms(3,4) rec ev_recent_stamp by (simp add: t_def)
    then have st1: "ev_recent T (k + 1) (st_chan_event st1)" "ev_step T k st st1"
      "length (st_hub_out st1) \<le> length (st_hub_out st) + 1"
      using ev_step_frame [OF _ _ s, of T k st] by simp_all
    have "ev_step T (k + 1) st1 (ev_summary e st1 t)"
      using ev_summary_step [OF st1(1) assms(2)] assms(3,4) by (simp add: t_def)
    then have "ev_step T k st (ev_summary e st1 t)"
      using st1(3) ev_step_add [of T "k + 1" st1 _ k st] by simp
    then show ?thesis unfolding r using False st1(2) by simp
  qed
qed

lemma chan_event_step:
  assumes "ev_recent T k (st_chan_event st)" "0 < T" "T \<le> e_now e" "e_now e < T + CHAN_EVENT_WINDOW_SECS"
  shows "ev_step T k st (snd (chan_event e st chan action target detail))"
  using chan_event_emit_step [OF assms] ev_step_refl [OF assms(1)]
    chan_event_cases [of e st chan action target detail]
  by (elim disjE exE) simp_all

definition chan_events :: "bot_state \<Rightarrow> (env \<times> string \<times> string \<times> string \<times> string) list \<Rightarrow> bot_state" where
  "chan_events = foldl (\<lambda>st (e, c, a, t, d). snd (chan_event e st c a t d))"

lemma chan_events_step:
  assumes "ev_recent T k (st_chan_event st)" "0 < T"
    "\<forall>x \<in> set calls. T \<le> e_now (fst x) \<and> e_now (fst x) < T + CHAN_EVENT_WINDOW_SECS"
  shows "ev_step T k st (chan_events st calls)"
  using assms
proof (induction calls arbitrary: st k)
  case Nil
  then show ?case by (simp add: chan_events_def ev_step_refl)
next
  case (Cons x xs)
  obtain e c a t d where x: "x = (e, c, a, t, d)" by (cases x)
  define st1 where "st1 = snd (chan_event e st c a t d)"
  have "ev_step T k st st1" using chan_event_step Cons.prems x st1_def by simp
  then obtain k1 where k1: "k \<le> k1" "ev_recent T k1 (st_chan_event st1)"
    "length (st_hub_out st1) \<le> length (st_hub_out st) + (k1 - k)" by (auto simp: ev_step_def)
  have "ev_step T k1 st1 (chan_events st1 xs)" using Cons.IH [OF k1(2)] Cons.prems by simp
  then have "ev_step T k st (chan_events st1 xs)" using k1 by (auto intro: ev_step_add)
  then show ?case by (simp add: chan_events_def x st1_def)
qed

lemma ev_recent_0: "ev_ok lim \<Longrightarrow> ev_recent T 0 lim"
  using ring_list_length [of CHAN_EVENT_WINDOW_MAX "ev_ring lim"]
  by (simp add: ev_recent_def ev_ok_def)

section \<open>Properties\<close>

text \<open>C29: an activity report sends the pending lines of the first \<open>k\<close> records, in order and each
  once, in frames that fit; exactly those records are settled and the rest keep what they owe,
  so a broken link loses no report.  While the link takes frames, that is every record.\<close>

theorem send_activity_reports:
  "let nu = length (st_user_records st); tot = nu + length (st_mask_records st);
       st' = send_activity e st
   in \<exists>k frames. k \<le> tot \<and> st_hub_out st' = st_hub_out st @ frames \<and>
    list_all (\<lambda>(c, p). c = CMD_ACTIVITY \<and> p \<noteq> [] \<and> length p \<le> MAX_BUFFER - 64) frames \<and>
    concat (map snd frames) = concat (map (act_text nu tot st) [0..<k]) \<and>
    list_all (\<lambda>j. pend nu st' j \<le> 0) [0..<k] \<and>
    list_all (\<lambda>j. pend nu st' j = pend nu st j) [k..<tot] \<and>
    (if act_flow e nu tot st st [] then k = tot else True)"
proof -
  let ?nu = "length (st_user_records st)"
  let ?tot = "?nu + length (st_mask_records st)"
  show ?thesis
  proof (cases "st_hub_authenticated st \<and> st_hub st")
    case False
    then have "send_activity e st = st" by (auto simp: send_activity_def)
    then show ?thesis using False
      by (auto simp: act_flow_def Let_def list_all_iff intro!: exI [of _ 0])
  next
    case True
    have "act_inv ?nu ?tot st st [] 0 0" by (simp add: act_inv_def act_dims_def)
    from act_loop [OF this _ refl, of e] True obtain k where
      "act_sent ?nu ?tot st (st_hub_out st) (send_activity e st) 0 k"
      "act_flow e ?nu ?tot st st [] \<longrightarrow> k = ?tot" by (auto simp: send_activity_def Let_def)
    then show ?thesis
      by (auto simp: act_sent_def Let_def list_all_iff intro!: exI [of _ k])
  qed
qed

text \<open>C26: whatever the bot does, in no minute does it send the hub more than
  \<open>CHAN_EVENT_WINDOW_MAX\<close> event frames, summaries included.\<close>

theorem chan_event_rate:
  assumes "ev_ok (st_chan_event st)" "0 < T"
    "\<forall>x \<in> set calls. T \<le> e_now (fst x) \<and> e_now (fst x) < T + CHAN_EVENT_WINDOW_SECS"
  shows "length (st_hub_out (chan_events st calls)) \<le> length (st_hub_out st) + CHAN_EVENT_WINDOW_MAX \<and>
    ev_ok (st_chan_event (chan_events st calls))"
  using chan_events_step [OF ev_recent_0 [OF assms(1)] assms(2,3)]
  by (auto simp: ev_step_def ev_recent_def)

definition demo_linked :: bot_state where
  "demo_linked = lean_bot\<lparr>st_hubs := [default_hub], st_hub := True, st_hub_authenticated := True\<rparr>"

lemma chan_event_rate_witness:
  "length (st_hub_out (chan_events demo_linked
     [(calm_env 100, ''#c'', ''kick'', ''bob'', ''flood''), (calm_env 105, ''#c'', ''kick'', ''bob'', ''flood'')]))
     \<le> 20 \<and>
   map snd (st_hub_out (chan_events demo_linked
     [(calm_env 100, ''#c'', ''kick'', ''bob'', ''flood''), (calm_env 105, ''#c'', ''kick'', ''bob'', ''flood'')]))
     = [''#c|kick|bob|flood'']"
proof
  have "ev_ok (st_chan_event demo_linked)"
    using default_event_lim_ok by (simp add: demo_linked_def lean_bot_def bot_new_def)
  from chan_event_rate [OF this, of 100
      "[(calm_env 100, ''#c'', ''kick'', ''bob'', ''flood''), (calm_env 105, ''#c'', ''kick'', ''bob'', ''flood'')]"]
  show "length (st_hub_out (chan_events demo_linked
     [(calm_env 100, ''#c'', ''kick'', ''bob'', ''flood''), (calm_env 105, ''#c'', ''kick'', ''bob'', ''flood'')]))
     \<le> 20" by (simp add: calm_env_def demo_linked_def lean_bot_def bot_new_def limits)
qed code_simp

text \<open>C34: what an event says of a target holds no control byte and no field delimiter, whatever
  nick or mask it was built from, and is shorter than its buffer.\<close>

theorem event_clean_safe:
  assumes "utf8_heads src" "0 < cap"
  shows "length (event_clean cap src) < cap \<and>
    (\<forall>d \<in> set (event_clean cap src). d \<noteq> CHR ''|'' \<and> \<not> is_ctl d)"
  using event_clean_ok [OF assms(1)] event_clean_length [OF assms(2)] by blast

lemma event_clean_safe_witness:
  "event_clean 8 (''a|b'' @ [CHR 0x01] @ ''cdefgh'') = ''a b cde'' \<and>
   CHR ''|'' \<notin> set (event_clean 8 (''a|b'' @ [CHR 0x01] @ ''cdefgh''))"
proof
  define src where "src = ''a|b'' @ [CHR 0x01] @ ''cdefgh''"
  have "utf8_heads src"
    by (simp add: utf8_heads_def is_cont_def byte_def src_def)
  then have "CHR ''|'' \<notin> set (event_clean 8 src)"
    using event_clean_safe [OF _ zero_less_numeral, of src] by blast
  then show "CHR ''|'' \<notin> set (event_clean 8 (''a|b'' @ [CHR 0x01] @ ''cdefgh''))"
    unfolding src_def .
qed (simp add: event_clean_def event_char_def is_ctl_def byte_def is_cont_def)

end
