(* ===== verification/Auth.thy ===== *)
theory Auth
  imports Glob HubOut "HOL-Library.Signed_Division"
begin

text \<open>
  Who is authorised (\<open>src/src/auth.rs\<close>): the keyed users a hostmask may be, the trusted bots, the
  test whether a ban mask could hit an authorised host, and the bookkeeping of a use.  The
  locale \<open>matcher\<close> is what this component needs of the globs: a host matched by two masks
  makes the masks overlap.
\<close>

section \<open>The matching interface\<close>

locale matcher =
  fixes matches :: "string \<Rightarrow> string \<Rightarrow> bool"
    and overlap :: "string \<Rightarrow> string \<Rightarrow> bool"
  assumes overlap_complete: "matches a s \<Longrightarrow> matches b s \<Longrightarrow> overlap a b"
    and literal: "matches a s \<Longrightarrow> c \<in> set a \<Longrightarrow> c \<noteq> star \<Longrightarrow> c \<noteq> quest \<Longrightarrow> \<exists>d \<in> set s. lower d = lower c"
begin

lemma no_overlap_no_match:
  "\<not> overlap a b \<Longrightarrow> matches b s \<Longrightarrow> \<not> matches a s"
  using overlap_complete by blast

lemma find_none_no_match:
  "find (\<lambda>x. overlap a (f x)) xs = None \<Longrightarrow> x \<in> set xs \<Longrightarrow> matches (f x) s \<Longrightarrow> \<not> matches a s"
  using no_overlap_no_match by (auto simp: find_None_iff)

end

lemma glob_literal:
  "glob a s \<Longrightarrow> c \<in> set a \<Longrightarrow> c \<noteq> star \<Longrightarrow> c \<noteq> quest \<Longrightarrow> \<exists>d \<in> set s. lower d = lower c"
  by (induction a s rule: glob.induct) (auto simp: sym_ok_def split: if_splits)

interpretation globs: matcher wildcard_match glob_overlap
  by unfold_locales (auto simp: wildcard_match_glob intro: glob_overlap_complete dest: glob_literal)

section \<open>Keyed users\<close>

text \<open>The loop over the mask records of \<open>user_candidates\<close>.\<close>

fun user_candidates_loop :: "bot_state \<Rightarrow> string \<Rightarrow> (nat \<times> nat) list \<Rightarrow> nat \<Rightarrow> mask_record list \<Rightarrow> (nat \<times> nat) list" where
  "user_candidates_loop st uh out mi [] = out"
| "user_candidates_loop st uh out mi (mr # mrs) =
     (if length out \<ge> MAX_USER_RECORDS then out
      else if \<not> m_is_active mr \<or> m_mask mr = [] \<or> \<not> wildcard_match (m_mask mr) uh
      then user_candidates_loop st uh out (mi + 1) mrs
      else
        let out' =
          (case position (\<lambda>u. u_is_active u \<and> u_has_pubkey u \<and> u_uuid u = m_uuid mr) (st_user_records st) of
             Some ui \<Rightarrow> if ui \<in> fst ` set out then out else out @ [(ui, mi)]
           | None \<Rightarrow> out)
        in user_candidates_loop st uh out' (mi + 1) mrs)"

definition user_candidates :: "bot_state \<Rightarrow> string \<Rightarrow> (nat \<times> nat) list" where
  "user_candidates st uh = user_candidates_loop st uh [] 0 (st_mask_records st)"

text \<open>What a pair of the result stands for.\<close>

definition user_mask_ok :: "bot_state \<Rightarrow> string \<Rightarrow> mask_record \<Rightarrow> bool" where
  "user_mask_ok st uh mr \<longleftrightarrow> m_is_active mr \<and> m_mask mr \<noteq> [] \<and> wildcard_match (m_mask mr) uh"

definition keyed_user :: "bot_state \<Rightarrow> string \<Rightarrow> nat option" where
  "keyed_user st uuid =
     position (\<lambda>u. u_is_active u \<and> u_has_pubkey u \<and> u_uuid u = uuid) (st_user_records st)"

definition candidate_ok :: "bot_state \<Rightarrow> string \<Rightarrow> nat \<times> nat \<Rightarrow> bool" where
  "candidate_ok st uh p \<longleftrightarrow> snd p < length (st_mask_records st) \<and>
     user_mask_ok st uh (st_mask_records st ! snd p) \<and>
     keyed_user st (m_uuid (st_mask_records st ! snd p)) = Some (fst p)"

lemma user_candidates_loop_step:
  "user_candidates_loop st uh out mi (mr # mrs) =
     (if length out \<ge> MAX_USER_RECORDS then out
      else user_candidates_loop st uh
        (case (if user_mask_ok st uh mr then keyed_user st (m_uuid mr) else None) of
           Some ui \<Rightarrow> if ui \<in> fst ` set out then out else out @ [(ui, mi)] | None \<Rightarrow> out) (mi + 1) mrs)"
  by (simp add: user_mask_ok_def keyed_user_def Let_def)

lemma user_candidates_loop_keeps: "set out \<subseteq> set (user_candidates_loop st uh out mi mrs)"
  by (induction st uh out mi mrs rule: user_candidates_loop.induct)
     (fastforce simp: Let_def split: option.splits if_splits)+

lemma user_candidates_loop_ok:
  assumes "\<forall>p \<in> set out. candidate_ok st uh p" "distinct (map fst out)"
    "mrs = drop mi (st_mask_records st)"
  shows "(\<forall>p \<in> set (user_candidates_loop st uh out mi mrs). candidate_ok st uh p) \<and>
    distinct (map fst (user_candidates_loop st uh out mi mrs)) \<and>
    set out \<subseteq> set (user_candidates_loop st uh out mi mrs)"
  using assms
proof (induction mrs arbitrary: out mi)
  case (Cons mr mrs)
  have mi: "mi < length (st_mask_records st)" "st_mask_records st ! mi = mr"
    "mrs = drop (mi + 1) (st_mask_records st)"
    using Cons.prems(3) by (metis drop_all list.distinct(1) not_le, metis nth_via_drop, metis add.commute drop_drop drop0 drop_Suc_Cons plus_1_eq_Suc)
  define out' where "out' = (case (if user_mask_ok st uh mr then keyed_user st (m_uuid mr) else None) of
     Some ui \<Rightarrow> if ui \<in> fst ` set out then out else out @ [(ui, mi)] | None \<Rightarrow> out)"
  have out': "\<forall>p \<in> set out'. candidate_ok st uh p" "distinct (map fst out')" "set out \<subseteq> set out'"
    using Cons.prems mi by (auto simp: out'_def candidate_ok_def split: option.splits)
  show ?case
    using Cons.IH [OF out'(1,2) mi(3)] Cons.prems out'(3)
    unfolding user_candidates_loop_step out'_def [symmetric] by auto
qed auto

text \<open>With no more users than the limit the early stop skips nobody.\<close>

lemma user_candidates_loop_all:
  assumes "distinct (map fst out)" "\<forall>p \<in> set out. fst p < length (st_user_records st)"
    "length (st_user_records st) \<le> MAX_USER_RECORDS" "mr \<in> set mrs" "user_mask_ok st uh mr"
    "keyed_user st (m_uuid mr) = Some ui"
  shows "ui \<in> fst ` set (user_candidates_loop st uh out mi mrs)"
  using assms
proof (induction mrs arbitrary: out mi)
  case (Cons mr' mrs)
  define out' where "out' = (case (if user_mask_ok st uh mr' then keyed_user st (m_uuid mr') else None) of
     Some ui \<Rightarrow> if ui \<in> fst ` set out then out else out @ [(ui, mi)] | None \<Rightarrow> out)"
  have lt: "k < length (st_user_records st)" if "keyed_user st u = Some k" for u k
    using that position_SomeD unfolding keyed_user_def by blast
  show ?case
  proof (cases "length out \<ge> MAX_USER_RECORDS")
    case True
    have "set (map fst out) \<subseteq> {..<length (st_user_records st)}" using Cons.prems(2) by auto
    moreover have "card (set (map fst out)) = length out"
      using distinct_card [OF Cons.prems(1)] by simp
    ultimately have "set (map fst out) = {..<length (st_user_records st)}"
      using True Cons.prems(3) by (intro card_seteq) auto
    then have "ui \<in> fst ` set out" using lt [OF Cons.prems(6)] by auto
    then show ?thesis using user_candidates_loop_keeps by blast
  next
    case False
    have eq: "user_candidates_loop st uh out mi (mr' # mrs) = user_candidates_loop st uh out' (mi + 1) mrs"
      using False by (simp add: user_candidates_loop_step out'_def del: user_candidates_loop.simps)
    have out': "distinct (map fst out')" "\<forall>p \<in> set out'. fst p < length (st_user_records st)"
      using Cons.prems(1,2) lt by (auto simp: out'_def split: option.splits)
    show ?thesis
    proof (cases "mr = mr'")
      case True
      then have "ui \<in> fst ` set out'" using Cons.prems(5,6) by (auto simp: out'_def)
      then show ?thesis unfolding eq using user_candidates_loop_keeps by blast
    next
      case False
      then show ?thesis unfolding eq using Cons.IH [OF out'] Cons.prems by simp
    qed
  qed
qed simp

section \<open>Use of a record\<close>

definition activity_new_bucket :: "int \<Rightarrow> int \<Rightarrow> bool" where
  "activity_new_bucket prev now \<longleftrightarrow> prev sdiv ACTIVITY_BUCKET < now sdiv ACTIVITY_BUCKET"

definition mark_user :: "int \<Rightarrow> user_record \<Rightarrow> user_record" where
  "mark_user now u =
     (if activity_new_bucket (u_last_seen u) now then u\<lparr>u_act_pending := now\<rparr> else u)\<lparr>u_last_seen := now\<rparr>"

definition mark_mask :: "int \<Rightarrow> mask_record \<Rightarrow> mask_record" where
  "mark_mask now m =
     (if activity_new_bucket (m_last_used m) now then m\<lparr>m_act_pending := now\<rparr> else m)\<lparr>m_last_used := now\<rparr>"

definition mark_used :: "env \<Rightarrow> bot_state \<Rightarrow> nat option \<Rightarrow> nat option \<Rightarrow> int \<Rightarrow> bot_state" where
  "mark_used e st user mask_idx now =
     (let st1 = (case user of
            Some u \<Rightarrow> if u < length (st_user_records st)
              then st\<lparr>st_user_records := (st_user_records st)[u := mark_user now (st_user_records st ! u)]\<rparr>
              else st
          | None \<Rightarrow> st);
          st2 = (case mask_idx of
            Some m \<Rightarrow> if m < length (st_mask_records st1)
              then st1\<lparr>st_mask_records := (st_mask_records st1)[m := mark_mask now (st_mask_records st1 ! m)]\<rparr>
              else st1
          | None \<Rightarrow> st1)
      in send_activity e (st2\<lparr>st_config_dirty := True\<rparr>))"

section \<open>Trusted bots and authorised hosts\<close>

definition strip_ident_tilde :: "string \<Rightarrow> string" where
  "strip_ident_tilde s =
     (case position (\<lambda>c. c = CHR ''!'') s of
        Some b \<Rightarrow> if b + 1 < length s \<and> s ! (b + 1) = CHR ''~'' then take (b + 1) s @ drop (b + 2) s else s
      | None \<Rightarrow> s)"

definition trusted_bot_by_host :: "bot_state \<Rightarrow> string \<Rightarrow> nat option" where
  "trusted_bot_by_host st user_host =
     (if st_trusted_bots st = [] then None
      else let norm = strip_ident_tilde (trunc user_host MAX_MASK_LEN)
           in position (\<lambda>tb. wildcard_match (strip_ident_tilde (tb_mask tb)) norm) (st_trusted_bots st))"

definition trusted_bot_by_uuid :: "bot_state \<Rightarrow> string \<Rightarrow> nat option" where
  "trusted_bot_by_uuid st uuid =
     (if uuid = [] then None else position (\<lambda>tb. tb_uuid tb = uuid) (st_trusted_bots st))"

definition trusted_bot_by_nick :: "bot_state \<Rightarrow> string \<Rightarrow> nat option" where
  "trusted_bot_by_nick st nick =
     (if nick = [] then None else position (\<lambda>tb. eq_ic (tb_nick tb) nick) (st_trusted_bots st))"

definition is_trusted_bot :: "bot_state \<Rightarrow> string \<Rightarrow> bool" where
  "is_trusted_bot st user_host \<longleftrightarrow> trusted_bot_by_host st user_host \<noteq> None"

definition mask_has_active_user :: "bot_state \<Rightarrow> string \<Rightarrow> nat option" where
  "mask_has_active_user st uuid = position (\<lambda>u. u_is_active u \<and> u_uuid u = uuid) (st_user_records st)"

definition is_authorised :: "bot_state \<Rightarrow> string \<Rightarrow> bool" where
  "is_authorised st nuh \<longleftrightarrow>
     nuh \<noteq> [] \<and>
     (is_trusted_bot st nuh \<or>
      list_ex (\<lambda>mr. m_is_active mr \<and> m_mask mr \<noteq> [] \<and> wildcard_match (m_mask mr) nuh \<and>
                   mask_has_active_user st (m_uuid mr) \<noteq> None) (st_mask_records st))"

fun overlap_users :: "bot_state \<Rightarrow> string \<Rightarrow> mask_record list \<Rightarrow> string option" where
  "overlap_users st nmask [] = None"
| "overlap_users st nmask (mr # mrs) =
     (if \<not> m_is_active mr \<or> m_mask mr = [] \<or> \<not> glob_overlap nmask (strip_ident_tilde (m_mask mr))
      then overlap_users st nmask mrs
      else case mask_has_active_user st (m_uuid mr) of
             Some ui \<Rightarrow> Some (''user '' @ u_name (st_user_records st ! ui))
           | None \<Rightarrow> overlap_users st nmask mrs)"

definition mask_overlaps_authorised :: "bot_state \<Rightarrow> string \<Rightarrow> string option" where
  "mask_overlaps_authorised st bm =
     (let nmask = strip_ident_tilde bm
      in case find (\<lambda>tb. glob_overlap nmask (strip_ident_tilde (tb_mask tb))) (st_trusted_bots st) of
           Some tb \<Rightarrow> Some (''bot '' @ tb_mask tb)
         | None \<Rightarrow> overlap_users st nmask (st_mask_records st))"

lemma strip_no_tilde: "CHR ''~'' \<notin> set s \<Longrightarrow> strip_ident_tilde s = s"
proof -
  assume t: "CHR ''~'' \<notin> set s"
  then have "\<not> (i < length s \<and> s ! i = CHR ''~'')" for i using nth_mem by metis
  then show ?thesis unfolding strip_ident_tilde_def by (simp split: option.split) blast
qed

lemma match_no_tilde:
  assumes "wildcard_match a s" "CHR ''~'' \<notin> set s"
  shows "CHR ''~'' \<notin> set a"
proof
  assume "CHR ''~'' \<in> set a"
  then obtain d where "d \<in> set s" "lower d = lower (CHR ''~'')"
    using globs.literal [OF assms(1)] by auto
  moreover have "lower d = lower (CHR ''~'') \<Longrightarrow> d = CHR ''~''"
    by (cases "is_upper d") (auto simp: lower_def is_upper_def byte_def dest: arg_cong [of _ _ "of_char :: char \<Rightarrow> nat"])
  ultimately show False using assms(2) by auto
qed

lemma overlap_users_none:
  "overlap_users st nmask mrs = None \<Longrightarrow> mr \<in> set mrs \<Longrightarrow> m_is_active mr \<Longrightarrow> m_mask mr \<noteq> [] \<Longrightarrow>
     mask_has_active_user st (m_uuid mr) \<noteq> None \<Longrightarrow>
     \<not> glob_overlap nmask (strip_ident_tilde (m_mask mr))"
  by (induction mrs) (auto split: if_splits option.splits)

lemma overlap_none_spares:
  assumes "is_authorised st nuh" "wildcard_match bm nuh" "CHR ''~'' \<notin> set nuh" "length nuh < MAX_MASK_LEN"
  shows "mask_overlaps_authorised st bm \<noteq> None"
proof
  assume none: "mask_overlaps_authorised st bm = None"
  have bm: "strip_ident_tilde bm = bm" using match_no_tilde assms(2,3) strip_no_tilde by blast
  have nuh: "strip_ident_tilde (trunc nuh MAX_MASK_LEN) = nuh"
    using assms(3,4) by (simp add: trunc_id strip_no_tilde)
  have bots: "find (\<lambda>tb. glob_overlap bm (strip_ident_tilde (tb_mask tb))) (st_trusted_bots st) = None"
    and users: "overlap_users st bm (st_mask_records st) = None"
    using none bm by (auto simp: mask_overlaps_authorised_def Let_def split: option.splits)
  have "\<not> is_trusted_bot st nuh"
    using bots nuh globs.find_none_no_match [OF bots] assms(2)
    by (auto simp: is_trusted_bot_def trusted_bot_by_host_def Let_def position_None_iff)
  moreover have "\<not> (m_is_active mr \<and> m_mask mr \<noteq> [] \<and> wildcard_match (m_mask mr) nuh \<and>
      mask_has_active_user st (m_uuid mr) \<noteq> None)" if "mr \<in> set (st_mask_records st)" for mr
  proof
    assume a: "m_is_active mr \<and> m_mask mr \<noteq> [] \<and> wildcard_match (m_mask mr) nuh \<and>
      mask_has_active_user st (m_uuid mr) \<noteq> None"
    then have "strip_ident_tilde (m_mask mr) = m_mask mr"
      using match_no_tilde assms(3) strip_no_tilde by blast
    then have "\<not> glob_overlap bm (m_mask mr)"
      using overlap_users_none [OF users that] a by simp
    then show False using globs.no_overlap_no_match a assms(2) by blast
  qed
  ultimately show False using assms(1) unfolding is_authorised_def list_ex_iff by blast
qed




section \<open>Properties\<close>

text \<open>C33: the candidates for a host are active, keyed users, each once, with an active mask of
  theirs that matches; and every such user is among them.\<close>

theorem user_candidates_exact:
  assumes "length (st_user_records st) \<le> MAX_USER_RECORDS"
  shows "distinct (map fst (user_candidates st uh)) \<and>
    (\<forall>p \<in> set (user_candidates st uh). candidate_ok st uh p) \<and>
    fst ` set (user_candidates st uh) =
      {ui. \<exists>mr \<in> set (st_mask_records st). user_mask_ok st uh mr \<and> keyed_user st (m_uuid mr) = Some ui}"
proof -
  note ok = user_candidates_loop_ok [of "[]" st uh "st_mask_records st" 0, simplified]
  have d: "distinct (map fst (user_candidates st uh))"
    and s: "\<forall>p \<in> set (user_candidates st uh). candidate_ok st uh p"
    using ok by (simp_all add: user_candidates_def)
  moreover have "fst ` set (user_candidates st uh) =
      {ui. \<exists>mr \<in> set (st_mask_records st). user_mask_ok st uh mr \<and> keyed_user st (m_uuid mr) = Some ui}"
  proof (intro equalityI subsetI)
    fix ui assume "ui \<in> fst ` set (user_candidates st uh)"
    then obtain p where "p \<in> set (user_candidates st uh)" "fst p = ui" by auto
    then show "ui \<in> {ui. \<exists>mr \<in> set (st_mask_records st). user_mask_ok st uh mr \<and>
        keyed_user st (m_uuid mr) = Some ui}"
      using s by (auto simp: candidate_ok_def intro!: bexI [of _ "st_mask_records st ! snd p"])
  next
    fix ui assume "ui \<in> {ui. \<exists>mr \<in> set (st_mask_records st). user_mask_ok st uh mr \<and>
        keyed_user st (m_uuid mr) = Some ui}"
    then show "ui \<in> fst ` set (user_candidates st uh)"
      unfolding user_candidates_def using user_candidates_loop_all [of "[]" st] assms by auto
  qed
  ultimately show ?thesis by blast
qed

text \<open>C22: a ban mask that matches a host the bot would treat as authorised is reported as overlapping, for
  hosts shorter than a mask may be and without a tilde (with one, see the end of this theory).\<close>

theorem overlap_guards_authorised:
  assumes "is_authorised st nuh" "wildcard_match bm nuh" "CHR ''~'' \<notin> set nuh" "length nuh < MAX_MASK_LEN"
  shows "mask_overlaps_authorised st bm \<noteq> None"
  by (rule overlap_none_spares [OF assms])

definition demo_user :: user_record where
  "demo_user = \<lparr>u_uuid = ''u1'', u_name = ''ann'', u_pubkey_b64 = [], u_has_pubkey = True,
     u_typ = CHR ''a'', u_is_active = True, u_last_seen = 0, u_timestamp = 0,
     u_last_auth_reply = 0, u_act_pending = 0\<rparr>"

definition demo_mask :: "string \<Rightarrow> mask_record" where
  "demo_mask m = \<lparr>m_uuid = ''u1'', m_mask = m, m_is_active = True, m_last_used = 0,
     m_timestamp = 0, m_act_pending = 0\<rparr>"

definition demo_state :: "string \<Rightarrow> bot_state" where
  "demo_state m = lean_bot\<lparr>st_user_records := [demo_user], st_mask_records := [demo_mask m]\<rparr>"

lemma user_candidates_exact_witness:
  "user_candidates (demo_state ''*!ann@*'') ''a!ann@h'' = [(0, 0)] \<and>
   distinct (map fst (user_candidates (demo_state ''*!ann@*'') ''a!ann@h''))"
proof
  have "length (st_user_records (demo_state ''*!ann@*'')) \<le> MAX_USER_RECORDS"
    by (simp add: demo_state_def limits)
  from user_candidates_exact [OF this]
  show "distinct (map fst (user_candidates (demo_state ''*!ann@*'') ''a!ann@h''))" by blast
qed code_simp

lemma overlap_guards_authorised_witness:
  "mask_overlaps_authorised (demo_state ''*!ann@*'') ''*!*@h'' \<noteq> None"
proof (rule overlap_guards_authorised)
  show "is_authorised (demo_state ''*!ann@*'') ''a!ann@h''" by code_simp
  show "wildcard_match ''*!*@h'' ''a!ann@h''" by code_simp
qed (simp_all add: limits)



end
