(* ===== verification/ChanLive.thy ===== *)
theory ChanLive
  imports Lww
begin

text \<open>
  The channel list (\<open>src/src/channel.rs\<close>: add, find, reset) and the live state the server reports
  (\<open>src/src/chanlive.rs\<close>): the 005 values, the mode letters, key, limit and ban list of a channel,
  and the numerics that carry them.  All of it is server data, so the lemmas are about what no
  server line can break.
\<close>

section \<open>Channels by index\<close>

definition upd_chan :: "bot_state \<Rightarrow> nat \<Rightarrow> (chan \<Rightarrow> chan) \<Rightarrow> bot_state" where
  "upd_chan st ci f = st\<lparr>st_chans := (st_chans st)[ci := f (st_chans st ! ci)]\<rparr>"

definition chan_find :: "bot_state \<Rightarrow> string \<Rightarrow> nat option" where
  "chan_find st nm = position (\<lambda>c. eq_ic (c_name c) nm) (st_chans st)"

definition chan_add :: "env \<Rightarrow> bot_state \<Rightarrow> string \<Rightarrow> nat option \<times> bot_state" where
  "chan_add e st nm =
     (if chan_find st nm \<noteq> None then (None, st)
      else (Some (length (st_chans st)),
            st\<lparr>st_chans := st_chans st @
              [default_chan\<lparr>c_name := trunc nm MAX_CHAN, c_status := CS_Out, c_is_managed := True,
                 c_timestamp := e_now e\<rparr>]\<rparr>))"

definition live_reset :: "chan \<Rightarrow> chan" where
  "live_reset c = c\<lparr>c_bans := [], c_flood := [], c_live_flags := 0, c_live_key := [], c_live_limit := 0,
     c_live_known := False, c_live_created := 0, c_ban_list_open := False, c_ban_list_known := False,
     c_ban_overflow_logged := False, c_who_done := False\<rparr>"

definition reset_chan :: "chan \<Rightarrow> chan" where
  "reset_chan c =
     (live_reset (c\<lparr>c_status := CS_Out, c_last_join_attempt := 0, c_join_disabled := False,
        c_i_am_opped := False\<rparr>))\<lparr>c_op_request_pending := False, c_op_request_retry_count := 0,
        c_last_access_request := [0, 0, 0], c_access_retry_count := [0, 0, 0]\<rparr>"

definition reset_status :: "bot_state \<Rightarrow> bot_state" where
  "reset_status st = st\<lparr>st_chans := map reset_chan (st_chans st),
     st_unban_jobs := map (\<lambda>j. j\<lparr>uj_active := False\<rparr>) (st_unban_jobs st)\<rparr>"

section \<open>005 values\<close>

definition isupport_reset :: "bot_state \<Rightarrow> bot_state" where
  "isupport_reset st = st\<lparr>st_isup := default_isupport\<rparr>"

definition all_digits :: "string \<Rightarrow> bool" where
  "all_digits s \<longleftrightarrow> s \<noteq> [] \<and> length s \<le> 6 \<and> list_all is_digit s"

definition parse_small :: "string \<Rightarrow> int" where
  "parse_small s = int (digits_val s)"

definition parse_ts :: "string \<Rightarrow> int" where
  "parse_ts s =
     (if s = [] \<or> length s > 20 \<or> \<not> list_all is_digit s then 0
      else if int (digits_val s) \<le> i64_max then int (digits_val s) else 0)"

text \<open>The groups of a MAXLIST value: letters, a colon, a number, comma separated.\<close>

function maxlist_loop :: "int \<Rightarrow> string \<Rightarrow> int" where
  "maxlist_loop b p =
     (case position ((=) (CHR '':'')) p of
        None \<Rightarrow> b
      | Some colon \<Rightarrow>
          let rest = drop (colon + 1) p;
              (num, nxt) = (case position ((=) (CHR '','')) rest of
                   Some x \<Rightarrow> (take x rest, Some (drop (x + 1) rest)) | None \<Rightarrow> (rest, None));
              b' = (if CHR ''b'' \<in> set (take colon p) \<and> all_digits num \<and> parse_small num \<ge> 1
                    then parse_small num else b)
          in case nxt of Some n \<Rightarrow> maxlist_loop b' n | None \<Rightarrow> b')"
  by pat_completeness auto
termination
  by (relation "measure (\<lambda>(b, p). length p)") (auto split: option.splits dest!: position_SomeD)

declare maxlist_loop.simps [simp del]

text \<open>The four mode classes of a CHANMODES value; nothing when malformed or too long.\<close>

fun chanmodes_loop :: "nat \<Rightarrow> string \<Rightarrow> string list option" where
  "chanmodes_loop 0 p = Some []"
| "chanmodes_loop (Suc k) p =
     (let comma = position ((=) (CHR '','')) p;
          fl = (case comma of Some x \<Rightarrow> x | None \<Rightarrow> length p)
      in if k > 0 \<and> comma = None then None
         else if fl \<ge> 64 \<and> k > 0 then None
         else map_option ((#) (trunc (take fl p) 64))
                (chanmodes_loop k (case comma of Some x \<Rightarrow> drop (x + 1) p | None \<Rightarrow> drop fl p)))"

definition prefix_value :: "string \<Rightarrow> (string \<times> string) option" where
  "prefix_value val =
     (if val = [] \<or> hd val \<noteq> CHR ''('' then None
      else case position ((=) (CHR '')'')) val of
        None \<Rightarrow> None
      | Some close \<Rightarrow>
          let ml = close - 1; sl = length val - close - 1 in
          if ml = 0 \<or> ml \<noteq> sl \<or> ml \<ge> 9 then None
          else if \<not> list_all is_alpha (take ml (drop 1 val)) then None
          else Some (take ml (drop 1 val), drop (close + 1) val))"

definition isupport_set :: "isupport \<Rightarrow> bool \<Rightarrow> string \<Rightarrow> string \<Rightarrow> isupport" where
  "isupport_set isu neg nm val =
     (if nm = ''MODES'' then
        (if neg then isu\<lparr>is_modes := ISUPPORT_MODES_DEFAULT\<rparr>
         else if val = [] then isu\<lparr>is_modes := ISUPPORT_MODES_MAX\<rparr>
         else if all_digits val \<and> parse_small val \<ge> 1
         then isu\<lparr>is_modes := min (parse_small val) ISUPPORT_MODES_MAX\<rparr> else isu)
      else if nm = ''MAXLIST'' then
        (if neg then isu\<lparr>is_maxlist_b := 0\<rparr>
         else isu\<lparr>is_maxlist_b := maxlist_loop (is_maxlist_b isu) val\<rparr>)
      else if nm = ''MAXBANS'' then
        (if is_maxlist_b isu = 0 \<and> all_digits val \<and> parse_small val \<ge> 1
         then isu\<lparr>is_maxlist_b := parse_small val\<rparr> else isu)
      else if nm = ''NICKLEN'' then
        (if neg then isu\<lparr>is_nicklen := NICKLEN_DEFAULT\<rparr>
         else if all_digits val \<and> parse_small val \<ge> 1 then isu\<lparr>is_nicklen := parse_small val\<rparr> else isu)
      else if nm = ''PREFIX'' then
        (if neg then isu\<lparr>is_prefix_modes := ''ov'', is_prefix_syms := ''@+''\<rparr>
         else case prefix_value val of
             Some (ms, ss) \<Rightarrow> isu\<lparr>is_prefix_modes := ms, is_prefix_syms := ss\<rparr> | None \<Rightarrow> isu)
      else if nm = ''CHANMODES'' then
        (if neg then isu
         else case chanmodes_loop 4 val of
             Some [a, b, c, d] \<Rightarrow> isu\<lparr>is_cm_a := a, is_cm_b := b, is_cm_c := c, is_cm_d := d\<rparr>
           | _ \<Rightarrow> isu)
      else isu)"

definition isupport_token :: "isupport \<Rightarrow> string \<Rightarrow> isupport" where
  "isupport_token isu tok0 =
     (let neg = (tok0 \<noteq> [] \<and> hd tok0 = CHR ''-'');
          tok = (if neg then drop 1 tok0 else tok0);
          (nm, val) = (case position ((=) (CHR ''='')) tok of
              Some x \<Rightarrow> (take x tok, drop (x + 1) tok) | None \<Rightarrow> (tok, []))
      in isupport_set isu neg nm val)"

fun isupport_tokens :: "isupport \<Rightarrow> string list \<Rightarrow> isupport" where
  "isupport_tokens isu [] = isu"
| "isupport_tokens isu (tok # toks) =
     (if hd tok = CHR '':'' then isu
      else isupport_tokens (if length tok < 120 then isupport_token isu tok else isu) toks)"

definition isupport_parse :: "bot_state \<Rightarrow> string \<Rightarrow> bot_state" where
  "isupport_parse st params =
     st\<lparr>st_isup := isupport_tokens (st_isup st) (tokens '' '' (snd (tok_next '' '' params)))\<rparr>"

definition is_prefix_mode :: "isupport \<Rightarrow> char \<Rightarrow> bool" where
  "is_prefix_mode isu m \<longleftrightarrow> byte m \<noteq> 0 \<and> m \<in> set (is_prefix_modes isu)"

definition mode_has_arg :: "isupport \<Rightarrow> char \<Rightarrow> bool \<Rightarrow> bool" where
  "mode_has_arg isu m adding =
     (if is_prefix_mode isu m then True
      else if m \<in> set (is_cm_a isu) \<or> m \<in> set (is_cm_b isu) then True
      else if m \<in> set (is_cm_c isu) then adding
      else False)"

definition nicklen :: "isupport \<Rightarrow> nat" where
  "nicklen isu = (let n = (if is_nicklen isu > 0 then is_nicklen isu else NICKLEN_DEFAULT)
                 in min (nat n) (MAX_MEMBER_NICK - 1))"

definition ban_cap :: "isupport \<Rightarrow> nat" where
  "ban_cap isu = (let n = (if is_maxlist_b isu > 0 then is_maxlist_b isu else MAXLIST_DEFAULT)
                 in nat (min n BAN_LIST_CAP))"

section \<open>Live modes and bans\<close>

definition live_bit :: "char \<Rightarrow> 64 word" where
  "live_bit m = (if is_lower m then push_bit (byte m - 97) 1
                 else if is_upper m then push_bit (26 + (byte m - 65)) 1 else 0)"

definition live_has :: "chan \<Rightarrow> char \<Rightarrow> bool" where
  "live_has c m \<longleftrightarrow> live_bit m \<noteq> 0 \<and> c_live_flags c AND live_bit m \<noteq> 0"

text \<open>The list part of \<open>ban_add\<close>, on one channel.\<close>

definition chan_ban_add :: "isupport \<Rightarrow> string \<Rightarrow> string \<Rightarrow> int \<Rightarrow> chan \<Rightarrow> chan" where
  "chan_ban_add isu bm setter when c =
     (if bm = [] \<or> length bm \<ge> MAX_MASK_LEN then c
      else if list_ex (\<lambda>b. eq_ic (lb_mask b) bm) (c_bans c) then c
      else if length (c_bans c) \<ge> ban_cap isu then c\<lparr>c_ban_overflow_logged := True\<rparr>
      else c\<lparr>c_bans := c_bans c @ [\<lparr>lb_mask = bm, lb_setter = trunc setter (MAX_MEMBER_NICK + 32), lb_when = when\<rparr>]\<rparr>)"

definition ban_add :: "bot_state \<Rightarrow> nat \<Rightarrow> string \<Rightarrow> string \<Rightarrow> int \<Rightarrow> bot_state" where
  "ban_add st ci bm setter when = upd_chan st ci (chan_ban_add (st_isup st) bm setter when)"

definition ban_del :: "string \<Rightarrow> chan \<Rightarrow> chan" where
  "ban_del bm c =
     (case position (\<lambda>b. eq_ic (lb_mask b) bm) (c_bans c) of
        Some i \<Rightarrow> c\<lparr>c_bans := swap_remove i (c_bans c)\<rparr> | None \<Rightarrow> c)"

definition ban_list_end :: "chan \<Rightarrow> chan" where
  "ban_list_end c =
     (if c_ban_list_open c then c else c\<lparr>c_bans := []\<rparr>)\<lparr>c_ban_list_open := False, c_ban_list_known := True\<rparr>"

text \<open>One mode letter of \<open>apply\<close>, its argument taken, on one channel.\<close>

definition set_prefix :: "char \<Rightarrow> bool \<Rightarrow> string \<Rightarrow> chan \<Rightarrow> chan" where
  "set_prefix ch adding nick c =
     (case position (\<lambda>r. eq_ic (r_nick r) nick) (c_roster c) of
        None \<Rightarrow> c
      | Some i \<Rightarrow>
          if ch = CHR ''h'' then c\<lparr>c_roster := (c_roster c)[i := (c_roster c ! i)\<lparr>r_is_halfop := adding\<rparr>]\<rparr>
          else if ch = CHR ''v'' then c\<lparr>c_roster := (c_roster c)[i := (c_roster c ! i)\<lparr>r_is_voice := adding\<rparr>]\<rparr>
          else c)"

definition apply_letter :: "env \<Rightarrow> isupport \<Rightarrow> bool \<Rightarrow> char \<Rightarrow> bool \<Rightarrow> bool \<Rightarrow> string option \<Rightarrow> chan \<Rightarrow> chan" where
  "apply_letter e isu from_324 ch adding has_arg a c =
     (if ch = CHR ''b'' then
        (case a of
           Some a \<Rightarrow> if from_324 then c
                     else if adding then chan_ban_add isu a [] (e_now e) c else ban_del a c
         | None \<Rightarrow> c)
      else if ch = CHR ''k'' then
        (if adding then
           (case a of Some a \<Rightarrow> c\<lparr>c_live_flags := c_live_flags c OR live_bit (CHR ''k''), c_live_key := trunc a MAX_KEY\<rparr>
            | None \<Rightarrow> c\<lparr>c_live_flags := c_live_flags c OR live_bit (CHR ''k'')\<rparr>)
         else c\<lparr>c_live_flags := c_live_flags c AND NOT (live_bit (CHR ''k'')), c_live_key := []\<rparr>)
      else if ch = CHR ''l'' then
        (if adding then
           (case a of
              Some a \<Rightarrow> if all_digits a
                 then c\<lparr>c_live_flags := c_live_flags c OR live_bit (CHR ''l''), c_live_limit := parse_small a\<rparr> else c
            | None \<Rightarrow> c)
         else c\<lparr>c_live_flags := c_live_flags c AND NOT (live_bit (CHR ''l'')), c_live_limit := 0\<rparr>)
      else if is_prefix_mode isu ch then (case a of Some a \<Rightarrow> set_prefix ch adding a c | None \<Rightarrow> c)
      else if \<not> has_arg \<and> is_alpha ch then
        (if adding then c\<lparr>c_live_flags := c_live_flags c OR live_bit ch\<rparr>
         else c\<lparr>c_live_flags := c_live_flags c AND NOT (live_bit ch)\<rparr>)
      else c)"

text \<open>The walk over the letters: \<open>arg\<close> is the argument read ahead, \<open>rest\<close> what follows it.\<close>

fun apply_loop :: "env \<Rightarrow> isupport \<Rightarrow> bool \<Rightarrow> bool \<Rightarrow> string option \<Rightarrow> string \<Rightarrow> string \<Rightarrow> chan \<Rightarrow> chan" where
  "apply_loop e isu from_324 adding arg rest [] c = c"
| "apply_loop e isu from_324 adding arg rest (ch # modes) c =
     (if ch = CHR ''+'' then apply_loop e isu from_324 True arg rest modes c
      else if ch = CHR ''-'' then apply_loop e isu from_324 False arg rest modes c
      else
        let has_arg = mode_has_arg isu ch adding;
            take_arg = (has_arg \<and> arg \<noteq> None);
            a = (if take_arg then arg else None);
            (arg', rest') = (if take_arg then tok_next '' '' rest else (arg, rest))
        in if has_arg \<and> a = None \<and> ch \<noteq> CHR ''k''
           then apply_loop e isu from_324 adding arg' rest' modes c
           else apply_loop e isu from_324 adding arg' rest' modes
                  (apply_letter e isu from_324 ch adding has_arg a c))"

definition live_apply :: "env \<Rightarrow> bot_state \<Rightarrow> nat \<Rightarrow> string \<Rightarrow> string \<Rightarrow> bool \<Rightarrow> bot_state" where
  "live_apply e st ci modes args from_324 =
     upd_chan st ci (\<lambda>c.
       let c1 = (if from_324 then c\<lparr>c_live_flags := 0, c_live_key := [], c_live_limit := 0, c_live_known := True\<rparr> else c);
           (arg, rest) = tok_next '' '' args
       in apply_loop e (st_isup st) from_324 True arg rest modes c1)"

text \<open>A 367 entry opens a new list when none is open.\<close>

definition open_ban_list :: "chan \<Rightarrow> chan" where
  "open_ban_list c = (if c_ban_list_open c then c else c\<lparr>c_bans := [], c_ban_list_open := True\<rparr>)"

definition numeric_367 :: "bot_state \<Rightarrow> nat \<Rightarrow> string \<Rightarrow> bot_state" where
  "numeric_367 st ci rest =
     (case tok_next '' '' rest of
        (None, _) \<Rightarrow> st
      | (Some bm, r2) \<Rightarrow>
          (case tok_next '' '' r2 of (setter, r3) \<Rightarrow>
            (case tok_next '' '' r3 of (ts, _) \<Rightarrow>
               ban_add (upd_chan st ci open_ban_list) ci bm
                 (case setter of Some s \<Rightarrow> s | None \<Rightarrow> []) (case ts of Some t \<Rightarrow> parse_ts t | None \<Rightarrow> 0))))"

definition numeric_at :: "env \<Rightarrow> bot_state \<Rightarrow> nat \<Rightarrow> string \<Rightarrow> string \<Rightarrow> bot_state" where
  "numeric_at e st ci cmd rest =
     (if cmd = ''324'' then
        upd_chan (case tok_next '' '' rest of
            (Some modes, r) \<Rightarrow> live_apply e st ci modes r True | (None, _) \<Rightarrow> st)
          ci (\<lambda>c. c\<lparr>c_enf_dirty := True\<rparr>)
      else if cmd = ''329'' then
        upd_chan st ci (\<lambda>c. c\<lparr>c_live_created :=
          (case tok_next '' '' rest of (Some t, _) \<Rightarrow> parse_ts t | (None, _) \<Rightarrow> 0)\<rparr>)
      else if cmd = ''367'' then numeric_367 st ci rest
      else if cmd = ''368'' then
        upd_chan st ci (\<lambda>c. (ban_list_end c)\<lparr>c_enf_dirty := True\<rparr>)
      else st)"

definition live_numeric :: "env \<Rightarrow> bot_state \<Rightarrow> string \<Rightarrow> string \<Rightarrow> bot_state" where
  "live_numeric e st cmd params =
     (if length params \<ge> 1024 then st
      else case tok_next '' '' params of
        (None, _) \<Rightarrow> st
      | (Some _, r1) \<Rightarrow>
        (case tok_next '' '' r1 of
          (None, _) \<Rightarrow> st
        | (Some ch, rest) \<Rightarrow>
          (case chan_find st ch of None \<Rightarrow> st | Some ci \<Rightarrow> numeric_at e st ci cmd rest)))"

section \<open>What no server line can break\<close>

definition isupport_ok :: "isupport \<Rightarrow> bool" where
  "isupport_ok isu \<longleftrightarrow> 1 \<le> is_modes isu \<and> is_modes isu \<le> ISUPPORT_MODES_MAX \<and> 0 \<le> is_maxlist_b isu \<and>
     1 \<le> is_nicklen isu \<and> length (is_prefix_modes isu) = length (is_prefix_syms isu) \<and>
     0 < length (is_prefix_modes isu) \<and> length (is_prefix_modes isu) < 9 \<and>
     length (is_cm_a isu) < 64 \<and> length (is_cm_b isu) < 64 \<and> length (is_cm_c isu) < 64 \<and> length (is_cm_d isu) < 64"

definition bans_ok :: "live_ban list \<Rightarrow> bool" where
  "bans_ok bs \<longleftrightarrow> int (length bs) \<le> BAN_LIST_CAP \<and> distinct (map (\<lambda>b. lowers (lb_mask b)) bs) \<and>
     list_all (\<lambda>b. lb_mask b \<noteq> [] \<and> length (lb_mask b) < MAX_MASK_LEN \<and>
       length (lb_setter b) < MAX_MEMBER_NICK + 32) bs"

lemma default_isupport_ok [simp]: "isupport_ok default_isupport"
  by (simp add: isupport_ok_def default_isupport_def limits)

lemma maxlist_loop_pos: "0 \<le> b \<Longrightarrow> 0 \<le> maxlist_loop b p"
proof (induction b p rule: maxlist_loop.induct)
  case (1 b p)
  show ?case
    by (subst maxlist_loop.simps)
       (auto simp: Let_def 1 parse_small_def split: option.split)
qed

lemma chanmodes_loop_ok: "chanmodes_loop k p = Some ms \<Longrightarrow> \<forall>m \<in> set ms. length m < 64"
  by (induction k p arbitrary: ms rule: chanmodes_loop.induct)
     (auto simp: Let_def length_trunc split: if_splits option.splits)

lemma chanmodes_loop_length: "chanmodes_loop k p = Some ms \<Longrightarrow> length ms = k"
  by (induction k p arbitrary: ms rule: chanmodes_loop.induct)
     (auto simp: Let_def split: if_splits option.splits)

lemma prefix_value_ok:
  "prefix_value val = Some (ms, ss) \<Longrightarrow> length ms = length ss \<and> 0 < length ms \<and> length ms < 9"
  by (auto simp: prefix_value_def Let_def split: if_splits option.splits dest!: position_SomeD)

lemma isupport_ok_upd:
  "isupport_ok isu \<Longrightarrow> 1 \<le> v \<Longrightarrow> v \<le> ISUPPORT_MODES_MAX \<Longrightarrow> isupport_ok (isu\<lparr>is_modes := v\<rparr>)"
  "isupport_ok isu \<Longrightarrow> 0 \<le> v \<Longrightarrow> isupport_ok (isu\<lparr>is_maxlist_b := v\<rparr>)"
  "isupport_ok isu \<Longrightarrow> 1 \<le> v \<Longrightarrow> isupport_ok (isu\<lparr>is_nicklen := v\<rparr>)"
  "isupport_ok isu \<Longrightarrow> length ms = length ss \<Longrightarrow> 0 < length ms \<Longrightarrow> length ms < 9 \<Longrightarrow>
     isupport_ok (isu\<lparr>is_prefix_modes := ms, is_prefix_syms := ss\<rparr>)"
  "isupport_ok isu \<Longrightarrow> \<forall>m \<in> set [a, b, c, d]. length m < 64 \<Longrightarrow>
     isupport_ok (isu\<lparr>is_cm_a := a, is_cm_b := b, is_cm_c := c, is_cm_d := d\<rparr>)"
  by (auto simp: isupport_ok_def)

lemma isupport_set_ok:
  assumes "isupport_ok isu"
  shows "isupport_ok (isupport_set isu neg nm val)"
proof -
  have "0 \<le> is_maxlist_b isu" using assms by (simp add: isupport_ok_def)
  then have m: "0 \<le> maxlist_loop (is_maxlist_b isu) val" by (rule maxlist_loop_pos)
  have d: "1 \<le> ISUPPORT_MODES_DEFAULT" "ISUPPORT_MODES_DEFAULT \<le> ISUPPORT_MODES_MAX"
    "1 \<le> ISUPPORT_MODES_MAX" "1 \<le> NICKLEN_DEFAULT" by (simp_all add: limits)
  have c: "isupport_ok (case chanmodes_loop 4 val of
      Some [a, b, c, d] \<Rightarrow> isu\<lparr>is_cm_a := a, is_cm_b := b, is_cm_c := c, is_cm_d := d\<rparr> | _ \<Rightarrow> isu)"
    using assms chanmodes_loop_ok [of 4 val] by (auto intro!: isupport_ok_upd split: option.split list.split)
  have p: "isupport_ok (case prefix_value val of
      Some (ms, ss) \<Rightarrow> isu\<lparr>is_prefix_modes := ms, is_prefix_syms := ss\<rparr> | None \<Rightarrow> isu)"
    using assms prefix_value_ok [of val] by (auto intro!: isupport_ok_upd(4) split: option.split)
  show ?thesis
    unfolding isupport_set_def using assms m d c p by (simp add: isupport_ok_upd)
qed

lemma isupport_token_ok: "isupport_ok isu \<Longrightarrow> isupport_ok (isupport_token isu tok)"
  by (simp add: isupport_token_def isupport_set_ok Let_def split: prod.split)

lemma isupport_tokens_ok: "isupport_ok isu \<Longrightarrow> isupport_ok (isupport_tokens isu toks)"
  by (induction isu toks rule: isupport_tokens.induct) (auto simp: isupport_token_ok)

lemma ban_cap_le: "int (ban_cap isu) \<le> BAN_LIST_CAP"
  by (simp add: ban_cap_def limits Let_def)

lemma bans_ok_Nil [simp]: "bans_ok []"
  by (simp add: bans_ok_def limits)

lemma chan_ban_add_ok: "bans_ok (c_bans c) \<Longrightarrow> bans_ok (c_bans (chan_ban_add isu bm setter when c))"
  using ban_cap_le [of isu] length_trunc [of "MAX_MEMBER_NICK + 32" setter]
  by (auto simp: chan_ban_add_def bans_ok_def list_ex_iff eq_ic_def limits)

lemma swap_remove_mset:
  assumes "i < length xs"
  shows "mset (swap_remove i xs) = mset xs - {#xs ! i#}"
proof -
  obtain ys z where xs: "xs = ys @ [z]" using assms by (cases xs rule: rev_cases) auto
  show ?thesis
  proof (cases "i < length ys")
    case True
    then have "swap_remove i xs = ys[i := z]" by (simp add: swap_remove_def xs list_update_append)
    then show ?thesis using True by (simp add: xs mset_update nth_append)
  next
    case False
    then have "i = length ys" using assms xs by simp
    then show ?thesis by (simp add: swap_remove_def xs)
  qed
qed

lemma swap_remove_sub: "i < length xs \<Longrightarrow> mset (swap_remove i xs) \<subseteq># mset xs"
  by (simp add: swap_remove_mset)

lemma distinct_map_sub: "mset cs \<subseteq># mset bs \<Longrightarrow> distinct (map f bs) \<Longrightarrow> distinct (map f cs)"
proof -
  assume "mset cs \<subseteq># mset bs" "distinct (map f bs)"
  moreover from this(1) have "mset (map f cs) \<subseteq># mset (map f bs)" by (simp add: image_mset_subseteq_mono)
  ultimately show ?thesis
    by (metis (no_types, lifting) distinct_count_atmost_1 distinct_append mset_append mset_eq_imp_distinct_iff
        mset_subset_eq_exists_conv ex_mset)
qed

lemma bans_ok_sub:
  assumes "bans_ok bs" "mset cs \<subseteq># mset bs"
  shows "bans_ok cs"
proof -
  have "set cs \<subseteq> set bs" using assms(2) by (metis set_mset_mono set_mset_mset)
  moreover have "length cs \<le> length bs" using assms(2) by (metis size_mset size_mset_mono)
  moreover have "distinct (map (\<lambda>b. lowers (lb_mask b)) cs)"
    using assms distinct_map_sub unfolding bans_ok_def by blast
  ultimately show ?thesis using assms(1) by (auto simp: bans_ok_def list_all_iff)
qed

lemma ban_del_ok: "bans_ok (c_bans c) \<Longrightarrow> bans_ok (c_bans (ban_del bm c))"
  unfolding ban_del_def
  by (auto split: option.split dest!: position_SomeD intro: bans_ok_sub swap_remove_sub)

lemma set_prefix_bans [simp]: "c_bans (set_prefix ch adding nick c) = c_bans c"
  by (simp add: set_prefix_def split: option.split)

lemma apply_letter_ok:
  "bans_ok (c_bans c) \<Longrightarrow> bans_ok (c_bans (apply_letter e isu f ch adding has_arg a c))"
  by (auto simp: apply_letter_def chan_ban_add_ok ban_del_ok split: option.split)

lemma apply_loop_ok:
  "bans_ok (c_bans c) \<Longrightarrow> bans_ok (c_bans (apply_loop e isu f adding arg rest modes c))"
  by (induction modes arbitrary: adding arg rest c) (auto simp: Let_def apply_letter_ok split: prod.split)

definition live_inv :: "bot_state \<Rightarrow> bool" where
  "live_inv st \<longleftrightarrow> isupport_ok (st_isup st) \<and> (\<forall>c \<in> set (st_chans st). bans_ok (c_bans c))"

lemma upd_chan_beyond: "\<not> ci < length (st_chans st) \<Longrightarrow> upd_chan st ci f = st"
  by (simp add: upd_chan_def list_update_beyond)

lemma upd_chan_inv:
  assumes "live_inv st" "\<And>c. bans_ok (c_bans c) \<Longrightarrow> bans_ok (c_bans (f c))"
  shows "live_inv (upd_chan st ci f)"
proof (cases "ci < length (st_chans st)")
  case True
  then have "bans_ok (c_bans (f (st_chans st ! ci)))" using assms by (simp add: live_inv_def)
  then show ?thesis using assms(1)
    by (auto simp: live_inv_def upd_chan_def dest!: set_update_subset_insert [THEN subsetD])
next
  case False
  then show ?thesis using assms(1) by (simp add: upd_chan_beyond)
qed

lemma live_apply_inv: "live_inv st \<Longrightarrow> live_inv (live_apply e st ci modes args f)"
  unfolding live_apply_def
  by (rule upd_chan_inv) (auto simp: Let_def apply_loop_ok split: prod.split)

lemma ban_add_inv: "live_inv st \<Longrightarrow> live_inv (ban_add st ci bm setter when)"
  unfolding ban_add_def by (rule upd_chan_inv) (simp_all add: chan_ban_add_ok)

lemma numeric_367_inv: "live_inv st \<Longrightarrow> live_inv (numeric_367 st ci rest)"
  unfolding numeric_367_def
  by (auto intro!: ban_add_inv upd_chan_inv simp: open_ban_list_def split: prod.split option.split)

lemma numeric_at_inv:
  assumes "live_inv st"
  shows "live_inv (numeric_at e st ci cmd rest)"
proof -
  have "live_inv (case tok_next '' '' rest of (Some modes, r) \<Rightarrow> live_apply e st ci modes r True | (None, _) \<Rightarrow> st)"
    using assms live_apply_inv by (auto split: prod.split option.split)
  then show ?thesis
    unfolding numeric_at_def using assms numeric_367_inv
    by (auto intro!: upd_chan_inv simp: ban_list_end_def)
qed

lemma live_numeric_inv: "live_inv st \<Longrightarrow> live_inv (live_numeric e st cmd params)"
  unfolding live_numeric_def using numeric_at_inv by (simp split: prod.split option.split)

lemma isupport_parse_inv: "live_inv st \<Longrightarrow> live_inv (isupport_parse st params)"
  by (simp add: live_inv_def isupport_parse_def isupport_tokens_ok)

lemma reset_inv: "live_inv (reset_status (isupport_reset st))"
  by (simp add: live_inv_def reset_status_def isupport_reset_def reset_chan_def live_reset_def)

lemma chan_add_inv: "live_inv st \<Longrightarrow> live_inv (snd (chan_add e st nm))"
  by (auto simp: live_inv_def chan_add_def default_chan_def)

text \<open>What a server can do to the live state, one line at a time, in any order.\<close>

inductive live_step :: "bot_state \<Rightarrow> bot_state \<Rightarrow> bool" where
  step_numeric: "live_step st (live_numeric e st cmd params)"
| step_mode: "live_step st (live_apply e st ci modes args from_324)"
| step_005: "live_step st (isupport_parse st params)"
| step_join: "live_step st (snd (chan_add e st nm))"
| step_drop: "live_step st (reset_status (isupport_reset st))"

lemma live_step_inv: "live_step st st' \<Longrightarrow> live_inv st \<Longrightarrow> live_inv st'"
  by (induction rule: live_step.induct)
     (simp_all add: live_numeric_inv live_apply_inv isupport_parse_inv chan_add_inv reset_inv)

section \<open>Properties\<close>

text \<open>C25: whatever lines the server sends, in any order, the 005 values stay within their bounds
  (1 to 12 modes a line, equal and short prefix tables) and no channel's ban list grows past its
  ceiling, holds a clipped or empty mask, or lists a mask twice.\<close>

theorem server_lines_keep_live_state:
  assumes "live_step\<^sup>*\<^sup>* (bot_new t ms) st"
  shows "isupport_ok (st_isup st) \<and> (\<forall>c \<in> set (st_chans st). bans_ok (c_bans c))"
proof -
  have "live_inv (bot_new t ms)" by (simp add: live_inv_def bot_new_def)
  with assms have "live_inv st" by (induction rule: rtranclp_induct) (simp_all add: live_step_inv)
  then show ?thesis by (simp add: live_inv_def)
qed

definition demo_ban_line :: bot_state where
  "demo_ban_line = live_numeric (calm_env 5)
     (snd (chan_add (calm_env 5) (bot_new 0 0) ''#c''))
     ''367'' ''me #c *!*@h op 9''"

lemma server_lines_keep_live_state_witness:
  "map lb_mask (c_bans (st_chans demo_ban_line ! 0)) = [''*!*@h''] \<and> isupport_ok (st_isup demo_ban_line)"
proof
  have "live_step\<^sup>*\<^sup>* (bot_new 0 0) demo_ban_line"
    unfolding demo_ban_line_def by (meson step_numeric step_join r_into_rtranclp rtranclp_trans)
  then show "isupport_ok (st_isup demo_ban_line)" using server_lines_keep_live_state by blast
qed code_simp

end
