(* ===== verification/Refusal.thy ===== *)
theory Refusal
  imports ChanLive
begin

text \<open>
  Servers that refuse the bot (\<open>src/src/irc_client.rs\<close>): reading what a server said into a kind of
  refusal and a length, the hold that follows and its growth with each strike, and the choice
  of the next server to dial.
\<close>

section \<open>Reading a refusal\<close>

definition refusal_sanitize :: "string \<Rightarrow> nat \<Rightarrow> string" where
  "refusal_sanitize src cap = trunc (map (\<lambda>c. if is_ctl c then CHR ''?'' else c) src) cap"

definition refusal_fold :: "string \<Rightarrow> string" where
  "refusal_fold src = take (IRC_REFUSAL_LEN - 1) (map lower (filter (\<lambda>b. b \<noteq> CHR ''-'') src))"

definition find_from :: "string \<Rightarrow> string \<Rightarrow> nat \<Rightarrow> nat option" where
  "find_from hay needle start =
     (if needle = [] \<or> start > length hay then None
      else map_option (\<lambda>p. p + start)
             (position (\<lambda>i. take (length needle) (drop (start + i) hay) = needle)
                [0..<Suc (length hay - start) - length needle]))"

lemma find_from_range: "find_from hay needle start = Some p \<Longrightarrow>
    start \<le> p \<and> p < length hay \<and> take (length needle) (drop p hay) = needle"
proof -
  assume f: "find_from hay needle start = Some p"
  then have nd: "0 < length needle" "start \<le> length hay" by (auto simp: find_from_def split: if_splits)
  obtain k where k: "p = k + start"
    "position (\<lambda>i. take (length needle) (drop (start + i) hay) = needle)
       [0..<Suc (length hay - start) - length needle] = Some k"
    using f by (auto simp: find_from_def split: if_splits)
  note d = position_SomeD [OF k(2)]
  have kk: "k < Suc (length hay - start) - length needle" using d by simp
  then have "[0..<Suc (length hay - start) - length needle] ! k = k" by simp
  then have "take (length needle) (drop (start + k) hay) = needle" using d by simp
  note kk = kk this
  have "p < length hay" using kk(1) nd k(1) by linarith
  then show ?thesis using kk(2) k(1) by (simp add: add.commute)
qed

function refusal_find_from :: "string \<Rightarrow> string \<Rightarrow> nat \<Rightarrow> nat option" where
  "refusal_find_from hay needle start =
     (case find_from hay needle start of
        None \<Rightarrow> None
      | Some p \<Rightarrow>
          if p = 0 \<or> \<not> is_alpha (hay ! (p - 1)) then Some (p + length needle)
          else refusal_find_from hay needle (p + 1))"
  by pat_completeness auto
termination
  by (relation "measure (\<lambda>(hay, needle, start). Suc (length hay) - start)")
     (auto dest!: find_from_range)

declare refusal_find_from.simps [simp del]

definition refusal_find :: "string \<Rightarrow> string \<Rightarrow> nat option" where
  "refusal_find hay needle = refusal_find_from hay needle 0"

definition UNITS :: "(string \<times> int) list" where
  "UNITS = [(''s'', 1), (''sec'', 1), (''secs'', 1), (''second'', 1), (''seconds'', 1),
     (''m'', 60), (''min'', 60), (''mins'', 60), (''minute'', 60), (''minutes'', 60),
     (''h'', 3600), (''hr'', 3600), (''hrs'', 3600), (''hour'', 3600), (''hours'', 3600),
     (''d'', 86400), (''day'', 86400), (''days'', 86400),
     (''w'', 604800), (''wk'', 604800), (''week'', 604800), (''weeks'', 604800),
     (''mo'', 2592000), (''month'', 2592000), (''months'', 2592000),
     (''y'', 31536000), (''yr'', 31536000), (''year'', 31536000), (''years'', 31536000)]"

definition unit_of :: "string \<Rightarrow> int" where
  "unit_of word = (case find (\<lambda>u. fst u = word) UNITS of Some u \<Rightarrow> snd u | None \<Rightarrow> 0)"

text \<open>The bytes before the first digit; nothing when it is more than 48 bytes away.\<close>

fun dur_skip :: "nat \<Rightarrow> string \<Rightarrow> string option" where
  "dur_skip skipped [] = Some []"
| "dur_skip skipped (c # s) =
     (if byte c = 0 \<or> is_digit c then Some (c # s)
      else if skipped + 1 > 48 then None
      else dur_skip (skipped + 1) s)"

definition dur_number :: "string \<Rightarrow> int" where
  "dur_number ds = foldl (\<lambda>n c. if n < 1000000000 then n * 10 + int (digit_val c) else n) 0 ds"

text \<open>Up to four number and unit pairs.\<close>

fun dur_pairs :: "nat \<Rightarrow> int \<Rightarrow> string \<Rightarrow> int" where
  "dur_pairs 0 tot s = tot"
| "dur_pairs (Suc k) tot s =
     (if s = [] \<or> \<not> is_digit (hd s) then tot
      else
        let n = dur_number (takeWhile is_digit s);
            s1 = dropWhile (\<lambda>c. c = CHR '' '') (dropWhile is_digit s);
            u = unit_of (take 11 (takeWhile is_alpha s1));
            s2 = dropWhile is_alpha s1
        in if u = 0 then tot
           else if tot + n * u \<ge> IRC_BAN_STATED_MAX then IRC_BAN_STATED_MAX
           else dur_pairs k (tot + n * u) (dropWhile (\<lambda>c. c = CHR '' '' \<or> c = CHR '','') s2))"

definition refusal_parse_duration :: "string \<Rightarrow> int" where
  "refusal_parse_duration s = (case dur_skip 0 s of None \<Rightarrow> 0 | Some r \<Rightarrow> dur_pairs 4 0 r)"

definition BAN_WORDS :: "string list" where
  "BAN_WORDS = [''kline'', ''gline'', ''zline'', ''dline'', ''akill'', ''autokill'', ''banned'', ''not welcome'']"

definition THROTTLE_WORDS :: "string list" where
  "THROTTLE_WORDS = [''throttl'', ''too fast'', ''too many'']"

definition refusal_classify :: "string \<Rightarrow> bool \<Rightarrow> server_block_kind \<times> int" where
  "refusal_classify txt ban_numeric =
     (let t = refusal_fold txt in
      if \<not> ban_numeric \<and> (find_from t ''killed ('' 0 \<noteq> None \<or> find_from t ''(quit:'' 0 \<noteq> None)
      then (SB_None, 0)
      else if ban_numeric \<or> list_ex (\<lambda>w. refusal_find t w \<noteq> None) BAN_WORDS then
        (case (case refusal_find t ''temporar'' of Some a \<Rightarrow> Some a | None \<Rightarrow> refusal_find t ''expire'') of
           Some after \<Rightarrow>
             let secs = refusal_parse_duration (drop after t)
             in if secs > 0 then (BannedTemp, secs) else (Banned, 0)
         | None \<Rightarrow> if refusal_find t ''permanent'' \<noteq> None then (BannedPerm, 0) else (Banned, 0))
      else if list_ex (\<lambda>w. refusal_find t w \<noteq> None) THROTTLE_WORDS then (Throttled, 0)
      else (SB_None, 0))"

section \<open>Holds\<close>

function refusal_backoff_loop :: "int \<Rightarrow> int \<Rightarrow> int \<Rightarrow> int \<Rightarrow> int" where
  "refusal_backoff_loop i s strikes cap =
     (if i < strikes \<and> s < cap then refusal_backoff_loop (i + 1) (s * 2) strikes cap else s)"
  by pat_completeness auto
termination
  by (relation "measure (\<lambda>(i, s, strikes, cap). nat (strikes - i))") auto

declare refusal_backoff_loop.simps [simp del]

definition refusal_backoff :: "int \<Rightarrow> int \<Rightarrow> int \<Rightarrow> int" where
  "refusal_backoff base strikes cap = min (refusal_backoff_loop 1 base strikes cap) cap"

definition two_digits :: "int \<Rightarrow> string" where
  "two_digits n = (if n < 10 then ''0'' else []) @ dec_int n"

definition fmt_secs :: "int \<Rightarrow> string" where
  "fmt_secs s =
     (if s \<ge> 86400 then dec_int (s div 86400) @ ''d'' @ dec_int ((s mod 86400) div 3600) @ ''h''
      else if s \<ge> 3600 then dec_int (s div 3600) @ ''h'' @ two_digits ((s mod 3600) div 60) @ ''m''
      else if s \<ge> 60 \<and> s mod 60 \<noteq> 0 then dec_int (s div 60) @ ''m'' @ two_digits (s mod 60) @ ''s''
      else if s \<ge> 60 then dec_int (s div 60) @ ''m''
      else dec_int s @ ''s'')"

definition note_refusal :: "bot_state \<Rightarrow> string \<Rightarrow> bool \<Rightarrow> bot_state" where
  "note_refusal st txt ban_numeric =
     (let clean = refusal_sanitize txt IRC_REFUSAL_LEN;
          st1 = (if ban_numeric then st\<lparr>st_irc_refusal_ban := True\<rparr> else st);
          cap = IRC_REFUSAL_LEN;
          r0 = st_irc_refusal st1;
          r1 = (if r0 \<noteq> [] \<and> length r0 + 3 + 1 < cap then r0 @ '' | '' else r0);
          room = cap - 1 - min (length r1) (cap - 1)
      in st1\<lparr>st_irc_refusal := r1 @ trunc clean (room + 1)\<rparr>)"

definition hold_for :: "server_block_kind \<Rightarrow> int \<Rightarrow> int \<Rightarrow> int" where
  "hold_for kind strikes stated =
     (case kind of
        Throttled \<Rightarrow> refusal_backoff IRC_THROTTLE_BACKOFF strikes IRC_THROTTLE_BACKOFF_MAX
      | Banned \<Rightarrow> refusal_backoff IRC_BAN_BACKOFF strikes IRC_BAN_BACKOFF_MAX
      | BannedTemp \<Rightarrow> max (stated + IRC_BAN_GRACE)
                        (refusal_backoff IRC_THROTTLE_BACKOFF strikes IRC_BAN_BACKOFF_MAX)
      | _ \<Rightarrow> 0)"

definition block_after :: "int \<Rightarrow> server_block_kind \<Rightarrow> int \<Rightarrow> string \<Rightarrow> server_block \<Rightarrow> server_block" where
  "block_after now kind stated reason b =
     (let strikes = (if sb_strikes b < 32 then sb_strikes b + 1 else sb_strikes b);
          hold = hold_for kind strikes stated
      in b\<lparr>sb_strikes := strikes, sb_kind := kind,
           sb_until := (if kind = BannedPerm then 0 else now + hold), sb_reason := reason\<rparr>)"

definition apply_refusal :: "env \<Rightarrow> bot_state \<Rightarrow> bot_state" where
  "apply_refusal e st =
     (if st_irc_refusal st = [] \<and> \<not> st_irc_refusal_ban st then st
      else
        let (kind, stated) = refusal_classify (st_irc_refusal st) (st_irc_refusal_ban st);
            st1 = (case st_irc_server_idx st of
                Some idx \<Rightarrow>
                  if idx < length (st_server_list st) \<and> kind \<noteq> SB_None
                  then st\<lparr>st_server_blocks := (st_server_blocks st)[idx :=
                         block_after (e_now e) kind stated (st_irc_refusal st) (st_server_blocks st ! idx)]\<rparr>
                  else st
              | None \<Rightarrow> st)
        in st1\<lparr>st_irc_refusal := [], st_irc_refusal_ban := False\<rparr>)"

definition note_registered :: "bot_state \<Rightarrow> bot_state" where
  "note_registered st =
     (case st_irc_server_idx st of
        Some idx \<Rightarrow> if idx < length (st_server_list st)
          then st\<lparr>st_server_blocks := (st_server_blocks st)[idx := default_server_block]\<rparr> else st
      | None \<Rightarrow> st)"

definition server_block_clear :: "bot_state \<Rightarrow> nat \<Rightarrow> bot_state" where
  "server_block_clear st idx =
     (if idx < MAX_SERVERS
      then st\<lparr>st_server_blocks := (st_server_blocks st)[idx := default_server_block],
              st_irc_blocked_logged := False\<rparr>
      else st)"

definition server_block_remove :: "bot_state \<Rightarrow> nat \<Rightarrow> bot_state" where
  "server_block_remove st idx =
     (if idx \<ge> length (st_server_list st) then st
      else st\<lparr>st_server_blocks := take idx (st_server_blocks st) @ drop (idx + 1) (st_server_blocks st) @ [default_server_block],
              st_irc_server_idx := (case st_irc_server_idx st of
                  Some i \<Rightarrow> if i = idx then None else if i > idx then Some (i - 1) else Some i
                | None \<Rightarrow> None)\<rparr>)"

definition server_block_desc :: "env \<Rightarrow> bot_state \<Rightarrow> nat \<Rightarrow> string" where
  "server_block_desc e st idx =
     (if idx \<ge> length (st_server_blocks st) then []
      else
        let b = st_server_blocks st ! idx in
        if sb_kind b = BannedPerm then ''banned, permanent''
        else if sb_kind b = SB_None \<or> sb_until b \<le> e_now e then []
        else (if sb_kind b = Throttled then ''throttled'' else ''banned'') @ '' '' @ fmt_secs (sb_until b - e_now e))"

section \<open>The next server\<close>

definition server_held :: "int \<Rightarrow> server_block \<Rightarrow> bool" where
  "server_held now b \<longleftrightarrow> sb_kind b = BannedPerm \<or> (sb_kind b \<noteq> SB_None \<and> sb_until b > now)"

fun pick_loop :: "bot_state \<Rightarrow> int \<Rightarrow> nat list \<Rightarrow> nat option" where
  "pick_loop st now [] = None"
| "pick_loop st now (i # js) =
     (let b = st_server_blocks st ! i in
      if sb_kind b = BannedPerm then pick_loop st now js
      else if sb_kind b \<noteq> SB_None \<and> sb_until b > now then pick_loop st now js
      else Some i)"

definition pick_order :: "bot_state \<Rightarrow> nat list" where
  "pick_order st =
     (let n = length (st_server_list st);
          start = (if st_current_server_index st < n then st_current_server_index st else 0)
      in map (\<lambda>k. (start + k) mod n) [0..<n])"

definition pick_server :: "bot_state \<Rightarrow> int \<Rightarrow> nat option \<times> bot_state" where
  "pick_server st now =
     (if length (st_server_list st) = 0 then (None, st)
      else case pick_loop st now (pick_order st) of
             Some i \<Rightarrow> (Some i, st\<lparr>st_irc_blocked_logged := False\<rparr>)
           | None \<Rightarrow> (None, st\<lparr>st_irc_blocked_logged := True\<rparr>))"

section \<open>Lemmas\<close>

text \<open>The doubling loop in closed form.\<close>

lemma refusal_backoff_loop_eq:
  "0 < s \<Longrightarrow> s \<le> cap \<Longrightarrow> i \<le> strikes \<Longrightarrow>
     min (refusal_backoff_loop i s strikes cap) cap = min (s * 2 ^ nat (strikes - i)) cap"
proof (induction i s strikes cap rule: refusal_backoff_loop.induct)
  case (1 i s strikes cap)
  show ?case
  proof (cases "i < strikes \<and> s < cap")
    case True
    have p: "s * 2 ^ nat (strikes - i) = s * 2 * 2 ^ nat (strikes - (i + 1))"
    proof -
      have "nat (strikes - i) = Suc (nat (strikes - (i + 1)))" using True by linarith
      then show ?thesis by simp
    qed
    show ?thesis
    proof (cases "s * 2 \<le> cap")
      case le: True
      then show ?thesis using 1 True p by (subst refusal_backoff_loop.simps) simp
    next
      case gt: False
      have "s * 2 \<le> s * 2 * 2 ^ nat (strikes - (i + 1))"
        using "1.prems"(1) by simp
      then have "cap \<le> s * 2 ^ nat (strikes - i)" unfolding p using gt by linarith
      then have "min (s * 2 ^ nat (strikes - i)) cap = cap" by (rule min_absorb2)
      moreover have "refusal_backoff_loop (i + 1) (s * 2) strikes cap = s * 2"
        using gt by (subst refusal_backoff_loop.simps) simp
      ultimately show ?thesis using gt True by (subst refusal_backoff_loop.simps) simp
    qed
  next
    case False
    have "s * 1 \<le> s * 2 ^ nat (strikes - i)" using "1.prems"(1) by (intro mult_left_mono) auto
    then show ?thesis using False "1.prems" by (subst refusal_backoff_loop.simps) auto
  qed
qed

lemma refusal_backoff_eq:
  "0 < base \<Longrightarrow> base \<le> cap \<Longrightarrow> 1 \<le> strikes \<Longrightarrow>
     refusal_backoff base strikes cap = min (base * 2 ^ nat (strikes - 1)) cap"
  by (simp add: refusal_backoff_def refusal_backoff_loop_eq)

lemma refusal_backoff_ge:
  assumes "0 < base" "base \<le> cap" "1 \<le> strikes"
  shows "base \<le> refusal_backoff base strikes cap" "refusal_backoff base strikes cap \<le> cap"
proof -
  have "base * 1 \<le> base * 2 ^ nat (strikes - 1)" using assms(1) by (intro mult_left_mono) auto
  then show "base \<le> refusal_backoff base strikes cap" "refusal_backoff base strikes cap \<le> cap"
    using assms by (simp_all add: refusal_backoff_eq)
qed

lemma pick_loop_spec:
  "pick_loop st now is = find (\<lambda>i. \<not> server_held now (st_server_blocks st ! i)) is"
  by (induction "is") (auto simp: server_held_def Let_def)

lemma find_SomeD: "find P xs = Some x \<Longrightarrow> x \<in> set xs \<and> P x"
  by (induction xs) (auto split: if_splits)

lemma dur_pairs_range:
  "0 \<le> tot \<Longrightarrow> tot \<le> IRC_BAN_STATED_MAX \<Longrightarrow> 0 \<le> dur_pairs k tot s \<and> dur_pairs k tot s \<le> IRC_BAN_STATED_MAX"
proof (induction k arbitrary: tot s)
  case (Suc k)
  define n where "n = dur_number (takeWhile is_digit s)"
  define s1 where "s1 = dropWhile (\<lambda>c. c = CHR '' '') (dropWhile is_digit s)"
  define u where "u = unit_of (take 11 (takeWhile is_alpha s1))"
  have num: "0 \<le> foldl (\<lambda>n c. if n < 1000000000 then n * 10 + int (digit_val c) else n) m ds" if "0 \<le> m" for m :: int and ds
    using that by (induction ds arbitrary: m) auto
  then have "0 \<le> n" by (simp add: n_def dur_number_def)
  moreover have "\<forall>p \<in> set UNITS. 0 \<le> snd p" by (simp add: UNITS_def)
  then have "0 \<le> u" unfolding u_def unit_of_def
    by (auto split: option.split dest!: find_SomeD)
  ultimately have "0 \<le> n * u" by simp
  then show ?case
    using Suc by (auto simp: Let_def n_def [symmetric] s1_def [symmetric] u_def [symmetric])
qed simp

lemma parse_duration_range: "0 \<le> refusal_parse_duration s \<and> refusal_parse_duration s \<le> IRC_BAN_STATED_MAX"
  unfolding refusal_parse_duration_def using dur_pairs_range [of 0 4]
  by (auto split: option.split simp: limits)

lemma classify_stated:
  "refusal_classify txt ban = (kind, stated) \<Longrightarrow> 0 \<le> stated \<and> stated \<le> IRC_BAN_STATED_MAX"
  unfolding refusal_classify_def Let_def
  using parse_duration_range by (auto split: if_splits option.splits simp: limits)

lemma hold_for_range:
  assumes "1 \<le> strikes" "0 \<le> stated" "stated \<le> IRC_BAN_STATED_MAX" "kind \<notin> {SB_None, BannedPerm}"
  shows "IRC_THROTTLE_BACKOFF \<le> hold_for kind strikes stated"
    "hold_for kind strikes stated \<le> IRC_BAN_STATED_MAX + IRC_BAN_GRACE"
  using assms refusal_backoff_ge [of IRC_THROTTLE_BACKOFF IRC_THROTTLE_BACKOFF_MAX strikes]
    refusal_backoff_ge [of IRC_BAN_BACKOFF IRC_BAN_BACKOFF_MAX strikes]
    refusal_backoff_ge [of IRC_THROTTLE_BACKOFF IRC_BAN_BACKOFF_MAX strikes]
  by (cases kind; simp add: hold_for_def limits)+

lemma pick_first:
  assumes "pick_server st now = (r, st')"
  shows "case r of
      Some i \<Rightarrow> \<exists>k < length (st_server_list st). pick_order st ! k = i \<and> i < length (st_server_list st) \<and>
        \<not> server_held now (st_server_blocks st ! i) \<and>
        (\<forall>j < k. server_held now (st_server_blocks st ! (pick_order st ! j)))
    | None \<Rightarrow> \<forall>i < length (st_server_list st). server_held now (st_server_blocks st ! i)"
proof -
  let ?n = "length (st_server_list st)"
  have len: "length (pick_order st) = ?n" by (simp add: pick_order_def Let_def)
  have rng: "pick_order st ! k < ?n" if "k < ?n" for k
  proof -
    have "0 < ?n" using that by linarith
    then show ?thesis using that mod_less_divisor [of ?n] by (auto simp: pick_order_def Let_def)
  qed
  have r: "r = find (\<lambda>i. \<not> server_held now (st_server_blocks st ! i)) (pick_order st)"
    using assms len by (cases "?n = 0") (auto simp: pick_server_def pick_loop_spec pick_order_def split: option.splits)
  show ?thesis
  proof (cases r)
    case None
    have "i \<in> set (pick_order st)" if i: "i < ?n" for i
    proof -
      define start where "start = (if st_current_server_index st < ?n then st_current_server_index st else 0)"
      have st: "start < ?n" using i by (auto simp: start_def)
      define k where "k = (if start \<le> i then i - start else ?n - start + i)"
      have "k < ?n" "(start + k) mod ?n = i"
        using st i by (auto simp: k_def mod_if)
      then show ?thesis unfolding pick_order_def Let_def start_def [symmetric] by auto
    qed
    moreover have "find (\<lambda>i. \<not> server_held now (st_server_blocks st ! i)) (pick_order st) = None"
      using None r by simp
    ultimately show ?thesis using None by (auto simp: find_None_iff)
  next
    case (Some i)
    then obtain k where "k < ?n" "\<not> server_held now (st_server_blocks st ! i)" "i = pick_order st ! k"
      "\<forall>j < k. server_held now (st_server_blocks st ! (pick_order st ! j))"
      using r len by (auto simp: find_Some_iff)
    then show ?thesis using Some rng by (auto intro!: exI [of _ k])
  qed
qed

section \<open>Properties\<close>

text \<open>The server dialled is the first, from the current one on and round, that is not held; when
  none is returned every configured server is held.\<close>

theorem pick_server_first_free:
  assumes "pick_server st now = (r, st')"
  shows "case r of
      Some i \<Rightarrow> \<exists>k < length (st_server_list st). pick_order st ! k = i \<and> i < length (st_server_list st) \<and>
        \<not> server_held now (st_server_blocks st ! i) \<and>
        (\<forall>j < k. server_held now (st_server_blocks st ! (pick_order st ! j)))
    | None \<Rightarrow> \<forall>i < length (st_server_list st). server_held now (st_server_blocks st ! i)"
  using pick_first [OF assms] .

definition demo_servers :: bot_state where
  "demo_servers = lean_bot\<lparr>st_server_list := [''a'', ''b'', ''c''], st_current_server_index := 1,
     st_irc_server_idx := Some 1, st_irc_refusal := ''Temporary K-line: 2 hours''\<rparr>"

lemma pick_server_first_free_witness:
  "fst (pick_server (apply_refusal (calm_env 100) demo_servers) 500) = Some 2 \<and>
   \<not> server_held 500 (st_server_blocks (apply_refusal (calm_env 100) demo_servers) ! 2)"
proof -
  let ?st = "apply_refusal (calm_env 100) demo_servers"
  have p: "fst (pick_server ?st 500) = Some 2" by code_simp
  then show ?thesis
    using pick_server_first_free [of ?st 500 "Some 2" "snd (pick_server ?st 500)"] by (auto simp: prod_eq_iff)
qed

text \<open>C36: a server whose refusal was understood is not dialled for the next minute; one that banned the bot for
  good is never picked again while its entry stands, any other one is free again at a time no later
  than the longest ban a server may state and its grace.\<close>

theorem refused_server_rests:
  assumes "st_irc_server_idx st = Some idx" "idx < length (st_server_list st)"
    "idx < length (st_server_blocks st)" "0 \<le> sb_strikes (st_server_blocks st ! idx)"
    "refusal_classify (st_irc_refusal st) (st_irc_refusal_ban st) = (kind, stated)" "kind \<noteq> SB_None"
    "st_irc_refusal st \<noteq> [] \<or> st_irc_refusal_ban st"
    "b = st_server_blocks (apply_refusal e st) ! idx"
  shows "(\<forall>now. now < e_now e + IRC_THROTTLE_BACKOFF \<or> kind = BannedPerm \<longrightarrow>
      fst (pick_server (apply_refusal e st) now) \<noteq> Some idx) \<and>
    (kind \<noteq> BannedPerm \<longrightarrow> e_now e + IRC_THROTTLE_BACKOFF \<le> sb_until b \<and>
      sb_until b \<le> e_now e + IRC_BAN_STATED_MAX + IRC_BAN_GRACE \<and> (\<forall>now. server_held now b \<longleftrightarrow> now < sb_until b))"
proof -
  have b: "b = block_after (e_now e) kind stated (st_irc_refusal st) (st_server_blocks st ! idx)"
    using assms by (auto simp: apply_refusal_def)
  define strikes where "strikes = (let s = sb_strikes (st_server_blocks st ! idx) in if s < 32 then s + 1 else s)"
  have "1 \<le> strikes" using assms(4) by (simp add: strikes_def Let_def)
  note h = hold_for_range [OF this, of stated kind] classify_stated [OF assms(5)]
  have u: "sb_kind b = kind" "kind \<noteq> BannedPerm \<Longrightarrow> sb_until b = e_now e + hold_for kind strikes stated"
    unfolding b by (simp_all add: block_after_def strikes_def Let_def)
  have held: "server_held now b" if "now < e_now e + IRC_THROTTLE_BACKOFF \<or> kind = BannedPerm" for now
    using that assms(6) u h by (cases "kind = BannedPerm") (auto simp: server_held_def)
  have "fst (pick_server (apply_refusal e st) now) \<noteq> Some idx"
    if "now < e_now e + IRC_THROTTLE_BACKOFF \<or> kind = BannedPerm" for now
  proof
    assume "fst (pick_server (apply_refusal e st) now) = Some idx"
    then show False
      using pick_first [of "apply_refusal e st" now "Some idx" "snd (pick_server (apply_refusal e st) now)"]
        held [OF that] assms(8) by (auto simp: prod_eq_iff)
  qed
  moreover have "e_now e + IRC_THROTTLE_BACKOFF \<le> sb_until b" "sb_until b \<le> e_now e + IRC_BAN_STATED_MAX + IRC_BAN_GRACE"
      "server_held now b \<longleftrightarrow> now < sb_until b" if "kind \<noteq> BannedPerm" for now
    using that u h assms(6) by (auto simp: server_held_def)
  ultimately show ?thesis by blast
qed

lemma refused_server_rests_witness:
  "fst (pick_server (apply_refusal (calm_env 100) demo_servers) 159) \<noteq> Some 1 \<and>
   sb_until (st_server_blocks (apply_refusal (calm_env 100) demo_servers) ! 1) \<le> 100 + 2592000 + 30"
proof -
  have c: "refusal_classify (st_irc_refusal demo_servers) (st_irc_refusal_ban demo_servers) = (BannedTemp, 7200)"
    by code_simp
  have s: "st_irc_server_idx demo_servers = Some 1" "1 < length (st_server_list demo_servers)"
    "1 < length (st_server_blocks demo_servers)" "0 \<le> sb_strikes (st_server_blocks demo_servers ! 1)"
    "st_irc_refusal demo_servers \<noteq> [] \<or> st_irc_refusal_ban demo_servers"
    by code_simp+
  from refused_server_rests [OF s(1-4) c _ s(5) refl, of "calm_env 100"] show ?thesis
    by (simp add: calm_env_def limits)
qed

end
