(* ===== verification/SendQ.thy ===== *)
theory SendQ
  imports Refusal
begin

text \<open>
  Lines to the IRC server: the send queue with its three lanes, credit and MODE packing
  (\<open>src/src/sendq.rs\<close>), the write that may drop the link, the disconnect it leads to, and
  \<open>irc_printf\<close> with its two diversions, a DCC chat and a sealed reply (\<open>src/src/irc_client.rs\<close>,
  \<open>src/src/dcc.rs\<close>).  The server socket is the parameter \<open>e_irc_ok\<close>; what it took is the list
  \<open>st_irc_out\<close>, oldest first.
\<close>

abbreviation crlf :: string where "crlf \<equiv> [CHR 0x0D, CHR 0x0A]"
abbreviation is_brk :: "char \<Rightarrow> bool" where "is_brk c \<equiv> c = CHR 0x0D \<or> c = CHR 0x0A"

section \<open>Credit\<close>

definition q_clear :: "env \<Rightarrow> sendq \<Rightarrow> sendq" where
  "q_clear e q = q\<lparr>q_lanes := map (\<lambda>_. []) (q_lanes q), q_total := 0,
     q_credit_ms := q_burst q * q_interval_ms q, q_last_ms := e_ms e\<rparr>"

definition sendq_clear :: "env \<Rightarrow> bot_state \<Rightarrow> bot_state" where
  "sendq_clear e st = st\<lparr>st_sendq := q_clear e (st_sendq st)\<rparr>"

definition set_limits :: "bot_state \<Rightarrow> int \<Rightarrow> int \<Rightarrow> bot_state" where
  "set_limits st burst interval =
     (let b = clamp_int SENDQ_MIN_BURST SENDQ_MAX_BURST burst;
          iv = clamp_int SENDQ_MIN_INTERVAL_MS SENDQ_MAX_INTERVAL_MS interval;
          cap = b * iv; q = st_sendq st
      in st\<lparr>st_sendq := q\<lparr>q_burst := b, q_interval_ms := iv,
             q_credit_ms := (if q_credit_ms q > cap then cap else q_credit_ms q)\<rparr>\<rparr>)"

definition refill :: "env \<Rightarrow> sendq \<Rightarrow> sendq" where
  "refill e q =
     (let now = e_ms e; cap = q_burst q * q_interval_ms q;
          cr = (if now > q_last_ms q then q_credit_ms q + (now - q_last_ms q) else q_credit_ms q)
      in q\<lparr>q_credit_ms := (if cr > cap then cap else cr), q_last_ms := now\<rparr>)"

definition next_ms :: "env \<Rightarrow> bot_state \<Rightarrow> int \<times> bot_state" where
  "next_ms e st =
     (let q = st_sendq st in
      if q_total q = 0 then (-1, st)
      else let q' = refill e q; st' = st\<lparr>st_sendq := q'\<rparr>
           in if q_credit_ms q' \<ge> q_interval_ms q' then (0, st') else (q_interval_ms q' - q_credit_ms q', st'))"

section \<open>Lanes\<close>

definition list_modes :: string where "list_modes = ''beI''"

definition mode_is_query :: "string \<Rightarrow> bool" where
  "mode_is_query line =
     (let p0 = drop 5 line in
      case position (\<lambda>c. c = CHR '' '') p0 of
        None \<Rightarrow> True
      | Some sp \<Rightarrow>
          let p = drop (sp + 1) p0;
              sp2 = position (\<lambda>c. c = CHR '' '') p;
              mlen = (case sp2 of Some i \<Rightarrow> i | None \<Rightarrow> length (takeWhile (\<lambda>c. \<not> is_brk c) p));
              no_arg = (case sp2 of None \<Rightarrow> True | Some i \<Rightarrow> i + 1 \<ge> length p \<or> is_brk (p ! (i + 1)))
          in no_arg \<and> ((mlen = 2 \<and> p ! 1 \<in> set list_modes) \<or> (mlen = 1 \<and> p ! 0 \<in> set list_modes)))"

definition proto_verbs :: "string list" where
  "proto_verbs = [''PONG'', ''PING'', ''NICK'', ''USER'', ''PASS'', ''QUIT'', ''CAP'']"

definition lane_of :: "string \<Rightarrow> nat" where
  "lane_of line =
     (let verb = takeWhile (\<lambda>c. c \<noteq> CHR '' '' \<and> \<not> is_brk c) line in
      if list_ex (\<lambda>w. eq_ic verb w) proto_verbs then SENDQ_LANE_PROTO
      else if eq_ic verb ''KICK'' then SENDQ_LANE_PROT
      else if eq_ic verb ''MODE'' \<and> length line > 4 \<and> line ! 4 = CHR '' '' \<and> \<not> mode_is_query line then SENDQ_LANE_PROT
      else SENDQ_LANE_REST)"

definition lane_pop :: "sendq \<Rightarrow> nat \<Rightarrow> string option \<times> sendq" where
  "lane_pop q lane =
     (case q_lanes q ! lane of
        [] \<Rightarrow> (None, q)
      | s # rest \<Rightarrow> (Some s, q\<lparr>q_lanes := (q_lanes q)[lane := rest], q_total := q_total q - 1\<rparr>))"

definition make_room :: "sendq \<Rightarrow> nat \<Rightarrow> bool \<times> sendq" where
  "make_room q lane =
     (if q_total q < MAX_SENDQ then (True, q)
      else
        case (if q_lanes q ! SENDQ_LANE_REST \<noteq> [] then Some SENDQ_LANE_REST
              else if lane \<noteq> SENDQ_LANE_REST \<and> q_lanes q ! SENDQ_LANE_PROT \<noteq> [] then Some SENDQ_LANE_PROT
              else None) of
          None \<Rightarrow> (False, q)
        | Some victim \<Rightarrow>
            let q' = snd (lane_pop q victim) in (True, q'\<lparr>q_dropped := q_dropped q' + 1\<rparr>))"

section \<open>MODE packing\<close>

record mode_item =
  mi_chan :: string
  mi_sign :: char
  mi_letter :: char
  mi_arg :: string
  mi_has_arg :: bool

text \<open>Whether a letter we know takes an argument.\<close>

definition letter_needs :: "char \<Rightarrow> char \<Rightarrow> bool option" where
  "letter_needs sg letter =
     (if letter \<in> set ''ovhbeIk'' then Some True
      else if letter = CHR ''l'' then Some (sg = CHR ''+'')
      else if letter \<in> set ''imnpst'' then Some False
      else None)"

text \<open>A byte of a word: up to a space or a line break.\<close>

definition word_char :: "char \<Rightarrow> bool" where
  "word_char c \<longleftrightarrow> c \<noteq> CHR '' '' \<and> \<not> is_brk c"

text \<open>The argument part of the line, then the change after the channel, then the whole line.\<close>

definition mode_item_arg :: "string \<Rightarrow> char \<Rightarrow> char \<Rightarrow> string \<Rightarrow> mode_item option" where
  "mode_item_arg ch sg letter a =
     (let arg = takeWhile word_char a in
      if length arg < length a \<and> a ! length arg = CHR '' '' then None
      else case letter_needs sg letter of
          None \<Rightarrow> None
        | Some needs \<Rightarrow>
            if needs \<noteq> (arg \<noteq> []) \<or> length arg \<ge> 300 then None
            else Some \<lparr>mi_chan = ch, mi_sign = sg, mi_letter = letter, mi_arg = arg, mi_has_arg = needs\<rparr>)"

fun mode_item_change :: "string \<Rightarrow> string \<Rightarrow> mode_item option" where
  "mode_item_change ch (sg # letter # r) =
     (if (sg \<noteq> CHR ''+'' \<and> sg \<noteq> CHR ''-'') \<or> byte letter = 0 \<or> is_brk letter \<or>
         r = [] \<or> (hd r \<noteq> CHR '' '' \<and> hd r \<noteq> CHR 0x0D) then None
      else mode_item_arg ch sg letter (if hd r = CHR '' '' then tl r else r))"
| "mode_item_change ch p = None"

definition mode_item_parse :: "string \<Rightarrow> mode_item option" where
  "mode_item_parse line =
     (if length line < 5 \<or> \<not> eq_ic (take 5 line) ''MODE '' then None
      else
        let p = drop 5 line; ch = takeWhile word_char p; cl = length ch
        in if cl = 0 \<or> cl \<ge> MAX_CHAN \<or> cl \<ge> length p \<or> p ! cl \<noteq> CHR '' '' then None
           else mode_item_change ch (drop (cl + 1) p))"

text \<open>The items that join the first: same channel, while count and length allow.\<close>

fun pack_more :: "nat \<Rightarrow> string \<Rightarrow> nat \<Rightarrow> nat \<Rightarrow> string list \<Rightarrow> mode_item list" where
  "pack_more limit ch est n [] = []"
| "pack_more limit ch est n (l # ls) =
     (if n < limit then
        (case mode_item_parse l of
           None \<Rightarrow> []
         | Some it \<Rightarrow>
             if \<not> eq_ic (mi_chan it) ch then []
             else let add = 2 + length (mi_arg it) + 1 in
               if est + add > 400 then []
               else it # pack_more limit ch (est + add) (n + 1) ls)
      else [])"

fun mode_letters :: "char \<Rightarrow> mode_item list \<Rightarrow> string" where
  "mode_letters cur [] = []"
| "mode_letters cur (it # its) =
     (if mi_sign it \<noteq> cur then [mi_sign it] else []) @ [mi_letter it] @ mode_letters (mi_sign it) its"

definition mode_args :: "mode_item list \<Rightarrow> string" where
  "mode_args its = concat (map (\<lambda>it. if mi_has_arg it then CHR '' '' # mi_arg it else []) its)"

definition pack_line :: "mode_item list \<Rightarrow> string" where
  "pack_line its = ''MODE '' @ mi_chan (hd its) @ '' '' @ mode_letters (char_of (0::nat)) its @ mode_args its @ crlf"

definition pack_limit :: "isupport \<Rightarrow> nat" where
  "pack_limit isu = nat (if is_modes isu < 1 then ISUPPORT_MODES_DEFAULT else min (is_modes isu) ISUPPORT_MODES_MAX)"

fun lane_pops :: "nat \<Rightarrow> sendq \<Rightarrow> nat \<Rightarrow> sendq" where
  "lane_pops 0 q lane = q"
| "lane_pops (Suc k) q lane = lane_pops k (snd (lane_pop q lane)) lane"

definition take_protection :: "isupport \<Rightarrow> sendq \<Rightarrow> string option \<times> sendq" where
  "take_protection isu q =
     (case q_lanes q ! SENDQ_LANE_PROT of
        [] \<Rightarrow> lane_pop q SENDQ_LANE_PROT
      | h # rest \<Rightarrow>
          (case mode_item_parse h of
             None \<Rightarrow> lane_pop q SENDQ_LANE_PROT
           | Some first \<Rightarrow>
               let its = first # pack_more (pack_limit isu) (mi_chan first)
                           (5 + length (mi_chan first) + 3 + length (mi_arg first) + 1) 1 rest
               in (Some (pack_line its), lane_pops (length its) q SENDQ_LANE_PROT)))"

definition take_line :: "isupport \<Rightarrow> sendq \<Rightarrow> string option \<times> sendq" where
  "take_line isu q =
     (if q_lanes q ! SENDQ_LANE_PROTO \<noteq> [] then lane_pop q SENDQ_LANE_PROTO
      else if q_lanes q ! SENDQ_LANE_PROT \<noteq> [] then take_protection isu q
      else lane_pop q SENDQ_LANE_REST)"

section \<open>The link\<close>

text \<open>
  \<open>disconnect\<close> after its last-chance drain.  A failed write empties the queue and disconnects;
  the drain then finds nothing queued, so what happens is this.
\<close>

definition link_down :: "env \<Rightarrow> bot_state \<Rightarrow> bot_state" where
  "link_down e st0 =
     (let st = apply_refusal e st0;
          out = (if st_irc st \<and> is_connected st \<and> e_irc_ok e (st_irc_out st) (''QUIT :bye'' @ crlf)
                 then st_irc_out st @ [''QUIT :bye'' @ crlf] else st_irc_out st)
      in reset_status (isupport_reset (sendq_clear e (st\<lparr>st_irc_out := out, st_irc := False, st_status := 0\<rparr>))))"

definition write_raw :: "env \<Rightarrow> bot_state \<Rightarrow> string \<Rightarrow> int \<times> bot_state" where
  "write_raw e st line =
     (if \<not> is_connected st then (-1, st)
      else if \<not> st_irc st then (-1, st)
      else if e_irc_ok e (st_irc_out st) line
      then (int (length line), st\<lparr>st_irc_out := st_irc_out st @ [line]\<rparr>)
      else (-1, link_down e (sendq_clear e st)))"

definition queued :: "sendq \<Rightarrow> nat" where
  "queued q = sum_list (map length (q_lanes q))"

text \<open>The loop of \<open>drain\<close>; \<open>n\<close> bounds its rounds, and every round takes a line from the queue.\<close>

fun drain_loop :: "nat \<Rightarrow> env \<Rightarrow> bot_state \<Rightarrow> int \<Rightarrow> int \<times> bot_state" where
  "drain_loop 0 e st sent = (sent, st)"
| "drain_loop (Suc n) e st sent =
     (if q_total (st_sendq st) > 0 \<and> q_credit_ms (st_sendq st) \<ge> q_interval_ms (st_sendq st) then
        (if \<not> is_connected st then (sent, sendq_clear e st)
         else case take_line (st_isup st) (st_sendq st) of
            (None, q) \<Rightarrow> (sent, st\<lparr>st_sendq := q\<rparr>)
          | (Some line, q) \<Rightarrow>
              let st1 = st\<lparr>st_sendq := q\<lparr>q_credit_ms := q_credit_ms q - q_interval_ms q\<rparr>\<rparr> in
              (case write_raw e st1 line of
                 (r, st2) \<Rightarrow> if r < 0 then (sent, st2) else drain_loop n e st2 (sent + 1)))
      else (sent, st))"

definition drain :: "env \<Rightarrow> bot_state \<Rightarrow> int \<times> bot_state" where
  "drain e st =
     (if q_total (st_sendq st) = 0 then (0, st)
      else let st1 = st\<lparr>st_sendq := refill e (st_sendq st)\<rparr>
           in drain_loop (Suc (queued (st_sendq st1))) e st1 0)"

definition disconnect :: "env \<Rightarrow> bot_state \<Rightarrow> bot_state" where
  "disconnect e st =
     (let st1 = (if is_connected st \<and> st_irc st then snd (drain e st) else st)
      in if is_connected st \<and> st_irc st \<and> \<not> is_connected st1 \<and> \<not> st_irc st1 then st1
         else link_down e st1)"

section \<open>Queueing\<close>

definition enqueue :: "env \<Rightarrow> bot_state \<Rightarrow> string \<Rightarrow> int \<times> bot_state" where
  "enqueue e st line =
     (let len = length line in
      if len < 2 then (-1, st)
      else
        let lane = lane_of line;
            body = take (min (len - 2) SENDQ_LINE_MAX) line;
            q = st_sendq st
        in if lane = SENDQ_LANE_PROT \<and>
              list_ex (\<lambda>w. length w = length body + 2 \<and> take (length body) w = body) (q_lanes q ! lane)
           then (int len, st)
           else
             (case make_room q lane of
                (False, q1) \<Rightarrow> (-1, st\<lparr>st_sendq := q1\<lparr>q_dropped := q_dropped q1 + 1\<rparr>\<rparr>)
              | (True, q1) \<Rightarrow>
                  let q2 = q1\<lparr>q_lanes := (q_lanes q1)[lane := q_lanes q1 ! lane @ [body @ crlf]],
                              q_total := q_total q1 + 1\<rparr>;
                      st1 = st\<lparr>st_sendq := q2\<rparr>
                  in (int len, if q_hold q2 = 0 then snd (drain e st1) else st1)))"

definition hold :: "bot_state \<Rightarrow> bot_state" where
  "hold st = st\<lparr>st_sendq := (st_sendq st)\<lparr>q_hold := q_hold (st_sendq st) + 1\<rparr>\<rparr>"

definition release :: "env \<Rightarrow> bot_state \<Rightarrow> bot_state" where
  "release e st =
     (if q_hold (st_sendq st) > 0 then
        (let st1 = st\<lparr>st_sendq := (st_sendq st)\<lparr>q_hold := q_hold (st_sendq st) - 1\<rparr>\<rparr>
         in if q_hold (st_sendq st1) = 0 then snd (drain e st1) else st1)
      else st)"

section \<open>One formatted line\<close>

definition is_single_line :: "string \<Rightarrow> bool" where
  "is_single_line b \<longleftrightarrow> length b \<ge> 2 \<and> drop (length b - 2) b = crlf \<and>
     \<not> list_ex (\<lambda>c. is_brk c \<or> byte c = 0) (take (length b - 2) b)"

definition dcc_queue :: "env \<Rightarrow> nat \<Rightarrow> dcc_session \<Rightarrow> string \<Rightarrow> dcc_session" where
  "dcc_queue e i s txt =
     (if dc_phase s \<noteq> DccOpen \<or> dc_failed s then s
      else if length (dc_outbuf s) + length txt + 1 > DCC_OUTBUF_MAX then s\<lparr>dc_failed := True\<rparr>
      else let buf = dc_outbuf s @ txt @ [CHR 0x0A] in
        (case e_dcc e i buf of
           Some rest \<Rightarrow> s\<lparr>dc_outbuf := rest\<rparr> | None \<Rightarrow> s\<lparr>dc_outbuf := buf, dc_failed := True\<rparr>))"

definition divert_reply :: "env \<Rightarrow> bot_state \<Rightarrow> string \<Rightarrow> bot_state option" where
  "divert_reply e st line =
     (case st_dcc_reply st of
        None \<Rightarrow> None
      | Some i \<Rightarrow>
          let nick = dc_nick (st_dcc st ! i); head = 8 + length nick + 2 in
          if length line < head + 2 \<or> take 8 line \<noteq> ''PRIVMSG '' \<or>
             take (length nick) (drop 8 line) \<noteq> nick \<or> take 2 (drop (8 + length nick) line) \<noteq> '' :'' then None
          else let txt = take (length line - 2 - head) (drop head line) in
            Some (st\<lparr>st_dcc := (st_dcc st)[i := dcc_queue e i (st_dcc st ! i) txt]\<rparr>))"

definition send_line :: "env \<Rightarrow> bot_state \<Rightarrow> string \<Rightarrow> int \<times> bot_state" where
  "send_line e st line =
     (case divert_reply e st line of
        Some st' \<Rightarrow> (int (length line), st')
      | None \<Rightarrow> if \<not> is_connected st then (-1, st) else enqueue e st line)"

fun piece_cut :: "nat \<Rightarrow> string \<Rightarrow> nat" where
  "piece_cut 0 s = 0"
| "piece_cut (Suc k) s = (if k > 0 \<and> is_cont (s ! Suc k) then piece_cut k s else Suc k)"

lemma piece_cut_pos [simp]: "0 < piece_cut k s \<longleftrightarrow> 0 < k"
  by (induction k) auto

function a2r_loop :: "env \<Rightarrow> bot_state \<Rightarrow> string \<Rightarrow> string \<Rightarrow> string \<Rightarrow> int \<times> bot_state" where
  "a2r_loop e st verb nick txt =
     (let cut = (if length txt > A2R_TEXT_MAX then piece_cut A2R_TEXT_MAX txt else length txt);
          pt = dec (unat (ar_seq (st_a2r st))) @ '':'' @ (if cut < length txt then ''1'' else ''0'') @ '':''
      in case (if length pt + cut \<le> A2R_PT_MAX then e_seal e (pt @ take cut txt) else None) of
           None \<Rightarrow> (-1, st)
         | Some frame \<Rightarrow>
             let out = verb @ '' '' @ nick @ '' :~A2R '' @ frame @ crlf in
             if length out \<ge> 640 then (-1, st)
             else (case send_line e st out of
                (r, st1) \<Rightarrow>
                  if r < 0 then (r, st1)
                  else
                    let st2 = st1\<lparr>st_a2r := (st_a2r st1)\<lparr>ar_seq := ar_seq (st_a2r st1) + 1\<rparr>\<rparr> in
                    if cut \<ge> length txt then (r, st2) else a2r_loop e st2 verb nick (drop cut txt)))"
  by pat_completeness auto
termination
  by (relation "measure (\<lambda>(e, st, verb, nick, txt). length txt)")
     (auto simp: limits intro!: diff_less split: if_splits)

declare a2r_loop.simps [simp del]

text \<open>A reply with the verb it starts with; then the choice of the verb.\<close>

definition a2r_reply_as :: "env \<Rightarrow> bot_state \<Rightarrow> string \<Rightarrow> string \<Rightarrow> (int \<times> bot_state) option" where
  "a2r_reply_as e st line verb =
     (let vl = length verb + 1; nick = ar_nick (st_a2r st); nl = length nick; head = vl + nl + 2 in
      if length line < head + 2 \<or> take nl (drop vl line) \<noteq> nick \<or> take 2 (drop (vl + nl) line) \<noteq> '' :'' then None
      else
        let txt = take (length line - 2 - head) (drop head line) in
        if txt \<noteq> [] \<and> byte (hd txt) = 1 then None
        else Some (a2r_loop e st verb nick txt))"

definition a2r_seal_reply :: "env \<Rightarrow> bot_state \<Rightarrow> string \<Rightarrow> (int \<times> bot_state) option" where
  "a2r_seal_reply e st line =
     (if take 8 line = ''PRIVMSG '' then a2r_reply_as e st line ''PRIVMSG''
      else if take 7 line = ''NOTICE '' then a2r_reply_as e st line ''NOTICE'' else None)"

definition irc_printf :: "env \<Rightarrow> bot_state \<Rightarrow> string \<Rightarrow> int \<times> bot_state" where
  "irc_printf e st line =
     (if \<not> is_connected st \<and> st_dcc_reply st = None then (-1, st)
      else if length line \<ge> MAX_BUFFER \<or> \<not> is_single_line line then (-1, st)
      else case (if ar_active (st_a2r st) then a2r_seal_reply e st line else None) of
             Some r \<Rightarrow> r
           | None \<Rightarrow> send_line e st line)"

text \<open>\<open>ircf!\<close>, its result unused.\<close>

definition ircf :: "env \<Rightarrow> bot_state \<Rightarrow> string \<Rightarrow> bot_state" where
  "ircf e st line = snd (irc_printf e st (line @ crlf))"

end
