(* ===== verification/SendFacts.thy ===== *)
theory SendFacts
  imports SendQ
begin

text \<open>
  Facts of the send queue: what its operations keep of its invariant, that no line but a single
  IRC line of at most 512 bytes is queued or written, the pace of the token bucket, the order
  of a drain, and that a packed MODE line has the effect of the lines it replaces.
\<close>

named_theorems lanes \<open>the lane numbers\<close>

lemmas [lanes] = SENDQ_LANE_PROTO_def SENDQ_LANE_PROT_def SENDQ_LANE_REST_def SENDQ_LANES_def

section \<open>Lines\<close>

definition clean_char :: "char \<Rightarrow> bool" where
  "clean_char c \<longleftrightarrow> \<not> is_brk c \<and> byte c \<noteq> 0"

abbreviation clean :: "string \<Rightarrow> bool" where "clean s \<equiv> list_all clean_char s"

lemma is_single_line_iff: "is_single_line b \<longleftrightarrow> (\<exists>s. b = s @ crlf \<and> clean s)"
proof
  assume "is_single_line b"
  then show "\<exists>s. b = s @ crlf \<and> clean s"
    using append_take_drop_id [of "length b - 2" b, symmetric]
    unfolding is_single_line_def list_ex_iff list_all_iff clean_char_def by metis
next
  assume "\<exists>s. b = s @ crlf \<and> clean s"
  then obtain s where "b = s @ crlf" "clean s" by blast
  then show "is_single_line b"
    by (simp add: is_single_line_def clean_char_def list_ex_iff list_all_iff)
qed

definition line_ok :: "string \<Rightarrow> bool" where
  "line_ok l \<longleftrightarrow> (\<exists>s. l = s @ crlf \<and> clean s \<and> length s \<le> SENDQ_LINE_MAX)"

lemma line_ok_iff: "line_ok l \<longleftrightarrow> is_single_line l \<and> length l \<le> SENDQ_LINE_MAX + 2"
  by (auto simp: line_ok_def is_single_line_iff)

lemma clean_take: "clean s \<Longrightarrow> clean (take n s)"
  by (auto simp: list_all_iff dest: in_set_takeD)

lemma clean_drop: "clean s \<Longrightarrow> clean (drop n s)"
  by (auto simp: list_all_iff dest: in_set_dropD)

lemma clean_takeWhile: "clean s \<Longrightarrow> clean (takeWhile P s)"
  by (auto simp: list_all_iff dest: set_takeWhileD)

section \<open>The queue\<close>

definition sendq_ok :: "sendq \<Rightarrow> bool" where
  "sendq_ok q \<longleftrightarrow> length (q_lanes q) = SENDQ_LANES \<and> q_total q = queued q \<and> q_total q \<le> MAX_SENDQ \<and>
     (\<forall>lane \<in> set (q_lanes q). \<forall>l \<in> set lane. line_ok l) \<and> distinct (q_lanes q ! SENDQ_LANE_PROT) \<and>
     0 \<le> q_interval_ms q \<and> 1 \<le> q_burst q \<and> 0 \<le> q_credit_ms q \<and> q_credit_ms q \<le> q_burst q * q_interval_ms q"

text \<open>The same for three named lanes.\<close>

lemma three_lanes: "length ls = SENDQ_LANES \<Longrightarrow> \<exists>a b c. ls = [a, b, c]"
  by (cases ls; cases "tl ls"; cases "tl (tl ls)") (auto simp: lanes)

lemma sendq_ok_lanes:
  "q_lanes q = [a, b, c] \<Longrightarrow> sendq_ok q \<longleftrightarrow> q_total q = length a + length b + length c \<and> q_total q \<le> MAX_SENDQ \<and>
     list_all line_ok a \<and> list_all line_ok b \<and> list_all line_ok c \<and> distinct b \<and>
     0 \<le> q_interval_ms q \<and> 1 \<le> q_burst q \<and> 0 \<le> q_credit_ms q \<and> q_credit_ms q \<le> q_burst q * q_interval_ms q"
  by (auto simp: sendq_ok_def lanes queued_def list_all_iff)

lemma sendq_okE:
  assumes "sendq_ok q"
  obtains a b c where "q_lanes q = [a, b, c]" "q_total q = length a + length b + length c"
    "q_total q \<le> MAX_SENDQ" "list_all line_ok a" "list_all line_ok b" "list_all line_ok c" "distinct b"
    "0 \<le> q_interval_ms q" "1 \<le> q_burst q" "0 \<le> q_credit_ms q" "q_credit_ms q \<le> q_burst q * q_interval_ms q"
proof -
  from assms have "length (q_lanes q) = SENDQ_LANES" by (simp add: sendq_ok_def)
  from three_lanes [OF this] obtain a b c where "q_lanes q = [a, b, c]" by blast
  then show thesis using that assms sendq_ok_lanes by metis
qed

lemma lane_cases: "lane_of l \<in> {SENDQ_LANE_PROTO, SENDQ_LANE_PROT, SENDQ_LANE_REST}"
  by (simp add: lane_of_def Let_def)

lemma default_sendq_ok [simp]: "sendq_ok (default_sendq t)"
  by (simp add: sendq_ok_def default_sendq_def limits lanes queued_def)

lemma q_clear_ok [simp]: "sendq_ok q \<Longrightarrow> sendq_ok (q_clear e q)"
  by (erule sendq_okE) (simp add: sendq_ok_lanes q_clear_def)

lemma refill_ok [simp]: "sendq_ok q \<Longrightarrow> sendq_ok (refill e q)"
  by (erule sendq_okE) (auto simp: sendq_ok_lanes refill_def Let_def)

lemma refill_lanes [simp]:
  "q_lanes (refill e q) = q_lanes q" "q_total (refill e q) = q_total q" "q_hold (refill e q) = q_hold q"
  "q_interval_ms (refill e q) = q_interval_ms q" "q_burst (refill e q) = q_burst q" "queued (refill e q) = queued q"
  by (simp_all add: refill_def Let_def queued_def)

lemma set_limits_ok:
  assumes "sendq_ok (st_sendq st)"
  shows "sendq_ok (st_sendq (set_limits st b i))"
proof -
  have "1 \<le> clamp_int SENDQ_MIN_BURST SENDQ_MAX_BURST b" "0 \<le> clamp_int SENDQ_MIN_INTERVAL_MS SENDQ_MAX_INTERVAL_MS i"
    using clamp_int_range by (auto simp: limits clamp_int_def)
  then show ?thesis
    using assms by (auto elim!: sendq_okE simp: sendq_ok_lanes set_limits_def Let_def)
qed

lemma lane_pop_ok: "sendq_ok q \<Longrightarrow> lane < SENDQ_LANES \<Longrightarrow> sendq_ok (snd (lane_pop q lane))"
  by (erule sendq_okE) (auto simp: lanes less_Suc_eq numeral_3_eq_3 sendq_ok_lanes lane_pop_def split: list.splits)

lemma make_room_ok: "sendq_ok q \<Longrightarrow> sendq_ok (snd (make_room q lane))"
  using lane_pop_ok [of q SENDQ_LANE_REST] lane_pop_ok [of q SENDQ_LANE_PROT]
  by (auto simp: make_room_def Let_def lanes sendq_ok_def queued_def)

lemma make_room_room:
  assumes "sendq_ok q" "make_room q lane = (True, q')"
  shows "q_total q' < MAX_SENDQ"
  using assms by (auto elim!: sendq_okE simp: make_room_def Let_def lanes lane_pop_def limits split: if_splits list.splits)

section \<open>MODE changes\<close>

definition mode_item_ok :: "mode_item \<Rightarrow> bool" where
  "mode_item_ok it \<longleftrightarrow> clean (mi_chan it) \<and> CHR '' '' \<notin> set (mi_chan it) \<and>
     0 < length (mi_chan it) \<and> length (mi_chan it) < MAX_CHAN \<and> mi_sign it \<in> {CHR ''+'', CHR ''-''} \<and>
     letter_needs (mi_sign it) (mi_letter it) = Some (mi_has_arg it) \<and> (mi_has_arg it \<longleftrightarrow> mi_arg it \<noteq> []) \<and>
     clean (mi_arg it) \<and> CHR '' '' \<notin> set (mi_arg it) \<and> length (mi_arg it) < 300"

lemma known_letters_clean: "list_all (\<lambda>c. clean_char c \<and> c \<notin> {CHR ''+'', CHR ''-'', CHR '' ''}) ''ovhbeIklimnpst''"
  by code_simp

lemma letter_needs_known: "letter_needs sg c = Some b \<Longrightarrow> c \<in> set ''ovhbeIklimnpst''"
  unfolding letter_needs_def by (simp split: if_splits) (elim disjE; simp)

lemma letter_needs_clean: "letter_needs sg c = Some b \<Longrightarrow> clean_char c \<and> c \<notin> {CHR ''+'', CHR ''-'', CHR '' ''}"
  by (rule known_letters_clean [unfolded list_all_iff, THEN bspec, OF letter_needs_known])

text \<open>How a line that parses is put together.\<close>

lemma mode_item_arg_parts:
  assumes "mode_item_arg ch sg letter a = Some it"
  shows "\<exists>arg rest. a = arg @ rest \<and> list_all word_char arg \<and> (rest = [] \<or> is_brk (hd rest)) \<and> length arg < 300 \<and>
    letter_needs sg letter = Some (arg \<noteq> []) \<and>
    it = \<lparr>mi_chan = ch, mi_sign = sg, mi_letter = letter, mi_arg = arg, mi_has_arg = (arg \<noteq> [])\<rparr>"
proof -
  define arg rest where "arg = takeWhile word_char a" and "rest = dropWhile word_char a"
  have a: "a = arg @ rest" by (simp add: arg_def rest_def)
  have "\<not> (length arg < length a \<and> a ! length arg = CHR '' '')"
    using assms unfolding mode_item_arg_def Let_def arg_def [symmetric] by (auto split: if_splits)
  then have na: "rest \<noteq> [] \<Longrightarrow> hd rest \<noteq> CHR '' ''" unfolding a by (simp add: nth_append hd_conv_nth)
  have "rest \<noteq> [] \<Longrightarrow> \<not> word_char (hd rest)" using hd_dropWhile [of word_char a] by (simp add: rest_def)
  with na have "rest = [] \<or> is_brk (hd rest)" by (auto simp: word_char_def)
  moreover have "list_all word_char arg" by (auto simp: arg_def list_all_iff dest: set_takeWhileD)
  moreover have "length arg < 300 \<and> letter_needs sg letter = Some (arg \<noteq> []) \<and>
      it = \<lparr>mi_chan = ch, mi_sign = sg, mi_letter = letter, mi_arg = arg, mi_has_arg = (arg \<noteq> [])\<rparr>"
    using assms unfolding mode_item_arg_def Let_def arg_def [symmetric] by (auto split: if_splits option.splits)
  ultimately show ?thesis using a by blast
qed

lemma mode_item_change_parts:
  assumes "mode_item_change ch p = Some it"
  shows "\<exists>sp rest. p = mi_sign it # mi_letter it # sp @ mi_arg it @ rest \<and> mi_chan it = ch \<and>
    (sp = [] \<and> mi_arg it = [] \<or> sp = '' '') \<and> list_all word_char (mi_arg it) \<and> (rest = [] \<or> is_brk (hd rest)) \<and>
    mi_sign it \<in> {CHR ''+'', CHR ''-''} \<and> length (mi_arg it) < 300 \<and>
    letter_needs (mi_sign it) (mi_letter it) = Some (mi_has_arg it) \<and> (mi_has_arg it \<longleftrightarrow> mi_arg it \<noteq> [])"
  using assms
proof (cases rule: mode_item_change.cases [of "(ch, p)"])
  case (1 ch' sg letter r)
  define a where "a = (if hd r = CHR '' '' then tl r else r)"
  from 1 assms have sg: "sg \<in> {CHR ''+'', CHR ''-''}" "r \<noteq> []" "hd r = CHR '' '' \<or> hd r = CHR 0x0D"
    and ia: "mode_item_arg ch sg letter a = Some it" by (auto simp: a_def split: if_splits)
  from mode_item_arg_parts [OF ia] obtain arg rest where a: "a = arg @ rest" "list_all word_char arg"
    "rest = [] \<or> is_brk (hd rest)" "length arg < 300" "letter_needs sg letter = Some (arg \<noteq> [])"
    and it: "it = \<lparr>mi_chan = ch, mi_sign = sg, mi_letter = letter, mi_arg = arg, mi_has_arg = (arg \<noteq> [])\<rparr>" by blast
  show ?thesis
  proof (cases "hd r = CHR '' ''")
    case True
    then have "r = '' '' @ arg @ rest" using sg(2) a(1) by (cases r) (auto simp: a_def)
    then show ?thesis using 1 a sg it by (intro exI [of _ "'' ''"] exI [of _ rest]) simp
  next
    case False
    then have r: "r = arg @ rest" "hd r = CHR 0x0D" using sg(3) a(1) by (auto simp: a_def)
    then have "arg = []" using a(2) by (cases arg) (auto simp: word_char_def)
    then show ?thesis using 1 a sg it r by (intro exI [of _ "[]"] exI [of _ rest]) simp
  qed
qed auto

lemma mode_item_parse_parts:
  assumes "mode_item_parse l = Some it"
  shows "\<exists>v sp rest. l = v @ mi_chan it @ CHR '' '' # mi_sign it # mi_letter it # sp @ mi_arg it @ rest \<and>
    eq_ic v ''MODE '' \<and> (sp = [] \<and> mi_arg it = [] \<or> sp = '' '') \<and>
    list_all word_char (mi_chan it) \<and> list_all word_char (mi_arg it) \<and>
    (rest = [] \<or> is_brk (hd rest)) \<and> mi_sign it \<in> {CHR ''+'', CHR ''-''} \<and>
    0 < length (mi_chan it) \<and> length (mi_chan it) < MAX_CHAN \<and> length (mi_arg it) < 300 \<and>
    letter_needs (mi_sign it) (mi_letter it) = Some (mi_has_arg it) \<and> (mi_has_arg it \<longleftrightarrow> mi_arg it \<noteq> [])"
proof -
  define p0 ch where "p0 = drop 5 l" and "ch = takeWhile word_char p0"
  define p where "p = drop (length ch + 1) p0"
  have v: "eq_ic (take 5 l) ''MODE ''"
    and ch: "0 < length ch" "length ch < MAX_CHAN" "length ch < length p0" "p0 ! length ch = CHR '' ''"
    and c: "mode_item_change ch p = Some it"
    using assms unfolding mode_item_parse_def Let_def p0_def [symmetric] ch_def [symmetric] p_def [symmetric]
    by (simp_all split: if_splits)
  have "p0 = take (length ch) p0 @ p0 ! length ch # p"
    using ch(3) id_take_nth_drop [of "length ch" p0] by (simp add: p_def)
  then have p0: "p0 = ch @ CHR '' '' # p" by (simp add: ch_def takeWhile_eq_take [symmetric] ch(4) [unfolded ch_def])
  have w: "list_all word_char ch" by (auto simp: ch_def list_all_iff dest: set_takeWhileD)
  from mode_item_change_parts [OF c] obtain sp rest where
    "p = mi_sign it # mi_letter it # sp @ mi_arg it @ rest" "mi_chan it = ch" and
    rest: "(sp = [] \<and> mi_arg it = [] \<or> sp = '' '') \<and> list_all word_char (mi_arg it) \<and> (rest = [] \<or> is_brk (hd rest)) \<and>
    mi_sign it \<in> {CHR ''+'', CHR ''-''} \<and> length (mi_arg it) < 300 \<and>
    letter_needs (mi_sign it) (mi_letter it) = Some (mi_has_arg it) \<and> (mi_has_arg it \<longleftrightarrow> mi_arg it \<noteq> [])" by blast
  then have "l = take 5 l @ mi_chan it @ CHR '' '' # mi_sign it # mi_letter it # sp @ mi_arg it @ rest"
    using append_take_drop_id [of 5 l] by (simp add: p0_def [symmetric] p0)
  then show ?thesis
    using v ch(1,2) w rest \<open>mi_chan it = ch\<close> by (intro exI [of _ "take 5 l"] exI [of _ sp] exI [of _ rest]) blast
qed

lemma lower_brk [simp]: "lower (CHR 0x0D) = CHR 0x0D" "lower (CHR 0x0A) = CHR 0x0A"
  by code_simp+

lemma eq_ic_mode_clean: "eq_ic v ''MODE '' \<Longrightarrow> \<forall>c \<in> set v. \<not> is_brk c"
proof
  fix c assume v: "eq_ic v ''MODE ''" and c: "c \<in> set v"
  have "lower c \<in> set (lowers v)" using c by (simp add: lowers_def)
  then have "lower c \<in> set (lowers ''MODE '')" using v by (simp add: eq_ic_def)
  moreover have "list_all (\<lambda>c. c \<noteq> CHR 0x0D \<and> c \<noteq> CHR 0x0A) (lowers ''MODE '')" by code_simp
  ultimately show "\<not> is_brk c" unfolding list_all_iff by (metis lower_brk)
qed

text \<open>A queued line that parses ends right after its item.\<close>

lemma mode_item_parse_line:
  assumes "mode_item_parse l = Some it" "line_ok l"
  shows "mode_item_ok it \<and> (\<exists>v sp. l = v @ mi_chan it @ CHR '' '' # mi_sign it # mi_letter it # sp @ mi_arg it @ crlf \<and>
    length v = 5 \<and> (if mi_has_arg it then sp = '' '' else sp \<in> {[], '' ''}))"
proof -
  from mode_item_parse_parts [OF assms(1)] obtain v sp rest where
    l: "l = v @ mi_chan it @ CHR '' '' # mi_sign it # mi_letter it # sp @ mi_arg it @ rest"
    and v: "eq_ic v ''MODE ''" and sp: "sp = [] \<and> mi_arg it = [] \<or> sp = '' ''"
    and cs: "list_all word_char (mi_chan it)" "list_all word_char (mi_arg it)"
    and rest: "rest = [] \<or> is_brk (hd rest)"
    and it: "mi_sign it \<in> {CHR ''+'', CHR ''-''}"
      "0 < length (mi_chan it)" "length (mi_chan it) < MAX_CHAN" "length (mi_arg it) < 300"
      "letter_needs (mi_sign it) (mi_letter it) = Some (mi_has_arg it)" "mi_has_arg it \<longleftrightarrow> mi_arg it \<noteq> []"
    by blast
  obtain s where s: "l = s @ crlf" "clean s" using assms(2) by (auto simp: line_ok_def)
  define x where "x = v @ mi_chan it @ CHR '' '' # mi_sign it # mi_letter it # sp @ mi_arg it"
  have x: "l = x @ rest" by (simp add: x_def l)
  have "\<not> is_brk (mi_letter it)" using letter_needs_clean [OF it(5)] by (simp add: clean_char_def)
  moreover have "\<not> is_brk (mi_sign it)" using it(1) by auto
  moreover have "list_all (\<lambda>c. \<not> is_brk c) sp" using sp by auto
  moreover have "list_all (\<lambda>c. \<not> is_brk c) v" using eq_ic_mode_clean [OF v] by (simp add: list_all_iff)
  moreover have "list_all (\<lambda>c. \<not> is_brk c) (mi_chan it)" "list_all (\<lambda>c. \<not> is_brk c) (mi_arg it)"
    using cs by (auto elim!: list.pred_mono_strong simp: word_char_def)
  ultimately have nb: "list_all (\<lambda>c. \<not> is_brk c) x" unfolding x_def by simp
  have "takeWhile (\<lambda>c. \<not> is_brk c) rest = []" using rest by (cases rest) auto
  then have "takeWhile (\<lambda>c. \<not> is_brk c) l = x"
    using nb unfolding x by (simp add: takeWhile_append2 list_all_iff)
  moreover have "takeWhile (\<lambda>c. \<not> is_brk c) l = s"
    using s(2) unfolding s(1) by (subst takeWhile_append2) (auto simp: list_all_iff clean_char_def)
  ultimately have xs: "x = s" and r: "rest = crlf" using x s(1) by auto
  have "clean (mi_chan it)" "clean (mi_arg it)" using s(2) by (auto simp: xs [symmetric] x_def)
  moreover have "CHR '' '' \<notin> set (mi_chan it)" "CHR '' '' \<notin> set (mi_arg it)"
    using cs by (auto simp: list_all_iff word_char_def)
  ultimately have "mode_item_ok it" using it unfolding mode_item_ok_def by blast
  moreover have "length v = 5" using eq_ic_length [OF v] by simp
  moreover have "if mi_has_arg it then sp = '' '' else sp \<in> {[], '' ''}"
    using sp it(6) by (metis insertI1 insertI2)
  ultimately show ?thesis using l r by metis
qed

section \<open>Packing\<close>

abbreviation weight :: "mode_item list \<Rightarrow> nat" where
  "weight its \<equiv> sum_list (map (\<lambda>it. 3 + length (mi_arg it)) its)"

text \<open>The two ways a round of \<open>pack_more\<close> goes.\<close>

definition joins :: "nat \<Rightarrow> string \<Rightarrow> nat \<Rightarrow> nat \<Rightarrow> string \<Rightarrow> mode_item \<Rightarrow> bool" where
  "joins limit ch est n l x \<longleftrightarrow> mode_item_parse l = Some x \<and> n < limit \<and> eq_ic (mi_chan x) ch \<and>
     est + (3 + length (mi_arg x)) \<le> 400"

lemma pack_more_join:
  "joins limit ch est n l x \<Longrightarrow>
   pack_more limit ch est n (l # ls) = x # pack_more limit ch (est + (3 + length (mi_arg x))) (Suc n) ls"
  by (simp add: joins_def Let_def numeral_3_eq_3)

lemma pack_more_stop: "\<nexists>x. joins limit ch est n l x \<Longrightarrow> pack_more limit ch est n (l # ls) = []"
  by (cases "mode_item_parse l") (auto simp: joins_def Let_def)

declare pack_more.simps(2) [simp del]

lemma pack_more_ind [case_names Nil Join Stop]:
  assumes "\<And>limit ch est n. P limit ch est n []"
    "\<And>limit ch est n l ls x. joins limit ch est n l x \<Longrightarrow>
       P limit ch (est + (3 + length (mi_arg x))) (Suc n) ls \<Longrightarrow> P limit ch est n (l # ls)"
    "\<And>limit ch est n l ls. \<nexists>x. joins limit ch est n l x \<Longrightarrow> P limit ch est n (l # ls)"
  shows "P limit ch est n ls"
  by (induction ls arbitrary: est n) (use assms in metis)+

lemma pack_more_parse:
  "map Some (pack_more limit ch est n ls) = map mode_item_parse (take (length (pack_more limit ch est n ls)) ls)"
  by (induction limit ch est n ls rule: pack_more_ind)
     (auto simp: pack_more_join pack_more_stop joins_def)

lemma pack_more_length: "length (pack_more limit ch est n ls) \<le> length ls"
  by (induction limit ch est n ls rule: pack_more_ind) (auto simp: pack_more_join pack_more_stop)

lemma pack_more_chan: "x \<in> set (pack_more limit ch est n ls) \<Longrightarrow> eq_ic (mi_chan x) ch"
  by (induction limit ch est n ls rule: pack_more_ind) (auto simp: pack_more_join pack_more_stop joins_def)

lemma pack_more_weight: "pack_more limit ch est n ls \<noteq> [] \<Longrightarrow> est + weight (pack_more limit ch est n ls) \<le> 400"
proof (induction limit ch est n ls rule: pack_more_ind)
  case (Join limit ch est n l ls x)
  let ?r = "pack_more limit ch (est + (3 + length (mi_arg x))) (Suc n) ls"
  have "est + (3 + length (mi_arg x)) \<le> 400" using Join(1) by (simp add: joins_def)
  then show ?case using Join by (cases "?r = []") (simp_all add: pack_more_join)
qed (simp_all add: pack_more_stop)

lemma pack_more_limit: "n + length (pack_more limit ch est n ls) \<le> max n limit"
proof (induction limit ch est n ls rule: pack_more_ind)
  case (Join limit ch est n l ls x)
  then have "n < limit" by (simp add: joins_def)
  then show ?case using Join by (simp add: pack_more_join)
qed (simp_all add: pack_more_stop)

lemma mode_letters_length: "length (mode_letters cur its) \<le> 2 * length its"
  by (induction cur its rule: mode_letters.induct) auto

lemma mode_args_length: "length (mode_args its) + 2 * length its \<le> weight its"
  by (induction its) (auto simp: mode_args_def)

lemma mode_letters_clean: "list_all mode_item_ok its \<Longrightarrow> clean (mode_letters cur its)"
  by (induction cur its rule: mode_letters.induct)
     (auto simp: mode_item_ok_def clean_char_def byte_def dest!: letter_needs_clean)

lemma mode_args_clean: "list_all mode_item_ok its \<Longrightarrow> clean (mode_args its)"
  by (induction its) (auto simp: mode_item_ok_def mode_args_def clean_char_def byte_def)

lemma pack_line_ok:
  assumes "list_all mode_item_ok its" "its \<noteq> []" "5 + length (mi_chan (hd its)) + 1 + weight its \<le> SENDQ_LINE_MAX"
  shows "line_ok (pack_line its)"
proof -
  let ?s = "''MODE '' @ mi_chan (hd its) @ '' '' @ mode_letters (char_of (0::nat)) its @ mode_args its"
  have "clean (mi_chan (hd its))" using assms(1,2) by (cases its) (auto simp: mode_item_ok_def)
  moreover have "clean ''MODE ''" "clean '' ''" by code_simp+
  ultimately have "clean ?s"
    using mode_letters_clean [OF assms(1)] mode_args_clean [OF assms(1)] by (simp only: list_all_append)
  moreover have "length ?s \<le> SENDQ_LINE_MAX"
    using assms(3) mode_letters_length [of "char_of (0::nat)" its] mode_args_length [of its] by simp
  moreover have "pack_line its = ?s @ crlf" by (simp add: pack_line_def)
  ultimately show ?thesis unfolding line_ok_def by blast
qed

text \<open>The head of the protection lane: sent as it stands, or with the changes that join it.\<close>

lemma lane_pops_lanes:
  "lane < length (q_lanes q) \<Longrightarrow> k \<le> length (q_lanes q ! lane) \<Longrightarrow>
   lane_pops k q lane = q\<lparr>q_lanes := (q_lanes q)[lane := drop k (q_lanes q ! lane)], q_total := q_total q - k\<rparr>"
proof (induction k arbitrary: q)
  case (Suc k)
  then obtain s rest where r: "q_lanes q ! lane = s # rest" by (cases "q_lanes q ! lane") auto
  then have p: "snd (lane_pop q lane) = q\<lparr>q_lanes := (q_lanes q)[lane := rest], q_total := q_total q - 1\<rparr>"
    by (simp add: lane_pop_def)
  show ?case using Suc.prems by (simp add: p r Suc.IH del: lane_pop_def)
qed (simp add: list_update_id)

definition head_items :: "isupport \<Rightarrow> string list \<Rightarrow> mode_item list" where
  "head_items isu b =
     (case b of [] \<Rightarrow> []
      | h # rest \<Rightarrow> (case mode_item_parse h of
          None \<Rightarrow> []
        | Some x \<Rightarrow> x # pack_more (pack_limit isu) (mi_chan x) (5 + length (mi_chan x) + 3 + length (mi_arg x) + 1) 1 rest))"

definition head_count :: "isupport \<Rightarrow> string list \<Rightarrow> nat" where
  "head_count isu b = (if head_items isu b = [] then 1 else length (head_items isu b))"

definition head_line :: "isupport \<Rightarrow> string list \<Rightarrow> string" where
  "head_line isu b = (if head_items isu b = [] then hd b else pack_line (head_items isu b))"

lemma head_items_parse:
  "map Some (head_items isu b) = map mode_item_parse (take (length (head_items isu b)) b)"
  using pack_more_parse by (auto simp: head_items_def split: list.split option.split)

lemma head_items_length: "length (head_items isu b) \<le> length b"
  using pack_more_length by (auto simp: head_items_def split: list.split option.split)

lemma head_items_chan:
  "x \<in> set (head_items isu b) \<Longrightarrow> eq_ic (mi_chan x) (mi_chan (hd (head_items isu b)))"
proof -
  assume x: "x \<in> set (head_items isu b)"
  then obtain h rest y where "b = h # rest" "mode_item_parse h = Some y"
    by (cases b; cases "mode_item_parse (hd b)") (auto simp: head_items_def)
  then show ?thesis using x pack_more_chan by (auto simp: head_items_def)
qed

lemma head_items_limit: "length (head_items isu b) \<le> max 1 (pack_limit isu)"
proof -
  have "Suc (length (pack_more (pack_limit isu) ch est 1 ls)) \<le> max 1 (pack_limit isu)" for ch est ls
    using pack_more_limit [of 1 "pack_limit isu" ch est ls] by simp
  then show ?thesis by (auto simp: head_items_def split: list.split option.split)
qed

lemma head_count_range: "b \<noteq> [] \<Longrightarrow> 0 < head_count isu b \<and> head_count isu b \<le> length b"
  using head_items_length [of isu b] by (cases b) (auto simp: head_count_def Suc_le_eq)

lemma map_Some_mem: "map Some xs = map f ys \<Longrightarrow> x \<in> set xs \<Longrightarrow> \<exists>y \<in> set ys. f y = Some x"
  by (metis image_eqI imageE list.set_map)

lemma head_items_ok:
  assumes "list_all line_ok b"
  shows "list_all mode_item_ok (head_items isu b)"
  unfolding list_all_iff
proof
  fix x assume "x \<in> set (head_items isu b)"
  from map_Some_mem [OF head_items_parse this]
  obtain l where "l \<in> set b" "mode_item_parse l = Some x" by (auto dest: in_set_takeD)
  then show "mode_item_ok x" using assms mode_item_parse_line by (auto simp: list_all_iff)
qed

lemma head_line_ok:
  assumes "list_all line_ok b" "b \<noteq> []"
  shows "line_ok (head_line isu b)"
proof (cases "head_items isu b")
  case Nil
  then show ?thesis using assms by (cases b) (auto simp: head_line_def)
next
  case (Cons x xs)
  have ok: "list_all mode_item_ok (x # xs)" using head_items_ok [OF assms(1), of isu] Cons by simp
  then have x: "length (mi_chan x) < 65" "length (mi_arg x) < 300" by (auto simp: mode_item_ok_def limits)
  define est where "est = 5 + length (mi_chan x) + 3 + length (mi_arg x) + 1"
  have xs: "xs = pack_more (pack_limit isu) (mi_chan x) est 1 (tl b)"
    using Cons by (auto simp: head_items_def est_def split: list.splits option.splits)
  have "xs \<noteq> [] \<Longrightarrow> est + weight xs \<le> 400" unfolding xs by (rule pack_more_weight)
  then have "5 + length (mi_chan x) + 1 + weight (x # xs) \<le> SENDQ_LINE_MAX"
    using x by (cases "xs = []") (auto simp: est_def limits)
  then show ?thesis using pack_line_ok [OF ok] by (simp add: head_line_def Cons)
qed

lemma take_protection_eq:
  assumes "q_lanes q = [a, b, c]" "b \<noteq> []"
  shows "take_protection isu q = (Some (head_line isu b),
    q\<lparr>q_lanes := [a, drop (head_count isu b) b, c], q_total := q_total q - head_count isu b\<rparr>)"
proof (cases b)
  case (Cons h rest)
  show ?thesis
  proof (cases "mode_item_parse h")
    case None
    then show ?thesis
      using assms Cons by (simp add: take_protection_def head_line_def head_count_def head_items_def lane_pop_def lanes)
  next
    case (Some x)
    let ?its = "x # pack_more (pack_limit isu) (mi_chan x) (5 + length (mi_chan x) + 3 + length (mi_arg x) + 1) 1 rest"
    have its: "head_items isu b = ?its" by (simp add: head_items_def Cons Some)
    have "take_protection isu q = (Some (pack_line ?its), lane_pops (length ?its) q SENDQ_LANE_PROT)"
      using assms Cons Some by (simp add: take_protection_def lanes Let_def)
    also have "lane_pops (length ?its) q SENDQ_LANE_PROT =
        q\<lparr>q_lanes := [a, drop (length ?its) b, c], q_total := q_total q - length ?its\<rparr>"
      using lane_pops_lanes [of SENDQ_LANE_PROT q "length ?its"] head_items_length [of isu b] assms(1)
      by (simp add: its lanes)
    finally show ?thesis by (simp add: head_line_def head_count_def its)
  qed
qed (use assms in simp)

text \<open>What the next round of a drain sends and leaves.\<close>

lemma take_line_eq:
  assumes "q_lanes q = [a, b, c]"
  shows "take_line isu q =
    (if a \<noteq> [] then (Some (hd a), q\<lparr>q_lanes := [tl a, b, c], q_total := q_total q - 1\<rparr>)
     else if b \<noteq> [] then (Some (head_line isu b),
       q\<lparr>q_lanes := [a, drop (head_count isu b) b, c], q_total := q_total q - head_count isu b\<rparr>)
     else if c \<noteq> [] then (Some (hd c), q\<lparr>q_lanes := [a, b, tl c], q_total := q_total q - 1\<rparr>)
     else (None, q))"
  using assms take_protection_eq [OF assms]
  by (auto simp: take_line_def lanes lane_pop_def neq_Nil_conv split: list.split)

lemma take_line_ok:
  assumes "sendq_ok q" "take_line isu q = (Some l, q')"
  shows "line_ok l" "sendq_ok q'" "q_total q' < q_total q" "q_credit_ms q' = q_credit_ms q"
    "q_interval_ms q' = q_interval_ms q" "q_burst q' = q_burst q" "q_last_ms q' = q_last_ms q" "q_hold q' = q_hold q"
proof -
  from assms(1) obtain a b c where q: "q_lanes q = [a, b, c]" "q_total q = length a + length b + length c"
    "q_total q \<le> MAX_SENDQ" "list_all line_ok a" "list_all line_ok b" "list_all line_ok c" "distinct b"
    "0 \<le> q_interval_ms q" "1 \<le> q_burst q" "0 \<le> q_credit_ms q" "q_credit_ms q \<le> q_burst q * q_interval_ms q"
    by (rule sendq_okE)
  have d: "list_all line_ok (drop n b)" for n using q(5) by (auto simp: list_all_iff dest: in_set_dropD)
  note tl = take_line_eq [OF q(1), of isu]
  have "line_ok l \<and> sendq_ok q' \<and> q_total q' < q_total q \<and> q_credit_ms q' = q_credit_ms q \<and>
    q_interval_ms q' = q_interval_ms q \<and> q_burst q' = q_burst q \<and> q_last_ms q' = q_last_ms q \<and> q_hold q' = q_hold q"
  proof (cases a)
    case (Cons x xs)
    then show ?thesis using tl q assms(2) by (auto simp: sendq_ok_lanes)
  next
    case a: Nil
    show ?thesis
    proof (cases "b = []")
      case False
      then show ?thesis
        using a tl q assms(2) head_count_range [OF False, of isu] head_line_ok [OF q(5) False, of isu] d
        by (auto simp: sendq_ok_lanes)
    next
      case True
      then show ?thesis using a tl q assms(2) by (cases c) (auto simp: sendq_ok_lanes)
    qed
  qed
  then show "line_ok l" "sendq_ok q'" "q_total q' < q_total q" "q_credit_ms q' = q_credit_ms q"
    "q_interval_ms q' = q_interval_ms q" "q_burst q' = q_burst q" "q_last_ms q' = q_last_ms q" "q_hold q' = q_hold q"
    by blast+
qed

lemma take_line_None: "sendq_ok q \<Longrightarrow> take_line isu q = (None, q') \<Longrightarrow> q_total q = 0 \<and> q' = q"
  by (erule sendq_okE) (simp add: take_line_eq split: if_splits)

section \<open>Draining\<close>

definition send_inv :: "bot_state \<Rightarrow> bool" where
  "send_inv st \<longleftrightarrow> sendq_ok (st_sendq st) \<and> list_all line_ok (st_irc_out st)"

lemma apply_refusal_frame [simp]:
  "st_sendq (apply_refusal e st) = st_sendq st" "st_irc_out (apply_refusal e st) = st_irc_out st"
  "st_irc (apply_refusal e st) = st_irc st" "st_status (apply_refusal e st) = st_status st"
  by (auto simp: apply_refusal_def Let_def split: prod.split option.split)

lemma link_down_frame [simp]:
  "st_status (link_down e st) = 0" "st_irc (link_down e st) = False"
  "st_sendq (link_down e st) = q_clear e (st_sendq st)"
  by (simp_all add: link_down_def Let_def reset_status_def isupport_reset_def sendq_clear_def)

lemma link_down_not_connected [simp]: "is_connected (link_down e st) = False"
  by (simp add: is_connected_def)

lemma quit_line_ok: "line_ok (''QUIT :bye'' @ crlf)"
proof -
  have "clean ''QUIT :bye''" by code_simp
  then show ?thesis unfolding line_ok_def by (intro exI [of _ "''QUIT :bye''"]) (simp add: limits)
qed

lemma link_down_out:
  "st_irc_out (link_down e st) \<in> {st_irc_out st, st_irc_out st @ [''QUIT :bye'' @ crlf]}"
  by (simp add: link_down_def Let_def reset_status_def isupport_reset_def sendq_clear_def)

lemma sendq_clear_inv [simp]: "send_inv st \<Longrightarrow> send_inv (sendq_clear e st)"
  by (simp add: send_inv_def sendq_clear_def)

lemma link_down_inv: "send_inv st \<Longrightarrow> send_inv (link_down e st)"
  using link_down_out [of e st] quit_line_ok by (auto simp: send_inv_def)

lemma write_raw_inv: "send_inv st \<Longrightarrow> line_ok l \<Longrightarrow> send_inv (snd (write_raw e st l))"
  using link_down_inv [OF sendq_clear_inv] by (auto simp: write_raw_def) (simp add: send_inv_def)

text \<open>One round of the loop, as a relation: the line taken, the credit paid, the write.\<close>

definition due :: "bot_state \<Rightarrow> bool" where
  "due st \<longleftrightarrow> q_total (st_sendq st) > 0 \<and> q_credit_ms (st_sendq st) \<ge> q_interval_ms (st_sendq st)"

definition paid :: "bot_state \<Rightarrow> bot_state" where
  "paid st = st\<lparr>st_sendq := (let q = snd (take_line (st_isup st) (st_sendq st)) in
     q\<lparr>q_credit_ms := q_credit_ms q - q_interval_ms q\<rparr>)\<rparr>"

lemma paid_frame [simp]:
  "st_irc_out (paid st) = st_irc_out st" "st_isup (paid st) = st_isup st" "st_irc (paid st) = st_irc st"
  "is_connected (paid st) = is_connected st"
  by (simp_all add: paid_def is_connected_def)

definition due_line :: "bot_state \<Rightarrow> string" where
  "due_line st = the (fst (take_line (st_isup st) (st_sendq st)))"

lemma due_take:
  assumes "send_inv st" "due st"
  shows "take_line (st_isup st) (st_sendq st) = (Some (due_line st), snd (take_line (st_isup st) (st_sendq st)))"
proof -
  have "fst (take_line (st_isup st) (st_sendq st)) \<noteq> None"
    using take_line_None [of "st_sendq st" "st_isup st"] assms
    by (auto simp: send_inv_def due_def prod_eq_iff)
  then show ?thesis by (auto simp: due_line_def prod_eq_iff)
qed

lemma paid_facts:
  assumes "send_inv st" "due st"
  shows "send_inv (paid st)" "line_ok (due_line st)" "q_total (st_sendq (paid st)) < q_total (st_sendq st)"
    "q_credit_ms (st_sendq (paid st)) = q_credit_ms (st_sendq st) - q_interval_ms (st_sendq st)"
    "q_interval_ms (st_sendq (paid st)) = q_interval_ms (st_sendq st)"
    "q_burst (st_sendq (paid st)) = q_burst (st_sendq st)" "q_last_ms (st_sendq (paid st)) = q_last_ms (st_sendq st)"
proof -
  have ok: "sendq_ok (st_sendq st)" using assms(1) by (simp add: send_inv_def)
  note t = take_line_ok [OF ok due_take [OF assms]]
  show "line_ok (due_line st)" by (rule t(1))
  show "send_inv (paid st)"
    using t(2) assms t(4,5) by (auto simp: send_inv_def paid_def Let_def due_def elim!: sendq_okE simp: sendq_ok_lanes)
qed (use take_line_ok [OF _ due_take [OF assms]] assms in \<open>simp_all add: paid_def Let_def send_inv_def\<close>)

lemma drain_loop_step:
  assumes "send_inv st"
  shows "drain_loop (Suc n) e st sent =
    (if \<not> due st then (sent, st)
     else if \<not> is_connected st then (sent, sendq_clear e st)
     else case write_raw e (paid st) (due_line st) of
       (r, st2) \<Rightarrow> if r < 0 then (sent, st2) else drain_loop n e st2 (sent + 1))"
proof (cases "due st")
  case True
  note t = due_take [OF assms True]
  have p: "paid st = st\<lparr>st_sendq := snd (take_line (st_isup st) (st_sendq st))\<lparr>q_credit_ms :=
      q_credit_ms (snd (take_line (st_isup st) (st_sendq st))) - q_interval_ms (snd (take_line (st_isup st) (st_sendq st)))\<rparr>\<rparr>"
    by (simp add: paid_def Let_def)
  show ?thesis
    using True unfolding drain_loop.simps(2) due_def [symmetric] Let_def
    by (subst t) (simp add: p del: drain_loop.simps)
qed (auto simp: due_def)

lemma write_raw_cases:
  obtains "write_raw e st l = (-1, st)" "\<not> is_connected st \<or> \<not> st_irc st"
  | "write_raw e st l = (int (length l), st\<lparr>st_irc_out := st_irc_out st @ [l]\<rparr>)" "is_connected st" "st_irc st"
      "e_irc_ok e (st_irc_out st) l"
  | "write_raw e st l = (-1, link_down e (sendq_clear e st))"
      "is_connected st" "st_irc st" "\<not> e_irc_ok e (st_irc_out st) l"
proof -
  consider "\<not> is_connected st \<or> \<not> st_irc st" | "is_connected st" "st_irc st" "e_irc_ok e (st_irc_out st) l"
    | "is_connected st" "st_irc st" "\<not> e_irc_ok e (st_irc_out st) l" by blast
  then show thesis
  proof cases
    case 1
    then have "write_raw e st l = (-1, st)" by (auto simp: write_raw_def)
    then show ?thesis using that(1) 1 by blast
  next
    case 2
    then have "write_raw e st l = (int (length l), st\<lparr>st_irc_out := st_irc_out st @ [l]\<rparr>)" by (simp add: write_raw_def)
    then show ?thesis using that(2) 2 by blast
  next
    case 3
    then have "write_raw e st l = (-1, link_down e (sendq_clear e st))" by (simp add: write_raw_def)
    then show ?thesis using that(3) 3 by blast
  qed
qed

lemma drain_loop_inv: "send_inv st \<Longrightarrow> send_inv (snd (drain_loop n e st sent))"
proof (induction n arbitrary: st sent)
  case (Suc n)
  show ?case
  proof (cases "due st \<and> is_connected st")
    case True
    then have "send_inv (snd (write_raw e (paid st) (due_line st)))"
      using paid_facts [OF Suc.prems] write_raw_inv by blast
    then show ?thesis
      using True Suc.IH by (auto simp: drain_loop_step [OF Suc.prems] simp del: drain_loop.simps split: prod.split)
  qed (auto simp: drain_loop_step [OF Suc.prems] Suc.prems simp del: drain_loop.simps)
qed simp

text \<open>A drain ends for one of four reasons; the bound on its rounds is none of them.\<close>

definition at_rest :: "bot_state \<Rightarrow> bool" where
  "at_rest st \<longleftrightarrow> \<not> due st \<or> \<not> is_connected st \<or> \<not> st_irc st"

lemma drain_loop_rest: "send_inv st \<Longrightarrow> q_total (st_sendq st) < n \<Longrightarrow> at_rest (snd (drain_loop n e st sent))"
proof (induction n arbitrary: st sent)
  case (Suc n)
  show ?case
  proof (cases "due st \<and> is_connected st")
    case True
    note p = paid_facts [OF Suc.prems(1)]
    show ?thesis
    proof (cases rule: write_raw_cases [of e "paid st" "due_line st"])
      case 2
      have "send_inv (paid st\<lparr>st_irc_out := st_irc_out (paid st) @ [due_line st]\<rparr>)"
        using p True by (auto simp: send_inv_def)
      then show ?thesis
        using 2(1) True Suc p by (simp add: drain_loop_step [OF Suc.prems(1)] del: drain_loop.simps)
    qed (use True in \<open>auto simp: drain_loop_step [OF Suc.prems(1)] at_rest_def simp del: drain_loop.simps\<close>)
  qed (auto simp: drain_loop_step [OF Suc.prems(1)] at_rest_def sendq_clear_def is_connected_def simp del: drain_loop.simps)
qed simp

section \<open>Pace\<close>

text \<open>
  The potential of the bucket is its credit less the time it was last filled: waiting leaves it
  as it is or lowers it (at the cap), every line written lowers it by the interval.
\<close>

definition potential :: "sendq \<Rightarrow> int" where
  "potential q = q_credit_ms q - q_last_ms q"

definition paced :: "env \<Rightarrow> bot_state \<Rightarrow> bot_state \<Rightarrow> bool" where
  "paced e st st' \<longleftrightarrow> is_connected st \<and> q_last_ms (st_sendq st') \<le> e_ms e \<and>
     q_interval_ms (st_sendq st') = q_interval_ms (st_sendq st) \<and>
     (\<exists>ls. st_irc_out st' = st_irc_out st @ ls \<and>
        q_interval_ms (st_sendq st) * int (length ls) + potential (st_sendq st') \<le> potential (st_sendq st))"

text \<open>What every operation but a change of limits does, whatever the sockets answer.\<close>

definition sound :: "env \<Rightarrow> bot_state \<Rightarrow> bot_state \<Rightarrow> bool" where
  "sound e st st' \<longleftrightarrow> (send_inv st \<longrightarrow> send_inv st' \<and>
     (q_last_ms (st_sendq st) \<le> e_ms e \<longrightarrow>
        q_last_ms (st_sendq st') \<le> e_ms e \<and> (is_connected st' \<longrightarrow> paced e st st')))"

lemma paced_refl: "q_last_ms (st_sendq st) \<le> e_ms e \<Longrightarrow> is_connected st \<Longrightarrow> paced e st st"
  by (simp add: paced_def)

lemma paced_trans:
  assumes "paced e st st1" "paced e st1 st2"
  shows "paced e st st2"
proof -
  from assms obtain ls1 ls2 where
    1: "st_irc_out st1 = st_irc_out st @ ls1"
      "q_interval_ms (st_sendq st) * int (length ls1) + potential (st_sendq st1) \<le> potential (st_sendq st)"
    and 2: "st_irc_out st2 = st_irc_out st1 @ ls2"
      "q_interval_ms (st_sendq st) * int (length ls2) + potential (st_sendq st2) \<le> potential (st_sendq st1)"
    unfolding paced_def by auto
  have "q_interval_ms (st_sendq st) * int (length (ls1 @ ls2)) + potential (st_sendq st2) \<le> potential (st_sendq st)"
    using 1(2) 2(2) by (simp add: algebra_simps)
  then show ?thesis using assms 1(1) 2(1) unfolding paced_def by (intro conjI exI [of _ "ls1 @ ls2"]) auto
qed

lemma sound_refl [simp]: "sound e st st"
  by (simp add: sound_def paced_refl)

lemma sound_trans: "sound e st st1 \<Longrightarrow> sound e st1 st2 \<Longrightarrow> sound e st st2"
  unfolding sound_def by (metis paced_def paced_trans)

lemma sound_frame:
  "st_sendq st' = st_sendq st \<Longrightarrow> st_irc_out st' = st_irc_out st \<Longrightarrow> st_status st' = st_status st \<Longrightarrow> sound e st st'"
  by (auto simp: sound_def send_inv_def paced_def is_connected_def)

lemma sound_down: "(send_inv st \<Longrightarrow> send_inv st') \<Longrightarrow> \<not> is_connected st' \<Longrightarrow>
    q_last_ms (st_sendq st') \<in> {q_last_ms (st_sendq st), e_ms e} \<Longrightarrow> sound e st st'"
  by (auto simp: sound_def)

lemma sound_refill: "sound e st (st\<lparr>st_sendq := refill e (st_sendq st)\<rparr>)"
proof -
  have "potential (refill e q) \<le> potential q" "q_last_ms (refill e q) = e_ms e" if "q_last_ms q \<le> e_ms e" for q
    using that by (auto simp: potential_def refill_def Let_def)
  then show ?thesis by (simp add: sound_def send_inv_def paced_def is_connected_def)
qed

lemma sound_paid_write:
  assumes "due st" "is_connected st"
  shows "sound e st (snd (write_raw e (paid st) (due_line st)))"
proof (cases rule: write_raw_cases [of e "paid st" "due_line st"])
  case 1
  show ?thesis
    unfolding sound_def
  proof (intro impI conjI)
    assume inv: "send_inv st"
    note p = paid_facts [OF inv assms(1)]
    show "send_inv (snd (write_raw e (paid st) (due_line st)))" using 1 p by simp
    show "q_last_ms (st_sendq (snd (write_raw e (paid st) (due_line st)))) \<le> e_ms e" if "q_last_ms (st_sendq st) \<le> e_ms e"
      using 1 p that by simp
    have "0 \<le> q_interval_ms (st_sendq st)" using inv by (simp add: send_inv_def sendq_ok_def)
    then show "paced e st (snd (write_raw e (paid st) (due_line st)))" if "q_last_ms (st_sendq st) \<le> e_ms e"
      using 1 p that assms by (simp add: paced_def potential_def)
  qed
next
  case 2
  show ?thesis
    unfolding sound_def
  proof (intro impI conjI)
    assume inv: "send_inv st"
    note p = paid_facts [OF inv assms(1)]
    show "send_inv (snd (write_raw e (paid st) (due_line st)))" using write_raw_inv p by blast
    show "q_last_ms (st_sendq (snd (write_raw e (paid st) (due_line st)))) \<le> e_ms e" if "q_last_ms (st_sendq st) \<le> e_ms e"
      using 2 p that by simp
    show "paced e st (snd (write_raw e (paid st) (due_line st)))" if "q_last_ms (st_sendq st) \<le> e_ms e"
      using 2 p that assms by (simp add: paced_def potential_def)
  qed
next
  case 3
  then show ?thesis
    using link_down_inv [OF sendq_clear_inv] paid_facts [OF _ assms(1)]
    by (auto intro!: sound_down simp: q_clear_def)
qed

lemma sound_drain_loop: "send_inv st \<Longrightarrow> sound e st (snd (drain_loop n e st sent))"
proof (induction n arbitrary: st sent)
  case (Suc n)
  show ?case
  proof (cases "due st \<and> is_connected st")
    case True
    let ?w = "write_raw e (paid st) (due_line st)"
    have w: "sound e st (snd ?w)" using True sound_paid_write by blast
    then have "send_inv (snd ?w)" using Suc.prems by (simp add: sound_def)
    then show ?thesis
      using True w Suc.IH sound_trans [OF w]
      by (auto simp: drain_loop_step [OF Suc.prems] simp del: drain_loop.simps split: prod.split)
  next
    case False
    then show ?thesis
      using sendq_clear_inv [of st e]
      by (auto simp: drain_loop_step [OF Suc.prems] sendq_clear_def is_connected_def q_clear_def
        simp del: drain_loop.simps intro!: sound_down)
  qed
qed simp

lemma sound_drain: "sound e st (snd (drain e st))"
proof (cases "send_inv st")
  case True
  let ?st = "st\<lparr>st_sendq := refill e (st_sendq st)\<rparr>"
  have "send_inv ?st" using sound_refill [of e st] True by (simp add: sound_def)
  from sound_drain_loop [OF this] show ?thesis
    using sound_trans [OF sound_refill] by (simp add: drain_def Let_def del: drain_loop.simps)
qed (simp add: sound_def)

section \<open>The operations\<close>

lemma sound_link_down: "sound e st (link_down e st)"
  by (rule sound_down) (auto simp: link_down_inv q_clear_def)

lemma sound_disconnect: "sound e st (disconnect e st)"
  using sound_drain [of e st] sound_trans [OF _ sound_link_down]
  by (auto simp: disconnect_def Let_def sound_link_down)

lemma sound_next_ms: "sound e st (snd (next_ms e st))"
  using sound_refill by (simp add: next_ms_def Let_def)

lemma sound_hold: "sound e st (hold st)"
proof -
  have "sendq_ok (q\<lparr>q_hold := n\<rparr>) = sendq_ok q" for q n by (simp add: sendq_ok_def queued_def)
  then show ?thesis by (simp add: hold_def sound_def send_inv_def paced_def potential_def is_connected_def)
qed

lemma sound_release: "sound e st (release e st)"
proof -
  have "sendq_ok (q\<lparr>q_hold := n\<rparr>) = sendq_ok q" for q n by (simp add: sendq_ok_def queued_def)
  then have s: "sound e st (st\<lparr>st_sendq := (st_sendq st)\<lparr>q_hold := n\<rparr>\<rparr>)" for n
    by (simp add: sound_def send_inv_def paced_def potential_def is_connected_def)
  show ?thesis using s sound_trans [OF s sound_drain] by (simp add: release_def Let_def)
qed

text \<open>The queue after a line is stored.\<close>

definition stored :: "sendq \<Rightarrow> nat \<Rightarrow> string \<Rightarrow> sendq" where
  "stored q lane w = q\<lparr>q_lanes := (q_lanes q)[lane := q_lanes q ! lane @ [w]], q_total := q_total q + 1\<rparr>"

lemma stored_ok:
  assumes "sendq_ok q" "q_total q < MAX_SENDQ" "line_ok w" "lane \<in> {SENDQ_LANE_PROTO, SENDQ_LANE_PROT, SENDQ_LANE_REST}"
    "lane = SENDQ_LANE_PROT \<longrightarrow> w \<notin> set (q_lanes q ! lane)"
  shows "sendq_ok (stored q lane w)"
proof -
  from assms(1) obtain a b c where q: "q_lanes q = [a, b, c]" "q_total q = length a + length b + length c"
    "q_total q \<le> MAX_SENDQ" "list_all line_ok a" "list_all line_ok b" "list_all line_ok c" "distinct b"
    "0 \<le> q_interval_ms q" "1 \<le> q_burst q" "0 \<le> q_credit_ms q" "q_credit_ms q \<le> q_burst q * q_interval_ms q"
    by (rule sendq_okE)
  from assms(4) consider "lane = 0" | "lane = 1" | "lane = 2" by (auto simp: lanes)
  then show ?thesis using q assms(2,3,5) by cases (auto simp: stored_def sendq_ok_lanes lanes)
qed

lemma make_room_prot:
  assumes "sendq_ok q"
  shows "set (q_lanes (snd (make_room q lane)) ! SENDQ_LANE_PROT) \<subseteq> set (q_lanes q ! SENDQ_LANE_PROT)"
  using assms by (auto elim!: sendq_okE simp: make_room_def Let_def lanes lane_pop_def split: list.splits dest: list.set_sel(2))

lemma make_room_frame [simp]:
  "q_credit_ms (snd (make_room q lane)) = q_credit_ms q" "q_last_ms (snd (make_room q lane)) = q_last_ms q"
  "q_interval_ms (snd (make_room q lane)) = q_interval_ms q"
  by (auto simp: make_room_def Let_def lane_pop_def split: list.split)

definition queued_form :: "string \<Rightarrow> string" where
  "queued_form line = take (min (length line - 2) SENDQ_LINE_MAX) line @ crlf"

lemma queued_form_ok: "is_single_line line \<Longrightarrow> line_ok (queued_form line)"
  by (auto simp: is_single_line_iff line_ok_def queued_form_def clean_take)

lemma queued_form_id: "line_ok line \<Longrightarrow> queued_form line = line"
  by (auto simp: line_ok_def queued_form_def)

lemma twin_iff:
  assumes "line_ok w"
  shows "length w = length b + 2 \<and> take (length b) w = b \<longleftrightarrow> w = b @ crlf"
  using assms by (auto simp: line_ok_def)

lemma twin_ex:
  "list_all line_ok ws \<Longrightarrow> list_ex (\<lambda>w. length w = length b + 2 \<and> take (length b) w = b) ws \<longleftrightarrow> b @ crlf \<in> set ws"
  by (induction ws) (use twin_iff in \<open>simp_all, metis\<close>)

lemma enqueue_eq:
  assumes "send_inv st" "is_single_line line"
  shows "enqueue e st line =
    (let lane = lane_of line; q = st_sendq st; w = queued_form line; mr = make_room q lane in
     if lane = SENDQ_LANE_PROT \<and> w \<in> set (q_lanes q ! lane) then (int (length line), st)
     else if \<not> fst mr then (-1, st\<lparr>st_sendq := (snd mr)\<lparr>q_dropped := q_dropped (snd mr) + 1\<rparr>\<rparr>)
     else let st1 = st\<lparr>st_sendq := stored (snd mr) lane w\<rparr>
       in (int (length line), if q_hold (st_sendq st1) = 0 then snd (drain e st1) else st1))"
proof -
  have len: "\<not> length line < 2" using assms(2) by (simp add: is_single_line_def)
  have "list_all line_ok (q_lanes (st_sendq st) ! SENDQ_LANE_PROT)"
    using assms(1) by (auto simp: send_inv_def lanes elim!: sendq_okE)
  note ex = twin_ex [OF this]
  have twin: "(lane_of line = SENDQ_LANE_PROT \<and>
      list_ex (\<lambda>w. length w = length b + 2 \<and> take (length b) w = b) (q_lanes (st_sendq st) ! lane_of line)) =
      (lane_of line = SENDQ_LANE_PROT \<and> b @ crlf \<in> set (q_lanes (st_sendq st) ! lane_of line))" for b
    by (cases "lane_of line = SENDQ_LANE_PROT") (simp_all only: ex simp_thms)
  obtain r q1 where mr: "make_room (st_sendq st) (lane_of line) = (r, q1)" by (cases "make_room (st_sendq st) (lane_of line)")
  show ?thesis
    unfolding enqueue_def Let_def queued_form_def stored_def twin mr
    by (cases r) (use len in \<open>simp_all cong: if_cong\<close>)
qed

lemma sound_enqueue:
  assumes "is_single_line line"
  shows "sound e st (snd (enqueue e st line))"
proof (cases "send_inv st")
  case True
  define q lane w where "q = st_sendq st" and "lane = lane_of line" and "w = queued_form line"
  define q1 where "q1 = snd (make_room q lane)"
  have q: "sendq_ok q" using True by (simp add: q_def send_inv_def)
  have q1: "sendq_ok q1" using make_room_ok [OF q] by (simp add: q1_def)
  have "sendq_ok (q1\<lparr>q_dropped := n\<rparr>)" for n using q1 by (simp add: sendq_ok_def queued_def)
  then have drop: "sound e st (st\<lparr>st_sendq := q1\<lparr>q_dropped := n\<rparr>\<rparr>)" for n
    by (simp add: sound_def send_inv_def paced_def potential_def is_connected_def q1_def q_def)
  have store: "sound e st (st\<lparr>st_sendq := stored q1 lane w\<rparr>)"
    if "fst (make_room q lane)" "\<not> (lane = SENDQ_LANE_PROT \<and> w \<in> set (q_lanes q ! lane))"
  proof -
    have "q_total q1 < MAX_SENDQ" using that(1) make_room_room [OF q, of lane q1] by (simp add: q1_def prod_eq_iff)
    moreover have "line_ok w" using queued_form_ok [OF assms] by (simp add: w_def)
    moreover have "lane = SENDQ_LANE_PROT \<longrightarrow> w \<notin> set (q_lanes q1 ! lane)"
      using that(2) make_room_prot [OF q, of lane] by (auto simp: q1_def)
    ultimately have "sendq_ok (stored q1 lane w)" using stored_ok [OF q1] lane_cases by (simp add: lane_def)
    then show ?thesis
      by (simp add: sound_def send_inv_def paced_def potential_def is_connected_def stored_def q1_def q_def)
  qed
  show ?thesis
    unfolding enqueue_eq [OF True assms] Let_def
    using drop store sound_trans [OF store sound_drain]
    by (auto simp: q_def lane_def w_def q1_def)
qed (simp add: sound_def)

lemma sound_send_line: "is_single_line line \<Longrightarrow> sound e st (snd (send_line e st line))"
  by (auto simp: send_line_def divert_reply_def Let_def sound_enqueue intro: sound_frame split: option.split)

text \<open>Sealed replies are base64 text: the parameter that stands for the seal returns no line break.\<close>

definition seals_clean :: "env \<Rightarrow> bool" where
  "seals_clean e \<longleftrightarrow> (\<forall>pt f. e_seal e pt = Some f \<longrightarrow> clean f)"

definition a2r_line :: "string \<Rightarrow> string \<Rightarrow> string \<Rightarrow> string" where
  "a2r_line verb nick f = verb @ '' '' @ nick @ '' :~A2R '' @ f @ crlf"

lemma a2r_frame_line: "clean verb \<Longrightarrow> clean nick \<Longrightarrow> clean f \<Longrightarrow> is_single_line (a2r_line verb nick f)"
proof -
  assume "clean verb" "clean nick" "clean f"
  moreover have "clean '' ''" "clean '' :~A2R ''" by code_simp+
  ultimately have "clean (verb @ '' '' @ nick @ '' :~A2R '' @ f)" by (simp only: list_all_append simp_thms)
  then show ?thesis
    unfolding is_single_line_iff a2r_line_def by (intro exI [of _ "verb @ '' '' @ nick @ '' :~A2R '' @ f"]) simp
qed

text \<open>The next piece of a reply: its length, its sealed frame and the line that carries it.\<close>

definition a2r_cut :: "string \<Rightarrow> nat" where
  "a2r_cut piece = (if length piece > A2R_TEXT_MAX then piece_cut A2R_TEXT_MAX piece else length piece)"

definition a2r_piece :: "env \<Rightarrow> bot_state \<Rightarrow> string \<Rightarrow> string option" where
  "a2r_piece e st piece =
     (let cut = a2r_cut piece;
          pt = dec (unat (ar_seq (st_a2r st))) @ '':'' @ (if cut < length piece then ''1'' else ''0'') @ '':''
      in if length pt + cut \<le> A2R_PT_MAX then e_seal e (pt @ take cut piece) else None)"

lemma a2r_loop_step:
  "a2r_loop e st verb nick piece =
    (case a2r_piece e st piece of
       None \<Rightarrow> (-1, st)
     | Some f \<Rightarrow>
         let out = a2r_line verb nick f; s = send_line e st out;
             st2 = (snd s)\<lparr>st_a2r := (st_a2r (snd s))\<lparr>ar_seq := ar_seq (st_a2r (snd s)) + 1\<rparr>\<rparr> in
         if length out \<ge> 640 then (-1, st)
         else if fst s < 0 then s
         else if a2r_cut piece \<ge> length piece then (fst s, st2)
         else a2r_loop e st2 verb nick (drop (a2r_cut piece) piece))"
  by (subst a2r_loop.simps)
     (simp add: a2r_cut_def a2r_piece_def a2r_line_def Let_def split_beta split: option.split cong: if_cong)

lemma a2r_cut_pos: "\<not> a2r_cut piece \<ge> length piece \<Longrightarrow> length (drop (a2r_cut piece) piece) < length piece"
  by (auto simp: a2r_cut_def limits intro!: diff_less split: if_splits)

lemma sound_a2r_loop:
  assumes "seals_clean e" "clean verb" "clean nick"
  shows "sound e st (snd (a2r_loop e st verb nick piece))"
proof (induction piece arbitrary: st rule: length_induct)
  case (1 piece)
  show ?case
  proof (cases "a2r_piece e st piece")
    case (Some f)
    define out s where "out = a2r_line verb nick f" and "s = send_line e st out"
    define st2 where "st2 = (snd s)\<lparr>st_a2r := (st_a2r (snd s))\<lparr>ar_seq := ar_seq (st_a2r (snd s)) + 1\<rparr>\<rparr>"
    have "clean f" using Some assms(1) by (auto simp: a2r_piece_def seals_clean_def Let_def split: if_splits)
    then have s: "sound e st (snd s)"
      using a2r_frame_line assms sound_send_line unfolding s_def out_def by blast
    have "sound e (snd s) st2" by (rule sound_frame) (simp_all add: st2_def)
    from sound_trans [OF s this] have st2: "sound e st st2" .
    have rest: "sound e st (snd (a2r_loop e st2 verb nick (drop (a2r_cut piece) piece)))"
      if "\<not> a2r_cut piece \<ge> length piece"
      using sound_trans [OF st2] 1 a2r_cut_pos [OF that] by blast
    show ?thesis
      using s st2 rest
      by (subst a2r_loop_step) (simp add: Some Let_def out_def [symmetric] s_def [symmetric] st2_def [symmetric])
  qed (subst a2r_loop_step, simp)
qed

lemma sound_irc_printf:
  assumes "seals_clean e"
  shows "sound e st (snd (irc_printf e st line))"
proof (cases "is_single_line line")
  case True
  then obtain s where s: "line = s @ crlf" "clean s" by (auto simp: is_single_line_iff)
  have "sound e st (snd r)" if a: "a2r_reply_as e st line verb = Some r" and "clean verb" for r verb
  proof -
    define nick where "nick = ar_nick (st_a2r st)"
    obtain piece where r: "r = a2r_loop e st verb nick piece"
      and n: "take (length nick) (drop (length verb + 1) line) = nick" "length verb + length nick + 5 \<le> length line"
      using a unfolding a2r_reply_as_def Let_def nick_def [symmetric] by (auto split: if_splits)
    have "nick = take (length nick) (drop (length verb + 1) s)" using n s(1) by simp
    then have "clean nick" using clean_take clean_drop s(2) by metis
    then show ?thesis using sound_a2r_loop assms r \<open>clean verb\<close> by blast
  qed
  moreover have "clean ''PRIVMSG''" "clean ''NOTICE''" by code_simp+
  ultimately have "a2r_seal_reply e st line = Some r \<Longrightarrow> sound e st (snd r)" for r
    by (auto simp: a2r_seal_reply_def split: if_splits)
  then show ?thesis
    using sound_send_line [OF True] by (auto simp: irc_printf_def split: option.split)
qed (simp add: irc_printf_def)

section \<open>Runs of operations\<close>

text \<open>One call into the send path, and a run of them, each in its own environment.\<close>

datatype send_op = Printf string | Drain | NextMs | Hold | Release | Disconnect | Limits int int

fun send_call :: "env \<times> send_op \<Rightarrow> bot_state \<Rightarrow> bot_state" where
  "send_call (e, Printf line) st = snd (irc_printf e st line)"
| "send_call (e, Drain) st = snd (drain e st)"
| "send_call (e, NextMs) st = snd (next_ms e st)"
| "send_call (e, Hold) st = hold st"
| "send_call (e, Release) st = release e st"
| "send_call (e, Disconnect) st = disconnect e st"
| "send_call (e, Limits b i) st = set_limits st b i"

definition send_run :: "(env \<times> send_op) list \<Rightarrow> bot_state \<Rightarrow> bot_state" where
  "send_run ops st = fold send_call ops st"

lemma send_call_sound:
  "seals_clean (fst x) \<Longrightarrow> \<forall>b i. snd x \<noteq> Limits b i \<Longrightarrow> sound (fst x) st (send_call x st)"
  by (cases "(x, st)" rule: send_call.cases)
     (auto simp: sound_irc_printf sound_drain sound_next_ms sound_hold sound_release sound_disconnect)

lemma send_call_inv: "seals_clean (fst x) \<Longrightarrow> send_inv st \<Longrightarrow> send_inv (send_call x st)"
proof (cases "\<forall>b i. snd x \<noteq> Limits b i")
  case False
  moreover assume "send_inv st"
  moreover have "st_irc_out (set_limits st b i) = st_irc_out st" for b i by (simp add: set_limits_def Let_def)
  ultimately show ?thesis using set_limits_ok by (cases x) (auto simp: send_inv_def)
qed (use send_call_sound in \<open>auto simp: sound_def\<close>)

lemma send_run_inv: "\<forall>x \<in> set ops. seals_clean (fst x) \<Longrightarrow> send_inv st \<Longrightarrow> send_inv (send_run ops st)"
  unfolding send_run_def by (induction ops arbitrary: st) (auto simp: send_call_inv)

lemma bot_new_send_inv [simp]: "send_inv (bot_new t ms)"
  by (simp add: bot_new_def send_inv_def)

end
