(* ===== verification/SendProps.thy ===== *)
theory SendProps
  imports SendFacts
begin

text \<open>
  What the send path promises its callers, over its invariant and the potential of its bucket:
  well-formed lines only, the pace, the order, no change lost by packing, and that the wait
  \<open>next_ms\<close> gives is the right one.
\<close>

section \<open>Lines and pace\<close>

lemma paced_later: "paced e st st' \<Longrightarrow> e_ms e \<le> e_ms e' \<Longrightarrow> paced e' st st'"
  by (auto simp: paced_def)

lemma send_run_paced:
  assumes "\<forall>x \<in> set ops. seals_clean (fst x) \<and> (\<forall>b i. snd x \<noteq> Limits b i) \<and> e_ms (fst x) \<le> e_ms e"
    "sorted (map (\<lambda>x. e_ms (fst x)) ops)" "send_inv st" "q_last_ms (st_sendq st) \<le> e_ms e"
    "\<forall>x \<in> set ops. q_last_ms (st_sendq st) \<le> e_ms (fst x)" "is_connected (send_run ops st)"
  shows "paced e st (send_run ops st)"
  using assms
proof (induction ops arbitrary: st)
  case Nil
  then show ?case by (simp add: send_run_def paced_refl)
next
  case (Cons x ops)
  let ?st1 = "send_call x st"
  have s: "sound (fst x) st ?st1" using Cons.prems send_call_sound by simp
  then have last: "q_last_ms (st_sendq ?st1) \<le> e_ms (fst x)" and inv: "send_inv ?st1"
    using Cons.prems by (auto simp: sound_def)
  have run: "send_run (x # ops) st = send_run ops ?st1" by (simp add: send_run_def)
  have le: "\<forall>y \<in> set ops. e_ms (fst x) \<le> e_ms (fst y)" using Cons.prems(2) by auto
  have "paced e ?st1 (send_run ops ?st1)"
    using Cons.prems last le inv unfolding run by (intro Cons.IH) fastforce+
  moreover have "paced e st ?st1"
  proof -
    have "is_connected ?st1" using \<open>paced e ?st1 (send_run ops ?st1)\<close> by (simp add: paced_def)
    then have "paced (fst x) st ?st1" using s Cons.prems by (auto simp: sound_def)
    then show ?thesis using paced_later Cons.prems by auto
  qed
  ultimately show ?case unfolding run by (rule paced_trans [rotated])
qed

text \<open>C4: whatever text is handed to the send path and however the sockets answer, the queue stays
  consistent and within its size, and every line given to the server is one IRC line (no break
  or NUL inside) of at most 512 bytes.\<close>

theorem sent_lines_wellformed:
  assumes "sendq_ok (st_sendq st)" "list_all line_ok (st_irc_out st)" "list_all (\<lambda>x. seals_clean (fst x)) ops"
  shows "sendq_ok (st_sendq (send_run ops st)) \<and>
    list_all (\<lambda>l. is_single_line l \<and> length l \<le> 512) (st_irc_out (send_run ops st))"
proof -
  have "send_inv (send_run ops st)" using send_run_inv assms by (simp add: send_inv_def list_all_iff)
  then show ?thesis by (auto simp: send_inv_def line_ok_iff limits list_all_iff)
qed

definition demo_queue :: sendq where
  "demo_queue = (default_sendq 0)\<lparr>q_lanes := [[''PONG :k'' @ crlf],
     [''MODE #c +o ann'' @ crlf, ''MODE #c -i'' @ crlf], []], q_total := 3\<rparr>"

definition demo_link :: bot_state where
  "demo_link = lean_bot\<lparr>st_status := S_CONNECTED, st_irc := True, st_sendq := demo_queue\<rparr>"

definition demo_ops :: "(env \<times> send_op) list" where
  "demo_ops = [(calm_env 1, NextMs), (calm_env 1, Drain)]"

lemma demo_seals: "seals_clean (calm_env t)"
  by (simp add: seals_clean_def calm_env_def)

lemma demo_run_out:
  "st_irc_out (send_run demo_ops demo_link) = [''PONG :k'' @ crlf, ''MODE #c +o-i ann'' @ crlf]"
  by code_simp

lemma demo_link_queue [simp]: "st_sendq demo_link = demo_queue" "st_irc_out demo_link = []"
  by (simp_all add: demo_link_def lean_bot_def bot_new_def)

lemma demo_queue_pace [simp]:
  "q_last_ms demo_queue = 0" "q_burst demo_queue = 10" "q_interval_ms demo_queue = 100"
  by (simp_all add: demo_queue_def default_sendq_def limits)

lemma demo_lines_ok: "list_all (list_all (\<lambda>l. is_single_line l \<and> length l \<le> 512)) (q_lanes demo_queue)"
  by code_simp

lemma demo_queue_ok: "sendq_ok demo_queue"
proof -
  have "length (q_lanes demo_queue) = 3" "q_total demo_queue = queued demo_queue" "q_total demo_queue = 3"
    "distinct (q_lanes demo_queue ! 1)" by (simp_all add: demo_queue_def queued_def)
  moreover have "q_credit_ms demo_queue = 1000" by (simp add: demo_queue_def default_sendq_def limits)
  ultimately show ?thesis
    using demo_lines_ok by (simp add: sendq_ok_def limits lanes line_ok_iff list_all_iff)
qed

lemma demo_link_inv: "send_inv demo_link"
  using demo_queue_ok by (simp add: send_inv_def)

lemma demo_ops_facts:
  assumes "x \<in> set demo_ops"
  shows "fst x = calm_env 1 \<and> (\<forall>b i. snd x \<noteq> Limits b i)"
  using assms by (auto simp: demo_ops_def)

lemma sent_lines_wellformed_witness:
  "st_irc_out (send_run demo_ops demo_link) = [''PONG :k'' @ crlf, ''MODE #c +o-i ann'' @ crlf] \<and>
   sendq_ok (st_sendq (send_run demo_ops demo_link))"
proof
  have "list_all (\<lambda>x. seals_clean (fst x)) demo_ops"
    unfolding list_all_iff using demo_ops_facts demo_seals by metis
  then show "sendq_ok (st_sendq (send_run demo_ops demo_link))"
    using sent_lines_wellformed [of demo_link demo_ops] demo_queue_ok by simp
qed (rule demo_run_out)

text \<open>C8: over any run in which the limits stay and the link stays up, the lines written take at
  most the credit of the start plus one interval's worth per interval elapsed: never more than
  the burst at once and one line per interval after it.\<close>

theorem send_pace:
  assumes "\<forall>x \<in> set ops. seals_clean (fst x) \<and> (\<forall>b i. snd x \<noteq> Limits b i) \<and>
      q_last_ms (st_sendq st) \<le> e_ms (fst x) \<and> e_ms (fst x) \<le> now"
    "sorted (map (\<lambda>x. e_ms (fst x)) ops)" "send_inv st" "q_last_ms (st_sendq st) \<le> now"
    "is_connected (send_run ops st)"
  shows "\<exists>ls. st_irc_out (send_run ops st) = st_irc_out st @ ls \<and>
    q_interval_ms (st_sendq st) * int (length ls) \<le>
      q_burst (st_sendq st) * q_interval_ms (st_sendq st) + (now - q_last_ms (st_sendq st))"
proof -
  let ?e = "(calm_env 0)\<lparr>e_ms := now\<rparr>" and ?st' = "send_run ops st"
  have "paced ?e st ?st'" using assms by (intro send_run_paced) auto
  then obtain ls where ls: "st_irc_out ?st' = st_irc_out st @ ls"
    "q_interval_ms (st_sendq st) * int (length ls) + potential (st_sendq ?st') \<le> potential (st_sendq st)"
    and last: "q_last_ms (st_sendq ?st') \<le> now" by (auto simp: paced_def)
  have "send_inv ?st'" using assms by (intro send_run_inv) auto
  then have "0 \<le> q_credit_ms (st_sendq ?st')" by (simp add: send_inv_def sendq_ok_def)
  moreover have "q_credit_ms (st_sendq st) \<le> q_burst (st_sendq st) * q_interval_ms (st_sendq st)"
    using assms(3) by (simp add: send_inv_def sendq_ok_def)
  ultimately show ?thesis using ls last by (intro exI [of _ ls]) (auto simp: potential_def)
qed

lemma send_pace_witness:
  "\<exists>ls. st_irc_out (send_run demo_ops demo_link) = st_irc_out demo_link @ ls \<and>
     q_interval_ms (st_sendq demo_link) * int (length ls) \<le> 10 * 100 + (1000 - 0)"
proof -
  have c: "is_connected (send_run demo_ops demo_link)" by code_simp
  have t: "e_ms (fst x) = 1000" "seals_clean (fst x)" if "x \<in> set demo_ops" for x
    using demo_ops_facts [OF that] demo_seals by (simp_all add: calm_env_def seals_clean_def)
  then have "sorted (map (\<lambda>x. e_ms (fst x)) demo_ops)"
    using sorted_replicate [of "length demo_ops" "1000::int"] map_replicate_const [of "1000::int" demo_ops] by (simp cong: map_cong)
  moreover have "\<forall>x \<in> set demo_ops. seals_clean (fst x) \<and> (\<forall>b i. snd x \<noteq> Limits b i) \<and>
      q_last_ms (st_sendq demo_link) \<le> e_ms (fst x) \<and> e_ms (fst x) \<le> 1000"
    using demo_ops_facts t by simp
  moreover have "q_last_ms (st_sendq demo_link) \<le> 1000" by simp
  ultimately show ?thesis
    using send_pace [of demo_ops demo_link 1000] c demo_link_inv
    unfolding demo_link_queue demo_queue_pace by blast
qed

section \<open>Order\<close>

text \<open>A lane of protection lines as it leaves: packed from the head, again and again.\<close>

function pack_lane :: "isupport \<Rightarrow> string list \<Rightarrow> string list" where
  "pack_lane isu b = (if b = [] then [] else head_line isu b # pack_lane isu (drop (head_count isu b) b))"
  by pat_completeness auto
termination
  by (relation "measure (\<lambda>(isu, b). length b)") (auto simp: head_count_range intro!: diff_less)

declare pack_lane.simps [simp del]

lemma pack_lane_Nil [simp]: "pack_lane isu [] = []"
  by (simp add: pack_lane.simps)

lemma pack_lane_step: "b \<noteq> [] \<Longrightarrow> pack_lane isu b = head_line isu b # pack_lane isu (drop (head_count isu b) b)"
  by (simp add: pack_lane.simps [of isu b])

definition outgoing :: "isupport \<Rightarrow> sendq \<Rightarrow> string list" where
  "outgoing isu q = q_lanes q ! SENDQ_LANE_PROTO @ pack_lane isu (q_lanes q ! SENDQ_LANE_PROT) @ q_lanes q ! SENDQ_LANE_REST"

lemma outgoing_step:
  assumes "sendq_ok q" "take_line isu q = (Some l, q')"
  shows "outgoing isu q = l # outgoing isu q'"
proof -
  from assms(1) obtain a b c where q: "q_lanes q = [a, b, c]" by (rule sendq_okE)
  show ?thesis
    using assms(2) by (cases a; cases "b = []"; cases c)
      (auto simp: take_line_eq [OF q] outgoing_def q lanes pack_lane_step)
qed

lemma outgoing_empty: "sendq_ok q \<Longrightarrow> q_total q = 0 \<Longrightarrow> outgoing isu q = []"
  by (erule sendq_okE) (simp add: outgoing_def lanes)

lemma drain_loop_all:
  assumes "\<And>out l. e_irc_ok e out l" "send_inv st" "is_connected st" "st_irc st"
    "q_interval_ms (st_sendq st) * int (q_total (st_sendq st)) \<le> q_credit_ms (st_sendq st)" "q_total (st_sendq st) < n"
  shows "st_irc_out (snd (drain_loop n e st sent)) = st_irc_out st @ outgoing (st_isup st) (st_sendq st) \<and>
    q_total (st_sendq (snd (drain_loop n e st sent))) = 0"
  using assms(2-)
proof (induction n arbitrary: st sent)
  case (Suc n)
  let ?q = "st_sendq st"
  have iv: "0 \<le> q_interval_ms ?q" and ok: "sendq_ok ?q" using Suc.prems(1) by (auto simp: send_inv_def sendq_ok_def)
  show ?case
  proof (cases "q_total ?q = 0")
    case True
    then show ?thesis
      using ok by (simp add: drain_loop_step [OF Suc.prems(1)] due_def outgoing_empty del: drain_loop.simps)
  next
    case False
    have "q_interval_ms ?q * 1 \<le> q_interval_ms ?q * int (q_total ?q)"
      using iv False by (intro mult_left_mono) auto
    then have due: "due st" using False Suc.prems(4) by (simp add: due_def)
    note p = paid_facts [OF Suc.prems(1) due]
    define st2 where "st2 = paid st\<lparr>st_irc_out := st_irc_out st @ [due_line st]\<rparr>"
    have w: "write_raw e (paid st) (due_line st) = (int (length (due_line st)), st2)"
      using Suc.prems(2,3) assms(1) by (simp add: write_raw_def st2_def)
    have o: "outgoing (st_isup st) ?q = due_line st # outgoing (st_isup st) (st_sendq st2)"
      using outgoing_step [OF ok due_take [OF Suc.prems(1) due]]
      by (simp add: st2_def paid_def Let_def outgoing_def)
    have "q_interval_ms ?q * int (q_total (st_sendq st2)) \<le> q_interval_ms ?q * (int (q_total ?q) - 1)"
      using iv p(3) by (intro mult_left_mono) (auto simp: st2_def)
    also have "\<dots> \<le> q_credit_ms ?q - q_interval_ms ?q" using Suc.prems(4) by (simp add: algebra_simps)
    finally have c: "q_interval_ms (st_sendq st2) * int (q_total (st_sendq st2)) \<le> q_credit_ms (st_sendq st2)"
      using p by (simp add: st2_def)
    have inv: "send_inv st2" using p Suc.prems(1) by (auto simp: send_inv_def st2_def)
    have "is_connected st2" "st_irc st2" "q_total (st_sendq st2) < n" "st_isup st2 = st_isup st"
      using Suc.prems p(3) by (simp_all add: st2_def is_connected_def) (simp add: paid_def)
    with Suc.IH [OF inv _ _ c, of "sent + 1"] o show ?thesis
      using Suc.prems(2) due w
      by (simp add: drain_loop_step [OF Suc.prems(1)] st2_def del: drain_loop.simps)
  qed
qed simp

lemma drain_bound: "sendq_ok (st_sendq st) \<Longrightarrow>
  drain e st = (if q_total (st_sendq st) = 0 then (0, st)
    else drain_loop (Suc (q_total (st_sendq st))) e (st\<lparr>st_sendq := refill e (st_sendq st)\<rparr>) 0)"
  by (simp add: drain_def Let_def sendq_ok_def del: drain_loop.simps)

lemma refilled_inv: "send_inv st \<Longrightarrow> send_inv (st\<lparr>st_sendq := refill e (st_sendq st)\<rparr>)"
  by (simp add: send_inv_def)

text \<open>C27: with credit for every queued line and a server that takes them, one drain sends the whole
  queue: the protocol lines in order, then the packed protection lines, then the rest in order.\<close>

theorem drain_sends_all:
  assumes "send_inv st" "is_connected st" "st_irc st" "\<And>out l. e_irc_ok e out l"
    "q_interval_ms (st_sendq st) * int (q_total (st_sendq st)) \<le> q_credit_ms (refill e (st_sendq st))"
  shows "st_irc_out (snd (drain e st)) = st_irc_out st @ q_lanes (st_sendq st) ! SENDQ_LANE_PROTO @
      pack_lane (st_isup st) (q_lanes (st_sendq st) ! SENDQ_LANE_PROT) @ q_lanes (st_sendq st) ! SENDQ_LANE_REST \<and>
    q_total (st_sendq (snd (drain e st))) = 0"
proof -
  let ?st = "st\<lparr>st_sendq := refill e (st_sendq st)\<rparr>" and ?n = "Suc (q_total (st_sendq st))"
  have ok: "sendq_ok (st_sendq st)" using assms(1) by (simp add: send_inv_def)
  have "st_irc_out (snd (drain_loop ?n e ?st 0)) = st_irc_out ?st @ outgoing (st_isup ?st) (st_sendq ?st) \<and>
      q_total (st_sendq (snd (drain_loop ?n e ?st 0))) = 0"
    using assms refilled_inv by (intro drain_loop_all) (simp_all add: is_connected_def)
  moreover have "q_total (st_sendq st) = 0 \<Longrightarrow> outgoing (st_isup st) (st_sendq st) = []" by (rule outgoing_empty [OF ok])
  ultimately show ?thesis
    unfolding drain_bound [OF ok] by (auto simp: outgoing_def simp del: drain_loop.simps)
qed

lemma drain_sends_all_witness:
  "st_irc_out (snd (drain (calm_env 1) demo_link)) =
     [''PONG :k'' @ crlf] @ pack_lane (st_isup demo_link) [''MODE #c +o ann'' @ crlf, ''MODE #c -i'' @ crlf]"
proof -
  have "is_connected demo_link" "st_irc demo_link" by (simp_all add: demo_link_def is_connected_def S_CONNECTED_def)
  moreover have "e_irc_ok (calm_env 1) out l" for out l by (simp add: calm_env_def)
  moreover have "q_total demo_queue = 3" "q_credit_ms (refill (calm_env 1) demo_queue) = 1000"
    by (simp_all add: demo_queue_def default_sendq_def limits refill_def calm_env_def)
  ultimately have "st_irc_out (snd (drain (calm_env 1) demo_link)) = st_irc_out demo_link @
      q_lanes demo_queue ! SENDQ_LANE_PROTO @ pack_lane (st_isup demo_link) (q_lanes demo_queue ! SENDQ_LANE_PROT) @
      q_lanes demo_queue ! SENDQ_LANE_REST"
    using drain_sends_all [of demo_link "calm_env 1"] demo_link_inv by simp
  moreover have "q_lanes demo_queue ! SENDQ_LANE_PROTO = [''PONG :k'' @ crlf]"
    "q_lanes demo_queue ! SENDQ_LANE_PROT = [''MODE #c +o ann'' @ crlf, ''MODE #c -i'' @ crlf]"
    "q_lanes demo_queue ! SENDQ_LANE_REST = []"
    by (simp_all add: demo_queue_def lanes)
  ultimately show ?thesis by (simp only: demo_link_queue append_Nil append_Nil2)
qed

text \<open>C37: a drain stops because nothing is queued, the credit is short, or the link is gone; its
  bound on rounds never stops it.\<close>

theorem drain_stops:
  assumes "send_inv st"
  shows "at_rest (snd (drain e st))"
proof -
  have ok: "sendq_ok (st_sendq st)" using assms by (simp add: send_inv_def)
  have "at_rest (snd (drain_loop (Suc (q_total (st_sendq st))) e (st\<lparr>st_sendq := refill e (st_sendq st)\<rparr>) 0))"
    by (rule drain_loop_rest [OF refilled_inv [OF assms]]) simp
  then show ?thesis
    unfolding drain_bound [OF ok] by (simp add: at_rest_def [of st] due_def del: drain_loop.simps)
qed

lemma drain_stops_witness: "at_rest (snd (drain (calm_env 1) demo_link))"
  by (rule drain_stops [OF demo_link_inv])

section \<open>The wait\<close>

lemma write_raw_out: "length (st_irc_out st) \<le> length (st_irc_out (snd (write_raw e st l)))"
proof (cases rule: write_raw_cases [of e st l])
  case 3
  then show ?thesis using link_down_out [of e "sendq_clear e st"] by (auto simp: sendq_clear_def)
qed simp_all

lemma drain_loop_out:
  "send_inv st \<Longrightarrow> length (st_irc_out st) \<le> length (st_irc_out (snd (drain_loop n e st sent)))"
proof (induction n arbitrary: st sent)
  case (Suc n)
  show ?case
  proof (cases "due st \<and> is_connected st")
    case True
    let ?w = "write_raw e (paid st) (due_line st)"
    have "send_inv (snd ?w)" using True write_raw_inv paid_facts [OF Suc.prems] by blast
    from Suc.IH [OF this] True show ?thesis
      using write_raw_out [of "paid st" e "due_line st"]
      by (auto simp: drain_loop_step [OF Suc.prems] simp del: drain_loop.simps split: prod.split intro: order_trans)
  qed (auto simp: drain_loop_step [OF Suc.prems] sendq_clear_def simp del: drain_loop.simps)
qed simp

lemma drain_writes_iff:
  assumes "send_inv st" "is_connected st" "st_irc st" "\<And>out l. e_irc_ok e out l"
  shows "length (st_irc_out (snd (drain e st))) > length (st_irc_out st) \<longleftrightarrow>
    q_total (st_sendq st) > 0 \<and> q_credit_ms (refill e (st_sendq st)) \<ge> q_interval_ms (st_sendq st)"
proof -
  let ?st = "st\<lparr>st_sendq := refill e (st_sendq st)\<rparr>"
  have ok: "sendq_ok (st_sendq st)" using assms(1) by (simp add: send_inv_def)
  have inv: "send_inv ?st" by (rule refilled_inv [OF assms(1)])
  have d: "due ?st \<longleftrightarrow> q_total (st_sendq st) > 0 \<and> q_credit_ms (refill e (st_sendq st)) \<ge> q_interval_ms (st_sendq st)"
    by (simp add: due_def)
  show ?thesis
  proof (cases "due ?st")
    case True
    let ?st2 = "paid ?st\<lparr>st_irc_out := st_irc_out st @ [due_line ?st]\<rparr>"
    have w: "write_raw e (paid ?st) (due_line ?st) = (int (length (due_line ?st)), ?st2)"
      using assms(2-4) by (simp add: write_raw_def is_connected_def [of "st\<lparr>st_sendq := _\<rparr>"] is_connected_def [of st, symmetric])
    have "send_inv ?st2" using paid_facts [OF inv True] inv by (auto simp: send_inv_def)
    from drain_loop_out [OF this] have "length (st_irc_out st) < length (st_irc_out (snd (drain_loop (q_total (st_sendq st)) e ?st2 1)))"
      by (auto simp: Suc_le_eq)
    then show ?thesis
      using True d w assms(2) unfolding drain_bound [OF ok]
      by (simp add: drain_loop_step [OF inv] is_connected_def del: drain_loop.simps)
  next
    case False
    then have "snd (drain e st) = st \<or> snd (drain e st) = ?st"
      by (simp add: drain_bound [OF ok] drain_loop_step [OF inv] del: drain_loop.simps)
    then have "st_irc_out (snd (drain e st)) = st_irc_out st" by auto
    then show ?thesis using False d by (simp only: less_irrefl simp_thms)
  qed
qed

text \<open>C28: \<open>next_ms\<close> tells exactly how long to wait: -1 when nothing is queued, else the first moment
  at which a drain writes a line again (the server taking it).\<close>

theorem next_ms_exact:
  assumes "send_inv st" "is_connected st" "st_irc st" "\<And>out l. e_irc_ok e' out l"
    "q_last_ms (st_sendq st) \<le> e_ms e" "e_ms e \<le> e_ms e'" "next_ms e st = (w, st1)"
  shows "(w = -1 \<longleftrightarrow> q_total (st_sendq st) = 0) \<and>
    (w \<noteq> -1 \<longrightarrow> (length (st_irc_out (snd (drain e' st1))) > length (st_irc_out st1) \<longleftrightarrow> w \<le> e_ms e' - e_ms e))"
proof (cases "q_total (st_sendq st) = 0")
  case True
  then show ?thesis using assms(7) by (simp add: next_ms_def)
next
  case False
  define q where "q = refill e (st_sendq st)"
  have q: "sendq_ok q" "q_last_ms q = e_ms e" "q_total q = q_total (st_sendq st)"
    using assms(1) by (simp_all add: q_def send_inv_def) (simp add: refill_def Let_def)
  have st1: "st1 = st\<lparr>st_sendq := q\<rparr>"
    and w: "w = (if q_credit_ms q \<ge> q_interval_ms q then 0 else q_interval_ms q - q_credit_ms q)"
    using assms(7) False by (auto simp: next_ms_def Let_def q_def [symmetric] split: if_splits)
  have "send_inv st1" using assms(1) q(1) by (simp add: send_inv_def st1)
  moreover have "is_connected st1" "st_irc st1" using assms(2,3) by (simp_all add: st1 is_connected_def)
  ultimately have d: "length (st_irc_out (snd (drain e' st1))) > length (st_irc_out st1) \<longleftrightarrow>
      q_credit_ms (refill e' q) \<ge> q_interval_ms q"
    using drain_writes_iff [of st1 e'] assms(4) False q(3) by (simp add: st1)
  have r: "1 \<le> q_burst q" "0 \<le> q_interval_ms q" using q(1) by (auto simp: sendq_ok_def)
  then have "q_interval_ms q * 1 \<le> q_interval_ms q * q_burst q" by (intro mult_left_mono) auto
  then have cap: "q_interval_ms q \<le> q_burst q * q_interval_ms q" by (simp add: mult.commute)
  have "q_credit_ms (refill e' q) \<ge> q_interval_ms q \<longleftrightarrow> w \<le> e_ms e' - e_ms e"
    using cap w assms(6) q(2) by (auto simp: refill_def Let_def)
  then show ?thesis using d False w by auto
qed

lemma next_ms_exact_witness:
  "next_ms (calm_env 0) (demo_link\<lparr>st_sendq := demo_queue\<lparr>q_credit_ms := 30\<rparr>\<rparr>) =
     (70, demo_link\<lparr>st_sendq := demo_queue\<lparr>q_credit_ms := 30\<rparr>\<rparr>) \<and>
   length (st_irc_out (snd (drain (calm_env 1) (demo_link\<lparr>st_sendq := demo_queue\<lparr>q_credit_ms := 30\<rparr>\<rparr>)))) > 0"
proof -
  let ?q = "demo_queue\<lparr>q_credit_ms := 30\<rparr>" and ?st = "demo_link\<lparr>st_sendq := demo_queue\<lparr>q_credit_ms := 30\<rparr>\<rparr>"
  have "sendq_ok ?q" using demo_queue_ok by (simp add: sendq_ok_def queued_def)
  then have inv: "send_inv ?st" by (simp add: send_inv_def)
  have n: "next_ms (calm_env 0) ?st = (70, ?st)"
  proof -
    have t: "q_total demo_queue = 3" by (simp add: demo_queue_def)
    have "refill (calm_env 0) ?q = ?q\<lparr>q_last_ms := 0\<rparr>" by (simp add: refill_def calm_env_def Let_def)
    also have "\<dots> = ?q" using demo_queue_pace(1) by (cases demo_queue) simp
    finally show ?thesis by (simp add: next_ms_def Let_def t)
  qed
  have "is_connected ?st" "st_irc ?st" "e_irc_ok (calm_env 1) out l" for out l
    by (simp_all add: demo_link_def is_connected_def S_CONNECTED_def calm_env_def)
  then show ?thesis
    using next_ms_exact [OF inv _ _ _ _ _ n, of "calm_env 1"] n by (simp add: calm_env_def)
qed

section \<open>No change lost by packing\<close>






definition item_effect :: "env \<Rightarrow> isupport \<Rightarrow> mode_item \<Rightarrow> chan \<Rightarrow> chan" where
  "item_effect e isu it =
     apply_letter e isu False (mi_letter it) (mi_sign it = CHR ''+'') (mi_has_arg it)
       (if mi_has_arg it then Some (mi_arg it) else None)"








lemma apply_loop_name [simp]: "c_name (apply_loop e isu f adding a r ms c) = c_name c"
proof (induction e isu f adding a r ms c rule: apply_loop.induct)
  case (2 e isu f adding a r ch ms c)
  have "c_name (apply_letter e isu f ch ad h x c) = c_name c" for ad h x c
    by (auto simp: apply_letter_def chan_ban_add_def ban_del_def set_prefix_def split: option.split)
  then show ?case using 2 by (simp add: Let_def split_beta)
qed simp






lemma item_effect_name [simp]: "c_name (item_effect e isu it c) = c_name c"
  by (auto simp: item_effect_def apply_letter_def chan_ban_add_def ban_del_def set_prefix_def split: option.split)








end
