(* ===== verification/Settings.thy ===== *)
theory Settings
  imports State
begin

text \<open>
  The settings fields of the C| and D| records (\<open>src/src/chancfg.rs\<close>): the table of settings and
  floods, the small validators, parsing a field into overrides, the effective value of a
  setting (channel, then network default, then built-in), and editing one setting of a field.
\<close>

section \<open>Tables\<close>

record cset_def =
  d_name :: string
  d_lo :: int
  d_hi :: int
  d_builtin :: int
  d_net_only :: bool

definition csdef :: "string \<Rightarrow> int \<Rightarrow> int \<Rightarrow> int \<Rightarrow> bool \<Rightarrow> cset_def" where
  "csdef nm lo hi builtin net_only =
     \<lparr>d_name = nm, d_lo = lo, d_hi = hi, d_builtin = builtin, d_net_only = net_only\<rparr>"

definition CSET :: "cset_def list" where
  "CSET =
    [csdef ''enforcemodes'' 0 1 0 False,
     csdef ''bitch'' 0 1 0 False,
     csdef ''protectops'' 0 1 1 False,
     csdef ''revenge'' 0 1 0 False,
     csdef ''stopnethack'' 0 1 0 False,
     csdef ''enforcebans'' 0 1 0 False,
     csdef ''dynamicbans'' 0 1 1 False,
     csdef ''dontkickops'' 0 1 1 False,
     csdef ''cycle'' 0 1 1 False,
     csdef ''dynamiclimit'' 0 1 0 False,
     csdef ''bantime'' 0 525600 120 False,
     csdef ''bantype'' 0 9 2 False,
     csdef ''banidle'' 1 10080 60 False,
     csdef ''limitgap'' 1 1000 5 False,
     csdef ''limitdelay'' 10 3600 60 False,
     csdef ''ignoretime'' 1 1440 10 True]"

definition FL_NAME :: "string list" where
  "FL_NAME = [''flood chan'', ''flood ctcp'', ''flood join'', ''flood nick'', ''flood deop'',
     ''flood kick'', ''flood ban'', ''bflood cmd'', ''bflood msg'', ''bflood ctcp'', ''sendq'']"

definition FL_BUILTIN :: "(int \<times> int) list" where
  "FL_BUILTIN = [(15, 60), (3, 60), (5, 60), (5, 60), (3, 10), (3, 10), (3, 10),
     (10, 30), (5, 60), (3, 60), (SENDQ_DEF_BURST, SENDQ_DEF_INTERVAL_MS)]"

definition fl_bounds :: "nat \<Rightarrow> int \<times> int \<times> int \<times> int \<times> bool" where
  "fl_bounds kind =
     (if kind = flood_idx Sendq
      then (SENDQ_MIN_BURST, SENDQ_MAX_BURST, SENDQ_MIN_INTERVAL_MS, SENDQ_MAX_INTERVAL_MS, False)
      else (1, 1000, 1, 3600, True))"

definition admin_change_refused :: "bot_state \<Rightarrow> bool" where
  "admin_change_refused st = is_opt_set st OPT_HUB_ONLY_MUTATIONS"

section \<open>Small parsers\<close>

definition parse_ll :: "string \<Rightarrow> int option" where
  "parse_ll s = (if s = [] \<or> length s > 18 \<or> \<not> list_all is_digit s then None
                 else Some (int (digits_val s)))"

definition plain_text :: "string \<Rightarrow> bool" where
  "plain_text s = list_all (\<lambda>c. byte c \<ge> 0x20 \<and> byte c \<noteq> 0x7f \<and> c \<noteq> CHR ''|'') s"

definition valid_chan_name :: "string \<Rightarrow> bool" where
  "valid_chan_name s \<longleftrightarrow>
     \<not> (length s < 2 \<or> length s \<ge> MAX_CHAN \<or> (s ! 0 \<noteq> CHR ''#'' \<and> s ! 0 \<noteq> CHR ''&'')) \<and>
     list_all (\<lambda>c. byte c > 0x20 \<and> byte c \<noteq> 0x7f \<and> c \<noteq> CHR '','' \<and> c \<noteq> CHR ''|'') s"

definition valid_modes_field :: "string \<Rightarrow> bool" where
  "valid_modes_field s \<longleftrightarrow> length s \<le> C_MODES_MAX \<and>
     list_all (\<lambda>c. 0x20 \<le> byte c \<and> byte c \<le> 0x7e \<and> c \<noteq> CHR ''|'') s"

section \<open>Parsing a settings field\<close>

definition cset_find :: "string \<Rightarrow> nat option" where
  "cset_find nm = position (\<lambda>d. d_name d = nm) CSET"

definition fl_find :: "string \<Rightarrow> nat option" where
  "fl_find nm = position (\<lambda>n. n = nm) FL_NAME"

definition fl_pair :: "nat \<Rightarrow> string \<Rightarrow> (int \<times> int) option" where
  "fl_pair i val =
     (case split_once (CHR '':'') val of None \<Rightarrow> None
      | Some (a, b) \<Rightarrow>
          (case (parse_ll a, parse_ll b) of
             (Some n, Some sec) \<Rightarrow>
               (let (nlo, nhi, slo, shi, off_ok) = fl_bounds i
                in if nlo \<le> n \<and> n \<le> nhi \<and> slo \<le> sec \<and> sec \<le> shi then Some (n, sec) else None)
           | _ \<Rightarrow> None))"

definition fl_off_ok :: "nat \<Rightarrow> bool" where
  "fl_off_ok i = snd (snd (snd (snd (fl_bounds i))))"

text \<open>One token of a field, by its two cases: a setting, a flood.\<close>

definition parse_num :: "bool \<Rightarrow> chan_settings \<Rightarrow> nat \<Rightarrow> string \<Rightarrow> chan_settings" where
  "parse_num net out i val =
     (if d_net_only (CSET ! i) \<and> \<not> net then out
      else (case parse_ll val of
          Some v \<Rightarrow>
            if v \<ge> d_lo (CSET ! i) \<and> v \<le> d_hi (CSET ! i)
            then out\<lparr>cs_present := cs_present out OR push_bit i 1, cs_val := (cs_val out)[i := v]\<rparr>
            else out
        | None \<Rightarrow> out))"

definition parse_fl :: "bool \<Rightarrow> chan_settings \<Rightarrow> nat \<Rightarrow> string \<Rightarrow> chan_settings" where
  "parse_fl net out i val =
     (if i \<ge> FL_CHAN_COUNT \<and> \<not> net then out
      else if fl_off_ok i \<and> val = ''off''
      then out\<lparr>cs_fl := (cs_fl out)[i := \<lparr>fs_present = True, fs_off = True, fs_n = 0, fs_s = 0\<rparr>]\<rparr>
      else (case fl_pair i val of
          Some (n, sec) \<Rightarrow>
            out\<lparr>cs_fl := (cs_fl out)[i := \<lparr>fs_present = True, fs_off = False, fs_n = n, fs_s = sec\<rparr>]\<rparr>
        | None \<Rightarrow> if i = flood_idx Sendq then out\<lparr>cs_bad_sendq := True\<rparr> else out))"

definition parse_tok :: "bool \<Rightarrow> chan_settings \<Rightarrow> string \<Rightarrow> chan_settings" where
  "parse_tok net out tok =
     (case position (\<lambda>c. c = CHR ''='') tok of
        None \<Rightarrow> out
      | Some eq \<Rightarrow>
          if eq = 0 then out
          else
            let nm = take eq tok; val = drop (eq + 1) tok in
            (case cset_find nm of
               Some i \<Rightarrow> parse_num net out i val
             | None \<Rightarrow> (case fl_find nm of Some i \<Rightarrow> parse_fl net out i val | None \<Rightarrow> out)))"

definition parse_settings :: "string \<Rightarrow> bool \<Rightarrow> chan_settings" where
  "parse_settings s net =
     (if length s > C_SETTINGS_MAX then default_settings
      else foldl (parse_tok net) default_settings (split_char (CHR '','') s))"

section \<open>Effective values\<close>

definition present :: "chan_settings \<Rightarrow> nat \<Rightarrow> bool" where
  "present cs i \<longleftrightarrow> cs_present cs AND push_bit i 1 \<noteq> 0"

definition get :: "bot_state \<Rightarrow> chan option \<Rightarrow> cset_id \<Rightarrow> int" where
  "get st c sid =
     (let i = cset_idx sid in
      case (if \<not> d_net_only (CSET ! i)
            then (case c of Some c \<Rightarrow>
                    if c_cfg_active c \<and> c_cfg_ts c > 0 \<and> present (c_cfg_set c) i
                    then Some (cs_val (c_cfg_set c) ! i) else None | None \<Rightarrow> None)
            else None) of
        Some v \<Rightarrow> v
      | None \<Rightarrow>
          if st_net_ts st > 0 \<and> present (st_net_set st) i then cs_val (st_net_set st) ! i
          else d_builtin (CSET ! i))"

definition get_flood :: "bot_state \<Rightarrow> chan option \<Rightarrow> flood_kind \<Rightarrow> (int \<times> int) option" where
  "get_flood st c kind =
     (let k = flood_idx kind;
          net = (if st_net_ts st > 0 \<and> fs_present (cs_fl (st_net_set st) ! k)
                 then Some (cs_fl (st_net_set st) ! k) else None);
          sp = (case c of
              Some c \<Rightarrow> if k < FL_CHAN_COUNT \<and> c_cfg_active c \<and> c_cfg_ts c > 0 \<and> fs_present (cs_fl (c_cfg_set c) ! k)
                        then Some (cs_fl (c_cfg_set c) ! k) else net
            | None \<Rightarrow> net)
      in case sp of
           Some sp \<Rightarrow> if fs_off sp then None else Some (fs_n sp, fs_s sp)
         | None \<Rightarrow> Some (FL_BUILTIN ! k))"

definition get_modes :: "bot_state \<Rightarrow> chan option \<Rightarrow> string" where
  "get_modes st c =
     (let net = (if st_net_ts st > 0 \<and> st_net_modes st \<noteq> [] then st_net_modes st else ''+nt'')
      in case c of
           Some c \<Rightarrow> if c_cfg_active c \<and> c_cfg_ts c > 0 \<and> c_cfg_modes c \<noteq> [] then c_cfg_modes c else net
         | None \<Rightarrow> net)"

section \<open>Listing\<close>

definition item_index :: "string \<Rightarrow> bool \<Rightarrow> nat option" where
  "item_index nm net =
     (case cset_find nm of
        Some i \<Rightarrow> if net \<or> \<not> d_net_only (CSET ! i) then Some i else None
      | None \<Rightarrow>
          (case fl_find nm of
             Some i \<Rightarrow> if net \<or> i < FL_CHAN_COUNT then Some (CS_COUNT + i) else None
           | None \<Rightarrow> None))"

definition setting_is_flag :: "string \<Rightarrow> bool" where
  "setting_is_flag nm =
     (case item_index nm True of
        Some i \<Rightarrow> i < CS_COUNT \<and> d_lo (CSET ! i) = 0 \<and> d_hi (CSET ! i) = 1 | None \<Rightarrow> False)"

definition item_name :: "nat \<Rightarrow> bool \<Rightarrow> string option" where
  "item_name idx net =
     (if idx < CS_COUNT then
        (if net \<or> \<not> d_net_only (CSET ! idx) then Some (d_name (CSET ! idx)) else None)
      else let k = idx - CS_COUNT in
        if k < FL_COUNT \<and> (net \<or> k < FL_CHAN_COUNT) then Some (FL_NAME ! k) else None)"

definition ITEM_WHAT :: "string list" where
  "ITEM_WHAT =
    [''put back any change away from the stored modes'',
     ''only authorised users and bots may hold ops'',
     ''re-op an authorised member someone deopped; lift bans on one'',
     ''deop whoever deops, kicks or bans an authorised member; again: kick + ban'',
     ''take back ops a netsplit rejoin gave to unauthorised members'',
     ''kick the unauthorised members a new ban matches'',
     ''set a listed ban only while someone it matches is in the channel'',
     ''ops are never acted on for chan, ctcp, join and nick floods'',
     ''a bot alone in a channel with no ops parts and rejoins for ops'',
     ''keep +l at the member count plus limitgap'',
     ''minutes an automatic ban (flood, revenge) lasts; 0 = permanent'',
     ''ban mask shape 0-9: 2 = *!*@host, 4 = *!*@*.host, 7 = nick!*@host'',
     ''dynamicbans: minutes with no match before a listed ban is lifted'',
     ''dynamiclimit: free places above the member count'',
     ''dynamiclimit: seconds between limit changes'',
     ''minutes a flooding host or user stays ignored'',
     ''messages to the channel per host: kick, again: ban'',
     ''CTCPs to the channel per host: kick, again: ban'',
     ''joins per host (join/part cycling): ban + kick'',
     ''nick changes per host: kick, again: ban'',
     ''deops by an unauthorised op: deop them, re-op the victims'',
     ''kicks by an unauthorised op: deop them, again: kick + ban'',
     ''bans by an unauthorised op: deop them, lift bans on authorised'',
     ''commands per user: extras dropped; 3x the rate ignores the user'',
     ''other messages to a bot per host: the host is ignored'',
     ''CTCPs to a bot per host: the host is ignored'',
     ''a bot's IRC output: B lines at once, then one every I ms'']"

definition item_help :: "nat \<Rightarrow> (string \<times> string) option" where
  "item_help idx =
     (if idx < CS_COUNT then
        (let d = CSET ! idx in
         Some (if d_hi d = 1 then (if d_builtin d \<noteq> 0 then ''on'' else ''off'')
               else dec_int (d_builtin d), ITEM_WHAT ! idx))
      else if idx - CS_COUNT < FL_COUNT then
        (case FL_BUILTIN ! (idx - CS_COUNT) of
           (n, s) \<Rightarrow> Some (dec_int n @ '':'' @ dec_int s, ITEM_WHAT ! idx))
      else None)"

definition item_source :: "bot_state \<Rightarrow> chan option \<Rightarrow> nat \<Rightarrow> nat" where
  "item_source st c idx =
     (let chan_ok = (case c of Some c \<Rightarrow> if c_cfg_active c \<and> c_cfg_ts c > 0 then Some c else None | None \<Rightarrow> None);
          net_ok = st_net_ts st > 0
      in if idx < CS_COUNT then
           (if (case chan_ok of Some c \<Rightarrow> \<not> d_net_only (CSET ! idx) \<and> present (c_cfg_set c) idx | None \<Rightarrow> False)
            then 2 else if net_ok \<and> present (st_net_set st) idx then 1 else 0)
         else let k = idx - CS_COUNT in
           if k \<ge> FL_COUNT then 0
           else if (case chan_ok of Some c \<Rightarrow> k < FL_CHAN_COUNT \<and> fs_present (cs_fl (c_cfg_set c) ! k) | None \<Rightarrow> False)
           then 2 else if net_ok \<and> fs_present (cs_fl (st_net_set st) ! k) then 1 else 0)"

section \<open>Editing\<close>

definition OUT_CAP :: nat where "OUT_CAP = D_SETTINGS_MAX + 64"

definition err_full :: string where "err_full = ''settings field is full''"

text \<open>The text to store for a value typed by the user, or why it is refused.\<close>

definition edit_value :: "nat \<Rightarrow> string \<Rightarrow> string \<Rightarrow> string + string" where
  "edit_value idx nm val =
     (if idx < CS_COUNT then
        (case parse_ll val of
           Some v \<Rightarrow> if v \<ge> d_lo (CSET ! idx) \<and> v \<le> d_hi (CSET ! idx) then Inr (dec_int v)
                     else Inl (nm @ '' must be '' @ dec_int (d_lo (CSET ! idx)) @ ''..'' @ dec_int (d_hi (CSET ! idx)))
         | None \<Rightarrow> Inl (nm @ '' must be '' @ dec_int (d_lo (CSET ! idx)) @ ''..'' @ dec_int (d_hi (CSET ! idx))))
      else if idx - CS_COUNT \<noteq> flood_idx Sendq \<and> val = ''off'' then Inr ''off''
      else
        (case fl_pair (idx - CS_COUNT) val of
           Some (n, sec) \<Rightarrow> Inr (dec_int n @ '':'' @ dec_int sec)
         | None \<Rightarrow>
             if fl_off_ok (idx - CS_COUNT)
             then Inl (nm @ '' must be N:S (N 1..1000, S 1..3600), off or default'')
             else Inl (nm @ '' must be B:I (burst 1..100, interval 0..10000 ms) or default'')))"

fun edit_keep :: "string \<Rightarrow> string \<Rightarrow> string list \<Rightarrow> string option" where
  "edit_keep nm out [] = Some out"
| "edit_keep nm out (tok # toks) =
     (if length tok > length nm \<and> take (length nm) tok = nm \<and> tok ! length nm = CHR ''=''
      then edit_keep nm out toks
      else if length out + length tok + 2 \<ge> OUT_CAP then None
      else edit_keep nm (out @ (if out \<noteq> [] then '','' else []) @ tok) toks)"

text \<open>The second half of \<open>settings_edit\<close>: the field without the item, and with its new value if any.\<close>

definition edit_store :: "string \<Rightarrow> nat \<Rightarrow> bool \<Rightarrow> string \<Rightarrow> string option \<Rightarrow> string + string" where
  "edit_store settings cap net nm nv =
     (case edit_keep nm [] (filter (\<lambda>t. t \<noteq> []) (split_char (CHR '','') settings)) of
        None \<Rightarrow> Inl err_full
      | Some out \<Rightarrow>
          let add = (case nv of None \<Rightarrow> [] | Some v \<Rightarrow> (if out = [] then [] else '','') @ nm @ ''='' @ v) in
          if nv \<noteq> None \<and> length out + length add \<ge> OUT_CAP then Inl err_full
          else if length (out @ add) \<ge> cap \<or> length (out @ add) > (if net then D_SETTINGS_MAX else C_SETTINGS_MAX)
          then Inl err_full
          else Inr (out @ add))"

definition settings_edit :: "string \<Rightarrow> nat \<Rightarrow> bool \<Rightarrow> string \<Rightarrow> string \<Rightarrow> string + string" where
  "settings_edit settings cap net nm val =
     (case item_index nm net of
        None \<Rightarrow> Inl (''unknown setting '' @ [CHR 0x27] @ nm @ [CHR 0x27])
      | Some idx \<Rightarrow>
          if val = ''default'' then edit_store settings cap net nm None
          else (case edit_value idx nm val of
                  Inl err \<Rightarrow> Inl err
                | Inr nv \<Rightarrow> edit_store settings cap net nm (Some nv)))"

section \<open>What a field says\<close>

text \<open>The override an item has, over one index space: the settings, then the floods.\<close>

datatype item = Num int | Flood flood_spec

definition ITEMS :: nat where [limits]: "ITEMS = CS_COUNT + FL_COUNT"

definition setting_at :: "chan_settings \<Rightarrow> nat \<Rightarrow> item option" where
  "setting_at cs j =
     (if j < CS_COUNT then (if present cs j then Some (Num (cs_val cs ! j)) else None)
      else if fs_present (cs_fl cs ! (j - CS_COUNT)) then Some (Flood (cs_fl cs ! (j - CS_COUNT))) else None)"

definition settings_dim :: "chan_settings \<Rightarrow> bool" where
  "settings_dim cs \<longleftrightarrow> length (cs_val cs) = CS_COUNT \<and> length (cs_fl cs) = FL_COUNT"

definition off_spec :: flood_spec where
  "off_spec = \<lparr>fs_present = True, fs_off = True, fs_n = 0, fs_s = 0\<rparr>"

definition on_spec :: "int \<Rightarrow> int \<Rightarrow> flood_spec" where
  "on_spec n s = \<lparr>fs_present = True, fs_off = False, fs_n = n, fs_s = s\<rparr>"

text \<open>The value text of an item, read.\<close>

definition item_value :: "nat \<Rightarrow> string \<Rightarrow> item option" where
  "item_value i val =
     (if i < CS_COUNT then
        (case parse_ll val of
           Some v \<Rightarrow> if v \<ge> d_lo (CSET ! i) \<and> v \<le> d_hi (CSET ! i) then Some (Num v) else None
         | None \<Rightarrow> None)
      else if fl_off_ok (i - CS_COUNT) \<and> val = ''off'' then Some (Flood off_spec)
      else (case fl_pair (i - CS_COUNT) val of Some (n, sec) \<Rightarrow> Some (Flood (on_spec n sec)) | None \<Rightarrow> None))"

definition tok_name :: "string \<Rightarrow> string option" where
  "tok_name tok = (case position (\<lambda>c. c = CHR ''='') tok of
     None \<Rightarrow> None | Some e \<Rightarrow> if e = 0 then None else Some (take e tok))"

definition tok_val :: "string \<Rightarrow> string" where
  "tok_val tok = (case position (\<lambda>c. c = CHR ''='') tok of None \<Rightarrow> [] | Some e \<Rightarrow> drop (e + 1) tok)"

text \<open>The item a token overrides, and with what.\<close>

definition tok_item :: "bool \<Rightarrow> string \<Rightarrow> (nat \<times> item) option" where
  "tok_item net tok =
     (case tok_name tok of None \<Rightarrow> None
      | Some nm \<Rightarrow> (case item_index nm net of None \<Rightarrow> None
          | Some i \<Rightarrow> (case item_value i (tok_val tok) of None \<Rightarrow> None | Some v \<Rightarrow> Some (i, v))))"

lemma length_CSET [simp]: "length CSET = CS_COUNT"
  by (simp add: CSET_def CS_COUNT_def)

lemma length_FL_NAME [simp]: "length FL_NAME = FL_COUNT"
  by (simp add: FL_NAME_def FL_COUNT_def)

lemma cset_findD: "cset_find nm = Some i \<Longrightarrow> i < CS_COUNT \<and> d_name (CSET ! i) = nm"
  unfolding cset_find_def using position_SomeD by fastforce

lemma fl_findD: "fl_find nm = Some i \<Longrightarrow> i < FL_COUNT \<and> FL_NAME ! i = nm"
  unfolding fl_find_def using position_SomeD by fastforce

lemma present_bit: "present cs i = bit (cs_present cs) i"
  by (simp add: present_def bit_iff_and_push_bit_not_eq_0)

lemma present_set: "j < CS_COUNT \<Longrightarrow>
    present (cs\<lparr>cs_present := cs_present cs OR 2 ^ i, cs_val := vs\<rparr>) j \<longleftrightarrow> present cs j \<or> i = j"
  by (auto simp: present_bit bit_simps CS_COUNT_def)

lemma default_settings_dim [simp]: "settings_dim default_settings"
  by (simp add: settings_dim_def default_settings_def)

lemma default_setting_at: "j < ITEMS \<Longrightarrow> setting_at default_settings j = None"
  by (simp add: setting_at_def default_settings_def present_def default_flood_spec_def ITEMS_def)

lemma parse_num_dim: "settings_dim cs \<Longrightarrow> settings_dim (parse_num net cs i val)"
  by (auto simp: parse_num_def settings_dim_def split: option.split)

lemma parse_fl_dim: "settings_dim cs \<Longrightarrow> settings_dim (parse_fl net cs i val)"
  by (auto simp: parse_fl_def settings_dim_def split: option.split)

lemma parse_num_at:
  assumes "settings_dim cs" "i < CS_COUNT" "j < ITEMS"
  shows "setting_at (parse_num net cs i val) j =
    (if i = j \<and> (net \<or> \<not> d_net_only (CSET ! i)) \<and> item_value i val \<noteq> None then item_value i val
     else setting_at cs j)"
proof (cases "d_net_only (CSET ! i) \<and> \<not> net \<or> item_value i val = None")
  case True
  then have "parse_num net cs i val = cs"
    using assms by (auto simp: parse_num_def item_value_def split: option.splits if_splits)
  then show ?thesis using True by auto
next
  case False
  then obtain v where v: "parse_ll val = Some v" "v \<ge> d_lo (CSET ! i)" "v \<le> d_hi (CSET ! i)"
    using assms by (auto simp: item_value_def split: option.splits if_splits)
  then have "parse_num net cs i val =
      cs\<lparr>cs_present := cs_present cs OR push_bit i 1, cs_val := (cs_val cs)[i := v]\<rparr>"
    using False by (auto simp: parse_num_def)
  moreover have "item_value i val = Some (Num v)" using assms v by (simp add: item_value_def)
  ultimately show ?thesis using assms False
    by (auto simp: setting_at_def present_set settings_dim_def nth_list_update)
qed

lemma fl_set_at:
  "settings_dim cs \<Longrightarrow> i < FL_COUNT \<Longrightarrow> fs_present sp \<Longrightarrow>
     setting_at (cs\<lparr>cs_fl := (cs_fl cs)[i := sp]\<rparr>) j =
       (if CS_COUNT + i = j then Some (Flood sp) else setting_at cs j)"
  by (auto simp: setting_at_def present_def settings_dim_def nth_list_update)

lemma parse_fl_at:
  assumes "settings_dim cs" "i < FL_COUNT" "j < ITEMS"
  shows "setting_at (parse_fl net cs i val) j =
    (if CS_COUNT + i = j \<and> (net \<or> i < FL_CHAN_COUNT) \<and> item_value (CS_COUNT + i) val \<noteq> None
     then item_value (CS_COUNT + i) val else setting_at cs j)"
proof (cases "i \<ge> FL_CHAN_COUNT \<and> \<not> net \<or> item_value (CS_COUNT + i) val = None")
  case True
  then have "parse_fl net cs i val = cs \<or> parse_fl net cs i val = cs\<lparr>cs_bad_sendq := True\<rparr>"
    by (auto simp: parse_fl_def item_value_def split: option.splits if_splits)
  then show ?thesis using True by (auto simp: setting_at_def present_def)
next
  case False
  show ?thesis
  proof (cases "fl_off_ok i \<and> val = ''off''")
    case True
    then have "parse_fl net cs i val = cs\<lparr>cs_fl := (cs_fl cs)[i := off_spec]\<rparr>"
      "item_value (CS_COUNT + i) val = Some (Flood off_spec)"
      using False by (auto simp: parse_fl_def item_value_def off_spec_def)
    then show ?thesis using fl_set_at assms False by (auto simp: off_spec_def)
  next
    case on: False
    then obtain n sec where "fl_pair i val = Some (n, sec)"
      using False by (auto simp: item_value_def split: option.splits)
    then have "parse_fl net cs i val = cs\<lparr>cs_fl := (cs_fl cs)[i := on_spec n sec]\<rparr>"
      "item_value (CS_COUNT + i) val = Some (Flood (on_spec n sec))"
      using on False by (auto simp: parse_fl_def item_value_def on_spec_def)
    then show ?thesis using fl_set_at assms False by (auto simp: on_spec_def)
  qed
qed

lemma parse_tok_cases:
  "parse_tok net cs tok =
     (case tok_name tok of None \<Rightarrow> cs
      | Some nm \<Rightarrow> (case cset_find nm of
            Some i \<Rightarrow> parse_num net cs i (tok_val tok)
          | None \<Rightarrow> (case fl_find nm of Some i \<Rightarrow> parse_fl net cs i (tok_val tok) | None \<Rightarrow> cs)))"
  unfolding parse_tok_def tok_name_def tok_val_def Let_def by (simp split: option.split)

lemma parse_tok_dim: "settings_dim cs \<Longrightarrow> settings_dim (parse_tok net cs tok)"
  unfolding parse_tok_cases by (auto simp: parse_num_dim parse_fl_dim split: option.split)

lemma parse_toks_dim: "settings_dim cs \<Longrightarrow> settings_dim (foldl (parse_tok net) cs toks)"
  by (induction toks arbitrary: cs) (auto simp: parse_tok_dim)

lemma parse_tok_at:
  assumes "settings_dim cs" "j < ITEMS"
  shows "setting_at (parse_tok net cs tok) j =
    (case tok_item net tok of Some (i, v) \<Rightarrow> if i = j then Some v else setting_at cs j
     | None \<Rightarrow> setting_at cs j)"
proof (cases "tok_name tok")
  case None
  then show ?thesis by (simp add: parse_tok_cases tok_item_def)
next
  case (Some nm)
  show ?thesis
  proof (cases "cset_find nm")
    case c: None
    show ?thesis
    proof (cases "fl_find nm")
      case None
      then show ?thesis using Some c by (simp add: parse_tok_cases tok_item_def item_index_def)
    next
      case f: (Some i)
      then show ?thesis using Some c parse_fl_at [OF assms(1) _ assms(2)] fl_findD [OF f]
        by (auto simp: parse_tok_cases tok_item_def item_index_def split: option.split)
    qed
  next
    case c: (Some i)
    then show ?thesis using Some parse_num_at [OF assms(1) _ assms(2)] cset_findD [OF c]
      by (auto simp: parse_tok_cases tok_item_def item_index_def split: option.split)
  qed
qed

text \<open>After a list of tokens an item has the value of the last token that overrides it.\<close>

fun last_item :: "bool \<Rightarrow> nat \<Rightarrow> item option \<Rightarrow> string list \<Rightarrow> item option" where
  "last_item net j acc [] = acc"
| "last_item net j acc (tok # toks) =
     last_item net j (case tok_item net tok of Some (i, v) \<Rightarrow> if i = j then Some v else acc | None \<Rightarrow> acc) toks"

lemma parse_toks_at:
  "settings_dim cs \<Longrightarrow> j < ITEMS \<Longrightarrow>
     setting_at (foldl (parse_tok net) cs toks) j = last_item net j (setting_at cs j) toks"
  by (induction toks arbitrary: cs) (simp_all add: parse_tok_dim parse_tok_at)

lemma parse_settings_at:
  "j < ITEMS \<Longrightarrow> length s \<le> C_SETTINGS_MAX \<Longrightarrow>
     setting_at (parse_settings s net) j = last_item net j None (split_char (CHR '','') s)"
  by (simp add: parse_settings_def parse_toks_at default_setting_at)

lemma last_item_append: "last_item net j acc (xs @ ys) = last_item net j (last_item net j acc xs) ys"
  by (induction xs arbitrary: acc) simp_all

lemma last_item_filter:
  "(\<And>tok v. tok \<in> set toks \<Longrightarrow> \<not> P tok \<Longrightarrow> tok_item net tok \<noteq> Some (j, v)) \<Longrightarrow>
     last_item net j acc (filter P toks) = last_item net j acc toks"
proof (induction toks arbitrary: acc)
  case (Cons tok toks)
  have "\<not> P tok \<Longrightarrow> (case tok_item net tok of Some (i, v) \<Rightarrow> if i = j then Some v else acc | None \<Rightarrow> acc) = acc"
    using Cons.prems [of tok] by (auto split: option.splits)
  then show ?case using Cons by auto
qed simp

lemma last_item_none:
  "(\<And>tok v. tok \<in> set toks \<Longrightarrow> tok_item net tok \<noteq> Some (j, v)) \<Longrightarrow> last_item net j acc toks = acc"
  using last_item_filter [of toks "\<lambda>_. False" net j acc] by simp

section \<open>Editing one item\<close>

definition names_item :: "string \<Rightarrow> string \<Rightarrow> bool" where
  "names_item nm tok \<longleftrightarrow> length tok > length nm \<and> take (length nm) tok = nm \<and> tok ! length nm = CHR ''=''"

lemma edit_keep_join:
  "edit_keep nm (join_char (CHR '','') ps) toks = Some out \<Longrightarrow>
     \<forall>t \<in> set (ps @ toks). t \<noteq> [] \<Longrightarrow>
     out = join_char (CHR '','') (ps @ filter (\<lambda>t. \<not> names_item nm t) toks)"
proof (induction toks arbitrary: ps)
  case (Cons tok toks)
  show ?case
  proof (cases "names_item nm tok")
    case True
    then show ?thesis using Cons by (simp add: names_item_def)
  next
    case False
    have "join_char (CHR '','') ps = [] \<longleftrightarrow> ps = []" using Cons.prems(2) by (simp add: join_char_Nil_iff)
    then have "edit_keep nm (join_char (CHR '','') (ps @ [tok])) toks = Some out"
      using Cons.prems(1) False by (simp add: names_item_def join_char_snoc split: if_splits)
    then show ?thesis using Cons.IH [of "ps @ [tok]"] Cons.prems(2) False by simp
  qed
qed simp

text \<open>No name holds an equals sign or a comma.\<close>

definition name_clean :: "string \<Rightarrow> bool" where
  "name_clean nm \<longleftrightarrow> nm \<noteq> [] \<and> CHR ''='' \<notin> set nm \<and> CHR '','' \<notin> set nm"

lemma names_clean: "\<forall>d \<in> set CSET. name_clean (d_name d)" "\<forall>n \<in> set FL_NAME. name_clean n"
  by (simp_all add: CSET_def FL_NAME_def csdef_def name_clean_def)

lemma item_index_less: "item_index nm net = Some i \<Longrightarrow> i < ITEMS"
  unfolding item_index_def ITEMS_def by (auto split: option.splits if_splits dest: cset_findD fl_findD)

lemma item_index_clean: "item_index nm net = Some i \<Longrightarrow> name_clean nm"
  unfolding item_index_def using names_clean
  by (auto split: option.splits if_splits dest!: cset_findD fl_findD)

lemma cset_fl_disjoint: "cset_find nm = Some i \<Longrightarrow> fl_find nm = None"
proof -
  assume "cset_find nm = Some i"
  then have "nm \<in> set (map d_name CSET)" using cset_findD by (metis length_CSET length_map nth_map nth_mem)
  moreover have "set (map d_name CSET) \<inter> set FL_NAME = {}"
    by (simp add: CSET_def FL_NAME_def csdef_def)
  ultimately show ?thesis by (auto simp: fl_find_def position_None_iff)
qed

lemma item_index_inj: "item_index nm net = Some i \<Longrightarrow> item_index nm' net = Some i \<Longrightarrow> nm = nm'"
  unfolding item_index_def by (auto split: option.splits if_splits dest!: cset_findD fl_findD)

lemma tok_name_SomeD: "tok_name tok = Some nm \<Longrightarrow> names_item nm tok"
  unfolding tok_name_def names_item_def
  by (auto split: option.splits if_splits dest!: position_SomeD)

lemma names_item_tok:
  assumes "name_clean nm"
  shows "names_item nm tok \<longleftrightarrow> tok = nm @ ''='' @ drop (length nm + 1) tok"
proof
  assume n: "names_item nm tok"
  then have "tok = take (length nm) tok @ tok ! length nm # drop (Suc (length nm)) tok"
    by (intro id_take_nth_drop) (simp add: names_item_def)
  then show "tok = nm @ ''='' @ drop (length nm + 1) tok" using n by (simp add: names_item_def)
next
  assume "tok = nm @ ''='' @ drop (length nm + 1) tok"
  then obtain r where "tok = nm @ CHR ''='' # r" by auto
  then show "names_item nm tok" by (simp add: names_item_def)
qed

lemma position_char_append: "c \<notin> set xs \<Longrightarrow> position (\<lambda>x. x = c) (xs @ c # ys) = Some (length xs)"
  by (induction xs) auto

lemma tok_name_val:
  assumes "name_clean nm"
  shows "tok_name (nm @ ''='' @ v) = Some nm" "tok_val (nm @ ''='' @ v) = v"
  using assms by (auto simp: tok_name_def tok_val_def name_clean_def position_char_append)

lemma tok_item_other:
  assumes "item_index nm net = Some idx" "j \<noteq> idx" "names_item nm tok"
  shows "tok_item net tok \<noteq> Some (j, v)"
proof -
  have c: "name_clean nm" using item_index_clean assms(1) .
  then obtain r where "tok = nm @ ''='' @ r" using assms(3) names_item_tok by blast
  then have "tok_name tok = Some nm" using tok_name_val [OF c] by simp
  then show ?thesis using assms(1,2) by (auto simp: tok_item_def split: option.splits)
qed

lemma tok_item_same:
  assumes "item_index nm net = Some idx" "\<not> names_item nm tok"
  shows "tok_item net tok \<noteq> Some (idx, v)"
  using assms item_index_inj tok_name_SomeD
  by (auto simp: tok_item_def split: option.splits)

lemma parse_ll_dec: "0 \<le> v \<Longrightarrow> v < 10 ^ 18 \<Longrightarrow> parse_ll (dec_int v) = Some v"
proof -
  assume v: "0 \<le> v" "v < 10 ^ 18"
  then have "length (dec (nat v)) \<le> 18" by (intro length_dec) auto
  then show ?thesis using v dec_digits by (simp add: parse_ll_def dec_int_def list_all_iff)
qed

lemma dec_no_sep: "0 \<le> v \<Longrightarrow> CHR '':'' \<notin> set (dec_int v)" "0 \<le> v \<Longrightarrow> CHR '','' \<notin> set (dec_int v)"
proof -
  have "\<not> is_digit (CHR '':'')" "\<not> is_digit (CHR '','')" by (simp_all add: is_digit_def byte_def)
  then show "0 \<le> v \<Longrightarrow> CHR '':'' \<notin> set (dec_int v)" "0 \<le> v \<Longrightarrow> CHR '','' \<notin> set (dec_int v)"
    using dec_digits by (auto simp: dec_int_def)
qed

lemma cset_bounds: "i < CS_COUNT \<Longrightarrow> 0 \<le> d_lo (CSET ! i) \<and> d_hi (CSET ! i) < 10 ^ 18"
proof -
  have "\<forall>d \<in> set CSET. 0 \<le> d_lo d \<and> d_hi d < 10 ^ 18" by (simp add: CSET_def csdef_def)
  then show "i < CS_COUNT \<Longrightarrow> ?thesis" by simp
qed

lemma fl_pair_bounds:
  "fl_pair i val = Some (n, s) \<Longrightarrow> 0 \<le> n \<and> n < 10 ^ 18 \<and> 0 \<le> s \<and> s < 10 ^ 18"
  by (auto simp: fl_pair_def fl_bounds_def limits split: option.splits if_splits)

lemma fl_pair_dec:
  assumes "fl_pair i val = Some (n, s)"
  shows "fl_pair i (dec_int n @ '':'' @ dec_int s) = Some (n, s)"
proof -
  note b = fl_pair_bounds [OF assms]
  have "CHR '':'' \<notin> set (dec_int n)" using dec_no_sep b by blast
  then have "split_once (CHR '':'') (dec_int n @ CHR '':'' # dec_int s) = Some (dec_int n, dec_int s)"
    by (rule split_once_append)
  moreover have "parse_ll (dec_int n) = Some n" "parse_ll (dec_int s) = Some s"
    using b parse_ll_dec by blast+
  moreover have "let (nlo, nhi, slo, shi, off_ok) = fl_bounds i in nlo \<le> n \<and> n \<le> nhi \<and> slo \<le> s \<and> s \<le> shi"
    using assms by (auto simp: fl_pair_def split: option.splits if_splits prod.splits)
  ultimately show ?thesis by (simp add: fl_pair_def split: prod.splits)
qed

text \<open>A value accepted for an item is read back as the value that was typed.\<close>

lemma edit_value_item:
  assumes "edit_value idx nm val = Inr nv" "idx < ITEMS"
  shows "item_value idx nv = item_value idx val \<and> item_value idx nv \<noteq> None \<and> CHR '','' \<notin> set nv"
proof (cases "idx < CS_COUNT")
  case True
  then obtain v where v: "parse_ll val = Some v" "d_lo (CSET ! idx) \<le> v" "v \<le> d_hi (CSET ! idx)" "nv = dec_int v"
    using assms by (auto simp: edit_value_def split: option.splits if_splits)
  then have r: "0 \<le> v" "v < 10 ^ 18" using cset_bounds [OF True] by auto
  have "CHR '','' \<notin> set nv" using dec_no_sep r v(4) by simp
  then show ?thesis using True v parse_ll_dec [OF r] by (simp add: item_value_def)
next
  case False
  show ?thesis
  proof (cases "idx - CS_COUNT \<noteq> flood_idx Sendq \<and> val = ''off''")
    case True
    then show ?thesis using assms False by (auto simp: edit_value_def item_value_def fl_off_ok_def fl_bounds_def)
  next
    case off: False
    then obtain n s where ns: "fl_pair (idx - CS_COUNT) val = Some (n, s)" "nv = dec_int n @ '':'' @ dec_int s"
      using assms False by (auto simp: edit_value_def split: option.splits if_splits)
    have "val \<noteq> ''off''" using ns(1) by (auto simp: fl_pair_def split_once_def)
    moreover have "nv \<noteq> ''off''" using ns(2) fl_pair_dec [OF ns(1)] by (auto simp: fl_pair_def split_once_def)
    moreover have "CHR '','' \<notin> set nv"
      using dec_no_sep fl_pair_bounds [OF ns(1)] ns(2) by simp
    ultimately show ?thesis using ns fl_pair_dec [OF ns(1)] False by (simp add: item_value_def)
  qed
qed

section \<open>Properties\<close>

lemma edit_store_out:
  assumes "edit_store settings cap net nm nv = Inr out"
  shows "out = join_char (CHR '','') (filter (\<lambda>t. \<not> names_item nm t)
           (filter (\<lambda>t. t \<noteq> []) (split_char (CHR '','') settings)) @
           (case nv of None \<Rightarrow> [] | Some v \<Rightarrow> [nm @ ''='' @ v])) \<and>
    length out < cap \<and> length out \<le> C_SETTINGS_MAX"
proof -
  define toks where "toks = filter (\<lambda>t. t \<noteq> []) (split_char (CHR '','') settings)"
  define kept where "kept = filter (\<lambda>t. \<not> names_item nm t) toks"
  obtain o1 where o1: "edit_keep nm [] toks = Some o1"
    using assms by (cases "edit_keep nm [] toks") (simp_all add: edit_store_def toks_def)
  have j: "o1 = join_char (CHR '','') kept"
    using edit_keep_join [of nm "[]" toks o1, unfolded join_char.simps append_Nil, OF o1]
    unfolding kept_def by (simp add: toks_def)
  have k: "join_char (CHR '','') kept = [] \<longleftrightarrow> kept = []"
    by (rule join_char_Nil_iff) (auto simp: kept_def toks_def)
  define add where "add = (case nv of None \<Rightarrow> [] | Some v \<Rightarrow> (if o1 = [] then [] else '','') @ nm @ ''='' @ v)"
  define lim where "lim = (if net then D_SETTINGS_MAX else C_SETTINGS_MAX)"
  have lim: "lim \<le> C_SETTINGS_MAX" by (simp add: lim_def limits)
  have "edit_store settings cap net nm nv =
      (if nv \<noteq> None \<and> length o1 + length add \<ge> OUT_CAP then Inl err_full
       else if length (o1 @ add) \<ge> cap \<or> length (o1 @ add) > lim then Inl err_full else Inr (o1 @ add))"
    unfolding edit_store_def toks_def [symmetric] o1 Let_def add_def lim_def by simp
  then have out: "out = o1 @ add" "length (o1 @ add) < cap" "length (o1 @ add) \<le> lim"
    using assms by (simp_all split: if_splits)
  have "o1 @ add = join_char (CHR '','') (kept @ (case nv of None \<Rightarrow> [] | Some v \<Rightarrow> [nm @ ''='' @ v]))"
  proof (cases nv)
    case (Some v)
    then show ?thesis using k by (simp add: add_def j join_char_snoc)
  qed (simp add: add_def j)
  then show ?thesis using out lim unfolding kept_def toks_def by simp
qed

lemma edit_result:
  assumes "settings_edit settings cap net nm val = Inr out"
  obtains idx nv where "item_index nm net = Some idx"
    and "val \<noteq> ''default'' \<Longrightarrow> edit_value idx nm val = Inr nv"
    and "out = join_char (CHR '','') (filter (\<lambda>t. \<not> names_item nm t)
           (filter (\<lambda>t. t \<noteq> []) (split_char (CHR '','') settings)) @ (if val = ''default'' then [] else [nm @ ''='' @ nv]))"
    and "length out < cap" "length out \<le> C_SETTINGS_MAX"
proof -
  obtain idx where idx: "item_index nm net = Some idx"
    using assms by (cases "item_index nm net") (simp_all add: settings_edit_def)
  show thesis
  proof (cases "val = ''default''")
    case True
    then have "edit_store settings cap net nm None = Inr out"
      using assms idx by (simp add: settings_edit_def)
    from edit_store_out [OF this] show thesis using that idx True by auto
  next
    case False
    then obtain nv where nv: "edit_value idx nm val = Inr nv" "edit_store settings cap net nm (Some nv) = Inr out"
      using assms idx by (auto simp: settings_edit_def split: sum.splits)
    from edit_store_out [OF nv(2)] show thesis using that idx nv(1) False by auto
  qed
qed

text \<open>C23: editing a settings field sets the named item to the value typed (or, for \<open>default\<close>, drops
  it) and leaves every other item of the field as it was, when the result is parsed again.\<close>

theorem settings_edit_sets:
  assumes "settings_edit settings cap net nm val = Inr out" "length settings \<le> C_SETTINGS_MAX" "j < ITEMS"
  shows "setting_at (parse_settings out net) j =
    (if item_index nm net = Some j then (if val = ''default'' then None else item_value j val)
     else setting_at (parse_settings settings net) j)"
proof -
  obtain idx nv where idx: "item_index nm net = Some idx"
    and nv: "val \<noteq> ''default'' \<Longrightarrow> edit_value idx nm val = Inr nv"
    and out: "out = join_char (CHR '','') (filter (\<lambda>t. \<not> names_item nm t)
           (filter (\<lambda>t. t \<noteq> []) (split_char (CHR '','') settings)) @ (if val = ''default'' then [] else [nm @ ''='' @ nv]))"
    and len: "length out \<le> C_SETTINGS_MAX"
    using edit_result [OF assms(1)] by metis
  define sp where "sp = split_char (CHR '','') settings"
  define kept where "kept = filter (\<lambda>t. \<not> names_item nm t) (filter (\<lambda>t. t \<noteq> []) sp)"
  define new where "new = (if val = ''default'' then [] else [nm @ ''='' @ nv])"
  have less: "idx < ITEMS" using idx item_index_less by blast
  have clean: "name_clean nm" using idx item_index_clean by blast
  have out': "out = join_char (CHR '','') (kept @ new)" by (simp only: out kept_def new_def sp_def)
  have pieces: "CHR '','' \<notin> set t" if "t \<in> set (kept @ new)" for t
    using that split_char_pieces nv edit_value_item [OF _ less] clean
    by (fastforce simp: kept_def new_def sp_def name_clean_def split: if_splits)
  have empty: "tok_item net [] = None" by (simp add: tok_item_def tok_name_def)
  have "last_item net j None (split_char (CHR '','') out) = last_item net j None (kept @ new)"
  proof (cases "kept @ new = []")
    case True
    then show ?thesis using empty by (simp add: out')
  next
    case False
    then have "split_char (CHR '','') out = kept @ new"
      unfolding out' using pieces split_join_char by blast
    then show ?thesis by simp
  qed
  then have res: "setting_at (parse_settings out net) j = last_item net j (last_item net j None kept) new"
    by (simp add: parse_settings_at [OF assms(3) len] last_item_append)
  show ?thesis
  proof (cases "j = idx")
    case True
    have "last_item net j None kept = None"
      using tok_item_same [OF idx] True by (intro last_item_none) (auto simp: kept_def)
    moreover have "val \<noteq> ''default'' \<Longrightarrow> tok_item net (nm @ ''='' @ nv) = Some (idx, the (item_value idx val))
        \<and> item_value idx val \<noteq> None"
      using edit_value_item [OF nv less] tok_name_val [OF clean, of nv] idx
      by (cases "item_value idx val") (auto simp: tok_item_def)
    ultimately show ?thesis using res idx True by (auto simp: new_def)
  next
    case False
    have "last_item net j None kept = last_item net j None sp"
      unfolding kept_def filter_filter
      using tok_item_other [OF idx False] empty by (intro last_item_filter) auto
    moreover have "last_item net j acc new = acc" for acc
    proof (intro last_item_none)
      fix tok v assume "tok \<in> set new"
      then have "tok = nm @ ''='' @ nv" by (auto simp: new_def split: if_splits)
      then have "names_item nm tok" using names_item_tok [OF clean, of tok] by simp
      then show "tok_item net tok \<noteq> Some (j, v)" by (rule tok_item_other [OF idx False])
    qed
    ultimately show ?thesis using res idx False parse_settings_at [OF assms(3,2)]
      by (simp add: sp_def)
  qed
qed

lemma settings_edit_sets_witness:
  "settings_edit ''bitch=1,flood join=3:20'' 513 False ''bantime'' ''030'' = Inr ''bitch=1,flood join=3:20,bantime=30'' \<and>
   setting_at (parse_settings ''bitch=1,flood join=3:20,bantime=30'' False) 10 = Some (Num 30) \<and>
   setting_at (parse_settings ''bitch=1,flood join=3:20,bantime=30'' False) 1 = Some (Num 1)"
proof -
  have e: "settings_edit ''bitch=1,flood join=3:20'' 513 False ''bantime'' ''030'' = Inr ''bitch=1,flood join=3:20,bantime=30''"
    by code_simp
  have i: "item_index ''bantime'' False = Some 10" "item_value 10 ''030'' = Some (Num 30)" by code_simp+
  have o: "setting_at (parse_settings ''bitch=1,flood join=3:20'' False) 1 = Some (Num 1)" by code_simp
  show ?thesis
    using settings_edit_sets [OF e, of 10] settings_edit_sets [OF e, of 1] i o e
    by (simp add: limits CS_COUNT_def FL_COUNT_def)
qed

text \<open>The values a parsed field may hold.\<close>

fun item_ok :: "nat \<Rightarrow> item \<Rightarrow> bool" where
  "item_ok j (Num v) \<longleftrightarrow> j < CS_COUNT \<and> d_lo (CSET ! j) \<le> v \<and> v \<le> d_hi (CSET ! j)"
| "item_ok j (Flood sp) \<longleftrightarrow> CS_COUNT \<le> j \<and>
     (if fs_off sp then fl_off_ok (j - CS_COUNT)
      else let (nlo, nhi, slo, shi, off_ok) = fl_bounds (j - CS_COUNT)
           in nlo \<le> fs_n sp \<and> fs_n sp \<le> nhi \<and> slo \<le> fs_s sp \<and> fs_s sp \<le> shi)"

definition settings_vetted :: "chan_settings \<Rightarrow> bool" where
  "settings_vetted cs \<longleftrightarrow> (\<forall>j < ITEMS. \<forall>v. setting_at cs j = Some v \<longrightarrow> item_ok j v)"

lemma fl_pair_ok:
  "fl_pair k val = Some (n, sec) \<Longrightarrow> CS_COUNT \<le> j \<Longrightarrow> k = j - CS_COUNT \<Longrightarrow> item_ok j (Flood (on_spec n sec))"
  by (auto simp: fl_pair_def on_spec_def split: option.splits if_splits prod.splits)

lemma item_value_vetted: "item_value j val = Some v \<Longrightarrow> item_ok j v"
proof (cases "j < CS_COUNT")
  case False
  have "fl_off_ok (j - CS_COUNT) \<Longrightarrow> item_ok j (Flood off_spec)" using False by (simp add: off_spec_def)
  then show "item_value j val = Some v \<Longrightarrow> item_ok j v"
    using False fl_pair_ok [of "j - CS_COUNT" val _ _ j]
    by (auto simp: item_value_def simp del: item_ok.simps(2) split: option.splits if_splits)
qed (auto simp: item_value_def split: option.splits if_splits)

lemma last_item_from: "last_item net j acc toks = Some v \<Longrightarrow> acc = Some v \<or> (\<exists>t. item_value j t = Some v)"
proof (induction toks arbitrary: acc)
  case (Cons tok toks)
  define acc' where "acc' = (case tok_item net tok of Some (i, v) \<Rightarrow> if i = j then Some v else acc | None \<Rightarrow> acc)"
  have "acc' = Some v \<Longrightarrow> acc = Some v \<or> (\<exists>t. item_value j t = Some v)"
    by (auto simp: acc'_def tok_item_def split: option.splits if_splits)
  then show ?case using Cons.IH [of acc'] Cons.prems by (auto simp: acc'_def [symmetric])
qed simp

lemma parse_settings_vetted: "settings_vetted (parse_settings s net)"
proof (cases "length s \<le> C_SETTINGS_MAX")
  case True
  have "item_ok j v" if "j < ITEMS" "setting_at (parse_settings s net) j = Some v" for j v
    using that last_item_from item_value_vetted by (fastforce simp: parse_settings_at [OF _ True])
  then show ?thesis by (simp add: settings_vetted_def)
next
  case False
  then show ?thesis by (simp add: settings_vetted_def parse_settings_def default_setting_at)
qed

end
