(* ===== verification/ChanCfg.thy ===== *)
theory ChanCfg
  imports Settings Lww HubOut SendQ
begin

text \<open>
  The replicated configuration records of \<open>src/src/chancfg.rs\<close>: channel settings (C|), network
  defaults (D|) and network bans (B|), each applied under its last-writer-wins rule and written
  back as a line, the bans a bot sets by itself, and the local writes of the operator commands.
\<close>

section \<open>Fields\<close>

abbreviation split_pipes :: "string \<Rightarrow> nat \<Rightarrow> string list" where
  "split_pipes data n \<equiv> splitn_char n (CHR ''|'') data"

definition add_op :: "string \<Rightarrow> bool option" where
  "add_op f = (if f = ''add'' then Some True else if f = ''del'' then Some False else None)"

definition op_text :: "bool \<Rightarrow> string" where
  "op_text active = (if active then ''add'' else ''del'')"

definition bump_gen :: "bot_state \<Rightarrow> bot_state" where
  "bump_gen st = st\<lparr>st_cfg_gen := st_cfg_gen st + 1\<rparr>"

section \<open>C| records\<close>

record c_rec =
  cr_name :: string
  cr_modes :: string
  cr_settings :: string
  cr_add :: bool
  cr_ts :: int

definition parse_c_line :: "string \<Rightarrow> c_rec option" where
  "parse_c_line data =
     (if length data > C_LINE_MAX then None
      else let f = split_pipes data 6 in
        if length f < 5 then None
        else (case (add_op (f ! 3), parse_ll (f ! 4)) of
            (Some add, Some ts) \<Rightarrow>
              if \<not> valid_chan_name (f ! 0) \<or> \<not> valid_modes_field (f ! 1) \<or> length (f ! 2) > C_SETTINGS_MAX \<or>
                 \<not> plain_text (f ! 2) \<or> ts \<le> 0 then None
              else Some \<lparr>cr_name = f ! 0, cr_modes = f ! 1, cr_settings = f ! 2, cr_add = add, cr_ts = ts\<rparr>
          | _ \<Rightarrow> None))"

text \<open>The stored record of a channel replaced.\<close>

definition set_c :: "c_rec \<Rightarrow> chan \<Rightarrow> chan" where
  "set_c r c = c\<lparr>c_cfg_modes := cr_modes r, c_cfg_settings := cr_settings r,
     c_cfg_set := parse_settings (cr_settings r) False, c_cfg_ts := cr_ts r, c_cfg_active := cr_add r\<rparr>"

definition store_c :: "bot_state \<Rightarrow> nat \<Rightarrow> c_rec \<Rightarrow> bool \<times> bot_state" where
  "store_c st ci r =
     (let c = st_chans st ! ci in
      if \<not> lww_accepts (cr_ts r) (cr_add r) (c_cfg_ts c) (c_cfg_active c) then (False, st)
      else (True, bump_gen (upd_chan st ci (set_c r))))"

definition apply_c_line :: "env \<Rightarrow> bot_state \<Rightarrow> string \<Rightarrow> bool \<times> bot_state" where
  "apply_c_line e st data =
     (case parse_c_line data of
        None \<Rightarrow> (False, st)
      | Some r \<Rightarrow>
          (case chan_find st (cr_name r) of
             Some ci \<Rightarrow> store_c st ci r
           | None \<Rightarrow>
               if \<not> cr_add r then (False, st)
               else (case chan_add e st (cr_name r) of
                   (None, st1) \<Rightarrow> (False, st1)
                 | (Some ci, st1) \<Rightarrow>
                     store_c (upd_chan st1 ci (\<lambda>c. c\<lparr>c_is_managed := False, c_timestamp := 0\<rparr>)) ci r)))"

definition c_body :: "c_rec \<Rightarrow> string" where
  "c_body r = cr_name r @ ''|'' @ cr_modes r @ ''|'' @ cr_settings r @ ''|'' @ op_text (cr_add r) @ ''|'' @ dec_int (cr_ts r)"

definition chan_rec :: "chan \<Rightarrow> c_rec" where
  "chan_rec c = \<lparr>cr_name = c_name c, cr_modes = c_cfg_modes c, cr_settings = c_cfg_settings c,
     cr_add = c_cfg_active c, cr_ts = c_cfg_ts c\<rparr>"

definition format_c_line :: "chan \<Rightarrow> string option" where
  "format_c_line c =
     (if c_cfg_ts c \<le> 0 then Some []
      else let l = ''C|'' @ c_body (chan_rec c) @ [CHR 0x0A] in
        if length l < C_LINE_MAX + 2 then Some l else None)"

section \<open>D| records\<close>

definition d_key :: "string \<Rightarrow> string \<Rightarrow> string" where
  "d_key modes settings = modes @ ''|'' @ settings"

definition parse_d_line :: "string \<Rightarrow> (string \<times> string \<times> int) option" where
  "parse_d_line data =
     (if length data > D_LINE_MAX then None
      else let f = split_pipes data 3 in
        if length f < 3 then None
        else (case parse_ll (f ! 2) of
            None \<Rightarrow> None
          | Some ts \<Rightarrow>
              if \<not> valid_modes_field (f ! 0) \<or> length (f ! 1) > D_SETTINGS_MAX \<or> \<not> plain_text (f ! 1) \<or> ts \<le> 0
              then None else Some (f ! 0, f ! 1, ts)))"

text \<open>The record stored, the send limits with it: a bad \<open>sendq\<close> value keeps those in force.\<close>

definition store_d :: "bot_state \<Rightarrow> string \<Rightarrow> string \<Rightarrow> int \<Rightarrow> bot_state" where
  "store_d st modes settings ts =
     (let old_sq = cs_fl (st_net_set st) ! flood_idx Sendq;
          set = parse_settings settings True;
          st1 = st\<lparr>st_net_modes := modes, st_net_settings := settings, st_net_set := set, st_net_ts := ts\<rparr>;
          st2 = (if cs_bad_sendq set
                 then st1\<lparr>st_net_set := set\<lparr>cs_fl := (cs_fl set)[flood_idx Sendq := old_sq]\<rparr>\<rparr>
                 else (case get_flood st1 None Sendq of
                     Some (b, iv) \<Rightarrow> set_limits st1 b iv
                   | None \<Rightarrow> set_limits st1 SENDQ_DEF_BURST SENDQ_DEF_INTERVAL_MS))
      in bump_gen st2)"

definition apply_d_line :: "bot_state \<Rightarrow> string \<Rightarrow> bool \<times> bot_state" where
  "apply_d_line st data =
     (case parse_d_line data of
        None \<Rightarrow> (False, st)
      | Some (modes, settings, ts) \<Rightarrow>
          if ts < st_net_ts st then (False, st)
          else if ts = st_net_ts st \<and>
             map byte (d_key modes settings) \<le> map byte (d_key (st_net_modes st) (st_net_settings st)) then (False, st)
          else (True, store_d st modes settings ts))"

definition d_body :: "string \<Rightarrow> string \<Rightarrow> int \<Rightarrow> string" where
  "d_body modes settings ts = modes @ ''|'' @ settings @ ''|'' @ dec_int ts"

definition format_d_line :: "bot_state \<Rightarrow> string option" where
  "format_d_line st =
     (if st_net_ts st \<le> 0 then Some []
      else let l = ''D|'' @ d_body (st_net_modes st) (st_net_settings st) (st_net_ts st) @ [CHR 0x0A] in
        if length l < D_LINE_MAX + 2 then Some l else None)"

section \<open>The ban table\<close>

definition same_ban :: "string \<Rightarrow> string \<Rightarrow> cfg_ban \<Rightarrow> bool" where
  "same_ban ch bm b \<longleftrightarrow> eq_ic (b_chan b) ch \<and> eq_ic (b_mask b) bm"

definition ban_find :: "bot_state \<Rightarrow> string \<Rightarrow> string \<Rightarrow> cfg_ban option" where
  "ban_find st ch bm = List.find (same_ban ch bm) (st_cfg_bans st)"

definition ban_limit :: "string \<Rightarrow> nat" where
  "ban_limit ch = (if ch = ''*'' then MAX_GLOBAL_BANS else MAX_BANS_PER_CHAN)"

definition active_on :: "string \<Rightarrow> cfg_ban list \<Rightarrow> nat" where
  "active_on ch bs = length (filter (\<lambda>b. b_active b \<and> eq_ic (b_chan b) ch) bs)"

definition ban_active_room :: "cfg_ban list \<Rightarrow> string \<Rightarrow> bool" where
  "ban_active_room bs ch \<longleftrightarrow> active_on ch bs < ban_limit ch"

text \<open>The oldest tombstone, the first of those with the same stamp.\<close>

fun oldest_dead :: "nat \<Rightarrow> (nat \<times> int) option \<Rightarrow> cfg_ban list \<Rightarrow> nat option" where
  "oldest_dead i best [] = map_option fst best"
| "oldest_dead i best (b # bs) =
     oldest_dead (Suc i)
       (if \<not> b_active b \<and> (case best of None \<Rightarrow> True | Some (_, ts) \<Rightarrow> b_ts b < ts) then Some (i, b_ts b) else best) bs"

definition ban_slot :: "cfg_ban list \<Rightarrow> nat option \<times> cfg_ban list" where
  "ban_slot bs =
     (if length bs < CFG_MAX_BANS then (Some (length bs), bs @ [default_cfg_ban])
      else (oldest_dead 0 None bs, bs))"

definition store_bans :: "cfg_ban list \<Rightarrow> cfg_ban \<Rightarrow> cfg_ban list option" where
  "store_bans bs inb =
     (case position (same_ban (b_chan inb) (b_mask inb)) bs of
        Some i \<Rightarrow>
          let b = bs ! i in
          if \<not> lww_accepts (b_ts inb) (b_active inb) (b_ts b) (b_active b) then None
          else if b_active inb \<and> \<not> b_active b \<and> \<not> ban_active_room bs (b_chan inb) then None
          else Some (bs[i := inb])
      | None \<Rightarrow>
          if b_active inb \<and> \<not> ban_active_room bs (b_chan inb) then None
          else (case ban_slot bs of (None, bs1) \<Rightarrow> None | (Some i, bs1) \<Rightarrow> Some (bs1[i := inb])))"

definition ban_store :: "bot_state \<Rightarrow> cfg_ban \<Rightarrow> bool \<times> bot_state" where
  "ban_store st inb =
     (case store_bans (st_cfg_bans st) inb of
        None \<Rightarrow> (False, st)
      | Some bs \<Rightarrow> (True, bump_gen (st\<lparr>st_cfg_bans := bs\<rparr>)))"

section \<open>B| records\<close>

definition last_position :: "char \<Rightarrow> string \<Rightarrow> nat option" where
  "last_position c s = map_option (\<lambda>i. length s - 1 - i) (position ((=) c) (rev s))"

text \<open>The text before the last two fields, and those two.\<close>

definition b_tail :: "string \<Rightarrow> (string \<times> string \<times> string) option" where
  "b_tail data =
     (case last_position (CHR ''|'') data of
        None \<Rightarrow> None
      | Some l \<Rightarrow>
          if l = 0 then None
          else let prev = (case last_position (CHR ''|'') (take l data) of Some i \<Rightarrow> i | None \<Rightarrow> 0) in
            if data ! prev \<noteq> CHR ''|'' then None
            else Some (take prev data, take (l - (prev + 1)) (drop (prev + 1) data), drop (l + 1) data))"

definition ban_mask_ok :: "string \<Rightarrow> bool" where
  "ban_mask_ok m \<longleftrightarrow> m \<noteq> [] \<and> length m \<le> BAN_MASK_MAX \<and> plain_text m \<and> CHR '' '' \<notin> set m"

definition parse_b_line :: "string \<Rightarrow> cfg_ban option" where
  "parse_b_line data =
     (if length data > B_LINE_MAX then None
      else case b_tail data of
        None \<Rightarrow> None
      | Some (head, opf, tsf) \<Rightarrow>
          let f = split_pipes head 6 in
          if length f < 6 then None
          else (case (add_op opf, parse_ll tsf) of
              (Some add, Some ts) \<Rightarrow>
                if ts \<le> 0 then None
                else if f ! 0 \<noteq> ''*'' \<and> \<not> valid_chan_name (f ! 0) then None
                else if \<not> ban_mask_ok (f ! 1) then None
                else (case parse_ll (f ! 2) of
                    None \<Rightarrow> None
                  | Some expires \<Rightarrow>
                      if length (f ! 3) \<ge> 8 \<or> \<not> plain_text (f ! 3) then None
                      else if length (f ! 4) > BAN_SETTER_MAX \<or> \<not> plain_text (f ! 4) then None
                      else if length (f ! 5) > BAN_REASON_MAX \<or> list_ex is_ctl (f ! 5) then None
                      else Some \<lparr>b_chan = f ! 0, b_mask = f ! 1, b_flags = f ! 3, b_setter = f ! 4, b_reason = f ! 5,
                             b_expires = expires, b_ts = ts, b_active = add, b_push_pending = False\<rparr>)
            | _ \<Rightarrow> None))"

definition apply_b_line :: "bot_state \<Rightarrow> string \<Rightarrow> bool \<times> bot_state" where
  "apply_b_line st data = (case parse_b_line data of None \<Rightarrow> (False, st) | Some b \<Rightarrow> ban_store st b)"

definition b_body :: "cfg_ban \<Rightarrow> string" where
  "b_body b = b_chan b @ ''|'' @ b_mask b @ ''|'' @ dec_int (b_expires b) @ ''|'' @ b_flags b @ ''|'' @ b_setter b @ ''|'' @
     b_reason b @ ''|'' @ op_text (b_active b) @ ''|'' @ dec_int (b_ts b)"

definition format_b_line :: "cfg_ban \<Rightarrow> string option" where
  "format_b_line b =
     (let l = ''B|'' @ b_body b @ [CHR 0x0A] in if length l < B_LINE_MAX + 2 then Some l else None)"

text \<open>The loop of \<open>purge_bans\<close>, the table and the count so far.\<close>

function purge_loop :: "int \<Rightarrow> nat \<Rightarrow> nat \<Rightarrow> cfg_ban list \<Rightarrow> nat \<times> cfg_ban list" where
  "purge_loop cutoff i removed bs =
     (if i < length bs then
        (let b = bs ! i in
         if \<not> b_active b \<and> (cutoff = 0 \<or> b_ts b < cutoff)
         then purge_loop cutoff i (removed + 1) (swap_remove i bs)
         else purge_loop cutoff (i + 1) removed bs)
      else (removed, bs))"
  by pat_completeness auto
termination
  by (relation "measure (\<lambda>(cutoff, i, removed, bs). 2 * length bs - i)") (auto simp: length_swap_remove)

declare purge_loop.simps [simp del]

definition purge_bans :: "bot_state \<Rightarrow> int \<Rightarrow> nat \<times> bot_state" where
  "purge_bans st cutoff =
     (case purge_loop cutoff 0 0 (st_cfg_bans st) of (n, bs) \<Rightarrow> (n, st\<lparr>st_cfg_bans := bs\<rparr>))"

definition bans_for :: "env \<Rightarrow> bot_state \<Rightarrow> string \<Rightarrow> nat \<Rightarrow> cfg_ban list" where
  "bans_for e st ch n =
     take n (filter (\<lambda>b. b_chan b = ''*'' \<or> eq_ic (b_chan b) ch)
       (filter (\<lambda>b. b_active b \<and> \<not> (b_expires b > 0 \<and> b_expires b \<le> e_now e)) (st_cfg_bans st)))"

section \<open>Bans the bot sets\<close>

fun clean_reason_loop :: "string \<Rightarrow> string list \<Rightarrow> string" where
  "clean_reason_loop out [] = out"
| "clean_reason_loop out (ch # chs) =
     (if length out + length ch > BAN_REASON_MAX then out else clean_reason_loop (out @ event_char ch) chs)"

definition clean_reason_field :: "string \<Rightarrow> string" where
  "clean_reason_field r = clean_reason_loop [] (utf8_chars r)"

text \<open>The record to store for a ban that is lifted, and for one that is set.\<close>

definition bot_unban_rec :: "env \<Rightarrow> bot_state \<Rightarrow> cfg_ban option \<Rightarrow> cfg_ban option" where
  "bot_unban_rec e st old =
     (case old of
        Some w \<Rightarrow> if b_active w \<and> b_setter w = st_bot_uuid st
                  then Some (w\<lparr>b_active := False, b_ts := lww_next_ts (e_now e) (b_ts w)\<rparr>) else None
      | None \<Rightarrow> None)"

definition ban_chan_of :: "bot_state \<Rightarrow> string \<Rightarrow> chan option" where
  "ban_chan_of st ch =
     (if ch \<noteq> [] \<and> (hd ch = CHR ''#'' \<or> hd ch = CHR ''&'')
      then map_option (\<lambda>ci. st_chans st ! ci) (chan_find st ch) else None)"

definition bot_ban_rec ::
  "env \<Rightarrow> bot_state \<Rightarrow> string \<Rightarrow> string \<Rightarrow> int \<Rightarrow> string option \<Rightarrow> string option \<Rightarrow> cfg_ban option \<Rightarrow> cfg_ban option" where
  "bot_ban_rec e st ch bm expires flags reason old =
     (let t = e_now e in
      if expires \<le> t then None
      else if (case old of Some w \<Rightarrow> b_active w \<and> b_setter w \<noteq> st_bot_uuid st | None \<Rightarrow> False) then None
      else
        let bt = get st (ban_chan_of st ch) BanTime in
        Some \<lparr>b_chan = ch, b_mask = bm,
          b_flags = (case flags of Some f \<Rightarrow> trunc f 8 | None \<Rightarrow> []),
          b_setter = trunc (st_bot_uuid st) (BAN_SETTER_MAX + 1),
          b_reason = (case reason of Some r \<Rightarrow> clean_reason_field r | None \<Rightarrow> []),
          b_expires = (if bt > 0 \<and> expires > t + bt * 60 then t + bt * 60 else expires),
          b_ts = (case old of Some w \<Rightarrow> lww_next_ts t (b_ts w) | None \<Rightarrow> t),
          b_active = True, b_push_pending = False\<rparr>)"

definition ban_target_ok :: "string \<Rightarrow> string \<Rightarrow> bool" where
  "ban_target_ok ch bm \<longleftrightarrow> ban_mask_ok bm \<and> (ch = ''*'' \<or> valid_chan_name ch)"

definition clear_pending :: "cfg_ban \<Rightarrow> bot_state \<Rightarrow> bot_state" where
  "clear_pending b st =
     (case position (same_ban (b_chan b) (b_mask b)) (st_cfg_bans st) of
        None \<Rightarrow> st
      | Some i \<Rightarrow> st\<lparr>st_cfg_bans := (st_cfg_bans st)[i := (st_cfg_bans st ! i)\<lparr>b_push_pending := False\<rparr>]\<rparr>)"

definition bot_ban ::
  "env \<Rightarrow> bot_state \<Rightarrow> string \<Rightarrow> string \<Rightarrow> int \<Rightarrow> string option \<Rightarrow> string option \<Rightarrow> bool \<Rightarrow> bool \<times> bot_state" where
  "bot_ban e st ch0 bm expires flags reason del =
     (if st_bot_uuid st = [] then (False, st)
      else if \<not> ban_target_ok ch0 bm then (False, st)
      else
        let ch = trunc ch0 MAX_CHAN; old = ban_find st ch bm in
        (case (if del then bot_unban_rec e st old else bot_ban_rec e st ch bm expires flags reason old) of
           None \<Rightarrow> (False, st)
         | Some b0 \<Rightarrow>
             let b = b0\<lparr>b_push_pending := True\<rparr> in
             (case ban_store st b of
                (False, st1) \<Rightarrow> (False, st1)
              | (True, st1) \<Rightarrow>
                  let (pushed, st2) = (case format_b_line b of Some line \<Rightarrow> push_lines e st1 line | None \<Rightarrow> (False, st1));
                      st3 = (if pushed then clear_pending b st2 else st2)
                  in (True, st3\<lparr>st_config_dirty := True\<rparr>))))"

section \<open>Local writes\<close>

definition local_commit :: "env \<Rightarrow> bot_state \<Rightarrow> string \<Rightarrow> bot_state" where
  "local_commit e st line =
     (let st1 = (if line \<noteq> [] then snd (push_lines e st line) else st)
      in st1\<lparr>st_config_dirty := True,
             st_chans := map (\<lambda>c. c\<lparr>c_enf_dirty := True, c_enf_ops_check := True\<rparr>) (st_chans st1)\<rparr>)"

definition text_or_none :: "string option \<Rightarrow> string" where
  "text_or_none l = (case l of Some s \<Rightarrow> s | None \<Rightarrow> [])"

definition local_c :: "env \<Rightarrow> bot_state \<Rightarrow> nat \<Rightarrow> string \<Rightarrow> string \<Rightarrow> bool \<times> bot_state" where
  "local_c e st ci modes settings =
     (if \<not> ci < length (st_chans st) then (False, st)
      else
        let c = st_chans st ! ci; ts = lww_next_ts (e_now e) (c_cfg_ts c);
            data = c_body \<lparr>cr_name = c_name c, cr_modes = modes, cr_settings = settings, cr_add = True, cr_ts = ts\<rparr>
        in if length data \<ge> C_LINE_MAX + 2 then (False, st)
           else (case apply_c_line e st data of
               (False, st1) \<Rightarrow> (False, st1)
             | (True, st1) \<Rightarrow> (True, local_commit e st1 (text_or_none (format_c_line (st_chans st1 ! ci))))))"

definition local_d :: "env \<Rightarrow> bot_state \<Rightarrow> string \<Rightarrow> string \<Rightarrow> bool \<times> bot_state" where
  "local_d e st modes settings =
     (let ts = lww_next_ts (e_now e) (st_net_ts st); data = d_body modes settings ts in
      if length data \<ge> D_LINE_MAX + 2 then (False, st)
      else (case apply_d_line st data of
          (False, st1) \<Rightarrow> (False, st1)
        | (True, st1) \<Rightarrow> (True, local_commit e st1 (text_or_none (format_d_line st1)))))"

definition ban_get :: "bot_state \<Rightarrow> string \<Rightarrow> string \<Rightarrow> cfg_ban option" where
  "ban_get st ch bm = List.find (\<lambda>b. b_active b \<and> same_ban ch bm b) (st_cfg_bans st)"

definition local_ban ::
  "env \<Rightarrow> bot_state \<Rightarrow> string \<Rightarrow> string \<Rightarrow> int \<Rightarrow> string \<Rightarrow> string \<Rightarrow> string \<Rightarrow> bool \<Rightarrow> bool \<times> bot_state" where
  "local_ban e st ch bm expires flags setter reason del =
     (if \<not> ban_target_ok ch bm \<or> setter = [] \<or> length setter > BAN_SETTER_MAX \<or> \<not> plain_text setter then (False, st)
      else
        let old = ban_find st ch bm in
        (case (if del then
                 (case old of
                    Some w \<Rightarrow> if b_active w
                      then Some (w\<lparr>b_active := False, b_ts := lww_next_ts (e_now e) (b_ts w), b_push_pending := False\<rparr>)
                      else None
                  | None \<Rightarrow> None)
               else Some \<lparr>b_chan = trunc ch MAX_CHAN, b_mask = bm, b_flags = trunc flags 8, b_setter = setter,
                      b_reason = clean_reason_field reason, b_expires = expires,
                      b_ts = (case old of Some w \<Rightarrow> lww_next_ts (e_now e) (b_ts w) | None \<Rightarrow> e_now e),
                      b_active = True, b_push_pending = False\<rparr>) of
           None \<Rightarrow> (False, st)
         | Some b \<Rightarrow>
             (case ban_store st b of
                (False, st1) \<Rightarrow> (False, st1)
              | (True, st1) \<Rightarrow> (True, local_commit e st1 (text_or_none (format_b_line b))))))"

end
