(* ===== verification/ChanCfgProps.thy ===== *)
theory ChanCfgProps
  imports ChanCfg
begin

text \<open>
  What the configuration records promise: every accepted line is written back as a line that
  parses to the same record, the ban table keeps its caps and no duplicates, settings read
  anywhere are inside their bounds, network defaults converge, and the bans a bot sets by
  itself never touch another setter's.
\<close>

section \<open>Round trips\<close>

lemma parse_ll_range: "parse_ll s = Some v \<Longrightarrow> 0 \<le> v \<and> v < 10 ^ 18"
proof -
  assume "parse_ll s = Some v"
  then have s: "length s \<le> 18" "\<forall>c \<in> set s. is_digit c" "v = int (digits_val s)"
    by (auto simp: parse_ll_def list_all_iff split: if_splits)
  have "digits_val s < 10 ^ length s" using digits_val_bound s(2) by blast
  also have "\<dots> \<le> (10::nat) ^ 18" using s(1) by (intro power_increasing) auto
  finally show ?thesis using s(3) by simp
qed

lemma dec_int_length: "0 \<le> v \<Longrightarrow> v < 10 ^ 18 \<Longrightarrow> length (dec_int v) \<le> 18"
  by (simp add: dec_int_def) (intro length_dec, auto)

lemma dec_int_bar: "0 \<le> v \<Longrightarrow> CHR ''|'' \<notin> set (dec_int v)"
proof
  assume "0 \<le> v" "CHR ''|'' \<in> set (dec_int v)"
  then have "is_digit (CHR ''|'')" using dec_digits [of "nat v"] by (simp add: dec_int_def)
  then show False by (simp add: is_digit_def byte_def)
qed

lemma op_text_facts [simp]: "add_op (op_text a) = Some a" "CHR ''|'' \<notin> set (op_text a)" "length (op_text a) = 3"
  by (simp_all add: add_op_def op_text_def)

lemma last_position_append: "c \<notin> set b \<Longrightarrow> last_position c (a @ c # b) = Some (length a)"
  by (simp add: last_position_def)

lemma b_tail_append:
  assumes "CHR ''|'' \<notin> set opf" "CHR ''|'' \<notin> set tsf"
  shows "b_tail (h @ CHR ''|'' # opf @ CHR ''|'' # tsf) = Some (h, opf, tsf)"
proof -
  have "last_position (CHR ''|'') ((h @ CHR ''|'' # opf) @ CHR ''|'' # tsf) = Some (length (h @ CHR ''|'' # opf))"
    by (rule last_position_append [OF assms(2)])
  moreover have "last_position (CHR ''|'') (h @ CHR ''|'' # opf) = Some (length h)"
    by (rule last_position_append [OF assms(1)])
  ultimately show ?thesis by (simp add: b_tail_def nth_append)
qed

lemmas split6 = splitn_char_append [of "CHR ''|''" _ 0] splitn_char_append [of "CHR ''|''" _ "Suc 0"]
  splitn_char_append [of "CHR ''|''" _ "Suc (Suc 0)"] splitn_char_append [of "CHR ''|''" _ "Suc (Suc (Suc 0))"]
  splitn_char_append [of "CHR ''|''" _ "Suc (Suc (Suc (Suc 0)))"]

lemma splitn_one: "splitn_char (Suc 0) d s = [s]"
  by simp

lemma split_six:
  assumes "CHR ''|'' \<notin> set a" "CHR ''|'' \<notin> set b" "CHR ''|'' \<notin> set c" "CHR ''|'' \<notin> set d" "CHR ''|'' \<notin> set f"
  shows "split_pipes (a @ CHR ''|'' # b @ CHR ''|'' # c @ CHR ''|'' # d @ CHR ''|'' # f @ CHR ''|'' # g) 6 = [a, b, c, d, f, g]"
proof -
  have "(6::nat) = Suc (Suc (Suc (Suc (Suc (Suc 0)))))" by simp
  then show ?thesis by (simp only: split6 splitn_one assms simp_thms)
qed

lemma splitn_char_noneI: "d \<notin> set s \<Longrightarrow> splitn_char (Suc n) d s = [s]"
proof (cases n)
  case (Suc m)
  then show "d \<notin> set s \<Longrightarrow> ?thesis" using position_None_iff [of "(=) d" s] by auto
qed simp

lemma split_five_of_six:
  assumes "CHR ''|'' \<notin> set a" "CHR ''|'' \<notin> set b" "CHR ''|'' \<notin> set c" "CHR ''|'' \<notin> set d" "CHR ''|'' \<notin> set f"
  shows "split_pipes (a @ CHR ''|'' # b @ CHR ''|'' # c @ CHR ''|'' # d @ CHR ''|'' # f) 6 = [a, b, c, d, f]"
proof -
  have "(6::nat) = Suc (Suc (Suc (Suc (Suc (Suc 0)))))" by simp
  then show ?thesis using splitn_char_noneI [OF assms(5), of "Suc 0"] by (simp only: split6 assms simp_thms)
qed

lemma split_three:
  assumes "CHR ''|'' \<notin> set a" "CHR ''|'' \<notin> set b"
  shows "split_pipes (a @ CHR ''|'' # b @ CHR ''|'' # c) 3 = [a, b, c]"
proof -
  have "(3::nat) = Suc (Suc (Suc 0))" by simp
  then show ?thesis by (simp only: split6 splitn_one assms simp_thms)
qed

lemma plain_no_bar: "plain_text s \<Longrightarrow> CHR ''|'' \<notin> set s"
  by (auto simp: plain_text_def list_all_iff)

lemma chan_name_no_bar: "valid_chan_name s \<Longrightarrow> CHR ''|'' \<notin> set s \<and> length s < MAX_CHAN"
  by (auto simp: valid_chan_name_def list_all_iff)

lemma modes_no_bar: "valid_modes_field s \<Longrightarrow> CHR ''|'' \<notin> set s \<and> length s \<le> C_MODES_MAX"
  by (auto simp: valid_modes_field_def list_all_iff)

text \<open>What a parsed ban satisfies, and that such a ban is written back whole.\<close>

definition ban_wf :: "cfg_ban \<Rightarrow> bool" where
  "ban_wf b \<longleftrightarrow> (b_chan b = ''*'' \<or> valid_chan_name (b_chan b)) \<and> ban_mask_ok (b_mask b) \<and>
     0 \<le> b_expires b \<and> b_expires b < 10 ^ 18 \<and> length (b_flags b) < 8 \<and> plain_text (b_flags b) \<and>
     length (b_setter b) \<le> BAN_SETTER_MAX \<and> plain_text (b_setter b) \<and>
     length (b_reason b) \<le> BAN_REASON_MAX \<and> \<not> list_ex is_ctl (b_reason b) \<and> 0 < b_ts b \<and> b_ts b < 10 ^ 18"

lemma parse_b_wf: "parse_b_line data = Some b \<Longrightarrow> ban_wf b \<and> \<not> b_push_pending b"
  using parse_ll_range
  by (fastforce simp: parse_b_line_def ban_wf_def Let_def split: if_splits option.splits prod.splits)

lemma star_no_bar: "b_chan b = ''*'' \<or> valid_chan_name (b_chan b) \<Longrightarrow>
    CHR ''|'' \<notin> set (b_chan b) \<and> length (b_chan b) < MAX_CHAN"
  using chan_name_no_bar by (auto simp: limits)

lemma b_body_parses:
  assumes "ban_wf b"
  shows "parse_b_line (b_body b) = Some (b\<lparr>b_push_pending := False\<rparr>)" "length (b_body b) < 430"
proof -
  note w = assms [unfolded ban_wf_def]
  let ?h = "b_chan b @ CHR ''|'' # b_mask b @ CHR ''|'' # dec_int (b_expires b) @ CHR ''|'' # b_flags b @ CHR ''|'' #
      b_setter b @ CHR ''|'' # b_reason b"
  have body: "b_body b = ?h @ CHR ''|'' # op_text (b_active b) @ CHR ''|'' # dec_int (b_ts b)" by (simp add: b_body_def)
  have bars: "CHR ''|'' \<notin> set (b_chan b)" "CHR ''|'' \<notin> set (b_mask b)" "CHR ''|'' \<notin> set (dec_int (b_expires b))"
    "CHR ''|'' \<notin> set (b_flags b)" "CHR ''|'' \<notin> set (b_setter b)" "CHR ''|'' \<notin> set (dec_int (b_ts b))"
    using w star_no_bar plain_no_bar dec_int_bar by (auto simp: ban_mask_ok_def)
  have tail: "b_tail (b_body b) = Some (?h, op_text (b_active b), dec_int (b_ts b))"
    unfolding body by (rule b_tail_append) (simp_all add: bars)
  have f: "split_pipes ?h 6 = [b_chan b, b_mask b, dec_int (b_expires b), b_flags b, b_setter b, b_reason b]"
    by (rule split_six) (simp_all add: bars)
  have len: "length (b_chan b) < 65" "length (b_mask b) \<le> 120" "length (b_setter b) \<le> 63" "length (b_reason b) \<le> 120"
    using w star_no_bar by (auto simp: ban_mask_ok_def limits)
  have "length (b_body b) = length (b_chan b) + length (b_mask b) + length (dec_int (b_expires b)) + length (b_flags b) +
      length (b_setter b) + length (b_reason b) + length (dec_int (b_ts b)) + 10"
    unfolding body by simp
  also have "\<dots> < 430" using len w dec_int_length [of "b_expires b"] dec_int_length [of "b_ts b"] by linarith
  finally show l: "length (b_body b) < 430" .
  then have "\<not> length (b_body b) > B_LINE_MAX" by (simp add: limits)
  moreover have "parse_ll (dec_int (b_expires b)) = Some (b_expires b)" "parse_ll (dec_int (b_ts b)) = Some (b_ts b)"
    using w parse_ll_dec by auto
  ultimately show "parse_b_line (b_body b) = Some (b\<lparr>b_push_pending := False\<rparr>)"
    using w unfolding parse_b_line_def tail by (auto simp: f)
qed

definition c_wf :: "c_rec \<Rightarrow> bool" where
  "c_wf r \<longleftrightarrow> valid_chan_name (cr_name r) \<and> valid_modes_field (cr_modes r) \<and> length (cr_settings r) \<le> C_SETTINGS_MAX \<and>
     plain_text (cr_settings r) \<and> 0 < cr_ts r \<and> cr_ts r < 10 ^ 18"

lemma parse_c_wf: "parse_c_line data = Some r \<Longrightarrow> c_wf r"
  using parse_ll_range by (fastforce simp: parse_c_line_def c_wf_def Let_def split: if_splits option.splits)

lemma c_body_parses:
  assumes "c_wf r"
  shows "parse_c_line (c_body r) = Some r" "length (c_body r) < 668"
proof -
  note w = assms [unfolded c_wf_def]
  have bars: "CHR ''|'' \<notin> set (cr_name r)" "CHR ''|'' \<notin> set (cr_modes r)" "CHR ''|'' \<notin> set (cr_settings r)"
    "CHR ''|'' \<notin> set (dec_int (cr_ts r))"
    using w chan_name_no_bar modes_no_bar plain_no_bar dec_int_bar by auto
  have body: "c_body r = cr_name r @ CHR ''|'' # cr_modes r @ CHR ''|'' # cr_settings r @ CHR ''|'' #
      op_text (cr_add r) @ CHR ''|'' # dec_int (cr_ts r)" by (simp add: c_body_def)
  have f: "split_pipes (c_body r) 6 = [cr_name r, cr_modes r, cr_settings r, op_text (cr_add r), dec_int (cr_ts r)]"
    unfolding body by (rule split_five_of_six) (simp_all add: bars)
  have "length (cr_name r) < 65" "length (cr_modes r) \<le> 64" "length (cr_settings r) \<le> 512"
    using w chan_name_no_bar modes_no_bar by (auto simp: limits)
  then show l: "length (c_body r) < 668" using w dec_int_length [of "cr_ts r"] unfolding body by simp
  then have "\<not> length (c_body r) > C_LINE_MAX" by (simp add: limits)
  moreover have "parse_ll (dec_int (cr_ts r)) = Some (cr_ts r)" using w parse_ll_dec by auto
  ultimately show "parse_c_line (c_body r) = Some r"
    using w unfolding parse_c_line_def f by auto
qed

lemma parse_d_wf: "parse_d_line data = Some (m, s, ts) \<Longrightarrow> valid_modes_field m \<and> length s \<le> D_SETTINGS_MAX \<and>
    plain_text s \<and> 0 < ts \<and> ts < 10 ^ 18"
  using parse_ll_range by (fastforce simp: parse_d_line_def Let_def split: if_splits option.splits)

lemma d_body_parses:
  assumes "valid_modes_field m" "length s \<le> D_SETTINGS_MAX" "plain_text s" "0 < ts" "ts < 10 ^ 18"
  shows "parse_d_line (d_body m s ts) = Some (m, s, ts)" "Suc (length (d_body m s ts)) < D_LINE_MAX"
proof -
  have bars: "CHR ''|'' \<notin> set m" "CHR ''|'' \<notin> set s" "CHR ''|'' \<notin> set (dec_int ts)"
    using assms modes_no_bar plain_no_bar dec_int_bar by auto
  have body: "d_body m s ts = m @ CHR ''|'' # s @ CHR ''|'' # dec_int ts" by (simp add: d_body_def)
  have f: "split_pipes (d_body m s ts) 3 = [m, s, dec_int ts]" unfolding body by (rule split_three) (simp_all add: bars)
  have "length m \<le> 64" using assms modes_no_bar by (auto simp: limits)
  then show l: "Suc (length (d_body m s ts)) < D_LINE_MAX"
    using assms dec_int_length [of ts] unfolding body by (simp add: limits)
  moreover have "parse_ll (dec_int ts) = Some ts" using assms parse_ll_dec by auto
  ultimately show "parse_d_line (d_body m s ts) = Some (m, s, ts)"
    using assms unfolding parse_d_line_def f by auto
qed

text \<open>C20: every C|, D| or B| line that is accepted is written back, within the line limit, as a line
  that parses to the same record: a record relayed from node to node never changes.\<close>

theorem accepted_records_roundtrip:
  "(parse_b_line data = Some b \<longrightarrow>
      format_b_line b = Some (''B|'' @ b_body b @ [CHR 0x0A]) \<and> parse_b_line (b_body b) = Some b) \<and>
   (parse_c_line data = Some r \<longrightarrow>
      format_c_line (set_c r (default_chan\<lparr>c_name := cr_name r\<rparr>)) = Some (''C|'' @ c_body r @ [CHR 0x0A]) \<and>
      parse_c_line (c_body r) = Some r) \<and>
   (parse_d_line data = Some (m, s, ts) \<longrightarrow>
      format_d_line (store_d st m s ts) = Some (''D|'' @ d_body m s ts @ [CHR 0x0A]) \<and>
      parse_d_line (d_body m s ts) = Some (m, s, ts))"
proof (intro conjI impI)
  assume p: "parse_b_line data = Some b"
  have w: "ban_wf b" "\<not> b_push_pending b" using parse_b_wf [OF p] by auto
  then have "b\<lparr>b_push_pending := False\<rparr> = b" by (cases b) simp
  then show "parse_b_line (b_body b) = Some b" using b_body_parses(1) [OF w(1)] by simp
  show "format_b_line b = Some (''B|'' @ b_body b @ [CHR 0x0A])"
    using b_body_parses(2) [OF w(1)] by (simp add: format_b_line_def limits)
next
  assume p: "parse_c_line data = Some r"
  have w: "c_wf r" using parse_c_wf [OF p] .
  show "parse_c_line (c_body r) = Some r" by (rule c_body_parses(1) [OF w])
  have "chan_rec (set_c r (default_chan\<lparr>c_name := cr_name r\<rparr>)) = r" by (simp add: chan_rec_def set_c_def)
  then show "format_c_line (set_c r (default_chan\<lparr>c_name := cr_name r\<rparr>)) = Some (''C|'' @ c_body r @ [CHR 0x0A])"
    using c_body_parses(2) [OF w] w by (simp add: format_c_line_def limits set_c_def c_wf_def)
next
  assume p: "parse_d_line data = Some (m, s, ts)"
  note w = parse_d_wf [OF p]
  show "parse_d_line (d_body m s ts) = Some (m, s, ts)" using w d_body_parses(1) by blast
  have "st_net_modes (store_d st m s ts) = m" "st_net_settings (store_d st m s ts) = s" "st_net_ts (store_d st m s ts) = ts"
    by (auto simp: store_d_def Let_def bump_gen_def set_limits_def split: option.split)
  then show "format_d_line (store_d st m s ts) = Some (''D|'' @ d_body m s ts @ [CHR 0x0A])"
    using w d_body_parses(2) [of m s ts] by (simp add: format_d_line_def)
qed

definition demo_b_line :: string where
  "demo_b_line = ''#c|*!*@x|0||ann|a|b|add|5''"

lemma demo_b_parse:
  "parse_b_line demo_b_line = Some \<lparr>b_chan = ''#c'', b_mask = ''*!*@x'', b_flags = [], b_setter = ''ann'',
     b_reason = ''a|b'', b_expires = 0, b_ts = 5, b_active = True, b_push_pending = False\<rparr>"
  by code_simp

lemma accepted_records_roundtrip_witness:
  "format_b_line (the (parse_b_line demo_b_line)) = Some (''B|'' @ b_body (the (parse_b_line demo_b_line)) @ [CHR 0x0A]) \<and>
   parse_b_line (b_body (the (parse_b_line demo_b_line))) = parse_b_line demo_b_line"
  using accepted_records_roundtrip [of demo_b_line "the (parse_b_line demo_b_line)"] by (simp only: demo_b_parse option.sel simp_thms)

section \<open>The ban table\<close>

definition ban_key :: "cfg_ban \<Rightarrow> string \<times> string" where
  "ban_key b = (lowers (b_chan b), lowers (b_mask b))"

lemma same_ban_key: "same_ban (b_chan a) (b_mask a) b \<longleftrightarrow> ban_key b = ban_key a"
  by (simp add: same_ban_def ban_key_def eq_ic_def)

definition ban_table_ok :: "cfg_ban list \<Rightarrow> bool" where
  "ban_table_ok bs \<longleftrightarrow> length bs \<le> CFG_MAX_BANS \<and> (\<forall>ch. active_on ch bs \<le> ban_limit ch) \<and> distinct (map ban_key bs)"

lemma active_on_append [simp]: "active_on ch (xs @ ys) = active_on ch xs + active_on ch ys"
  by (simp add: active_on_def)

lemma active_on_single: "active_on ch [b] = (if b_active b \<and> eq_ic (b_chan b) ch then 1 else 0)"
  by (simp add: active_on_def)

lemma active_on_update:
  assumes "i < length bs"
  shows "active_on ch (bs[i := b]) + active_on ch [bs ! i] = active_on ch bs + active_on ch [b]"
proof -
  have "bs = take i bs @ [bs ! i] @ drop (Suc i) bs" using assms by (simp add: id_take_nth_drop)
  then have "active_on ch bs = active_on ch (take i bs) + active_on ch [bs ! i] + active_on ch (drop (Suc i) bs)"
    by (metis active_on_append add.assoc)
  moreover have "active_on ch (bs[i := b]) = active_on ch (take i bs) + active_on ch [b] + active_on ch (drop (Suc i) bs)"
  proof -
    have "bs[i := b] = take i bs @ [b] @ drop (Suc i) bs" using assms by (simp add: upd_conv_take_nth_drop)
    then show ?thesis by (metis active_on_append add.assoc)
  qed
  ultimately show ?thesis by simp
qed

lemma eq_ic_star: "eq_ic ch ''*'' \<longleftrightarrow> ch = ''*''"
proof
  assume a: "eq_ic ch ''*''"
  then obtain c where "ch = [c]" using eq_ic_length by (cases ch) fastforce+
  moreover have "lower c = CHR ''*'' \<Longrightarrow> c = CHR ''*''"
  proof -
    assume l: "lower c = CHR ''*''"
    show "c = CHR ''*''"
    proof (cases "is_upper c")
      case True
      then have "byte (lower c) \<ge> 97" using byte_lower [of c] by (simp add: is_upper_def)
      then show ?thesis using l by (simp add: byte_def)
    qed (use l in \<open>simp add: lower_def\<close>)
  qed
  moreover have "lower (CHR ''*'') = CHR ''*''" by code_simp
  ultimately show "ch = ''*''" using a by (simp add: eq_ic_def lowers_def)
qed simp

lemma active_on_cong: "eq_ic ch ch' \<Longrightarrow> active_on ch bs = active_on ch' bs \<and> ban_limit ch = ban_limit ch'"
proof
  assume e: "eq_ic ch ch'"
  then have "eq_ic a ch \<longleftrightarrow> eq_ic a ch'" for a using eq_ic_trans eq_ic_sym by blast
  then show "active_on ch bs = active_on ch' bs" by (simp add: active_on_def)
  show "ban_limit ch = ban_limit ch'" using e eq_ic_star eq_ic_sym unfolding ban_limit_def by metis
qed

lemma oldest_dead_ok:
  "oldest_dead k best bs = Some i \<Longrightarrow>
   (\<exists>t. best = Some (i, t)) \<or> (k \<le> i \<and> i < k + length bs \<and> \<not> b_active (bs ! (i - k)))"
proof (induction k best bs rule: oldest_dead.induct)
  case (2 k best b bs)
  let ?best = "if \<not> b_active b \<and> (case best of None \<Rightarrow> True | Some (_, ts) \<Rightarrow> b_ts b < ts) then Some (k, b_ts b) else best"
  from 2 consider t where "?best = Some (i, t)" | "Suc k \<le> i" "i < Suc k + length bs" "\<not> b_active (bs ! (i - Suc k))"
    by auto
  then show ?case
  proof cases
    case 2
    then show ?thesis by (auto simp: nth_Cons split: nat.split) (metis Suc_diff_le diff_Suc_Suc nat.inject le_less_trans not_less_eq_eq)
  qed (auto split: if_splits)
qed auto

lemma ban_slot_ok:
  assumes "ban_slot bs = (Some i, bs1)"
  shows "(length bs < CFG_MAX_BANS \<and> i = length bs \<and> bs1 = bs @ [default_cfg_ban]) \<or>
    (i < length bs \<and> bs1 = bs \<and> \<not> b_active (bs ! i))"
  using assms oldest_dead_ok [of 0 None bs i] by (auto simp: ban_slot_def split: if_splits)

lemma distinct_update_key:
  assumes "distinct (map f bs)" "i < length bs" "\<And>j. j < length bs \<Longrightarrow> j \<noteq> i \<Longrightarrow> f (bs ! j) \<noteq> f b"
  shows "distinct (map f (bs[i := b]))"
proof -
  have "f b \<notin> set (map f bs) - {map f bs ! i}"
    using assms(2,3) by (fastforce simp: set_conv_nth)
  then show ?thesis using assms(1) by (simp add: map_update distinct_list_update)
qed

text \<open>The two ways a ban gets in: over the entry of its key, or into a free or dead slot.\<close>

lemma store_bans_cases:
  assumes "store_bans bs b = Some bs'"
  obtains (over) i where "i < length bs" "ban_key (bs ! i) = ban_key b" "\<And>j. j < i \<Longrightarrow> ban_key (bs ! j) \<noteq> ban_key b"
      "bs' = bs[i := b]" "lww_accepts (b_ts b) (b_active b) (b_ts (bs ! i)) (b_active (bs ! i))"
      "b_active b \<longrightarrow> b_active (bs ! i) \<or> ban_active_room bs (b_chan b)"
  | (add) "\<forall>x \<in> set bs. ban_key x \<noteq> ban_key b" "b_active b \<longrightarrow> ban_active_room bs (b_chan b)"
      "length bs < CFG_MAX_BANS" "bs' = bs @ [b]"
  | (reuse) i where "\<forall>x \<in> set bs. ban_key x \<noteq> ban_key b" "b_active b \<longrightarrow> ban_active_room bs (b_chan b)"
      "i < length bs" "\<not> b_active (bs ! i)" "bs' = bs[i := b]"
proof (cases "position (same_ban (b_chan b) (b_mask b)) bs")
  case (Some i)
  then have "i < length bs" "ban_key (bs ! i) = ban_key b" "\<And>j. j < i \<Longrightarrow> ban_key (bs ! j) \<noteq> ban_key b"
    using position_SomeD [OF Some] by (auto simp: same_ban_key)
  then show thesis using that(1) assms Some by (auto simp: store_bans_def Let_def split: if_splits)
next
  case None
  then have n: "\<forall>x \<in> set bs. ban_key x \<noteq> ban_key b" by (auto simp: position_None_iff same_ban_key)
  obtain i bs1 where s: "ban_slot bs = (Some i, bs1)" "bs' = bs1[i := b]"
    and room: "b_active b \<longrightarrow> ban_active_room bs (b_chan b)"
    using assms None by (auto simp: store_bans_def split: if_splits option.splits prod.splits)
  from ban_slot_ok [OF s(1)] show thesis
  proof
    assume "length bs < CFG_MAX_BANS \<and> i = length bs \<and> bs1 = bs @ [default_cfg_ban]"
    then show thesis using that(2) n room s(2) by simp
  next
    assume "i < length bs \<and> bs1 = bs \<and> \<not> b_active (bs ! i)"
    then show thesis using that(3) n room s(2) by blast
  qed
qed

lemma room_for:
  assumes "\<forall>ch. active_on ch bs \<le> ban_limit ch" "b_active b \<longrightarrow> ban_active_room bs (b_chan b)"
  shows "active_on ch bs + active_on ch [b] \<le> ban_limit ch"
proof (cases "b_active b \<and> eq_ic (b_chan b) ch")
  case True
  then show ?thesis
    using assms(2) active_on_cong [of "b_chan b" ch bs] by (simp add: active_on_single ban_active_room_def)
qed (use assms(1) in \<open>auto simp: active_on_single\<close>)

lemma store_bans_ok:
  assumes "ban_table_ok bs" "store_bans bs b = Some bs'"
  shows "ban_table_ok bs'"
  using assms(2)
proof (cases rule: store_bans_cases)
  case (over i)
  have "active_on ch bs' \<le> ban_limit ch" for ch
  proof (cases "b_active b \<and> \<not> b_active (bs ! i)")
    case True
    then have "active_on ch bs + active_on ch [b] \<le> ban_limit ch"
      using assms(1) over(6) by (intro room_for) (auto simp: ban_table_ok_def)
    then show ?thesis using active_on_update [OF over(1), of ch b] over(4) by simp
  next
    case False
    have "eq_ic (b_chan b) ch = eq_ic (b_chan (bs ! i)) ch" using over(2) by (simp add: ban_key_def eq_ic_def)
    then have "active_on ch [b] \<le> active_on ch [bs ! i]" using False by (auto simp: active_on_single)
    then show ?thesis
      using active_on_update [OF over(1), of ch b] over(4) assms(1) unfolding ban_table_ok_def by (metis add_le_imp_le_right add_mono le_trans)
  qed
  moreover have "ban_key (bs ! j) \<noteq> ban_key b" if "j < length bs" "j \<noteq> i" for j
    using assms(1) over(1,2) that by (auto simp: ban_table_ok_def distinct_conv_nth) (metis nth_map)
  then have "distinct (map ban_key bs')" unfolding over(4)
    using assms(1) over(1) by (intro distinct_update_key) (auto simp: ban_table_ok_def)
  ultimately show ?thesis using assms(1) over(4) by (simp add: ban_table_ok_def)
next
  case add
  have "active_on ch bs + active_on ch [b] \<le> ban_limit ch" for ch
    using assms(1) add(2) by (intro room_for) (auto simp: ban_table_ok_def)
  then show ?thesis using assms(1) add by (auto simp: ban_table_ok_def)
next
  case (reuse i)
  have "active_on ch bs' \<le> ban_limit ch" for ch
  proof -
    have "active_on ch bs + active_on ch [b] \<le> ban_limit ch"
      using assms(1) reuse(2) by (intro room_for) (auto simp: ban_table_ok_def)
    then show ?thesis using active_on_update [OF reuse(3), of ch b] reuse(5) by simp
  qed
  moreover have "distinct (map ban_key bs')" unfolding reuse(5)
    using assms(1) reuse(1,3) by (intro distinct_update_key) (auto simp: ban_table_ok_def)
  ultimately show ?thesis using assms(1) reuse(5) by (simp add: ban_table_ok_def)
qed

section \<open>Every configuration operation keeps the configuration in order\<close>

definition settings_sound :: "chan_settings \<Rightarrow> bool" where
  "settings_sound cs \<longleftrightarrow> settings_dim cs \<and> settings_vetted cs"

definition limits_ok :: "sendq \<Rightarrow> bool" where
  "limits_ok q \<longleftrightarrow> SENDQ_MIN_BURST \<le> q_burst q \<and> q_burst q \<le> SENDQ_MAX_BURST \<and>
     SENDQ_MIN_INTERVAL_MS \<le> q_interval_ms q \<and> q_interval_ms q \<le> SENDQ_MAX_INTERVAL_MS"

definition cfg_ok :: "bot_state \<Rightarrow> bool" where
  "cfg_ok st \<longleftrightarrow> ban_table_ok (st_cfg_bans st) \<and> settings_sound (st_net_set st) \<and>
     list_all settings_sound (map c_cfg_set (st_chans st)) \<and> limits_ok (st_sendq st)"

lemma cfg_ok_frame:
  "cfg_ok st \<Longrightarrow> st_cfg_bans st' = st_cfg_bans st \<Longrightarrow> st_net_set st' = st_net_set st \<Longrightarrow>
   map c_cfg_set (st_chans st') = map c_cfg_set (st_chans st) \<Longrightarrow> st_sendq st' = st_sendq st \<Longrightarrow> cfg_ok st'"
  by (simp add: cfg_ok_def)

lemma push_lines_frame [simp]:
  "st_cfg_bans (snd (push_lines e st l)) = st_cfg_bans st" "st_net_set (snd (push_lines e st l)) = st_net_set st"
  "st_chans (snd (push_lines e st l)) = st_chans st" "st_sendq (snd (push_lines e st l)) = st_sendq st"
  "st_bot_uuid (snd (push_lines e st l)) = st_bot_uuid st"
  by (auto simp: push_lines_def send_frame_def hub_disconnect_def split: hub_ans.split)

lemma bump_gen_ok [simp]: "cfg_ok (bump_gen st) = cfg_ok st"
  by (simp add: bump_gen_def cfg_ok_def)

lemma local_commit_ok [simp]: "cfg_ok st \<Longrightarrow> cfg_ok (local_commit e st l)"
  by (erule cfg_ok_frame) (auto simp: local_commit_def Let_def comp_def)

lemma parse_settings_dim: "settings_dim (parse_settings s net)"
  by (simp add: parse_settings_def parse_toks_dim)

lemma parse_settings_sound [simp]: "settings_sound (parse_settings s net)"
  by (simp add: settings_sound_def parse_settings_vetted parse_settings_dim)

lemma default_settings_sound [simp]: "settings_sound default_settings"
  using parse_settings_sound [of "replicate (C_SETTINGS_MAX + 1) (CHR ''x'')" True]
  by (simp add: parse_settings_def)

lemma upd_chan_cfg_ok:
  assumes "cfg_ok st" "ci < length (st_chans st) \<Longrightarrow> settings_sound (c_cfg_set (f (st_chans st ! ci)))"
  shows "cfg_ok (upd_chan st ci f)"
proof (cases "ci < length (st_chans st)")
  case True
  then show ?thesis
    using assms by (auto simp: cfg_ok_def upd_chan_def list_all_iff dest!: set_update_subset_insert [THEN subsetD])
qed (use assms in \<open>simp add: upd_chan_beyond\<close>)

text \<open>An operation that stops when its step is refused.\<close>

lemma refused_or:
  "P (snd x) \<Longrightarrow> (\<And>s. P s \<Longrightarrow> P (g s)) \<Longrightarrow>
   P (snd (case x of (False, s) \<Rightarrow> (False, s) | (True, s) \<Rightarrow> (True, g s)))"
  by (cases x; cases "fst x") auto

lemma store_c_ok: "cfg_ok st \<Longrightarrow> cfg_ok (snd (store_c st ci r))"
  by (auto simp: store_c_def Let_def set_c_def intro!: upd_chan_cfg_ok)

lemma chan_add_ok: "cfg_ok st \<Longrightarrow> cfg_ok (snd (chan_add e st nm))"
  by (auto simp: chan_add_def cfg_ok_def default_chan_def)

lemma apply_c_ok: "cfg_ok st \<Longrightarrow> cfg_ok (snd (apply_c_line e st data))"
proof -
  assume ok: "cfg_ok st"
  have new: "cfg_ok (snd (store_c (upd_chan st1 ci (\<lambda>c. c\<lparr>c_is_managed := False, c_timestamp := 0\<rparr>)) ci r))"
    if "cfg_ok st1" for st1 ci r
    using that by (intro store_c_ok upd_chan_cfg_ok) (auto simp: cfg_ok_def list_all_iff)
  have "cfg_ok st1" if "chan_add e st nm = (x, st1)" for nm x st1 using chan_add_ok [OF ok, of e nm] that by simp
  then show ?thesis
    using ok new store_c_ok [OF ok] by (auto simp: apply_c_line_def split: option.split prod.split)
qed

lemma set_limits_range: "limits_ok (st_sendq (set_limits st b i))"
  by (auto simp: set_limits_def Let_def limits_ok_def clamp_int_def limits)

lemma old_sendq_sound:
  assumes "settings_sound cs" "settings_sound old"
  shows "settings_sound (cs\<lparr>cs_fl := (cs_fl cs)[flood_idx Sendq := cs_fl old ! flood_idx Sendq]\<rparr>)"
proof -
  let ?cs = "cs\<lparr>cs_fl := (cs_fl cs)[flood_idx Sendq := cs_fl old ! flood_idx Sendq]\<rparr>"
  have d: "settings_dim cs" "settings_dim old" using assms by (auto simp: settings_sound_def)
  have "setting_at ?cs j = (if j = CS_COUNT + flood_idx Sendq then setting_at old j else setting_at cs j)" if "j < ITEMS" for j
    using d that by (auto simp: setting_at_def settings_dim_def present_def nth_list_update limits FL_COUNT_def CS_COUNT_def)
  then show ?thesis
    using assms d by (auto simp: settings_sound_def settings_vetted_def settings_dim_def)
qed

lemma set_limits_cfg_ok: "cfg_ok st \<Longrightarrow> cfg_ok (set_limits st b i)"
  using set_limits_range by (simp add: cfg_ok_def) (simp add: set_limits_def Let_def)

lemma store_d_ok: "cfg_ok st \<Longrightarrow> cfg_ok (store_d st m s ts)"
proof -
  assume ok: "cfg_ok st"
  let ?set = "parse_settings s True"
  let ?st1 = "st\<lparr>st_net_modes := m, st_net_settings := s, st_net_set := ?set, st_net_ts := ts\<rparr>"
  have st1: "cfg_ok ?st1" using ok by (simp add: cfg_ok_def)
  have "settings_sound (st_net_set st)" using ok by (simp add: cfg_ok_def)
  from old_sendq_sound [OF parse_settings_sound this, of s True]
  have "cfg_ok (?st1\<lparr>st_net_set := ?set\<lparr>cs_fl := (cs_fl ?set)[flood_idx Sendq := cs_fl (st_net_set st) ! flood_idx Sendq]\<rparr>\<rparr>)"
    using st1 by (simp add: cfg_ok_def)
  then show ?thesis
    using st1 set_limits_cfg_ok [OF st1] unfolding store_d_def Let_def bump_gen_ok by (simp split: option.split)
qed

lemma apply_d_ok: "cfg_ok st \<Longrightarrow> cfg_ok (snd (apply_d_line st data))"
  by (auto simp: apply_d_line_def store_d_ok split: option.split)

lemma set_bans_ok: "cfg_ok st \<Longrightarrow> ban_table_ok bs \<Longrightarrow> cfg_ok (st\<lparr>st_cfg_bans := bs\<rparr>)"
  by (simp add: cfg_ok_def)

lemma cfg_ok_bans: "cfg_ok st \<Longrightarrow> ban_table_ok (st_cfg_bans st)"
  by (simp add: cfg_ok_def)

lemma ban_store_ok: "cfg_ok st \<Longrightarrow> cfg_ok (snd (ban_store st b))"
  using store_bans_ok [OF cfg_ok_bans] by (auto simp: ban_store_def set_bans_ok split: option.split)

lemma apply_b_ok: "cfg_ok st \<Longrightarrow> cfg_ok (snd (apply_b_line st data))"
  by (auto simp: apply_b_line_def ban_store_ok split: option.split)

lemma ban_table_sub:
  assumes "ban_table_ok bs" "mset cs \<subseteq># mset bs"
  shows "ban_table_ok cs"
proof -
  have "active_on ch cs \<le> active_on ch bs" for ch
    using size_mset_mono [OF multiset_filter_mono [OF assms(2), of "\<lambda>b. b_active b \<and> eq_ic (b_chan b) ch"]]
    by (simp add: active_on_def flip: size_mset mset_filter)
  moreover have "length cs \<le> length bs" using size_mset_mono [OF assms(2)] by simp
  moreover have "distinct (map ban_key cs)"
    using assms distinct_map_sub unfolding ban_table_ok_def by blast
  ultimately show ?thesis using assms(1) unfolding ban_table_ok_def by (meson le_trans)
qed

lemma purge_loop_sub: "mset (snd (purge_loop cutoff i n bs)) \<subseteq># mset bs"
proof (induction cutoff i n bs rule: purge_loop.induct)
  case (1 cutoff i n bs)
  then show ?case
    by (subst purge_loop.simps) (auto simp: Let_def intro: subset_mset.order_trans swap_remove_sub)
qed

lemma purge_ok: "cfg_ok st \<Longrightarrow> cfg_ok (snd (purge_bans st cutoff))"
  using ban_table_sub [OF _ purge_loop_sub [of cutoff 0 0 "st_cfg_bans st"]]
  by (auto simp: purge_bans_def cfg_ok_bans set_bans_ok split: prod.split)

lemma ban_keys_same:
  "ban_table_ok bs \<Longrightarrow> map ban_key cs = map ban_key bs \<Longrightarrow> map b_active cs = map b_active bs \<Longrightarrow> ban_table_ok cs"
proof -
  assume a: "ban_table_ok bs" "map ban_key cs = map ban_key bs" "map b_active cs = map b_active bs"
  have "active_on ch cs = active_on ch bs" for ch
  proof -
    have "active_on ch xs = length (filter (\<lambda>(k, a). a \<and> fst k = lowers ch) (zip (map ban_key xs) (map b_active xs)))" for xs
      by (induction xs) (auto simp: active_on_def ban_key_def eq_ic_def)
    then show ?thesis by (simp only: a)
  qed
  moreover have "length cs = length bs" using a(2) map_eq_imp_length_eq by blast
  ultimately show ?thesis using a by (simp add: ban_table_ok_def)
qed

lemma clear_pending_ok:
  assumes "cfg_ok st"
  shows "cfg_ok (clear_pending b st)"
proof (cases "position (same_ban (b_chan b) (b_mask b)) (st_cfg_bans st)")
  case (Some i)
  let ?bs = "st_cfg_bans st" and ?c = "(st_cfg_bans st ! i)\<lparr>b_push_pending := False\<rparr>"
  have i: "i < length ?bs" using position_SomeD [OF Some] by simp
  have "ban_key ?c = ban_key (?bs ! i)" "b_active ?c = b_active (?bs ! i)" by (simp_all add: ban_key_def)
  then have "map ban_key (?bs[i := ?c]) = map ban_key ?bs" "map b_active (?bs[i := ?c]) = map b_active ?bs"
    using i list_update_id [of "map ban_key ?bs" i] list_update_id [of "map b_active ?bs" i] by (simp_all add: map_update)
  then have "ban_table_ok (?bs[i := ?c])" using ban_keys_same cfg_ok_bans [OF assms] by blast
  then show ?thesis using set_bans_ok [OF assms] Some by (simp add: clear_pending_def)
qed (use assms in \<open>simp add: clear_pending_def\<close>)

text \<open>The body of \<open>bot_ban\<close> once its record is known.\<close>

definition push_ban :: "env \<Rightarrow> bot_state \<Rightarrow> cfg_ban \<Rightarrow> bot_state" where
  "push_ban e st1 b =
     (let p = (case format_b_line b of Some line \<Rightarrow> push_lines e st1 line | None \<Rightarrow> (False, st1));
          st3 = (if fst p then clear_pending b (snd p) else snd p)
      in st3\<lparr>st_config_dirty := True\<rparr>)"

lemma bot_ban_eq:
  "bot_ban e st ch0 bm expires flags reason del =
    (if st_bot_uuid st = [] \<or> \<not> ban_target_ok ch0 bm then (False, st)
     else let old = ban_find st (trunc ch0 MAX_CHAN) bm in
       (case (if del then bot_unban_rec e st old else bot_ban_rec e st (trunc ch0 MAX_CHAN) bm expires flags reason old) of
          None \<Rightarrow> (False, st)
        | Some b0 \<Rightarrow> let b = b0\<lparr>b_push_pending := True\<rparr>; s = ban_store st b in
            if fst s then (True, push_ban e (snd s) b) else (False, snd s)))"
  by (auto simp: bot_ban_def push_ban_def Let_def split_beta split: option.split prod.split bool.split)

lemma push_ban_ok: "cfg_ok st \<Longrightarrow> cfg_ok (push_ban e st b)"
proof -
  assume ok: "cfg_ok st"
  have p: "cfg_ok (snd (push_lines e st l))" for l by (rule cfg_ok_frame [OF ok]) simp_all
  have d: "cfg_ok st' \<Longrightarrow> cfg_ok (st'\<lparr>st_config_dirty := True\<rparr>)" for st' by (simp add: cfg_ok_def)
  show ?thesis
    using ok p clear_pending_ok d by (auto simp: push_ban_def Let_def split: option.split)
qed

lemma bot_ban_ok: "cfg_ok st \<Longrightarrow> cfg_ok (snd (bot_ban e st ch bm expires flags reason del))"
  using ban_store_ok push_ban_ok [OF ban_store_ok]
  by (auto simp: bot_ban_eq Let_def split: option.split)

lemma local_c_ok: "cfg_ok st \<Longrightarrow> cfg_ok (snd (local_c e st ci m s))"
  unfolding local_c_def Let_def using apply_c_ok by (auto intro!: refused_or [where P = cfg_ok])

lemma local_d_ok: "cfg_ok st \<Longrightarrow> cfg_ok (snd (local_d e st m s))"
  unfolding local_d_def Let_def using apply_d_ok by (auto intro!: refused_or [where P = cfg_ok])

lemma local_ban_ok: "cfg_ok st \<Longrightarrow> cfg_ok (snd (local_ban e st ch bm expires flags setter reason del))"
  unfolding local_ban_def Let_def using ban_store_ok by (auto intro!: refused_or [where P = cfg_ok] split: option.split)

section \<open>Runs of configuration operations\<close>

datatype cfg_op =
    CLine env string | DLine string | BLine string | Purge int
  | BotBan env string string int "string option" "string option" bool
  | LocalC env nat string string | LocalD env string string
  | LocalBan env string string int string string string bool

fun cfg_call :: "cfg_op \<Rightarrow> bot_state \<Rightarrow> bot_state" where
  "cfg_call (CLine e data) st = snd (apply_c_line e st data)"
| "cfg_call (DLine data) st = snd (apply_d_line st data)"
| "cfg_call (BLine data) st = snd (apply_b_line st data)"
| "cfg_call (Purge cutoff) st = snd (purge_bans st cutoff)"
| "cfg_call (BotBan e ch bm expires flags reason del) st = snd (bot_ban e st ch bm expires flags reason del)"
| "cfg_call (LocalC e ci modes settings) st = snd (local_c e st ci modes settings)"
| "cfg_call (LocalD e modes settings) st = snd (local_d e st modes settings)"
| "cfg_call (LocalBan e ch bm expires flags setter reason del) st =
     snd (local_ban e st ch bm expires flags setter reason del)"

definition cfg_run :: "cfg_op list \<Rightarrow> bot_state \<Rightarrow> bot_state" where
  "cfg_run ops st = fold cfg_call ops st"

lemma cfg_call_ok: "cfg_ok st \<Longrightarrow> cfg_ok (cfg_call x st)"
  by (cases x) (simp_all add: apply_c_ok apply_d_ok apply_b_ok purge_ok bot_ban_ok local_c_ok local_d_ok local_ban_ok)

lemma cfg_run_ok: "cfg_ok st \<Longrightarrow> cfg_ok (cfg_run ops st)"
  unfolding cfg_run_def by (induction ops arbitrary: st) (simp_all add: cfg_call_ok)

lemma bot_new_cfg_ok: "cfg_ok (bot_new t ms)"
proof -
  have "st_cfg_bans (bot_new t ms) = []" "st_net_set (bot_new t ms) = default_settings" "st_chans (bot_new t ms) = []"
    "st_sendq (bot_new t ms) = default_sendq ms" by (simp_all add: bot_new_def)
  then show ?thesis
    by (simp add: cfg_ok_def ban_table_ok_def active_on_def limits_ok_def default_sendq_def limits)
qed

text \<open>C9: whatever records arrive, and whatever bans and settings are written locally, in any order,
  the ban table stays within its size, no channel (and not the network) has more active bans
  than its cap, and no channel and mask are listed twice.\<close>

theorem ban_caps_hold:
  "length (st_cfg_bans (cfg_run ops (bot_new t ms))) \<le> CFG_MAX_BANS \<and>
   length (filter (\<lambda>b. b_active b \<and> eq_ic (b_chan b) ch) (st_cfg_bans (cfg_run ops (bot_new t ms)))) \<le>
     (if ch = ''*'' then MAX_GLOBAL_BANS else MAX_BANS_PER_CHAN) \<and>
   distinct (map (\<lambda>b. (lowers (b_chan b), lowers (b_mask b))) (st_cfg_bans (cfg_run ops (bot_new t ms))))"
proof -
  have "ban_table_ok (st_cfg_bans (cfg_run ops (bot_new t ms)))"
    by (rule cfg_ok_bans [OF cfg_run_ok [OF bot_new_cfg_ok]])
  then show ?thesis by (simp add: ban_table_ok_def active_on_def ban_limit_def ban_key_def [abs_def])
qed

section \<open>Effective values\<close>

lemma cset_builtins: "i < CS_COUNT \<Longrightarrow> d_lo (CSET ! i) \<le> d_builtin (CSET ! i) \<and> d_builtin (CSET ! i) \<le> d_hi (CSET ! i)"
proof -
  have "list_all (\<lambda>d. d_lo d \<le> d_builtin d \<and> d_builtin d \<le> d_hi d) CSET" by code_simp
  then show "i < CS_COUNT \<Longrightarrow> ?thesis" by (simp add: list_all_length)
qed

definition flood_in :: "nat \<Rightarrow> int \<Rightarrow> int \<Rightarrow> bool" where
  "flood_in k n s \<longleftrightarrow> (let (nlo, nhi, slo, shi, off_ok) = fl_bounds k in nlo \<le> n \<and> n \<le> nhi \<and> slo \<le> s \<and> s \<le> shi)"

lemma fl_builtins: "k < FL_COUNT \<Longrightarrow> flood_in k (fst (FL_BUILTIN ! k)) (snd (FL_BUILTIN ! k))"
proof -
  have "list_all (\<lambda>k. flood_in k (fst (FL_BUILTIN ! k)) (snd (FL_BUILTIN ! k))) [0,1,2,3,4,5,6,7,8,9,10]" by code_simp
  then show "k < FL_COUNT \<Longrightarrow> ?thesis" by (simp add: FL_COUNT_def numeral_eq_Suc less_Suc_eq) auto
qed

lemma sound_value:
  assumes "settings_sound cs" "present cs i" "i < CS_COUNT"
  shows "d_lo (CSET ! i) \<le> cs_val cs ! i \<and> cs_val cs ! i \<le> d_hi (CSET ! i)"
proof -
  have "setting_at cs i = Some (Num (cs_val cs ! i))" "i < ITEMS" using assms by (simp_all add: setting_at_def ITEMS_def)
  then have "item_ok i (Num (cs_val cs ! i))" using assms(1) by (auto simp: settings_sound_def settings_vetted_def)
  then show ?thesis by simp
qed

lemma sound_flood:
  assumes "settings_sound cs" "fs_present (cs_fl cs ! k)" "k < FL_COUNT"
  shows "if fs_off (cs_fl cs ! k) then fl_off_ok k else flood_in k (fs_n (cs_fl cs ! k)) (fs_s (cs_fl cs ! k))"
proof -
  have "setting_at cs (CS_COUNT + k) = Some (Flood (cs_fl cs ! k))" "CS_COUNT + k < ITEMS"
    using assms by (simp_all add: setting_at_def ITEMS_def)
  then have "item_ok (CS_COUNT + k) (Flood (cs_fl cs ! k))" using assms(1) by (auto simp: settings_sound_def settings_vetted_def)
  moreover have "CS_COUNT + k - CS_COUNT = k" by simp
  ultimately show ?thesis unfolding flood_in_def item_ok.simps(2) by metis
qed

lemma get_sound:
  assumes "settings_sound (st_net_set st)" "\<And>c. oc = Some c \<Longrightarrow> settings_sound (c_cfg_set c)"
  shows "d_lo (CSET ! cset_idx sid) \<le> get st oc sid \<and> get st oc sid \<le> d_hi (CSET ! cset_idx sid)"
  using assms sound_value [of _ "cset_idx sid"] cset_builtins [of "cset_idx sid"]
  by (auto simp: get_def Let_def split: option.splits)

lemma get_flood_sound:
  assumes "settings_sound (st_net_set st)" "\<And>c. oc = Some c \<Longrightarrow> settings_sound (c_cfg_set c)"
    "get_flood st oc kind = Some (n, s)"
  shows "flood_in (flood_idx kind) n s"
proof -
  let ?k = "flood_idx kind"
  have "flood_in ?k (fs_n sp) (fs_s sp)"
    if "settings_sound cs" "fs_present (cs_fl cs ! ?k)" "sp = cs_fl cs ! ?k" "\<not> fs_off sp" for sp cs
    using sound_flood [OF that(1,2)] that(3,4) by simp
  then show ?thesis
    using assms fl_builtins [of ?k]
    by (auto simp: get_flood_def Let_def split: option.splits if_splits)
qed

text \<open>C16: in every reachable configuration each setting, of a channel or of the network, lies within
  the bounds of its table entry, every flood limit within its bounds, and the send queue's
  live limits within theirs: no replicated record brings an unvetted value into use.\<close>

theorem settings_in_range:
  assumes "st = cfg_run ops (bot_new t ms)" "oc = None \<or> (\<exists>ci. ci < length (st_chans st) \<and> oc = Some (st_chans st ! ci))"
  shows "d_lo (CSET ! cset_idx sid) \<le> get st oc sid \<and> get st oc sid \<le> d_hi (CSET ! cset_idx sid) \<and>
    (case get_flood st oc kind of None \<Rightarrow> kind \<noteq> Sendq | Some (n, s) \<Rightarrow> flood_in (flood_idx kind) n s) \<and>
    limits_ok (st_sendq st)"
proof -
  have ok: "cfg_ok st" unfolding assms(1) by (rule cfg_run_ok [OF bot_new_cfg_ok])
  have net: "settings_sound (st_net_set st)" using ok by (simp add: cfg_ok_def)
  have ch: "settings_sound (c_cfg_set c)" if "oc = Some c" for c
    using that assms(2) ok by (auto simp: cfg_ok_def list_all_iff)
  have "get_flood st oc Sendq \<noteq> None"
  proof -
    have "\<not> fl_off_ok (flood_idx Sendq)" by (simp add: fl_off_ok_def fl_bounds_def)
    then have "\<not> fs_off (cs_fl (st_net_set st) ! flood_idx Sendq)" if "fs_present (cs_fl (st_net_set st) ! flood_idx Sendq)"
      using sound_flood [OF net that flood_idx_less] by metis
    then show ?thesis by (auto simp: get_flood_def Let_def FL_CHAN_COUNT_def split: option.split)
  qed
  then show ?thesis
    using get_sound [OF net ch] get_flood_sound [OF net ch] ok by (auto simp: cfg_ok_def split: option.split)
qed

definition demo_cfg :: bot_state where
  "demo_cfg = cfg_run [DLine ''+nt|bantime=90,sendq=5:250|7''] (bot_new 0 0)"

lemma demo_cfg_lean:
  "st_net_set demo_cfg = st_net_set (cfg_run [DLine ''+nt|bantime=90,sendq=5:250|7''] lean_bot)"
  "st_net_ts demo_cfg = st_net_ts (cfg_run [DLine ''+nt|bantime=90,sendq=5:250|7''] lean_bot)"
  by (simp_all add: demo_cfg_def cfg_run_def apply_d_line_def store_d_def Let_def get_flood_def set_limits_def
      bump_gen_def lean_bot_def bot_new_def split: option.split prod.split)

lemma demo_cfg_values: "get demo_cfg None BanTime = 90 \<and> get_flood demo_cfg None Sendq = Some (5, 250)"
proof -
  let ?st = "cfg_run [DLine ''+nt|bantime=90,sendq=5:250|7''] lean_bot"
  have "get demo_cfg None BanTime = get ?st None BanTime" "get_flood demo_cfg None Sendq = get_flood ?st None Sendq"
    unfolding get_def get_flood_def demo_cfg_lean by simp_all
  moreover have "get ?st None BanTime = 90 \<and> get_flood ?st None Sendq = Some (5, 250)" by code_simp
  ultimately show ?thesis by simp
qed

lemma settings_in_range_witness:
  "get demo_cfg None BanTime = 90 \<and> 0 \<le> get demo_cfg None BanTime \<and> get demo_cfg None BanTime \<le> 525600 \<and>
   limits_ok (st_sendq demo_cfg)"
proof -
  have "d_lo (CSET ! cset_idx BanTime) = 0" "d_hi (CSET ! cset_idx BanTime) = 525600" by code_simp+
  then show ?thesis
    using settings_in_range [OF demo_cfg_def, of None BanTime] demo_cfg_values by simp
qed

section \<open>Bans the bot sets by itself\<close>

lemma bot_ban_rec_facts:
  assumes "bot_ban_rec e st ch bm expires flags reason old = Some b"
  shows "b_chan b = ch" "b_mask b = bm" "b_active b" "b_setter b = trunc (st_bot_uuid st) (BAN_SETTER_MAX + 1)"
    "e_now e < b_expires b" "b_expires b \<le> expires"
    "0 < get st (ban_chan_of st ch) BanTime \<Longrightarrow> b_expires b \<le> e_now e + get st (ban_chan_of st ch) BanTime * 60"
    "\<And>w. old = Some w \<Longrightarrow> b_active w \<Longrightarrow> b_setter w = st_bot_uuid st"
  using assms by (auto simp: bot_ban_rec_def Let_def split: if_splits option.splits)

lemma trunc_target: "ban_target_ok ch bm \<Longrightarrow> trunc ch MAX_CHAN = ch"
  using chan_name_no_bar by (intro trunc_id) (auto simp: ban_target_ok_def limits)

lemma ban_find_key:
  assumes "ban_find st ch bm = Some w"
  shows "same_ban ch bm w" "w \<in> set (st_cfg_bans st)"
  using assms by (auto simp: ban_find_def find_Some_iff)

lemma store_bans_keeps:
  assumes "store_bans bs b = Some bs'" "x \<in> set bs" "ban_key x \<noteq> ban_key b" "b_active x"
  shows "x \<in> set bs'"
  using assms(1)
proof (cases rule: store_bans_cases)
  case (over i)
  obtain j where j: "j < length bs" "bs ! j = x" using assms(2) by (auto simp: in_set_conv_nth)
  then have "j \<noteq> i" using over(2) assms(3) by auto
  then show ?thesis using j over(4) by (auto simp: in_set_conv_nth intro!: exI [of _ j])
next
  case add
  then show ?thesis using assms(2) by simp
next
  case (reuse i)
  obtain j where j: "j < length bs" "bs ! j = x" using assms(2) by (auto simp: in_set_conv_nth)
  then have "j \<noteq> i" using reuse(4) assms(4) by auto
  then show ?thesis using j reuse(5) by (auto simp: in_set_conv_nth intro!: exI [of _ j])
qed

lemma store_bans_mem: "store_bans bs b = Some bs' \<Longrightarrow> b \<in> set bs'"
  by (erule store_bans_cases) (auto simp: set_update_memI)

lemma clear_pending_keeps:
  assumes "x \<in> set (st_cfg_bans st)" "ban_key x \<noteq> ban_key b"
  shows "x \<in> set (st_cfg_bans (clear_pending b st))"
proof (cases "position (same_ban (b_chan b) (b_mask b)) (st_cfg_bans st)")
  case (Some i)
  obtain j where j: "j < length (st_cfg_bans st)" "st_cfg_bans st ! j = x" using assms(1) by (auto simp: in_set_conv_nth)
  have "ban_key (st_cfg_bans st ! i) = ban_key b" using position_SomeD [OF Some] by (simp add: same_ban_key)
  then have "j \<noteq> i" using j(2) assms(2) by auto
  then show ?thesis using j Some by (auto simp: clear_pending_def in_set_conv_nth intro!: exI [of _ j])
qed (use assms in \<open>simp add: clear_pending_def\<close>)

lemma clear_pending_image:
  assumes "x \<in> set (st_cfg_bans st)"
  shows "\<exists>y \<in> set (st_cfg_bans (clear_pending b st)). y\<lparr>b_push_pending := True\<rparr> = x\<lparr>b_push_pending := True\<rparr>"
proof (cases "position (same_ban (b_chan b) (b_mask b)) (st_cfg_bans st)")
  case (Some i)
  have i: "i < length (st_cfg_bans st)" using position_SomeD [OF Some] by simp
  obtain j where j: "j < length (st_cfg_bans st)" "st_cfg_bans st ! j = x" using assms by (auto simp: in_set_conv_nth)
  then have "(st_cfg_bans (clear_pending b st) ! j)\<lparr>b_push_pending := True\<rparr> = x\<lparr>b_push_pending := True\<rparr>"
    using Some i by (simp add: clear_pending_def nth_list_update)
  moreover have "j < length (st_cfg_bans (clear_pending b st))" using j(1) Some by (simp add: clear_pending_def)
  ultimately show ?thesis by (metis nth_mem)
qed (use assms in \<open>auto simp: clear_pending_def\<close>)

lemma push_ban_keeps: "x \<in> set (st_cfg_bans st) \<Longrightarrow> ban_key x \<noteq> ban_key b \<Longrightarrow> x \<in> set (st_cfg_bans (push_ban e st b))"
  using clear_pending_keeps by (auto simp: push_ban_def Let_def split: option.split)

lemma push_ban_image:
  "x \<in> set (st_cfg_bans st) \<Longrightarrow>
   \<exists>y \<in> set (st_cfg_bans (push_ban e st b)). y\<lparr>b_push_pending := True\<rparr> = x\<lparr>b_push_pending := True\<rparr>"
  using clear_pending_image [of x "snd (push_lines e st l)" b for l]
  by (auto simp: push_ban_def Let_def split: option.split)

text \<open>The record a call of \<open>bot_ban\<close> stores, for a target and the entry found there.\<close>

definition own_rec :: "env \<Rightarrow> bot_state \<Rightarrow> string \<Rightarrow> string \<Rightarrow> int \<Rightarrow> string option \<Rightarrow> string option \<Rightarrow> bool \<Rightarrow> cfg_ban option" where
  "own_rec e st ch bm expires flags reason del =
     (if del then bot_unban_rec e st (ban_find st ch bm)
      else bot_ban_rec e st ch bm expires flags reason (ban_find st ch bm))"

lemma own_rec_key:
  assumes "own_rec e st ch bm expires flags reason del = Some b"
  shows "ban_key b = (lowers ch, lowers bm)"
proof (cases del)
  case True
  then obtain w where "ban_find st ch bm = Some w" "b = w\<lparr>b_active := False, b_ts := lww_next_ts (e_now e) (b_ts w)\<rparr>"
    using assms by (auto simp: own_rec_def bot_unban_rec_def split: option.splits if_splits)
  then show ?thesis using ban_find_key(1) by (fastforce simp: ban_key_def same_ban_def eq_ic_def)
qed (use assms bot_ban_rec_facts in \<open>auto simp: own_rec_def ban_key_def\<close>)

lemma own_rec_other:
  assumes "own_rec e st ch bm expires flags reason del = Some b" "ban_table_ok (st_cfg_bans st)"
    "x \<in> set (st_cfg_bans st)" "b_active x" "b_setter x \<noteq> st_bot_uuid st"
  shows "ban_key x \<noteq> (lowers ch, lowers bm)"
proof
  assume k: "ban_key x = (lowers ch, lowers bm)"
  then have "same_ban ch bm x" by (simp add: ban_key_def same_ban_def eq_ic_def)
  then obtain w where w: "ban_find st ch bm = Some w"
    using assms(3) unfolding ban_find_def by (metis find_None_iff not_None_eq)
  have "ban_key w = ban_key x" using ban_find_key(1) [OF w] k by (simp add: ban_key_def same_ban_def eq_ic_def)
  then have "w = x"
    using assms(2,3) ban_find_key(2) [OF w] by (metis ban_table_ok_def distinct_map inj_on_eq_iff)
  then show False
    using assms(1,4,5) w bot_ban_rec_facts(8) by (cases del) (auto simp: own_rec_def bot_unban_rec_def split: if_splits)
qed

lemma bot_ban_run:
  assumes "bot_ban e st ch bm expires flags reason del = (did, st')"
  obtains (refused) "\<not> did" "st' = st"
  | (stored) b bs where "own_rec e st ch bm expires flags reason del = Some b" "did"
      "store_bans (st_cfg_bans st) (b\<lparr>b_push_pending := True\<rparr>) = Some bs"
      "st' = push_ban e (bump_gen (st\<lparr>st_cfg_bans := bs\<rparr>)) (b\<lparr>b_push_pending := True\<rparr>)"
proof (cases "st_bot_uuid st \<noteq> [] \<and> ban_target_ok ch bm")
  case False
  then show thesis using assms refused by (auto simp: bot_ban_eq)
next
  case True
  then have ch: "trunc ch MAX_CHAN = ch" using trunc_target by blast
  have run: "(did, st') = (case own_rec e st ch bm expires flags reason del of
      None \<Rightarrow> (False, st)
    | Some b0 \<Rightarrow> let b = b0\<lparr>b_push_pending := True\<rparr>; s = ban_store st b in
        if fst s then (True, push_ban e (snd s) b) else (False, snd s))"
    using assms True unfolding bot_ban_eq ch Let_def own_rec_def by simp
  show thesis
  proof (cases "own_rec e st ch bm expires flags reason del")
    case (Some b)
    then show thesis
      using run refused stored by (cases "store_bans (st_cfg_bans st) (b\<lparr>b_push_pending := True\<rparr>)") (auto simp: ban_store_def)
  qed (use run refused in simp)
qed

text \<open>C21: a ban the bot sets or lifts by itself leaves every other setter's active ban as it is; one it
  sets is in the table afterwards, active, in the bot's name, and ends: after now and, where
  \<open>bantime\<close> is set, at most that many minutes from now.\<close>

theorem bot_ban_respects_others:
  assumes "bot_ban e st ch bm expires flags reason del = (did, st')" "ban_table_ok (st_cfg_bans st)"
  shows "(\<forall>x \<in> set (st_cfg_bans st). b_active x \<and> b_setter x \<noteq> st_bot_uuid st \<longrightarrow> x \<in> set (st_cfg_bans st')) \<and>
    (did \<and> \<not> del \<longrightarrow> (\<exists>b \<in> set (st_cfg_bans st'). b_chan b = ch \<and> b_mask b = bm \<and> b_active b \<and>
      b_setter b = trunc (st_bot_uuid st) (BAN_SETTER_MAX + 1) \<and> e_now e < b_expires b \<and>
      (0 < get st (ban_chan_of st ch) BanTime \<longrightarrow>
         b_expires b \<le> e_now e + get st (ban_chan_of st ch) BanTime * 60)))"
  using assms(1)
proof (cases rule: bot_ban_run)
  case (stored b bs)
  let ?b = "b\<lparr>b_push_pending := True\<rparr>" and ?st1 = "bump_gen (st\<lparr>st_cfg_bans := bs\<rparr>)"
  have st1: "st_cfg_bans ?st1 = bs" by (simp add: bump_gen_def)
  have key: "ban_key ?b = (lowers ch, lowers bm)" using own_rec_key [OF stored(1)] by (simp add: ban_key_def)
  have others: "x \<in> set (st_cfg_bans st')"
    if "x \<in> set (st_cfg_bans st)" "b_active x" "b_setter x \<noteq> st_bot_uuid st" for x
    using own_rec_other [OF stored(1) assms(2) that] key store_bans_keeps [OF stored(3) that(1)] that(2) push_ban_keeps st1
    unfolding stored(4) by metis
  obtain y where y: "y \<in> set (st_cfg_bans st')" "y\<lparr>b_push_pending := True\<rparr> = ?b"
    using push_ban_image [of ?b ?st1 e ?b] store_bans_mem [OF stored(3)] st1 unfolding stored(4) by auto
  have "b_chan y = b_chan b" "b_mask y = b_mask b" "b_active y = b_active b" "b_setter y = b_setter b"
    "b_expires y = b_expires b" using y(2) by (cases y; cases b; simp)+
  note y_is = this
  show ?thesis
  proof (intro conjI ballI impI)
    assume "did \<and> \<not> del"
    then have "bot_ban_rec e st ch bm expires flags reason (ban_find st ch bm) = Some b"
      using stored(1) by (simp add: own_rec_def)
    note f = bot_ban_rec_facts [OF this]
    show "\<exists>b \<in> set (st_cfg_bans st'). b_chan b = ch \<and> b_mask b = bm \<and> b_active b \<and>
        b_setter b = trunc (st_bot_uuid st) (BAN_SETTER_MAX + 1) \<and> e_now e < b_expires b \<and>
        (0 < get st (ban_chan_of st ch) BanTime \<longrightarrow> b_expires b \<le> e_now e + get st (ban_chan_of st ch) BanTime * 60)"
      by (rule bexI [OF _ y(1)]) (simp add: y_is f)
  qed (use others in blast)
qed simp

definition demo_other_ban :: bot_state where
  "demo_other_ban = cfg_run [BLine ''#c|*!*@x|0||ann|why|add|5''] (lean_bot\<lparr>st_bot_uuid := ''me''\<rparr>)"

lemma demo_other_ok: "ban_table_ok (st_cfg_bans demo_other_ban)"
proof -
  have "cfg_ok (lean_bot\<lparr>st_bot_uuid := ''me''\<rparr>)" by (rule cfg_ok_frame [OF bot_new_cfg_ok [of 0 0]]) (simp_all add: lean_bot_def)
  then show ?thesis unfolding demo_other_ban_def by (rule cfg_ok_bans [OF cfg_run_ok])
qed

lemma bot_ban_respects_others_witness:
  "map b_setter (st_cfg_bans demo_other_ban) = [''ann''] \<and>
   (\<exists>b \<in> set (st_cfg_bans (snd (bot_ban (calm_env 100) demo_other_ban ''#c'' ''*!*@y'' 99999 None None False))).
     b_mask b = ''*!*@y'' \<and> 100 < b_expires b \<and> b_expires b \<le> 100 + 120 * 60)"
proof -
  let ?r = "bot_ban (calm_env 100) demo_other_ban ''#c'' ''*!*@y'' 99999 None None False"
  have s: "map b_setter (st_cfg_bans demo_other_ban) = [''ann'']" by code_simp
  let ?o = "own_rec (calm_env 100) demo_other_ban ''#c'' ''*!*@y'' 99999 None None False"
  have o: "?o \<noteq> None" "store_bans (st_cfg_bans demo_other_ban) ((the ?o)\<lparr>b_push_pending := True\<rparr>) \<noteq> None" by code_simp+
  have t: "ban_target_ok ''#c'' ''*!*@y''" "st_bot_uuid demo_other_ban \<noteq> []" by code_simp+
  have "fst ?r" using o t trunc_target [OF t(1)] by (auto simp: bot_ban_eq own_rec_def Let_def ban_store_def)
  then have r: "?r = (True, snd ?r)" by (simp add: prod_eq_iff)
  have d: "get demo_other_ban (ban_chan_of demo_other_ban ''#c'') BanTime = 120" "e_now (calm_env 100) = 100"
    by code_simp+
  from bot_ban_respects_others [OF r demo_other_ok] s show ?thesis unfolding d by auto
qed

section \<open>Network defaults converge\<close>

definition d_held :: "bot_state \<Rightarrow> int \<times> string" where
  "d_held st = (st_net_ts st, d_key (st_net_modes st) (st_net_settings st))"

definition d_rec_of :: "string \<Rightarrow> (int \<times> string) option" where
  "d_rec_of data = map_option (\<lambda>(m, s, ts). (ts, d_key m s)) (parse_d_line data)"

lemma store_d_frame [simp]:
  "st_net_modes (store_d st m s ts) = m" "st_net_settings (store_d st m s ts) = s" "st_net_ts (store_d st m s ts) = ts"
  by (auto simp: store_d_def Let_def bump_gen_def set_limits_def split: option.split)

lemma if_cases_snd: "snd (if p then (False, x) else if q then (False, x) else (True, y)) = (if p \<or> q then x else y)"
  by simp

lemma newer_or_greater: "(n < ts \<or> ts = n \<and> c < k) \<longleftrightarrow> \<not> (ts < n \<or> ts = n \<and> k \<le> c)"
  for ts n :: int and k c :: "nat list"
  by auto

lemma apply_d_held:
  "d_held (snd (apply_d_line st data)) = (case d_rec_of data of None \<Rightarrow> d_held st | Some r \<Rightarrow> opt.merge (d_held st) r)"
proof (cases "parse_d_line data")
  case None
  then show ?thesis by (simp add: apply_d_line_def d_rec_of_def)
next
  case (Some r)
  obtain m s ts where r: "r = (m, s, ts)" by (cases r) auto
  define old where "old \<longleftrightarrow> ts < st_net_ts st \<or> ts = st_net_ts st \<and>
      map byte (d_key m s) \<le> map byte (d_key (st_net_modes st) (st_net_settings st))"
  have "opt_acc (ts, d_key m s) (d_held st) = (\<not> old)"
    unfolding opt_acc_def opt_accepts_def d_held_def fst_conv snd_conv old_def by (rule newer_or_greater)
  moreover have "snd (apply_d_line st data) = (if old then st else store_d st m s ts)"
    unfolding apply_d_line_def Some r option.case prod.case old_def by (rule if_cases_snd)
  moreover have "d_held (store_d st m s ts) = (ts, d_key m s)" by (simp add: d_held_def)
  ultimately show ?thesis by (simp add: d_rec_of_def Some r opt.merge_def)
qed

lemma apply_d_modes: "valid_modes_field (st_net_modes st) \<Longrightarrow> valid_modes_field (st_net_modes (snd (apply_d_line st data)))"
  using parse_d_wf by (auto simp: apply_d_line_def split: option.split)

lemma d_lines_held:
  "d_held (foldl (\<lambda>st l. snd (apply_d_line st l)) st ls) = foldl opt.merge (d_held st) (List.map_filter d_rec_of ls)"
  by (induction ls arbitrary: st) (auto simp: map_filter_simps apply_d_held split: option.split)

lemma d_lines_modes:
  "valid_modes_field (st_net_modes st) \<Longrightarrow>
   valid_modes_field (st_net_modes (foldl (\<lambda>st l. snd (apply_d_line st l)) st ls))"
  by (induction ls arbitrary: st) (simp_all add: apply_d_modes)

lemma d_key_inj:
  assumes "valid_modes_field m" "valid_modes_field m'" "d_key m s = d_key m' s'"
  shows "m = m' \<and> s = s'"
proof -
  have "CHR ''|'' \<notin> set m" "CHR ''|'' \<notin> set m'" using assms modes_no_bar by auto
  moreover have "d_key m s = m @ CHR ''|'' # s" for m s by (simp add: d_key_def)
  ultimately have "split_once (CHR ''|'') (d_key m s) = Some (m, s)" "split_once (CHR ''|'') (d_key m' s') = Some (m', s')"
    by (metis split_once_append)+
  then show ?thesis using assms(3) by (metis option.inject prod.inject)
qed

text \<open>Nodes that start alike and see the same D| lines, in any order and with any repeats of the
  order, end with the same network defaults and the same stamp.\<close>

theorem network_defaults_converge:
  assumes "mset ls = mset ls'" "valid_modes_field (st_net_modes st)"
  shows "let a = foldl (\<lambda>st l. snd (apply_d_line st l)) st ls; b = foldl (\<lambda>st l. snd (apply_d_line st l)) st ls'
    in st_net_ts a = st_net_ts b \<and> st_net_modes a = st_net_modes b \<and> st_net_settings a = st_net_settings b"
proof -
  have "mset (List.map_filter d_rec_of ls) = mset (List.map_filter d_rec_of ls')"
    using assms(1) unfolding map_filter_def by (simp only: mset_map mset_filter)
  then have "foldl opt.merge (d_held st) (List.map_filter d_rec_of ls) = foldl opt.merge (d_held st) (List.map_filter d_rec_of ls')"
    by (intro opt.converge_eq) simp
  then have "d_held (foldl (\<lambda>st l. snd (apply_d_line st l)) st ls) = d_held (foldl (\<lambda>st l. snd (apply_d_line st l)) st ls')"
    by (simp add: d_lines_held)
  then show ?thesis
    using d_key_inj d_lines_modes [OF assms(2)] unfolding d_held_def Let_def prod.inject by metis
qed


end
