(* ===== verification/Slots.thy ===== *)
theory Slots
  imports Prelude
begin

text \<open>
  The tracker tables of \<open>chanflood.rs\<close> and \<open>botflood.rs\<close>: a fixed array of slots, each held by a
  key (the empty key is a free slot) with the time it was last used.  A key not in the table
  takes the first free slot, or that of the key idle longest.  The loop is the same in all three
  trackers, so it is one function over the key and the time of a slot, and its laws are proved
  once, in the locale \<open>slot_table\<close>.
\<close>

section \<open>The scan\<close>

text \<open>The slot of \<open>key\<close>, the first free slot, the first of the slots idle longest.\<close>

fun slot_scan :: "('e \<Rightarrow> string) \<Rightarrow> ('e \<Rightarrow> int) \<Rightarrow> string \<Rightarrow> 'e list \<Rightarrow> nat \<Rightarrow> 'e list \<Rightarrow>
    nat option \<Rightarrow> nat option \<Rightarrow> nat option \<times> nat option \<times> nat option" where
  "slot_scan kf tf key tab i [] free oldest = (None, free, oldest)"
| "slot_scan kf tf key tab i (e # es) free oldest =
     (if kf e = [] then slot_scan kf tf key tab (i + 1) es (if free = None then Some i else free) oldest
      else if kf e = key then (Some i, free, oldest)
      else slot_scan kf tf key tab (i + 1) es free
             (case oldest of None \<Rightarrow> Some i | Some j \<Rightarrow> if tf e < tf (tab ! j) then Some i else oldest))"

text \<open>The slot to use, and whether the key holds it already; none in an empty table.\<close>

definition slot_index :: "('e \<Rightarrow> string) \<Rightarrow> ('e \<Rightarrow> int) \<Rightarrow> string \<Rightarrow> 'e list \<Rightarrow> (nat \<times> bool) option" where
  "slot_index kf tf key tab =
     (case slot_scan kf tf key tab 0 tab None None of
        (Some i, _, _) \<Rightarrow> Some (i, True)
      | (None, Some i, _) \<Rightarrow> Some (i, False)
      | (None, None, Some i) \<Rightarrow> Some (i, False)
      | (None, None, None) \<Rightarrow> None)"

text \<open>One step on the slot of a key, made if new.\<close>

definition slot_step :: "('e \<Rightarrow> string) \<Rightarrow> ('e \<Rightarrow> int) \<Rightarrow> (string \<Rightarrow> 'e) \<Rightarrow> string \<Rightarrow> ('e \<Rightarrow> 'r \<times> 'e) \<Rightarrow>
    'e list \<Rightarrow> ('r \<times> 'e list) option" where
  "slot_step kf tf fresh key f tab =
     (case slot_index kf tf key tab of
        None \<Rightarrow> None
      | Some (i, found) \<Rightarrow>
          (case f (if found then tab ! i else fresh key) of (r, e) \<Rightarrow> Some (r, tab[i := e])))"

section \<open>What a table holds\<close>

definition slot_get :: "('e \<Rightarrow> string) \<Rightarrow> 'e list \<Rightarrow> string \<Rightarrow> 'e option" where
  "slot_get kf tab key = find (\<lambda>e. kf e = key) tab"

definition slot_keys :: "('e \<Rightarrow> string) \<Rightarrow> 'e list \<Rightarrow> string list" where
  "slot_keys kf tab = filter (\<lambda>k. k \<noteq> []) (map kf tab)"

definition slots_ok :: "('e \<Rightarrow> string) \<Rightarrow> 'e list \<Rightarrow> bool" where
  "slots_ok kf tab \<longleftrightarrow> distinct (slot_keys kf tab)"

lemma slots_ok_nth:
  "slots_ok kf tab \<longleftrightarrow>
     (\<forall>i < length tab. \<forall>j < length tab. kf (tab ! i) = kf (tab ! j) \<and> kf (tab ! i) \<noteq> [] \<longrightarrow> i = j)"
  unfolding slots_ok_def slot_keys_def
proof (induction tab)
  case (Cons e tab)
  have mem: "kf e \<in> kf ` set tab \<longleftrightarrow> (\<exists>j < length tab. kf (tab ! j) = kf e)"
    by (metis image_iff in_set_conv_nth)
  have "distinct (filter (\<lambda>k. k \<noteq> []) (map kf (e # tab))) \<longleftrightarrow>
     (kf e = [] \<or> (\<forall>j < length tab. kf (tab ! j) \<noteq> kf e)) \<and>
     distinct (filter (\<lambda>k. k \<noteq> []) (map kf tab))"
    using mem by (cases "kf e = []") auto
  also have "\<dots> \<longleftrightarrow> (\<forall>i < length (e # tab). \<forall>j < length (e # tab).
     kf ((e # tab) ! i) = kf ((e # tab) ! j) \<and> kf ((e # tab) ! i) \<noteq> [] \<longrightarrow> i = j)"
    unfolding Cons.IH by (simp add: All_less_Suc2) metis
  finally show ?case .
qed simp

lemma slot_get_nth:
  assumes "slots_ok kf tab" "i < length tab" "kf (tab ! i) = key" "key \<noteq> []"
  shows "slot_get kf tab key = Some (tab ! i)"
proof -
  have "\<not> (\<exists>j < i. kf (tab ! j) = key)"
    using assms unfolding slots_ok_nth by (metis order_less_trans nat_neq_iff)
  then show ?thesis using assms unfolding slot_get_def find_Some_iff by blast
qed

lemma slot_get_None: "slot_get kf tab key = None \<longleftrightarrow> (\<forall>i < length tab. kf (tab ! i) \<noteq> key)"
  by (auto simp: slot_get_def find_None_iff in_set_conv_nth)

lemma slot_get_SomeD:
  "slot_get kf tab key = Some e \<Longrightarrow> \<exists>i < length tab. tab ! i = e \<and> kf e = key"
  by (auto simp: slot_get_def find_Some_iff)

section \<open>What the scan finds\<close>

definition scanned_free :: "('e \<Rightarrow> string) \<Rightarrow> 'e list \<Rightarrow> nat \<Rightarrow> nat option \<Rightarrow> bool" where
  "scanned_free kf tab i free \<longleftrightarrow>
     (case free of None \<Rightarrow> \<forall>j < i. kf (tab ! j) \<noteq> [] | Some j \<Rightarrow> j < i \<and> kf (tab ! j) = [])"

definition scanned_oldest :: "('e \<Rightarrow> string) \<Rightarrow> ('e \<Rightarrow> int) \<Rightarrow> 'e list \<Rightarrow> nat \<Rightarrow> nat option \<Rightarrow> bool" where
  "scanned_oldest kf tf tab i oldest \<longleftrightarrow>
     (case oldest of None \<Rightarrow> \<forall>j < i. kf (tab ! j) = []
      | Some o' \<Rightarrow> o' < i \<and> kf (tab ! o') \<noteq> [] \<and> (\<forall>j < i. kf (tab ! j) \<noteq> [] \<longrightarrow> tf (tab ! o') \<le> tf (tab ! j)))"

lemma slot_scan_spec:
  assumes "slot_scan kf tf key tab i es free oldest = (s, fr, ol)" "es = drop i tab"
    "i \<le> length tab" "scanned_free kf tab i free" "scanned_oldest kf tf tab i oldest"
    "\<forall>j < i. kf (tab ! j) \<noteq> [] \<longrightarrow> kf (tab ! j) \<noteq> key"
  shows "case s of Some j \<Rightarrow> j < length tab \<and> kf (tab ! j) \<noteq> [] \<and> kf (tab ! j) = key
     | None \<Rightarrow> (\<forall>j < length tab. kf (tab ! j) \<noteq> [] \<longrightarrow> kf (tab ! j) \<noteq> key) \<and>
         scanned_free kf tab (length tab) fr \<and> scanned_oldest kf tf tab (length tab) ol"
  using assms
proof (induction es arbitrary: i free oldest)
  case Nil
  then have "i = length tab" by simp
  then show ?case using Nil by auto
next
  case (Cons e es)
  have "drop i tab \<noteq> []" using Cons.prems(2) by (metis list.distinct(1))
  then have lt: "i < length tab" by simp
  have "e # es = tab ! i # drop (Suc i) tab"
    using Cons.prems(2) Cons_nth_drop_Suc [OF lt] by metis
  with lt have e: "e = tab ! i" "i < length tab" "es = drop (i + 1) tab" by simp_all
  consider "kf e = []" | "kf e \<noteq> []" "kf e = key" | "kf e \<noteq> []" "kf e \<noteq> key" by blast
  then show ?case
  proof cases
    case 1
    show ?thesis
      by (rule Cons.IH [of "i + 1" "if free = None then Some i else free" oldest])
        (use 1 e Cons.prems in \<open>auto simp: scanned_free_def scanned_oldest_def less_Suc_eq split: option.splits\<close>)
  next
    case 2
    then show ?thesis using Cons.prems(1) e by auto
  next
    case 3
    show ?thesis
      by (rule Cons.IH [of "i + 1" free "case oldest of None \<Rightarrow> Some i
            | Some j \<Rightarrow> if tf e < tf (tab ! j) then Some i else oldest"])
        (use 3 e Cons.prems in \<open>auto simp: scanned_free_def scanned_oldest_def less_Suc_eq split: option.splits\<close>)
  qed
qed

text \<open>The slot taken: the key's own; else a free one; else that of the key idle longest.\<close>

lemma slot_index_cases:
  assumes "key \<noteq> []" "tab \<noteq> []"
  obtains (found) i where "slot_index kf tf key tab = Some (i, True)" "i < length tab" "kf (tab ! i) = key"
  | (free) i where "slot_index kf tf key tab = Some (i, False)" "i < length tab" "kf (tab ! i) = []"
      "slot_get kf tab key = None"
  | (oldest) i where "slot_index kf tf key tab = Some (i, False)" "i < length tab" "kf (tab ! i) \<noteq> []"
      "slot_get kf tab key = None" "\<forall>j < length tab. kf (tab ! j) \<noteq> [] \<and> tf (tab ! i) \<le> tf (tab ! j)"
proof -
  obtain s fr ol where sc: "slot_scan kf tf key tab 0 tab None None = (s, fr, ol)"
    by (cases "slot_scan kf tf key tab 0 tab None None") auto
  have spec: "case s of Some j \<Rightarrow> j < length tab \<and> kf (tab ! j) \<noteq> [] \<and> kf (tab ! j) = key
     | None \<Rightarrow> (\<forall>j < length tab. kf (tab ! j) \<noteq> [] \<longrightarrow> kf (tab ! j) \<noteq> key) \<and>
         scanned_free kf tab (length tab) fr \<and> scanned_oldest kf tf tab (length tab) ol"
    by (rule slot_scan_spec [OF sc]) (auto simp: scanned_free_def scanned_oldest_def)
  show thesis
  proof (cases s)
    case (Some i)
    then show thesis using found [of i] spec sc by (simp add: slot_index_def)
  next
    case None
    then have none: "slot_get kf tab key = None" and f: "scanned_free kf tab (length tab) fr"
      and ol: "scanned_oldest kf tf tab (length tab) ol"
      using spec assms(1) by (auto simp: slot_get_None)
    show thesis
    proof (cases fr)
      case (Some i)
      then show thesis using free [of i] f none sc None by (simp add: slot_index_def scanned_free_def)
    next
      case fr: None
      then obtain i where i: "ol = Some i"
        using f ol assms(2) by (cases ol) (auto simp: scanned_free_def scanned_oldest_def)
      then show thesis using oldest [of i] f ol none sc None fr
        by (simp add: slot_index_def scanned_free_def scanned_oldest_def)
    qed
  qed
qed

section \<open>One step\<close>

definition slot_cur :: "('e \<Rightarrow> string) \<Rightarrow> (string \<Rightarrow> 'e) \<Rightarrow> 'e list \<Rightarrow> string \<Rightarrow> 'e" where
  "slot_cur kf fresh tab key = (case slot_get kf tab key of Some e \<Rightarrow> e | None \<Rightarrow> fresh key)"

lemma slots_ok_update:
  assumes "slots_ok kf tab" "i < length tab" "kf e = key" "kf (tab ! i) = key \<or> slot_get kf tab key = None"
  shows "slots_ok kf (tab[i := e])"
proof -
  have other: "j = i" if "j < length tab" "kf (tab ! j) = key" "key \<noteq> []" for j
    using assms that unfolding slots_ok_nth slot_get_None by metis
  show ?thesis
    unfolding slots_ok_nth
  proof (intro allI impI)
    fix a b assume ab: "a < length (tab[i := e])" "b < length (tab[i := e])"
      "kf (tab[i := e] ! a) = kf (tab[i := e] ! b) \<and> kf (tab[i := e] ! a) \<noteq> []"
    consider "a = i" "b = i" | "a = i" "b \<noteq> i" | "a \<noteq> i" "b = i" | "a \<noteq> i" "b \<noteq> i" by blast
    then show "a = b"
    proof cases
      case 2
      then show ?thesis using ab assms(2,3) other [of b] by auto
    next
      case 3
      then show ?thesis using ab assms(2,3) other [of a] by auto
    next
      case 4
      then have "tab[i := e] ! a = tab ! a" "tab[i := e] ! b = tab ! b" by simp_all
      then have "kf (tab ! a) = kf (tab ! b) \<and> kf (tab ! a) \<noteq> []" using ab(3) by metis
      then show ?thesis using ab(1,2) assms(1) unfolding slots_ok_nth by (metis length_list_update)
    qed simp
  qed
qed

lemma slot_get_update:
  assumes "slots_ok kf tab" "i < length tab" "kf e = key" "key \<noteq> []"
    "kf (tab ! i) = key \<or> slot_get kf tab key = None" "k \<noteq> []"
  shows "slot_get kf (tab[i := e]) k =
    (if k = key then Some e else if kf (tab ! i) = k then None else slot_get kf tab k)"
proof -
  have ok: "slots_ok kf (tab[i := e])" using assms by (intro slots_ok_update) auto
  have 1: "slot_get kf (tab[i := e]) key = Some e"
    using slot_get_nth [OF ok, of i key] assms by simp
  have 2: "slot_get kf (tab[i := e]) k = None" if "k \<noteq> key" "kf (tab ! i) = k"
    unfolding slot_get_None
  proof (intro allI impI)
    fix j assume "j < length (tab[i := e])"
    then show "kf (tab[i := e] ! j) \<noteq> k"
      using that assms(1,2,3,6) unfolding slots_ok_nth by (cases "j = i") auto
  qed
  have 3: "slot_get kf (tab[i := e]) k = slot_get kf tab k" if "k \<noteq> key" "kf (tab ! i) \<noteq> k"
  proof (cases "slot_get kf tab k")
    case None
    then have "kf (tab[i := e] ! j) \<noteq> k" if "j < length tab" for j
      using that assms(3) \<open>k \<noteq> key\<close> by (cases "j = i") (simp_all add: slot_get_None)
    then have "slot_get kf (tab[i := e]) k = None" by (simp add: slot_get_None)
    then show ?thesis using None by simp
  next
    case (Some x)
    then obtain j where j: "j < length tab" "tab ! j = x" "kf x = k"
      by (blast dest: slot_get_SomeD)
    then have "j \<noteq> i" using that by auto
    then have "tab[i := e] ! j = x" using j by simp
    then have "slot_get kf (tab[i := e]) k = Some x"
      using slot_get_nth [OF ok, of j k] j assms(6) by simp
    then show ?thesis using Some by simp
  qed
  show ?thesis using 1 2 3 by auto
qed

text \<open>The laws of a tracker: what a step on one key does to that key and to the others.\<close>

locale slot_table =
  fixes kf :: "'e \<Rightarrow> string" and tf :: "'e \<Rightarrow> int" and fresh :: "string \<Rightarrow> 'e"
  assumes fresh_key: "kf (fresh key) = key"
begin

lemma step_cases:
  assumes "slots_ok kf tab" "key \<noteq> []" "tab \<noteq> []" "\<And>e. kf e = key \<Longrightarrow> kf (snd (f e)) = key"
  obtains i where "slot_step kf tf fresh key f tab =
      Some (fst (f (slot_cur kf fresh tab key)), tab[i := snd (f (slot_cur kf fresh tab key))])"
    "i < length tab" "kf (snd (f (slot_cur kf fresh tab key))) = key"
    "kf (tab ! i) = key \<or> slot_get kf tab key = None"
    "kf (tab ! i) = key \<or> kf (tab ! i) = [] \<or>
       (\<forall>j < length tab. kf (tab ! j) \<noteq> [] \<and> tf (tab ! i) \<le> tf (tab ! j))"
proof -
  have cur: "kf (slot_cur kf fresh tab key) = key"
    by (auto simp: slot_cur_def fresh_key dest: slot_get_SomeD split: option.split)
  then have key: "kf (snd (f (slot_cur kf fresh tab key))) = key" by (rule assms(4))
  have step: "slot_step kf tf fresh key f tab =
      Some (fst (f x), tab[i := snd (f x)])"
    if "slot_index kf tf key tab = Some (i, b)" "x = (if b then tab ! i else fresh key)" for i b x
    using that by (simp add: slot_step_def split_def)
  show thesis
  proof (rule slot_index_cases [OF assms(2,3), of kf tf])
    fix i assume "slot_index kf tf key tab = Some (i, True)" "i < length tab" "kf (tab ! i) = key"
    moreover have "slot_cur kf fresh tab key = tab ! i"
      using slot_get_nth [OF assms(1)] calculation assms(2) by (simp add: slot_cur_def)
    ultimately show thesis using that [of i] step [of i True] key by simp
  next
    fix i assume "slot_index kf tf key tab = Some (i, False)" "i < length tab" "kf (tab ! i) = []"
      "slot_get kf tab key = None"
    then show thesis using that [of i] step [of i False] key by (simp add: slot_cur_def)
  next
    fix i assume "slot_index kf tf key tab = Some (i, False)" "i < length tab" "kf (tab ! i) \<noteq> []"
      "slot_get kf tab key = None" "\<forall>j < length tab. kf (tab ! j) \<noteq> [] \<and> tf (tab ! i) \<le> tf (tab ! j)"
    then show thesis using that [of i] step [of i False] key by (simp add: slot_cur_def)
  qed
qed

text \<open>With room for the key, a step is an update of the table as a map.\<close>

lemma step_with_room:
  assumes "slots_ok kf tab" "key \<noteq> []" "tab \<noteq> []" "\<And>e. kf e = key \<Longrightarrow> kf (snd (f e)) = key"
    "set (slot_keys kf tab) \<subseteq> H" "key \<in> H" "finite H" "card H \<le> length tab"
  obtains tab' where "slot_step kf tf fresh key f tab = Some (fst (f (slot_cur kf fresh tab key)), tab')"
    "slots_ok kf tab'" "length tab' = length tab" "set (slot_keys kf tab') \<subseteq> H"
    "\<And>k. k \<noteq> [] \<Longrightarrow> slot_get kf tab' k =
       (if k = key then Some (snd (f (slot_cur kf fresh tab key))) else slot_get kf tab k)"
proof -
  obtain i where i: "slot_step kf tf fresh key f tab =
      Some (fst (f (slot_cur kf fresh tab key)), tab[i := snd (f (slot_cur kf fresh tab key))])"
    "i < length tab" "kf (snd (f (slot_cur kf fresh tab key))) = key"
    "kf (tab ! i) = key \<or> slot_get kf tab key = None"
    "kf (tab ! i) = key \<or> kf (tab ! i) = [] \<or>
       (\<forall>j < length tab. kf (tab ! j) \<noteq> [] \<and> tf (tab ! i) \<le> tf (tab ! j))"
    using step_cases [where f = f, OF assms(1-4)] by blast
  have room: "kf (tab ! i) = key \<or> kf (tab ! i) = []"
  proof (rule ccontr)
    assume n: "\<not> ?thesis"
    then have full: "slot_keys kf tab = map kf tab" and none: "slot_get kf tab key = None"
      using i by (auto simp: slot_keys_def filter_id_conv in_set_conv_nth)
    have "key \<notin> set (slot_keys kf tab)"
      using none by (auto simp: full slot_get_def find_None_iff)
    then have "card (set (slot_keys kf tab)) < card H"
      using assms(5,6,7) by (metis psubsetI psubset_card_mono)
    moreover have "card (set (slot_keys kf tab)) = length tab"
      using assms(1) distinct_card [of "slot_keys kf tab"] by (simp add: slots_ok_def full)
    ultimately show False using assms(8) by simp
  qed
  let ?e = "snd (f (slot_cur kf fresh tab key))"
  have "set (slot_keys kf (tab[i := ?e])) \<subseteq> insert key (set (slot_keys kf tab))"
    using i(3) set_update_subset_insert [of tab i ?e] by (auto simp: slot_keys_def)
  then have "set (slot_keys kf (tab[i := ?e])) \<subseteq> H" using assms(5,6) by blast
  moreover have "slot_get kf (tab[i := ?e]) k = (if k = key then Some ?e else slot_get kf tab k)"
    if "k \<noteq> []" for k
    using slot_get_update [OF assms(1) i(2,3) assms(2) i(4) that] room that by auto
  ultimately show thesis
    using that [of "tab[i := ?e]"] i(1) slots_ok_update [OF assms(1) i(2,3,4)] by simp
qed

end

end
