(* ===== verification/Flood.thy ===== *)
theory Flood
  imports Slots Settings Auth SendQ
begin

text \<open>
  The flood counters: the channel floods' windows and tracker (\<open>src/src/chanflood.rs\<close>) and the bot
  floods, the ignore table and quiet mode (\<open>src/src/botflood.rs\<close>).  What a channel trip does is
  with the enforcement jobs it asks for.  A Rust \<open>&mut\<close> argument that is changed comes back as
  part of the result.
\<close>

section \<open>Windows and sources\<close>

definition window_hit :: "flood_window \<Rightarrow> int \<Rightarrow> int \<Rightarrow> int \<Rightarrow> bool \<times> flood_window" where
  "window_hit w n s t =
     (let w1 = (if w_count w \<le> 0 \<or> t - w_start_ms w \<ge> s * 1000
                then w\<lparr>w_start_ms := t, w_count := 0\<rparr> else w);
          w2 = w1\<lparr>w_count := w_count w1 + 1\<rparr>
      in if w_count w2 > n then (True, w2\<lparr>w_start_ms := 0, w_count := 0\<rparr>) else (False, w2))"

definition src_host :: "string \<Rightarrow> string option" where
  "src_host nuh =
     (case position (\<lambda>c. c = CHR ''!'') nuh of
        None \<Rightarrow> None
      | Some bang \<Rightarrow>
          (case position (\<lambda>c. c = CHR ''@'') (drop bang nuh) of
             None \<Rightarrow> None
           | Some p \<Rightarrow>
               let host = drop (bang + p + 1) nuh in
               if host \<noteq> [] then Some (lowers (trunc host FLOOD_HOST_MAX)) else None))"

definition src_nick :: "string \<Rightarrow> string option" where
  "src_nick nuh =
     (case position (\<lambda>c. c = CHR ''!'') nuh of
        None \<Rightarrow> None
      | Some bang \<Rightarrow> if bang \<noteq> 0 \<and> bang < MAX_MEMBER_NICK then Some (take bang nuh) else None)"

section \<open>The tracker of a channel\<close>

definition fresh_src :: "string \<Rightarrow> flood_src" where
  "fresh_src host = default_src\<lparr>fsrc_host := host\<rparr>"

definition kind_bit :: "nat \<Rightarrow> 8 word" where
  "kind_bit kind = push_bit kind 1"

text \<open>The second half of \<open>track\<close>: one event on the source's slot.\<close>

definition src_count :: "nat \<Rightarrow> bool \<Rightarrow> int \<Rightarrow> int \<Rightarrow> int \<Rightarrow> flood_src \<Rightarrow> bool option \<times> flood_src" where
  "src_count kind victim_auth n s t f =
     (let f1 = f\<lparr>fsrc_last_ms := t\<rparr>;
          f2 = (if victim_auth then f1\<lparr>fsrc_victim_auth := fsrc_victim_auth f1 OR kind_bit kind\<rparr> else f1)
      in case window_hit (fsrc_w f2 ! kind) n s t of (hit, w) \<Rightarrow>
           let f3 = f2\<lparr>fsrc_w := (fsrc_w f2)[kind := w]\<rparr> in
           if \<not> hit then (None, f3)
           else (Some (fsrc_victim_auth f3 AND kind_bit kind \<noteq> 0),
                 f3\<lparr>fsrc_victim_auth := fsrc_victim_auth f3 AND NOT (kind_bit kind)\<rparr>))"

definition track :: "flood_src list \<Rightarrow> string \<Rightarrow> nat \<Rightarrow> bool \<Rightarrow> int \<Rightarrow> int \<Rightarrow> int \<Rightarrow> bool option \<times> flood_src list" where
  "track flood host kind victim_auth n s t =
     (case slot_step fsrc_host fsrc_last_ms fresh_src host (src_count kind victim_auth n s t) flood of
        None \<Rightarrow> (None, flood) | Some r \<Rightarrow> r)"

section \<open>The ignore table\<close>

datatype bf = Bf_Ok | Bf_Drop | Bf_Ignore | Bf_IgnoreNew

datatype cmd_step = Step_Ok | Step_Drop bool | Flood3x

definition quiet_at :: "bot_flood \<Rightarrow> int \<Rightarrow> bool \<times> bot_flood" where
  "quiet_at bf t =
     (let bf1 = (if bf_quiet_until_ms bf \<noteq> 0 \<and> t \<ge> bf_quiet_until_ms bf
                 then bf\<lparr>bf_quiet_until_ms := 0, bf_quiet_logged := False\<rparr> else bf)
      in (bf_quiet_until_ms bf1 \<noteq> 0, bf1))"

definition ignore_find :: "bot_flood \<Rightarrow> string \<Rightarrow> int \<Rightarrow> bool" where
  "ignore_find bf key t \<longleftrightarrow>
     (\<exists>e \<in> set (bf_ignores bf). ig_key e \<noteq> [] \<and> ig_until_ms e > t \<and> ig_key e = key)"

text \<open>The loop of \<open>ignore_add\<close> from index \<open>i\<close>: expired entries are freed on the way.\<close>

fun ignore_scan :: "string \<Rightarrow> int \<Rightarrow> nat \<Rightarrow> nat \<Rightarrow> ignore_ent list \<Rightarrow> nat option \<Rightarrow> nat option \<Rightarrow>
    ignore_ent list \<times> nat option \<times> nat option" where
  "ignore_scan key t 0 i tab slot oldest = (tab, slot, oldest)"
| "ignore_scan key t (Suc k) i tab slot oldest =
     (let tab1 = (if ig_key (tab ! i) \<noteq> [] \<and> ig_until_ms (tab ! i) \<le> t
                  then tab[i := (tab ! i)\<lparr>ig_key := []\<rparr>] else tab)
      in if ig_key (tab1 ! i) \<noteq> [] \<and> ig_key (tab1 ! i) = key then (tab1, Some i, oldest)
         else if ig_key (tab1 ! i) = []
         then ignore_scan key t k (i + 1) tab1 (if slot = None then Some i else slot) oldest
         else ignore_scan key t k (i + 1) tab1 slot
                (case oldest of None \<Rightarrow> Some i
                 | Some j \<Rightarrow> if ig_since_ms (tab1 ! i) < ig_since_ms (tab1 ! j) then Some i else oldest))"

text \<open>Writing the entry chosen.\<close>

definition ignore_put :: "bot_flood \<Rightarrow> ignore_ent list \<Rightarrow> nat \<Rightarrow> string \<Rightarrow> int \<Rightarrow> int \<Rightarrow> bot_flood" where
  "ignore_put bf tab i key t ms =
     (let e = tab ! i;
          e1 = (if ig_key e \<noteq> key then e\<lparr>ig_key := key, ig_since_ms := t\<rparr> else e)
      in bf\<lparr>bf_ignores := tab[i := e1\<lparr>ig_until_ms := t + ms\<rparr>]\<rparr>)"

text \<open>\<open>Inl first\<close> is \<open>Err(first)\<close>: it did not fit, quiet mode began.\<close>

definition ignore_add :: "bot_flood \<Rightarrow> string \<Rightarrow> int \<Rightarrow> int \<Rightarrow> (bool + unit) \<times> bot_flood" where
  "ignore_add bf key t ms =
     (case ignore_scan key t (length (bf_ignores bf)) 0 (bf_ignores bf) None None of
        (tab, Some i, _) \<Rightarrow> (Inr (), ignore_put bf tab i key t ms)
      | (tab, None, None) \<Rightarrow> (Inl False, bf\<lparr>bf_ignores := tab\<rparr>)
      | (tab, None, Some j) \<Rightarrow>
          if t - ig_since_ms (tab ! j) \<le> QUIET_FILL_MS
          then (Inl (\<not> bf_quiet_logged bf),
                bf\<lparr>bf_ignores := tab, bf_quiet_until_ms := t + ms, bf_quiet_logged := True\<rparr>)
          else (Inr (), ignore_put bf tab j key t ms))"

section \<open>The host and command counters\<close>

definition fresh_host :: "string \<Rightarrow> host_flood" where
  "fresh_host host = default_host_flood\<lparr>hf_host := host\<rparr>"

text \<open>The slot of a host after \<open>host_slot\<close> (touched), with its window of the kind stepped.\<close>

definition host_count :: "bool \<Rightarrow> int \<Rightarrow> int \<Rightarrow> int \<Rightarrow> host_flood \<Rightarrow> bool \<times> host_flood" where
  "host_count ctcp n s t h =
     (let h1 = h\<lparr>hf_last_ms := t\<rparr> in
      if ctcp then (case window_hit (hf_ctcp h1) n s t of (hit, w) \<Rightarrow> (hit, h1\<lparr>hf_ctcp := w\<rparr>))
      else (case window_hit (hf_msg h1) n s t of (hit, w) \<Rightarrow> (hit, h1\<lparr>hf_msg := w\<rparr>)))"

definition host_hit :: "bot_flood \<Rightarrow> string \<Rightarrow> bool \<Rightarrow> int \<Rightarrow> int \<Rightarrow> int \<Rightarrow> bool \<times> bot_flood" where
  "host_hit bf host ctcp n s t =
     (case slot_step hf_host hf_last_ms fresh_host host (host_count ctcp n s t) (bf_host_flood bf) of
        None \<Rightarrow> (False, bf)
      | Some (hit, tab) \<Rightarrow> (hit, bf\<lparr>bf_host_flood := tab\<rparr>))"

definition fresh_cmd :: "string \<Rightarrow> cmd_flood" where
  "fresh_cmd uuid = default_cmd_flood\<lparr>cf_uuid := uuid\<rparr>"

definition cmd_slot_count :: "int \<Rightarrow> int \<Rightarrow> int \<Rightarrow> cmd_flood \<Rightarrow> cmd_step \<times> cmd_flood" where
  "cmd_slot_count n s t f =
     (let f1 = f\<lparr>cf_last_ms := t\<rparr>;
          f2 = (if w_count (cf_w f1) \<le> 0 \<or> t - w_start_ms (cf_w f1) \<ge> s * 1000
                then f1\<lparr>cf_w := \<lparr>w_start_ms = t, w_count = 0\<rparr>, cf_notified := False\<rparr> else f1);
          f3 = f2\<lparr>cf_w := (cf_w f2)\<lparr>w_count := w_count (cf_w f2) + 1\<rparr>\<rparr>
      in if w_count (cf_w f3) > 3 * n
         then (Flood3x, f3\<lparr>cf_w := (cf_w f3)\<lparr>w_count := 0\<rparr>, cf_notified := False\<rparr>)
         else if w_count (cf_w f3) > n
         then (Step_Drop (\<not> cf_notified f3), f3\<lparr>cf_notified := True\<rparr>)
         else (Step_Ok, f3))"

definition cmd_count :: "bot_flood \<Rightarrow> string \<Rightarrow> int \<Rightarrow> int \<Rightarrow> int \<Rightarrow> cmd_step \<times> bot_flood" where
  "cmd_count bf uuid n s t =
     (case slot_step cf_uuid cf_last_ms fresh_cmd uuid (cmd_slot_count n s t) (bf_cmd_flood bf) of
        None \<Rightarrow> (Step_Ok, bf)
      | Some (r, tab) \<Rightarrow> (r, bf\<lparr>bf_cmd_flood := tab\<rparr>))"

interpretation srcs: slot_table fsrc_host fsrc_last_ms fresh_src
  by unfold_locales (simp add: fresh_src_def)

interpretation hosts: slot_table hf_host hf_last_ms fresh_host
  by unfold_locales (simp add: fresh_host_def)

interpretation cmds: slot_table cf_uuid cf_last_ms fresh_cmd
  by unfold_locales (simp add: fresh_cmd_def)

section \<open>The bot floods\<close>

definition ignore_ms :: "bot_state \<Rightarrow> int" where
  "ignore_ms st = get st None IgnoreTime * 60000"

definition emit_ignore :: "env \<Rightarrow> bot_state \<Rightarrow> string \<Rightarrow> string \<Rightarrow> bot_state" where
  "emit_ignore e st target detail =
     (case find (\<lambda>c. c_is_managed c \<and> c_status c = CS_In) (st_chans st) of
        Some c \<Rightarrow> snd (chan_event e st (c_name c) ''ignore'' target detail)
      | None \<Rightarrow> st)"

definition ignore_source :: "bot_state \<Rightarrow> string \<Rightarrow> int \<Rightarrow> bool \<times> bot_state" where
  "ignore_source st key t =
     (case ignore_add (st_flood st) key t (ignore_ms st) of
        (Inr _, bf) \<Rightarrow> (True, st\<lparr>st_flood := bf\<rparr>)
      | (Inl _, bf) \<Rightarrow> (False, st\<lparr>st_flood := bf\<rparr>))"

definition quiet :: "env \<Rightarrow> bot_state \<Rightarrow> bool \<times> bot_state" where
  "quiet e st = (case quiet_at (st_flood st) (e_ms e) of (q, bf) \<Rightarrow> (q, st\<lparr>st_flood := bf\<rparr>))"

definition flood_detail :: "string \<Rightarrow> int \<Rightarrow> int \<Rightarrow> int \<Rightarrow> string" where
  "flood_detail what n s mins =
     what @ '' flood '' @ dec_int n @ '':'' @ dec_int s @ '', ignored '' @ dec_int mins @ '' min''"

text \<open>\<open>host_flood_at\<close>, from the trip on: the host is ignored (or the bot goes quiet).\<close>

definition host_tripped :: "env \<Rightarrow> bot_state \<Rightarrow> string \<Rightarrow> bool \<Rightarrow> int \<Rightarrow> int \<Rightarrow> int \<Rightarrow> bf \<times> bot_state" where
  "host_tripped e st host ctcp n s t =
     (let what = (if ctcp then ''ctcp'' else ''msg'');
          mins = get st None IgnoreTime
      in case ignore_source st host t of
           (added, st') \<Rightarrow>
             (Bf_Ignore, if added then emit_ignore e st' host (flood_detail what n s mins) else st'))"

definition host_flood_at :: "env \<Rightarrow> bot_state \<Rightarrow> string \<Rightarrow> bool \<Rightarrow> flood_kind \<Rightarrow> int \<Rightarrow> bf \<times> bot_state" where
  "host_flood_at e st nuh authorised kind t =
     (case src_host nuh of
        None \<Rightarrow> (Bf_Ok, st)
      | Some host \<Rightarrow>
          if authorised then (Bf_Ok, st)
          else (case quiet_at (st_flood st) t of (q, bf) \<Rightarrow>
            let st1 = st\<lparr>st_flood := bf\<rparr> in
            if q \<or> ignore_find bf host t then (Bf_Ignore, st1)
            else (case get_flood st1 None kind of
                None \<Rightarrow> (Bf_Ok, st1)
              | Some (n, s) \<Rightarrow>
                  (case host_hit bf host (kind = BotCtcp) n s t of (hit, bf2) \<Rightarrow>
                     let st2 = st1\<lparr>st_flood := bf2\<rparr> in
                     if \<not> hit then (Bf_Ok, st2)
                     else host_tripped e st2 host (kind = BotCtcp) n s t))))"

definition msg_at :: "env \<Rightarrow> bot_state \<Rightarrow> string \<Rightarrow> bool \<Rightarrow> int \<Rightarrow> bf \<times> bot_state" where
  "msg_at e st nuh authorised t = host_flood_at e st nuh authorised BotMsg t"

definition ctcp_at :: "env \<Rightarrow> bot_state \<Rightarrow> string \<Rightarrow> bool \<Rightarrow> int \<Rightarrow> bf \<times> bot_state" where
  "ctcp_at e st nuh authorised t = host_flood_at e st nuh authorised BotCtcp t"

definition flood_msg :: "env \<Rightarrow> bot_state \<Rightarrow> string \<Rightarrow> bf \<times> bot_state" where
  "flood_msg e st nuh = msg_at e st nuh (is_authorised st nuh) (e_ms e)"

definition flood_ctcp :: "env \<Rightarrow> bot_state \<Rightarrow> string \<Rightarrow> bf \<times> bot_state" where
  "flood_ctcp e st nuh = ctcp_at e st nuh (is_authorised st nuh) (e_ms e)"

definition host_ignored :: "env \<Rightarrow> bot_state \<Rightarrow> string \<Rightarrow> bool \<times> bot_state" where
  "host_ignored e st nuh =
     (case src_host nuh of
        None \<Rightarrow> (False, st)
      | Some host \<Rightarrow>
          if is_authorised st nuh then (False, st)
          else (case quiet_at (st_flood st) (e_ms e) of (q, bf) \<Rightarrow>
            (q \<or> ignore_find bf host (e_ms e), st\<lparr>st_flood := bf\<rparr>)))"

definition cmd_at :: "bot_state \<Rightarrow> string \<Rightarrow> int \<Rightarrow> (bf \<times> bool) \<times> bot_state" where
  "cmd_at st uuid t =
     (if uuid = [] then ((Bf_Ok, False), st)
      else
        let key = ''u:'' @ uuid in
        if ignore_find (st_flood st) key t then ((Bf_Ignore, False), st)
        else (case get_flood st None BotCmd of
            None \<Rightarrow> ((Bf_Ok, False), st)
          | Some (n, s) \<Rightarrow>
              (case cmd_count (st_flood st) uuid n s t of (step, bf) \<Rightarrow>
                 let st1 = st\<lparr>st_flood := bf\<rparr> in
                 (case step of
                    Step_Ok \<Rightarrow> ((Bf_Ok, False), st1)
                  | Step_Drop notice \<Rightarrow> ((Bf_Drop, notice), st1)
                  | Flood3x \<Rightarrow> ((Bf_IgnoreNew, False), snd (ignore_source st1 key t))))))"

definition slow_down :: "string \<Rightarrow> string" where
  "slow_down nick = ''PRIVMSG '' @ nick @ '' :Slow down: too many commands, some were dropped.''"

definition flood_cmd :: "env \<Rightarrow> bot_state \<Rightarrow> nat \<Rightarrow> string \<Rightarrow> bf \<times> bot_state" where
  "flood_cmd e st who nick =
     (if who < length (st_user_records st) then
        let u = st_user_records st ! who in
        (case cmd_at st (u_uuid u) (e_ms e) of ((r, notice), st1) \<Rightarrow>
           let st2 = (if r = Bf_Drop \<and> notice then ircf e st1 (slow_down nick) else st1);
               mins = get st2 None IgnoreTime
           in (r, if r = Bf_IgnoreNew
                  then emit_ignore e st2 (u_name u) (''command flood, ignored '' @ dec_int mins @ '' min'')
                  else st2))
      else (Bf_Ok, st))"

end
