(* ===== verification/Frame.thy ===== *)
theory Frame
  imports SendFacts HubOut
begin

text \<open>
  What the output paths leave alone.  Sending a line (queue, drain, a lost link) and sending a
  frame to the hub change sockets, queues and the live state of channels; everything the bot
  knows about itself, its users and its configuration stays as it was.  \<open>core\<close> is that part of
  the state, and the operations of both paths keep it.
\<close>

definition core where
  "core st = (st_flood st, st_net_set st, st_net_ts st, st_net_modes st, st_net_settings st,
     st_cfg_bans st, st_user_records st, st_mask_records st, st_trusted_bots st, st_jobs st,
     st_ban_track st, st_offences st, st_enf_recent st, st_enf_recent_idx st, st_cfg_gen st,
     st_current_nick st, st_opt_flags st, st_bot_uuid st, st_hubs st, st_admin_nonces st, st_recent_nonces st,
     map (\<lambda>c. (c_key c, c_is_managed c, c_timestamp c, c_cfg_modes c, c_cfg_settings c, c_cfg_set c, c_cfg_ts c, c_cfg_active c))
       (st_chans st), map c_name (st_chans st))"

named_theorems cores

lemma core_cong:
  assumes "core st = core st'"
  shows "st_flood st = st_flood st'" "st_net_set st = st_net_set st'" "st_net_ts st = st_net_ts st'"
    "st_cfg_bans st = st_cfg_bans st'" "st_user_records st = st_user_records st'"
    "st_mask_records st = st_mask_records st'" "st_trusted_bots st = st_trusted_bots st'"
    "st_jobs st = st_jobs st'" "st_ban_track st = st_ban_track st'" "st_offences st = st_offences st'"
    "st_current_nick st = st_current_nick st'" "map c_name (st_chans st) = map c_name (st_chans st')"
  using assms by (simp_all add: core_def)

section \<open>Output to the server\<close>

lemma core_apply_refusal [cores]: "core (apply_refusal e st) = core st"
  by (auto simp: core_def apply_refusal_def Let_def split: prod.split option.split)

lemma core_reset [cores]: "core (reset_status st) = core st"
  by (simp add: core_def reset_status_def reset_chan_def live_reset_def comp_def)

lemma core_isupport_reset [cores]: "core (isupport_reset st) = core st"
  by (simp add: core_def isupport_reset_def)

lemma core_sendq_upd [cores]: "core (st\<lparr>st_sendq := q\<rparr>) = core st"
  by (simp add: core_def)

lemma core_clear [cores]: "core (sendq_clear e st) = core st"
  by (simp add: sendq_clear_def cores)

lemma core_socket_upd [cores]:
  "core (st\<lparr>st_irc_out := l\<rparr>) = core st"
  "core (st\<lparr>st_irc_out := l, st_irc := b, st_status := w\<rparr>) = core st"
  "core (st\<lparr>st_a2r := a\<rparr>) = core st" "core (st\<lparr>st_dcc := d\<rparr>) = core st"
  by (simp_all add: core_def)

lemma core_link_down [cores]: "core (link_down e st) = core st"
  by (simp add: link_down_def Let_def cores)

lemma core_write_raw [cores]: "core (snd (write_raw e st line)) = core st"
  by (simp add: write_raw_def cores)

lemma core_drain_loop: "core (snd (drain_loop n e st k)) = core st"
proof (induction n arbitrary: st k)
  case (Suc n)
  then show ?case using core_write_raw
    by (auto simp: Let_def cores split_beta split: prod.split option.split)
qed simp

lemma core_drain [cores]: "core (snd (drain e st)) = core st"
  by (simp add: drain_def Let_def core_drain_loop cores del: drain_loop.simps)

lemma core_disconnect [cores]: "core (disconnect e st) = core st"
  by (simp add: disconnect_def Let_def cores)

lemma core_enqueue [cores]: "core (snd (enqueue e st line)) = core st"
  by (simp add: enqueue_def Let_def cores split: prod.split bool.split)

lemma core_divert [cores]: "divert_reply e st line = Some st' \<Longrightarrow> core st' = core st"
  by (auto simp: divert_reply_def Let_def cores split: option.splits if_splits)

lemma core_send_line [cores]: "core (snd (send_line e st line)) = core st"
  by (auto simp: send_line_def cores split: option.split)

lemma core_a2r_loop: "core (snd (a2r_loop e st verb nick piece)) = core st"
proof (induction "length piece" arbitrary: st piece rule: less_induct)
  case less
  show ?case
  proof (cases "a2r_piece e st piece")
    case (Some f)
    define s where "s = send_line e st (a2r_line verb nick f)"
    define st2 where "st2 = (snd s)\<lparr>st_a2r := (st_a2r (snd s))\<lparr>ar_seq := ar_seq (st_a2r (snd s)) + 1\<rparr>\<rparr>"
    have s: "core (snd s) = core st" by (simp add: s_def cores)
    then have st2: "core st2 = core st" by (simp add: st2_def cores)
    have "core (snd (a2r_loop e st2 verb nick (drop (a2r_cut piece) piece))) = core st2"
      if "\<not> a2r_cut piece \<ge> length piece"
      by (rule less) (use that in \<open>auto simp: a2r_cut_def limits intro!: diff_less split: if_splits\<close>)
    then show ?thesis using s st2
      by (subst a2r_loop_step) (simp add: Some Let_def s_def [symmetric] st2_def [symmetric])
  qed (subst a2r_loop_step, simp)
qed

lemma core_reply_as: "a2r_reply_as e st line verb = Some r \<Longrightarrow> core (snd r) = core st"
  unfolding a2r_reply_as_def Let_def by (auto simp only: core_a2r_loop split: if_splits)

lemma core_seal_reply: "a2r_seal_reply e st line = Some r \<Longrightarrow> core (snd r) = core st"
  unfolding a2r_seal_reply_def by (auto dest: core_reply_as split: if_splits)

lemma core_irc_printf [cores]: "core (snd (irc_printf e st line)) = core st"
  unfolding irc_printf_def
  by (auto simp only: snd_conv cores dest: core_seal_reply split: option.split if_splits)

lemma core_ircf [cores]: "core (ircf e st line) = core st"
  by (simp add: ircf_def cores)

lemma core_hold [cores]: "core (hold st) = core st"
  by (simp add: hold_def cores)

lemma core_release [cores]: "core (release e st) = core st"
  by (simp add: release_def Let_def cores)

section \<open>Output to the hub\<close>

lemma core_hub_disconnect [cores]: "core (hub_disconnect e st) = core st"
  by (simp add: core_def hub_disconnect_def)

lemma core_hub_upd [cores]:
  "core (st\<lparr>st_hub_out := l\<rparr>) = core st" "core (st\<lparr>st_chan_event := v\<rparr>) = core st"
  by (simp_all add: core_def)

lemma core_send_frame [cores]: "core (snd (send_frame e st cmd p)) = core st"
  by (simp add: send_frame_def cores split: hub_ans.split)

lemma core_send_frame_eq: "send_frame e st cmd p = (ok, st') \<Longrightarrow> core st' = core st"
  using core_send_frame [of e st cmd p] by simp

lemma core_ev_summary [cores]: "core (ev_summary e st t) = core st"
proof -
  have "core (case send_frame e s c p of (True, st') \<Rightarrow> st'\<lparr>st_chan_event := f st'\<rparr> | (False, st') \<Rightarrow> st') = core s"
    for s c p f by (auto simp: cores dest: core_send_frame_eq split: prod.split bool.split)
  then show ?thesis by (simp add: ev_summary_def Let_def cores)
qed

lemma core_chan_event_emit [cores]: "core (snd (chan_event_emit e st chan action key out)) = core st"
proof -
  have "core (snd (case send_frame e s c p of (sent, st') \<Rightarrow> (sent, if sent \<and> P st' then ev_summary e st' t else st'))) = core s"
    for s c p P t by (auto simp: cores dest: core_send_frame_eq split: prod.split)
  then show ?thesis by (simp add: chan_event_emit_def Let_def cores)
qed

lemma core_chan_event [cores]: "core (snd (chan_event e st chan action target detail)) = core st"
proof -
  consider "chan_event e st chan action target detail = (False, st)"
    | key out where "chan_event e st chan action target detail = chan_event_emit e st chan action key out"
    using chan_event_cases by blast
  then show ?thesis by cases (simp_all add: cores)
qed

end
