(* ===== verification/FloodProps.thy ===== *)
theory FloodProps
  imports Flood Frame
begin

text \<open>
  What the flood counters promise: a window trips only on N+1 events within its S seconds and
  never misses 2N of them; the trackers count every source as if it were alone; commands over
  the limit are dropped, noticed once and then ignored; a source once ignored gets no answer.
\<close>

section \<open>Windows\<close>

fun window_run :: "flood_window \<Rightarrow> int \<Rightarrow> int \<Rightarrow> int list \<Rightarrow> bool list" where
  "window_run w n s [] = []"
| "window_run w n s (t # ts) =
     (case window_hit w n s t of (hit, w') \<Rightarrow> hit # window_run w' n s ts)"

lemma window_run_length [simp]: "length (window_run w n s ts) = length ts"
  by (induction ts arbitrary: w) (auto split: prod.split)

definition window_ok :: "int \<Rightarrow> flood_window \<Rightarrow> bool" where
  "window_ok n w \<longleftrightarrow> 0 \<le> w_count w \<and> w_count w \<le> n"

text \<open>The three outcomes of a step: a new window, one more in the window, a trip.\<close>

definition window_open :: "flood_window \<Rightarrow> int \<Rightarrow> int \<Rightarrow> bool" where
  "window_open w s t \<longleftrightarrow> 0 < w_count w \<and> t - w_start_ms w < s * 1000"

lemma window_hit_open:
  "window_open w s t \<Longrightarrow> window_hit w n s t =
     (if w_count w + 1 > n then (True, w\<lparr>w_start_ms := 0, w_count := 0\<rparr>)
      else (False, w\<lparr>w_count := w_count w + 1\<rparr>))"
  by (auto simp: window_hit_def window_open_def Let_def)

lemma window_hit_fresh:
  "\<not> window_open w s t \<Longrightarrow> window_hit w n s t =
     (if n < 1 then (True, w\<lparr>w_start_ms := 0, w_count := 0\<rparr>)
      else (False, w\<lparr>w_start_ms := t, w_count := 1\<rparr>))"
  by (auto simp: window_hit_def window_open_def Let_def)

lemma window_hit_ok: "window_ok n w \<Longrightarrow> window_ok n (snd (window_hit w n s t))"
  by (auto simp: window_hit_def window_ok_def Let_def)

text \<open>A trip is the N+1th event of its window.\<close>

lemma window_run_hit:
  assumes "window_run w n s ts ! i" "i < length ts" "window_ok n w" "0 < s"
  shows "(\<exists>k. int i = int k + n \<and> ts ! i - ts ! k < s * 1000) \<or>
    (0 < w_count w \<and> int i + w_count w = n \<and> ts ! i - w_start_ms w < s * 1000)"
  using assms
proof (induction ts arbitrary: w i)
  case (Cons t ts)
  obtain hit w' where h: "window_hit w n s t = (hit, w')" by (cases "window_hit w n s t")
  have ok': "window_ok n w'" using window_hit_ok [OF Cons.prems(3), of s t] h by simp
  show ?case
  proof (cases i)
    case 0
    then have hit using Cons.prems(1) h by simp
    then show ?thesis
    proof (cases "window_open w s t")
      case True
      then show ?thesis using \<open>hit\<close> h 0 Cons.prems(3)
        by (auto simp: window_hit_open window_open_def window_ok_def split: if_splits)
    next
      case False
      then have "n = 0" using \<open>hit\<close> h Cons.prems(3)
        by (auto simp: window_hit_fresh window_ok_def split: if_splits)
      then show ?thesis using 0 Cons.prems(4) by (intro disjI1 exI [of _ 0]) simp
    qed
  next
    case (Suc i')
    have "(\<exists>k. int i' = int k + n \<and> ts ! i' - ts ! k < s * 1000) \<or>
      (0 < w_count w' \<and> int i' + w_count w' = n \<and> ts ! i' - w_start_ms w' < s * 1000)"
      by (rule Cons.IH) (use Cons.prems h Suc ok' in auto)
    then show ?thesis
    proof
      assume "\<exists>k. int i' = int k + n \<and> ts ! i' - ts ! k < s * 1000"
      then obtain k where "int i' = int k + n" "ts ! i' - ts ! k < s * 1000" by blast
      then show ?thesis using Suc by (intro disjI1 exI [of _ "Suc k"]) simp
    next
      assume r: "0 < w_count w' \<and> int i' + w_count w' = n \<and> ts ! i' - w_start_ms w' < s * 1000"
      show ?thesis
      proof (cases "window_open w s t")
        case True
        then show ?thesis using r h Suc
          by (auto simp: window_hit_open window_open_def split: if_splits)
      next
        case False
        then have "w' = w\<lparr>w_start_ms := t, w_count := 1\<rparr>"
          using r h by (auto simp: window_hit_fresh split: if_splits)
        then show ?thesis using r Suc by (intro disjI1 exI [of _ 0]) simp
      qed
    qed
  qed
qed simp

text \<open>Within one window at most N events pass; whatever the windows, at most 2N - 1.\<close>

lemma window_quiet_len:
  assumes "True \<notin> set (window_run w n s ts)" "0 < w_count w" "w_count w \<le> n"
    "\<forall>t \<in> set ts. t - w_start_ms w < s * 1000"
  shows "w_count w + int (length ts) \<le> n"
  using assms
proof (induction ts arbitrary: w)
  case (Cons t ts)
  then have "window_open w s t" by (simp add: window_open_def)
  then have step: "window_hit w n s t = (False, w\<lparr>w_count := w_count w + 1\<rparr>)" "w_count w + 1 \<le> n"
    using Cons.prems(1) by (auto simp: window_hit_open split: if_splits)
  then show ?case using Cons.IH [of "w\<lparr>w_count := w_count w + 1\<rparr>"] Cons.prems by simp
qed simp

lemma quiet_run_len:
  assumes "True \<notin> set (window_run w n s ts)" "window_ok n w" "1 \<le> n"
    "\<forall>a \<in> set ts. \<forall>b \<in> set ts. b - a < s * 1000"
  shows "int (length ts) \<le> (if 0 < w_count w then n - w_count w else 0) + n"
  using assms
proof (induction ts arbitrary: w)
  case (Cons t ts)
  show ?case
  proof (cases "window_open w s t")
    case True
    then have step: "window_hit w n s t = (False, w\<lparr>w_count := w_count w + 1\<rparr>)" "w_count w + 1 \<le> n"
      using Cons.prems(1) by (auto simp: window_hit_open split: if_splits)
    have "int (length ts) \<le> (n - (w_count w + 1)) + n"
      using Cons.IH [of "w\<lparr>w_count := w_count w + 1\<rparr>"] Cons.prems step True
      by (auto simp: window_ok_def window_open_def)
    then show ?thesis using True by (simp add: window_open_def)
  next
    case False
    then have step: "window_hit w n s t = (False, w\<lparr>w_start_ms := t, w_count := 1\<rparr>)"
      using Cons.prems(3) by (simp add: window_hit_fresh)
    have "1 + int (length ts) \<le> n"
      using window_quiet_len [of "w\<lparr>w_start_ms := t, w_count := 1\<rparr>" n s ts] Cons.prems step by simp
    then show ?thesis using Cons.prems(2) by (auto simp: window_ok_def)
  qed
qed (simp add: window_ok_def)

lemma window_run_append:
  "window_ok n w \<Longrightarrow> \<exists>w'. window_ok n w' \<and>
     window_run w n s (ts @ us) = window_run w n s ts @ window_run w' n s us"
proof (induction ts arbitrary: w)
  case (Cons t ts)
  show ?case using Cons.IH [OF window_hit_ok [OF Cons.prems, of s t]]
    by (auto split: prod.split)
qed auto

lemma default_window_ok: "0 \<le> n \<Longrightarrow> window_ok n default_window"
  by (simp add: window_ok_def default_window_def)

text \<open>C24: A flood window trips only when the N+1 last events since some event fell in less than S seconds, and
  any 2N events that fall within S seconds hold a trip, whatever came before.\<close>

theorem flood_window_bounds:
  assumes "1 \<le> n" "0 < s"
  shows "(i < length ts \<and> window_run default_window n s ts ! i \<longrightarrow>
      nat n \<le> i \<and> ts ! i - ts ! (i - nat n) < s * 1000) \<and>
    (2 * n \<le> int (length seg) \<and> (\<forall>a \<in> set seg. \<forall>b \<in> set seg. b - a < s * 1000) \<longrightarrow>
      True \<in> set (drop (length before) (window_run default_window n s (before @ seg))))"
proof
  show "i < length ts \<and> window_run default_window n s ts ! i \<longrightarrow>
      nat n \<le> i \<and> ts ! i - ts ! (i - nat n) < s * 1000"
  proof
    assume a: "i < length ts \<and> window_run default_window n s ts ! i"
    then obtain k where "int i = int k + n" "ts ! i - ts ! k < s * 1000"
      using window_run_hit [of default_window n s ts i] assms default_window_ok [of n]
      by (auto simp: default_window_def)
    moreover from this have "k = i - nat n" "nat n \<le> i" using assms by auto
    ultimately show "nat n \<le> i \<and> ts ! i - ts ! (i - nat n) < s * 1000" by simp
  qed
  show "2 * n \<le> int (length seg) \<and> (\<forall>a \<in> set seg. \<forall>b \<in> set seg. b - a < s * 1000) \<longrightarrow>
      True \<in> set (drop (length before) (window_run default_window n s (before @ seg)))"
  proof (rule ccontr)
    assume "\<not> ?thesis"
    then have a: "2 * n \<le> int (length seg)" "\<forall>a \<in> set seg. \<forall>b \<in> set seg. b - a < s * 1000"
      and no: "True \<notin> set (drop (length before) (window_run default_window n s (before @ seg)))"
      by auto
    obtain w where w: "window_ok n w"
      "window_run default_window n s (before @ seg) = window_run default_window n s before @ window_run w n s seg"
      using window_run_append [OF default_window_ok] assms by (metis order.trans zero_le_one)
    have "int (length seg) \<le> (if 0 < w_count w then n - w_count w else 0) + n"
      using quiet_run_len [of w n s seg] no w a assms by simp
    then show False using a(1) assms(1) by (auto split: if_splits)
  qed
qed

lemma flood_window_bounds_witness:
  "window_run default_window 2 10 [0, 1000, 2000] = [False, False, True] \<and>
   (nat 2 \<le> 2 \<and> [0, 1000, 2000::int] ! 2 - [0, 1000, 2000] ! (2 - nat 2) < 10 * 1000) \<and>
   True \<in> set (drop (length [0::int, 500]) (window_run default_window 2 10 ([0, 500] @ [9990, 10200, 10500, 11000])))"
proof -
  have r: "window_run default_window 2 10 [0, 1000, 2000] = [False, False, True]"
    by (simp add: window_hit_def default_window_def Let_def)
  note both = flood_window_bounds [of 2 10 2 "[0, 1000, 2000]" "[9990, 10200, 10500, 11000]" "[0, 500]"]
  have "nat 2 \<le> 2 \<and> [0, 1000, 2000::int] ! 2 - [0, 1000, 2000] ! (2 - nat 2) < 10 * 1000"
    by (rule both [THEN conjunct1, THEN mp]) (simp_all only: r, simp_all)
  moreover have "True \<in> set (drop (length [0::int, 500]) (window_run default_window 2 10 ([0, 500] @ [9990, 10200, 10500, 11000])))"
    by (rule both [THEN conjunct2, THEN mp]) simp_all
  ultimately show ?thesis using r by blast
qed

section \<open>The tracker of a channel\<close>

text \<open>One event: the host, the kind, whether it hurt an authorised member, when.\<close>

type_synonym flood_event = "string \<times> nat \<times> bool \<times> int"

fun track_run :: "(nat \<Rightarrow> int \<times> int) \<Rightarrow> flood_src list \<Rightarrow> flood_event list \<Rightarrow> bool option list" where
  "track_run lim tab [] = []"
| "track_run lim tab ((h, k, v, t) # evs) =
     (case track tab h k v (fst (lim k)) (snd (lim k)) t of
        (r, tab') \<Rightarrow> r # track_run lim tab' evs)"

text \<open>What a source alone would be told of one kind: its own window, and whether an authorised
  member was hurt since its last trip.\<close>

fun lone_run :: "flood_window \<Rightarrow> bool \<Rightarrow> int \<Rightarrow> int \<Rightarrow> flood_event list \<Rightarrow> bool option list" where
  "lone_run w va n s [] = []"
| "lone_run w va n s ((h, k, v, t) # evs) =
     (case window_hit w n s t of
        (hit, w') \<Rightarrow> (if hit then Some (va \<or> v) else None) # lone_run w' (if hit then False else va \<or> v) n s evs)"

definition of_src :: "string \<Rightarrow> nat \<Rightarrow> flood_event \<Rightarrow> bool" where
  "of_src h k ev \<longleftrightarrow> fst ev = h \<and> fst (snd ev) = k"

lemma of_src_simp: "of_src h k (g, j, v, t) \<longleftrightarrow> g = h \<and> j = k"
  by (simp add: of_src_def)

definition answers_of :: "string \<Rightarrow> nat \<Rightarrow> flood_event list \<Rightarrow> bool option list \<Rightarrow> bool option list" where
  "answers_of h k evs rs = map snd (filter (\<lambda>p. of_src h k (fst p)) (zip evs rs))"

definition src_ok :: "flood_src \<Rightarrow> bool" where
  "src_ok f \<longleftrightarrow> length (fsrc_w f) = FL_CHAN_COUNT"

definition pending_victim :: "nat \<Rightarrow> flood_src \<Rightarrow> bool" where
  "pending_victim k f \<longleftrightarrow> bit (fsrc_victim_auth f) k"

lemma kind_bit_test: "(x :: 8 word) AND kind_bit k \<noteq> 0 \<longleftrightarrow> bit x k"
  by (simp add: kind_bit_def bit_iff_and_push_bit_not_eq_0)

lemma kind_bit_bit: "k < 8 \<Longrightarrow> bit (kind_bit k) j \<longleftrightarrow> j = k"
  by (auto simp: kind_bit_def bit_exp_iff)

lemma kind_bit_nz: "k < 8 \<Longrightarrow> kind_bit k \<noteq> 0"
  using kind_bit_bit [of k k] by auto

lemma src_count_key [simp]: "fsrc_host (snd (src_count k v n s t f)) = fsrc_host f"
  by (auto simp: src_count_def Let_def split: prod.split)

lemma src_count_ok: "src_ok f \<Longrightarrow> src_ok (snd (src_count k v n s t f))"
  by (auto simp: src_count_def src_ok_def Let_def split: prod.split)

text \<open>An event of a kind steps that kind's window and victim, and no other's.\<close>

lemma src_count_same:
  assumes "src_ok f" "k < FL_CHAN_COUNT" "window_hit (fsrc_w f ! k) n s t = (hit, w)"
  shows "fst (src_count k v n s t f) = (if hit then Some (pending_victim k f \<or> v) else None)"
    "fsrc_w (snd (src_count k v n s t f)) ! k = w"
    "pending_victim k (snd (src_count k v n s t f)) \<longleftrightarrow> \<not> hit \<and> (pending_victim k f \<or> v)"
  using assms
  by (auto simp: src_count_def src_ok_def pending_victim_def Let_def kind_bit_test FL_CHAN_COUNT_def
      kind_bit_bit kind_bit_nz bit_or_iff bit_and_iff bit_not_iff)

lemma src_count_other:
  assumes "j \<noteq> k" "k < FL_CHAN_COUNT"
  shows "fsrc_w (snd (src_count k v n s t f)) ! j = fsrc_w f ! j"
    "pending_victim j (snd (src_count k v n s t f)) \<longleftrightarrow> pending_victim j f"
  using assms
  by (auto simp: src_count_def pending_victim_def Let_def FL_CHAN_COUNT_def kind_bit_bit
      bit_or_iff bit_and_iff bit_not_iff dest: bit_imp_le_length split: prod.split)

lemma fresh_src_ok [simp]: "src_ok (fresh_src h)" "fsrc_host (fresh_src h) = h"
  by (simp_all add: src_ok_def fresh_src_def default_src_def)

definition tracked :: "string set \<Rightarrow> flood_src list \<Rightarrow> bool" where
  "tracked H tab \<longleftrightarrow> slots_ok fsrc_host tab \<and> length tab = MAX_FLOOD_TRACK \<and>
     set (slot_keys fsrc_host tab) \<subseteq> H \<and> (\<forall>h. h \<noteq> [] \<longrightarrow> src_ok (slot_cur fsrc_host fresh_src tab h))"

text \<open>While the sources fit the tracker, a step is a step of the one source.\<close>

lemma track_step:
  assumes "tracked H tab" "h \<in> H" "h \<noteq> []" "finite H" "card H \<le> MAX_FLOOD_TRACK"
  obtains tab' where "track tab h k v n s t =
      (fst (src_count k v n s t (slot_cur fsrc_host fresh_src tab h)), tab')" "tracked H tab'"
    "\<And>g. g \<noteq> [] \<Longrightarrow> slot_cur fsrc_host fresh_src tab' g =
       (if g = h then snd (src_count k v n s t (slot_cur fsrc_host fresh_src tab h))
        else slot_cur fsrc_host fresh_src tab g)"
proof -
  have ne: "tab \<noteq> []" using assms(1) by (auto simp: tracked_def MAX_FLOOD_TRACK_def)
  obtain tab' where t: "slot_step fsrc_host fsrc_last_ms fresh_src h (src_count k v n s t) tab =
      Some (fst (src_count k v n s t (slot_cur fsrc_host fresh_src tab h)), tab')"
    "slots_ok fsrc_host tab'" "length tab' = length tab" "set (slot_keys fsrc_host tab') \<subseteq> H"
    "\<And>g. g \<noteq> [] \<Longrightarrow> slot_get fsrc_host tab' g =
       (if g = h then Some (snd (src_count k v n s t (slot_cur fsrc_host fresh_src tab h)))
        else slot_get fsrc_host tab g)"
    using srcs.step_with_room [where f = "src_count k v n s t" and tab = tab and key = h and H = H]
      assms ne by (auto simp: tracked_def)
  have cur: "slot_cur fsrc_host fresh_src tab' g =
       (if g = h then snd (src_count k v n s t (slot_cur fsrc_host fresh_src tab h))
        else slot_cur fsrc_host fresh_src tab g)" if "g \<noteq> []" for g
    using t(5) [OF that] by (simp add: slot_cur_def)
  show thesis
    by (rule that [OF _ _ cur])
      (use t assms(1,3) cur in \<open>auto simp: track_def tracked_def src_count_ok\<close>)
qed

lemma track_run_lone:
  assumes "tracked H tab" "finite H" "card H \<le> MAX_FLOOD_TRACK" "k < FL_CHAN_COUNT" "h \<noteq> []"
    "\<forall>(g, j, v, t) \<in> set evs. g \<in> H \<and> g \<noteq> [] \<and> j < FL_CHAN_COUNT"
  shows "answers_of h k evs (track_run lim tab evs) =
    lone_run (fsrc_w (slot_cur fsrc_host fresh_src tab h) ! k)
      (pending_victim k (slot_cur fsrc_host fresh_src tab h)) (fst (lim k)) (snd (lim k))
      (filter (of_src h k) evs)"
  using assms
proof (induction evs arbitrary: tab)
  case Nil
  then show ?case by (simp add: answers_of_def)
next
  case (Cons ev evs)
  obtain g j v t where ev: "ev = (g, j, v, t)" by (metis prod_cases4)
  have g: "g \<in> H" "g \<noteq> []" "j < FL_CHAN_COUNT" using Cons.prems(6) ev by auto
  let ?cur = "slot_cur fsrc_host fresh_src tab"
  obtain tab' where t': "track tab g j v (fst (lim j)) (snd (lim j)) t =
      (fst (src_count j v (fst (lim j)) (snd (lim j)) t (?cur g)), tab')" "tracked H tab'"
    "\<And>f. f \<noteq> [] \<Longrightarrow> slot_cur fsrc_host fresh_src tab' f =
       (if f = g then snd (src_count j v (fst (lim j)) (snd (lim j)) t (?cur g)) else ?cur f)"
    using track_step [OF Cons.prems(1) g(1,2) Cons.prems(2,3)] by blast
  have IH: "answers_of h k evs (track_run lim tab' evs) =
    lone_run (fsrc_w (slot_cur fsrc_host fresh_src tab' h) ! k)
      (pending_victim k (slot_cur fsrc_host fresh_src tab' h)) (fst (lim k)) (snd (lim k))
      (filter (of_src h k) evs)"
    using Cons.IH [OF t'(2) Cons.prems(2-5)] Cons.prems(6) by simp
  show ?case
  proof (cases "g = h \<and> j = k")
    case True
    obtain hit w where w: "window_hit (fsrc_w (?cur h) ! k) (fst (lim k)) (snd (lim k)) t = (hit, w)"
      by (cases "window_hit (fsrc_w (?cur h) ! k) (fst (lim k)) (snd (lim k)) t")
    have "src_ok (?cur h)" using Cons.prems(1,5) by (simp add: tracked_def)
    note same = src_count_same [OF this Cons.prems(4) w, of v]
    show ?thesis
      using True IH t'(1) t'(3) [OF Cons.prems(5)] same w
      by (simp add: ev answers_of_def of_src_simp)
  next
    case False
    have "fsrc_w (slot_cur fsrc_host fresh_src tab' h) ! k = fsrc_w (?cur h) ! k \<and>
      (pending_victim k (slot_cur fsrc_host fresh_src tab' h) \<longleftrightarrow> pending_victim k (?cur h))"
      using False t'(3) [OF Cons.prems(5)] src_count_other [of k j] g(3) by auto
    then show ?thesis using False IH t'(1) by (auto simp: ev answers_of_def of_src_simp)
  qed
qed

text \<open>An empty tracker, as \<open>count_at\<close> makes it.\<close>

definition empty_tracker :: "flood_src list" where
  "empty_tracker = replicate MAX_FLOOD_TRACK default_src"

lemma empty_tracker_get: "h \<noteq> [] \<Longrightarrow> slot_get fsrc_host empty_tracker h = None"
  by (simp add: slot_get_None empty_tracker_def default_src_def)

lemma empty_tracker_ok: "tracked H empty_tracker"
  by (auto simp: tracked_def slots_ok_def slot_keys_def slot_cur_def empty_tracker_get)
    (simp_all add: empty_tracker_def default_src_def)

text \<open>C11: While no more sources than the tracker holds take part, every source is judged, for each kind of
  flood, exactly as if it were alone in its own window: other sources and other kinds, however they
  interleave, never change its answers, nor does a trip forget or invent a hurt authorised member.\<close>

theorem tracker_counts_each_source_alone:
  assumes "card (fst ` set evs) \<le> MAX_FLOOD_TRACK"
    "\<forall>(g, j, v, t) \<in> set evs. g \<noteq> [] \<and> j < FL_CHAN_COUNT" "h \<noteq> []" "k < FL_CHAN_COUNT"
  shows "answers_of h k evs (track_run lim empty_tracker evs) =
    lone_run default_window False (fst (lim k)) (snd (lim k)) (filter (of_src h k) evs)"
proof -
  have "\<forall>(g, j, v, t) \<in> set evs. g \<in> fst ` set evs \<and> g \<noteq> [] \<and> j < FL_CHAN_COUNT"
    using assms(2) by force
  moreover have "fsrc_w (slot_cur fsrc_host fresh_src empty_tracker h) ! k = default_window"
    "\<not> pending_victim k (slot_cur fsrc_host fresh_src empty_tracker h)"
    using assms(3,4)
    by (simp_all add: slot_cur_def empty_tracker_get fresh_src_def default_src_def pending_victim_def)
  ultimately show ?thesis
    using track_run_lone [OF empty_tracker_ok _ assms(1,4,3), of evs lim] by simp
qed

definition demo_events :: "flood_event list" where
  "demo_events = [(''a'', 0, False, 1000), (''b'', 0, True, 1001), (''a'', 0, True, 1002),
     (''b'', 2, False, 1003), (''a'', 0, False, 1004)]"

lemma tracker_counts_each_source_alone_witness:
  "answers_of ''a'' 0 demo_events (track_run (\<lambda>_. (2, 10)) empty_tracker demo_events) = [None, None, Some True]"
proof -
  have "answers_of ''a'' 0 demo_events (track_run (\<lambda>_. (2, 10)) empty_tracker demo_events) =
    lone_run default_window False (fst ((\<lambda>_. (2, 10)) (0::nat) :: int \<times> int)) (snd ((\<lambda>_. (2, 10)) (0::nat) :: int \<times> int))
      (filter (of_src ''a'' 0) demo_events)"
  proof (rule tracker_counts_each_source_alone)
    show "card (fst ` set demo_events) \<le> MAX_FLOOD_TRACK"
      by (rule order.trans [OF card_image_le order.trans [OF card_length]])
        (simp_all add: demo_events_def MAX_FLOOD_TRACK_def)
  qed (simp_all add: demo_events_def FL_CHAN_COUNT_def)
  also have "\<dots> = [None, None, Some True]"
    by (simp add: demo_events_def of_src_simp window_hit_def default_window_def Let_def)
  finally show ?thesis .
qed

section \<open>Commands\<close>

fun cmd_run :: "bot_flood \<Rightarrow> string \<Rightarrow> int \<Rightarrow> int \<Rightarrow> int list \<Rightarrow> cmd_step list \<times> bot_flood" where
  "cmd_run bf uuid n s [] = ([], bf)"
| "cmd_run bf uuid n s (t # ts) =
     (case cmd_count bf uuid n s t of
        (r, bf1) \<Rightarrow> (case cmd_run bf1 uuid n s ts of (rs, bf2) \<Rightarrow> (r # rs, bf2)))"

text \<open>The verdicts of one window, by how many commands came before.\<close>

definition verdict :: "int \<Rightarrow> int \<Rightarrow> cmd_step" where
  "verdict n i = (if i \<ge> 3 * n then Flood3x else if i \<ge> n then Step_Drop (i = n) else Step_Ok)"

definition cmds_ok :: "bot_flood \<Rightarrow> bool" where
  "cmds_ok bf \<longleftrightarrow> slots_ok cf_uuid (bf_cmd_flood bf) \<and> bf_cmd_flood bf \<noteq> []"

abbreviation cmd_cur :: "bot_flood \<Rightarrow> string \<Rightarrow> cmd_flood" where
  "cmd_cur bf uuid \<equiv> slot_cur cf_uuid fresh_cmd (bf_cmd_flood bf) uuid"

lemma cmd_slot_count_key [simp]: "cf_uuid (snd (cmd_slot_count n s t f)) = cf_uuid f"
  by (auto simp: cmd_slot_count_def Let_def)

lemma cmd_count_step:
  assumes "cmds_ok bf" "uuid \<noteq> []"
  obtains bf' where "cmd_count bf uuid n s t = (fst (cmd_slot_count n s t (cmd_cur bf uuid)), bf')"
    "cmds_ok bf'" "cmd_cur bf' uuid = snd (cmd_slot_count n s t (cmd_cur bf uuid))"
    "bf_ignores bf' = bf_ignores bf" "bf_quiet_until_ms bf' = bf_quiet_until_ms bf"
proof -
  have a: "slots_ok cf_uuid (bf_cmd_flood bf)" "bf_cmd_flood bf \<noteq> []" using assms by (simp_all add: cmds_ok_def)
  obtain i where i: "slot_step cf_uuid cf_last_ms fresh_cmd uuid (cmd_slot_count n s t) (bf_cmd_flood bf) =
      Some (fst (cmd_slot_count n s t (cmd_cur bf uuid)),
        (bf_cmd_flood bf)[i := snd (cmd_slot_count n s t (cmd_cur bf uuid))])"
    "i < length (bf_cmd_flood bf)" "cf_uuid (snd (cmd_slot_count n s t (cmd_cur bf uuid))) = uuid"
    "cf_uuid (bf_cmd_flood bf ! i) = uuid \<or> slot_get cf_uuid (bf_cmd_flood bf) uuid = None"
    using cmds.step_cases [where f = "cmd_slot_count n s t", OF a(1) assms(2) a(2)] by auto
  show thesis
    by (rule that [of "bf\<lparr>bf_cmd_flood := (bf_cmd_flood bf)[i := snd (cmd_slot_count n s t (cmd_cur bf uuid))]\<rparr>"])
      (use i a slots_ok_update [OF a(1) i(2,3,4)] slot_get_update [OF a(1) i(2,3) assms(2) i(4) assms(2)]
       in \<open>simp_all add: cmd_count_def cmds_ok_def slot_cur_def\<close>)
qed

lemma cmd_in_window:
  assumes "cmds_ok bf" "uuid \<noteq> []" "1 \<le> n" "w_count (cf_w (cmd_cur bf uuid)) = i" "0 < i"
    "w_start_ms (cf_w (cmd_cur bf uuid)) = t0" "cf_notified (cmd_cur bf uuid) \<longleftrightarrow> n < i"
    "\<forall>t \<in> set ts. t - t0 < s * 1000" "i + int (length ts) \<le> 3 * n + 1"
  shows "fst (cmd_run bf uuid n s ts) = map (\<lambda>j. verdict n (i + int j)) [0..<length ts]"
  using assms
proof (induction ts arbitrary: bf i)
  case (Cons t ts)
  let ?f = "cmd_cur bf uuid"
  obtain bf' where c: "cmd_count bf uuid n s t = (fst (cmd_slot_count n s t ?f), bf')" "cmds_ok bf'"
    "cmd_cur bf' uuid = snd (cmd_slot_count n s t ?f)"
    using cmd_count_step [OF Cons.prems(1,2)] by metis
  have r: "fst (cmd_slot_count n s t ?f) = verdict n i"
    using Cons.prems by (auto simp: cmd_slot_count_def verdict_def Let_def)
  have upt: "map (\<lambda>j. verdict n (i + int j)) [0..<length (t # ts)] =
      verdict n i # map (\<lambda>j. verdict n (i + 1 + int j)) [0..<length ts]"
    by (simp add: upt_conv_Cons map_Suc_upt [symmetric] comp_def ac_simps del: upt_Suc)
  show ?case
  proof (cases ts)
    case Nil
    then show ?thesis using c r upt by (simp add: split_def)
  next
    case (Cons t' ts')
    then have "i < 3 * n" using Cons.prems(9) by simp
    then have "fst (cmd_run bf' uuid n s ts) = map (\<lambda>j. verdict n (i + 1 + int j)) [0..<length ts]"
      using Cons.prems c(2,3) by (intro Cons.IH) (auto simp: cmd_slot_count_def Let_def)
    then show ?thesis using c(1) r upt by (simp add: split_def)
  qed
qed simp

text \<open>C30: In a window of S seconds that a user's first command opens, the first N commands run, the next 2N
  are dropped with the notice due on the first of them only, and the 3N+1th has the user ignored.\<close>

theorem command_window_verdicts:
  assumes "cmds_ok bf" "uuid \<noteq> []" "1 \<le> n" "0 < s"
    "w_count (cf_w (cmd_cur bf uuid)) = 0 \<or> t - w_start_ms (cf_w (cmd_cur bf uuid)) \<ge> s * 1000"
    "\<forall>u \<in> set ts. u - t < s * 1000" "length ts = 3 * nat n"
  shows "fst (cmd_run bf uuid n s (t # ts)) =
    replicate (nat n) Step_Ok @ [Step_Drop True] @ replicate (2 * nat n - 1) (Step_Drop False) @ [Flood3x]"
proof -
  let ?f = "cmd_cur bf uuid"
  obtain bf' where c: "cmd_count bf uuid n s t = (fst (cmd_slot_count n s t ?f), bf')" "cmds_ok bf'"
    "cmd_cur bf' uuid = snd (cmd_slot_count n s t ?f)"
    using cmd_count_step [OF assms(1,2)] by metis
  have f: "fst (cmd_slot_count n s t ?f) = verdict n 0"
    "w_count (cf_w (cmd_cur bf' uuid)) = 1" "w_start_ms (cf_w (cmd_cur bf' uuid)) = t"
    "\<not> cf_notified (cmd_cur bf' uuid)"
    using assms(3,5) unfolding c(3) by (auto simp: cmd_slot_count_def verdict_def Let_def)
  have "fst (cmd_run bf' uuid n s ts) = map (\<lambda>j. verdict n (1 + int j)) [0..<length ts]"
    using assms f c(2) by (intro cmd_in_window) auto
  then have "fst (cmd_run bf uuid n s (t # ts)) = map (\<lambda>j. verdict n (int j)) [0..<length (t # ts)]"
    using c(1) f(1)
    by (simp add: split_def upt_conv_Cons map_Suc_upt [symmetric] comp_def ac_simps del: upt_Suc)
  also have "\<dots> = replicate (nat n) Step_Ok @ [Step_Drop True] @ replicate (2 * nat n - 1) (Step_Drop False) @ [Flood3x]"
    (is "_ = ?r")
  proof (rule nth_equalityI)
    show len: "length (map (\<lambda>j. verdict n (int j)) [0..<length (t # ts)]) = length ?r"
      using assms(3,7) by (simp add: nat_less_iff)
    fix j assume "j < length (map (\<lambda>j. verdict n (int j)) [0..<length (t # ts)])"
    then have j: "j \<le> 3 * nat n" using assms(7) by simp
    consider "j < nat n" | "j = nat n" | "nat n < j" "j < 3 * nat n" | "j = 3 * nat n" using j by linarith
    then show "map (\<lambda>j. verdict n (int j)) [0..<length (t # ts)] ! j = ?r ! j"
      using assms(3,7) by cases (auto simp: verdict_def nth_append nth_Cons' simp del: upt_Suc)
  qed
  finally show ?thesis .
qed

lemma command_window_verdicts_witness:
  "fst (cmd_run default_bot_flood ''u1'' 2 30 [0, 1, 2, 3, 4, 5, 6]) =
    [Step_Ok, Step_Ok, Step_Drop True, Step_Drop False, Step_Drop False, Step_Drop False, Flood3x]"
proof -
  have get: "slot_get cf_uuid (bf_cmd_flood default_bot_flood) ''u1'' = None"
    by (simp add: slot_get_None default_bot_flood_def default_cmd_flood_def)
  have "fst (cmd_run default_bot_flood ''u1'' 2 30 (0 # [1, 2, 3, 4, 5, 6])) =
    replicate (nat 2) Step_Ok @ [Step_Drop True] @ replicate (2 * nat 2 - 1) (Step_Drop False) @ [Flood3x]"
  proof (rule command_window_verdicts)
    show "cmds_ok default_bot_flood"
      by (simp add: cmds_ok_def slots_ok_def slot_keys_def default_bot_flood_def default_cmd_flood_def
          MAX_USER_RECORDS_def)
    show "w_count (cf_w (cmd_cur default_bot_flood ''u1'')) = 0 \<or>
        0 - w_start_ms (cf_w (cmd_cur default_bot_flood ''u1'')) \<ge> 30 * 1000"
      using get by (simp add: slot_cur_def fresh_cmd_def default_cmd_flood_def default_window_def)
  qed simp_all
  then show ?thesis by (simp add: numeral_eq_Suc)
qed

section \<open>The ignore table\<close>

text \<open>What the loop leaves: expired entries freed on the way, and a slot that is free or the key's own.\<close>

definition freed :: "int \<Rightarrow> ignore_ent list \<Rightarrow> ignore_ent list \<Rightarrow> bool" where
  "freed t tab tab' \<longleftrightarrow> length tab' = length tab \<and> (\<forall>j < length tab. tab' ! j = tab ! j \<or>
     (ig_until_ms (tab ! j) \<le> t \<and> tab' ! j = (tab ! j)\<lparr>ig_key := []\<rparr>))"

definition slot_fit :: "string \<Rightarrow> int \<Rightarrow> ignore_ent list \<Rightarrow> nat option \<Rightarrow> bool" where
  "slot_fit key t tab slot \<longleftrightarrow> (\<forall>j. slot = Some j \<longrightarrow> j < length tab \<and>
     (ig_key (tab ! j) = [] \<or> (ig_key (tab ! j) = key \<and> t < ig_until_ms (tab ! j))))"

definition oldest_fit :: "string \<Rightarrow> ignore_ent list \<Rightarrow> nat option \<Rightarrow> bool" where
  "oldest_fit key tab oldest \<longleftrightarrow> (\<forall>j. oldest = Some j \<longrightarrow> j < length tab \<and> ig_key (tab ! j) \<noteq> key)"

lemma freed_refl: "freed t tab tab"
  by (simp add: freed_def)

lemma freed_trans:
  assumes "freed t a b" "freed t b c"
  shows "freed t a c"
  unfolding freed_def
proof (intro conjI allI impI)
  show "length c = length a" using assms by (simp add: freed_def)
  fix j assume "j < length a"
  then have "b ! j = a ! j \<or> (ig_until_ms (a ! j) \<le> t \<and> b ! j = (a ! j)\<lparr>ig_key := []\<rparr>)"
    and "c ! j = b ! j \<or> (ig_until_ms (b ! j) \<le> t \<and> c ! j = (b ! j)\<lparr>ig_key := []\<rparr>)"
    using assms by (simp_all add: freed_def)
  then show "c ! j = a ! j \<or> (ig_until_ms (a ! j) \<le> t \<and> c ! j = (a ! j)\<lparr>ig_key := []\<rparr>)"
    by (elim disjE conjE) simp_all
qed

text \<open>One turn of the loop frees at most the entry it is at.\<close>

definition free_at :: "int \<Rightarrow> nat \<Rightarrow> ignore_ent list \<Rightarrow> ignore_ent list" where
  "free_at t i tab = (if ig_key (tab ! i) \<noteq> [] \<and> ig_until_ms (tab ! i) \<le> t
                      then tab[i := (tab ! i)\<lparr>ig_key := []\<rparr>] else tab)"

lemma free_at_freed: "i < length tab \<Longrightarrow> freed t tab (free_at t i tab)"
  by (auto simp: freed_def free_at_def nth_list_update)

lemma free_at_live: "i < length tab \<Longrightarrow> ig_key (free_at t i tab ! i) \<noteq> [] \<Longrightarrow> t < ig_until_ms (free_at t i tab ! i)"
  by (auto simp: free_at_def split: if_splits)

lemma free_at_fit:
  "i < length tab \<Longrightarrow> slot_fit key t tab s \<Longrightarrow> slot_fit key t (free_at t i tab) s"
  "i < length tab \<Longrightarrow> key \<noteq> [] \<Longrightarrow> oldest_fit key tab ol \<Longrightarrow> oldest_fit key (free_at t i tab) ol"
  by (auto simp: slot_fit_def oldest_fit_def free_at_def nth_list_update)

lemma ignore_scan_spec:
  assumes "ignore_scan key t k i tab slot oldest = (tab', s, ol)" "i + k = length tab" "key \<noteq> []"
    "slot_fit key t tab slot" "oldest_fit key tab oldest"
  shows "freed t tab tab' \<and> slot_fit key t tab' s \<and> oldest_fit key tab' ol"
  using assms
proof (induction k arbitrary: i tab slot oldest)
  case 0
  then show ?case by (auto simp: freed_refl)
next
  case (Suc k)
  let ?tab = "free_at t i tab"
  have i: "i < length tab" using Suc.prems(2) by simp
  have len: "length ?tab = length tab" by (simp add: free_at_def)
  have fit: "slot_fit key t ?tab slot" "oldest_fit key ?tab oldest"
    using free_at_fit [OF i] Suc.prems by auto
  note unfolded = Suc.prems(1) [simplified ignore_scan.simps Let_def free_at_def [symmetric]]
  consider (found) "ig_key (?tab ! i) \<noteq> []" "ig_key (?tab ! i) = key"
    | (free) "ig_key (?tab ! i) = []" | (taken) "ig_key (?tab ! i) \<noteq> []" "ig_key (?tab ! i) \<noteq> key" by blast
  then show ?case
  proof cases
    case found
    then have "tab' = ?tab" "s = Some i" "ol = oldest" using unfolded by simp_all
    then show ?thesis using found fit i len free_at_freed [OF i, of t] free_at_live [OF i, of t]
      by (simp add: slot_fit_def)
  next
    case free
    let ?s = "if slot = None then Some i else slot"
    have "slot_fit key t ?tab ?s" using fit free i len by (simp add: slot_fit_def)
    moreover have "ignore_scan key t k (i + 1) ?tab ?s oldest = (tab', s, ol)" using unfolded free by simp
    ultimately have "freed t ?tab tab' \<and> slot_fit key t tab' s \<and> oldest_fit key tab' ol"
      using fit Suc.prems(2,3) len by (intro Suc.IH) auto
    then show ?thesis using freed_trans free_at_freed i by blast
  next
    case taken
    let ?o = "case oldest of None \<Rightarrow> Some i | Some j \<Rightarrow> if ig_since_ms (?tab ! i) < ig_since_ms (?tab ! j) then Some i else oldest"
    have "oldest_fit key ?tab ?o" using fit taken i len by (auto simp: oldest_fit_def split: option.splits)
    moreover have "ignore_scan key t k (i + 1) ?tab slot ?o = (tab', s, ol)" using unfolded taken by simp
    ultimately have "freed t ?tab tab' \<and> slot_fit key t tab' s \<and> oldest_fit key tab' ol"
      using fit Suc.prems(2,3) len by (intro Suc.IH) auto
    then show ?thesis using freed_trans free_at_freed i by blast
  qed
qed

lemma ignore_scan_some:
  "ignore_scan key t k i tab slot oldest = (tab', s, ol) \<Longrightarrow> 0 < k \<or> slot \<noteq> None \<or> oldest \<noteq> None \<Longrightarrow>
   s \<noteq> None \<or> ol \<noteq> None"
proof (induction k arbitrary: i tab slot oldest s ol)
  case (Suc k)
  have next_none: "sl = None \<and> od = None"
    if "ignore_scan key t k (Suc i) tb sl od = (tab', None, None)" for tb sl od
    using Suc.IH [OF that] by (cases sl; cases od) auto
  have "ignore_scan key t (Suc k) i tab slot oldest \<noteq> (tab', None, None)"
    by (auto simp: Let_def split: if_splits option.splits dest!: next_none)
  then show ?case using Suc.prems(1) by auto
qed simp

text \<open>The outcomes of \<open>ignore_add\<close>: written over a slot that may be taken, or quiet mode.\<close>

lemma ignore_add_cases:
  assumes "key \<noteq> []" "bf_ignores bf \<noteq> []"
  obtains (put) tab i where "ignore_add bf key t ms = (Inr (), ignore_put bf tab i key t ms)"
      "freed t (bf_ignores bf) tab" "i < length tab"
      "ig_key (tab ! i) = [] \<or> (ig_key (tab ! i) = key \<and> t < ig_until_ms (tab ! i)) \<or>
       (ig_key (tab ! i) \<noteq> key \<and> QUIET_FILL_MS < t - ig_since_ms (tab ! i))"
  | (full) tab first where "ignore_add bf key t ms =
      (Inl first, bf\<lparr>bf_ignores := tab, bf_quiet_until_ms := t + ms, bf_quiet_logged := True\<rparr>)"
      "freed t (bf_ignores bf) tab"
proof -
  obtain tab s ol where sc: "ignore_scan key t (length (bf_ignores bf)) 0 (bf_ignores bf) None None = (tab, s, ol)"
    using prod_cases3 by blast
  have spec: "freed t (bf_ignores bf) tab" "slot_fit key t tab s" "oldest_fit key tab ol"
    using ignore_scan_spec [OF sc] assms(1) by (auto simp: slot_fit_def oldest_fit_def)
  show thesis
  proof (cases s)
    case (Some i)
    then show thesis using put [of tab i] spec sc by (auto simp: ignore_add_def slot_fit_def)
  next
    case s: None
    show thesis
    proof (cases ol)
      case None
      then show thesis using ignore_scan_some [OF sc] s assms(2) by simp
    next
      case (Some j)
      show thesis
      proof (cases "t - ig_since_ms (tab ! j) \<le> QUIET_FILL_MS")
        case True
        then show thesis using full [of _ tab] spec sc s Some by (simp add: ignore_add_def)
      next
        case False
        then show thesis using put [of tab j] spec sc s Some by (simp add: ignore_add_def oldest_fit_def)
      qed
    qed
  qed
qed

text \<open>A source is silenced up to time \<open>T\<close> when quiet mode lasts till then, or an entry of its own made
  at \<open>t0\<close> or later does.\<close>

definition silenced :: "string \<Rightarrow> int \<Rightarrow> int \<Rightarrow> bot_flood \<Rightarrow> bool" where
  "silenced h t0 T bf \<longleftrightarrow> bf_ignores bf \<noteq> [] \<and> (T \<le> bf_quiet_until_ms bf \<or>
     (\<exists>e \<in> set (bf_ignores bf). ig_key e = h \<and> t0 \<le> ig_since_ms e \<and> T \<le> ig_until_ms e))"

lemma freed_keeps:
  "freed t tab tab' \<Longrightarrow> e \<in> set tab \<Longrightarrow> t < ig_until_ms e \<Longrightarrow> e \<in> set tab'"
  unfolding freed_def in_set_conv_nth by (metis linorder_not_less)

lemma freed_ne: "freed t tab tab' \<Longrightarrow> tab \<noteq> [] \<Longrightarrow> tab' \<noteq> []"
  by (auto simp: freed_def)

lemma silenced_quiet: "silenced h t0 T bf \<Longrightarrow> t < T \<Longrightarrow> silenced h t0 T (snd (quiet_at bf t))"
  by (auto simp: silenced_def quiet_at_def Let_def)

lemma silenced_quiet_at:
  "silenced h t0 T bf \<Longrightarrow> t < T \<Longrightarrow> h \<noteq> [] \<Longrightarrow> 0 < T \<Longrightarrow> fst (quiet_at bf t) \<or> ignore_find (snd (quiet_at bf t)) h t"
  by (force simp: silenced_def quiet_at_def ignore_find_def Let_def)

lemma silenced_add:
  assumes "silenced h t0 T bf" "key \<noteq> []" "t < T" "T \<le> t0 + QUIET_FILL_MS" "T \<le> t + ms" "h \<noteq> []"
  shows "silenced h t0 T (snd (ignore_add bf key t ms))"
proof -
  have ne: "bf_ignores bf \<noteq> []" using assms(1) by (simp add: silenced_def)
  show ?thesis
  proof (rule ignore_add_cases [OF assms(2) ne, of t ms])
    fix tab i
    assume a: "ignore_add bf key t ms = (Inr (), ignore_put bf tab i key t ms)"
      "freed t (bf_ignores bf) tab" "i < length tab"
      "ig_key (tab ! i) = [] \<or> (ig_key (tab ! i) = key \<and> t < ig_until_ms (tab ! i)) \<or>
       (ig_key (tab ! i) \<noteq> key \<and> QUIET_FILL_MS < t - ig_since_ms (tab ! i))"
    define e' where "e' = (if ig_key (tab ! i) \<noteq> key then (tab ! i)\<lparr>ig_key := key, ig_since_ms := t\<rparr>
       else tab ! i)\<lparr>ig_until_ms := t + ms\<rparr>"
    have tab': "bf_ignores (snd (ignore_add bf key t ms)) = tab[i := e']"
      "bf_quiet_until_ms (snd (ignore_add bf key t ms)) = bf_quiet_until_ms bf"
      by (simp_all add: a(1) ignore_put_def e'_def Let_def)
    show ?thesis
    proof (cases "T \<le> bf_quiet_until_ms bf")
      case True
      then show ?thesis using a(3) tab' by (auto simp: silenced_def)
    next
      case False
      then obtain e where e: "e \<in> set (bf_ignores bf)" "ig_key e = h" "t0 \<le> ig_since_ms e" "T \<le> ig_until_ms e"
        using assms(1) by (auto simp: silenced_def)
      then obtain j where j: "j < length tab" "tab ! j = e"
        using freed_keeps [OF a(2), of e] assms(3) by (auto simp: in_set_conv_nth)
      have "\<exists>x \<in> set (tab[i := e']). ig_key x = h \<and> t0 \<le> ig_since_ms x \<and> T \<le> ig_until_ms x"
      proof (cases "j = i")
        case True
        have "ig_key (tab ! i) = key" using a(4) e j True assms(3,4,6) by auto
        then have "ig_key e' = h \<and> t0 \<le> ig_since_ms e' \<and> T \<le> ig_until_ms e'"
          using e j True assms(5) by (simp add: e'_def)
        then show ?thesis by (rule bexI [OF _ set_update_memI [OF a(3)]])
      next
        case False
        then have "e \<in> set (tab[i := e'])" using j by (metis length_list_update nth_list_update_neq nth_mem)
        then show ?thesis using e by blast
      qed
      then show ?thesis using tab' a(3) by (auto simp: silenced_def)
    qed
  next
    fix tab first
    assume "ignore_add bf key t ms =
      (Inl first, bf\<lparr>bf_ignores := tab, bf_quiet_until_ms := t + ms, bf_quiet_logged := True\<rparr>)"
      "freed t (bf_ignores bf) tab"
    then show ?thesis using assms(5) freed_ne ne by (auto simp: silenced_def)
  qed
qed

lemma silenced_by_add:
  assumes "\<not> ignore_find bf h t0" "h \<noteq> []" "T \<le> t0 + ms" "bf_ignores bf \<noteq> []"
  shows "silenced h t0 T (snd (ignore_add bf h t0 ms))"
proof (rule ignore_add_cases [OF assms(2,4), of t0 ms])
  fix tab i
  assume a: "ignore_add bf h t0 ms = (Inr (), ignore_put bf tab i h t0 ms)"
    "freed t0 (bf_ignores bf) tab" "i < length tab"
    "ig_key (tab ! i) = [] \<or> (ig_key (tab ! i) = h \<and> t0 < ig_until_ms (tab ! i)) \<or>
     (ig_key (tab ! i) \<noteq> h \<and> QUIET_FILL_MS < t0 - ig_since_ms (tab ! i))"
  have "ig_key (tab ! i) \<noteq> h"
  proof
    assume h: "ig_key (tab ! i) = h"
    have len: "length tab = length (bf_ignores bf)" using a(2) by (simp add: freed_def)
    have "tab ! i = bf_ignores bf ! i \<or> tab ! i = (bf_ignores bf ! i)\<lparr>ig_key := []\<rparr>"
      using a(2,3) len by (auto simp: freed_def)
    then have "tab ! i = bf_ignores bf ! i" using h assms(2) by auto
    moreover have "t0 < ig_until_ms (tab ! i)" using a(4) h assms(2) by auto
    ultimately show False
      using assms(1,2) h a(3) len nth_mem [of i "bf_ignores bf"] by (auto simp: ignore_find_def)
  qed
  then have "bf_ignores (snd (ignore_add bf h t0 ms)) =
      tab[i := (tab ! i)\<lparr>ig_key := h, ig_since_ms := t0, ig_until_ms := t0 + ms\<rparr>]"
    by (simp add: a(1) ignore_put_def)
  then have m: "(tab ! i)\<lparr>ig_key := h, ig_since_ms := t0, ig_until_ms := t0 + ms\<rparr>
      \<in> set (bf_ignores (snd (ignore_add bf h t0 ms)))"
    using set_update_memI [OF a(3)] by metis
  then have "bf_ignores (snd (ignore_add bf h t0 ms)) \<noteq> []" by (metis empty_iff list.set(1))
  then show ?thesis using assms(3) unfolding silenced_def
    by (intro conjI disjI2 bexI [OF _ m]) simp_all
next
  fix tab first
  assume "ignore_add bf h t0 ms =
    (Inl first, bf\<lparr>bf_ignores := tab, bf_quiet_until_ms := t0 + ms, bf_quiet_logged := True\<rparr>)"
    "freed t0 (bf_ignores bf) tab"
  then show ?thesis using assms(3,4) freed_ne by (auto simp: silenced_def)
qed

section \<open>Once ignored\<close>

datatype flood_op = Text_op env string | Ctcp_op env string | Check_op env string | Quiet_op env | Cmd_op env nat string

fun flood_call :: "flood_op \<Rightarrow> bot_state \<Rightarrow> bot_state" where
  "flood_call (Text_op e nuh) st = snd (flood_msg e st nuh)"
| "flood_call (Ctcp_op e nuh) st = snd (flood_ctcp e st nuh)"
| "flood_call (Check_op e nuh) st = snd (host_ignored e st nuh)"
| "flood_call (Quiet_op e) st = snd (quiet e st)"
| "flood_call (Cmd_op e who nick) st = snd (flood_cmd e st who nick)"

fun flood_time :: "flood_op \<Rightarrow> int" where
  "flood_time (Text_op e nuh) = e_ms e" | "flood_time (Ctcp_op e nuh) = e_ms e"
| "flood_time (Check_op e nuh) = e_ms e" | "flood_time (Quiet_op e) = e_ms e"
| "flood_time (Cmd_op e who nick) = e_ms e"

text \<open>What every step keeps: the silence of a source, and the network's settings.\<close>

definition mute :: "string \<Rightarrow> int \<Rightarrow> int \<Rightarrow> bot_state \<Rightarrow> bool" where
  "mute h t0 T st \<longleftrightarrow> silenced h t0 T (st_flood st) \<and> 1 \<le> get st None IgnoreTime"

lemma get_net: "st_net_ts st = st_net_ts st' \<Longrightarrow> st_net_set st = st_net_set st' \<Longrightarrow> get st None sid = get st' None sid"
  by (simp add: get_def Let_def)

lemma get_flood_upd [simp]: "get (st\<lparr>st_flood := bf\<rparr>) None sid = get st None sid"
  by (rule get_net) simp_all

lemma mute_core: "core st' = core st \<Longrightarrow> mute h t0 T st' = mute h t0 T st"
  using get_net [of st' st] by (simp add: mute_def core_def)

lemma core_emit_ignore: "core (emit_ignore e st target detail) = core st"
  by (simp add: emit_ignore_def cores split: option.split)

lemma silenced_same:
  "bf_ignores bf' = bf_ignores bf \<Longrightarrow> bf_quiet_until_ms bf' = bf_quiet_until_ms bf \<Longrightarrow>
   silenced h t0 T bf' = silenced h t0 T bf"
  by (simp add: silenced_def)

lemma host_hit_ignores:
  "bf_ignores (snd (host_hit bf host c n s t)) = bf_ignores bf"
  "bf_quiet_until_ms (snd (host_hit bf host c n s t)) = bf_quiet_until_ms bf"
  by (simp_all add: host_hit_def split: option.split prod.split)

lemma cmd_count_ignores:
  "bf_ignores (snd (cmd_count bf uuid n s t)) = bf_ignores bf"
  "bf_quiet_until_ms (snd (cmd_count bf uuid n s t)) = bf_quiet_until_ms bf"
  by (simp_all add: cmd_count_def split: option.split prod.split)

text \<open>Of UTF-8 text (as every Rust string is), that no character has more than three continuation bytes.\<close>

definition char_runs :: "string \<Rightarrow> bool" where
  "char_runs s \<longleftrightarrow> (\<forall>i < length s - 3. \<exists>k \<le> 3. \<not> is_cont (s ! (i + k)))"

lemma char_runs_drop:
  assumes "char_runs s"
  shows "char_runs (drop n s)"
  unfolding char_runs_def
proof (intro allI impI)
  fix i assume i: "i < length (drop n s) - 3"
  then have "n + i < length s - 3" by simp
  then obtain k where k: "k \<le> 3" "\<not> is_cont (s ! (n + i + k))"
    using assms unfolding char_runs_def by blast
  then have "\<not> is_cont (drop n s ! (i + k))" using i by (simp add: add.assoc)
  then show "\<exists>k \<le> 3. \<not> is_cont (drop n s ! (i + k))" using k by blast
qed

lemma ascii_char_runs:
  assumes "ascii s"
  shows "char_runs s"
  unfolding char_runs_def
proof (intro allI impI exI [of _ 0] conjI)
  fix i assume "i < length s - 3"
  then have "s ! i \<in> set s" by simp
  then have "byte (s ! i) < 128" using assms unfolding ascii_def by blast
  then show "\<not> is_cont (s ! (i + 0))" by (simp add: is_cont_def)
qed simp

lemma trunc_ne:
  assumes "char_runs s" "s \<noteq> []" "4 < cap"
  shows "trunc s cap \<noteq> []"
proof (cases "length s \<le> cap - 1")
  case False
  define i where "i = cap - 4"
  have i: "i < length s - 3" "0 < i" "i + 3 = cap - 1" using False assms(3) by (auto simp: i_def)
  obtain k where "k \<le> 3" "\<not> is_cont (s ! (i + k))"
    using assms(1) i(1) unfolding char_runs_def by blast
  then have "is_char_boundary s (i + k)" "i + k \<le> cap - 1" "i + k \<le> length s"
    using i by (auto simp: is_char_boundary_def)
  then have "0 < length (trunc s cap)" using trunc_longest [of "i + k" s cap] i(2) by linarith
  then show ?thesis by simp
qed (simp add: trunc_def assms(2))

lemma src_host_ne: "src_host nuh = Some h \<Longrightarrow> char_runs nuh \<Longrightarrow> h \<noteq> []"
  using trunc_ne [OF char_runs_drop, of nuh _ FLOOD_HOST_MAX]
  by (auto simp: src_host_def Let_def FLOOD_HOST_MAX_def split: option.splits if_splits)

text \<open>A time within the first minute after \<open>t0\<close>, up to \<open>T\<close>.\<close>

definition in_minute :: "int \<Rightarrow> int \<Rightarrow> int \<Rightarrow> bool" where
  "in_minute t0 T t \<longleftrightarrow> t0 \<le> t \<and> t < T \<and> T \<le> t0 + QUIET_FILL_MS"

lemma mute_ignore_source:
  assumes "mute h t0 T st" "key \<noteq> []" "in_minute t0 T t" "h \<noteq> []"
  shows "mute h t0 T (snd (ignore_source st key t))"
proof -
  have "QUIET_FILL_MS \<le> ignore_ms st" using assms(1) by (simp add: mute_def ignore_ms_def QUIET_FILL_MS_def)
  then have "silenced h t0 T (snd (ignore_add (st_flood st) key t (ignore_ms st)))"
    using assms by (intro silenced_add) (auto simp: mute_def in_minute_def)
  then show ?thesis using assms(1)
    by (auto simp: ignore_source_def mute_def split: prod.split sum.split)
qed

lemma mute_host_tripped:
  "mute h t0 T st \<Longrightarrow> g \<noteq> [] \<Longrightarrow> in_minute t0 T t \<Longrightarrow> h \<noteq> [] \<Longrightarrow> mute h t0 T (snd (host_tripped e st g c n s t))"
  using mute_ignore_source [of h t0 T st g t]
  by (auto simp: host_tripped_def Let_def mute_core [OF core_emit_ignore] split: prod.split)

lemma mute_host_flood_at:
  assumes "mute h t0 T st" "in_minute t0 T t" "h \<noteq> []" "char_runs nuh"
  shows "mute h t0 T (snd (host_flood_at e st nuh a kind t))"
proof (cases "src_host nuh")
  case (Some g)
  obtain q bf where q: "quiet_at (st_flood st) t = (q, bf)" by (cases "quiet_at (st_flood st) t")
  have bf: "mute h t0 T (st\<lparr>st_flood := bf\<rparr>)"
    using silenced_quiet [of h t0 T "st_flood st" t] assms q by (simp add: mute_def in_minute_def)
  have hit: "mute h t0 T (st\<lparr>st_flood := snd (host_hit bf g c n s t)\<rparr>)" for c n s
    using bf silenced_same [OF host_hit_ignores] by (simp add: mute_def)
  show ?thesis
    using assms(1) bf hit mute_host_tripped [OF hit src_host_ne [OF Some assms(4)] assms(2,3)]
    by (auto simp: host_flood_at_def Some q Let_def split: option.split prod.split) (metis snd_conv)+
qed (simp add: host_flood_at_def assms(1))

lemma mute_cmd_at:
  assumes "mute h t0 T st" "in_minute t0 T t" "h \<noteq> []"
  shows "mute h t0 T (snd (cmd_at st uuid t))"
proof -
  have c: "mute h t0 T (st\<lparr>st_flood := bf\<rparr>)" if "cmd_count (st_flood st) uuid n s t = (r, bf)" for n s r bf
    using assms silenced_same [OF cmd_count_ignores, of h t0 T "st_flood st" uuid n s t] that
    by (simp add: mute_def)
  show ?thesis
    using assms by (auto simp: cmd_at_def Let_def dest!: c intro!: mute_ignore_source
        split: option.split prod.split cmd_step.split)
qed

lemma mute_quiet_at:
  assumes "mute h t0 T st" "in_minute t0 T t" "quiet_at (st_flood st) t = (q, bf)"
  shows "mute h t0 T (st\<lparr>st_flood := bf\<rparr>)"
  using silenced_quiet [of h t0 T "st_flood st" t] assms by (simp add: mute_def in_minute_def)

text \<open>The text of an operation is text.\<close>

fun flood_nuh :: "flood_op \<Rightarrow> string" where
  "flood_nuh (Text_op e nuh) = nuh" | "flood_nuh (Ctcp_op e nuh) = nuh"
| "flood_nuh (Check_op e nuh) = nuh" | "flood_nuh (Quiet_op e) = []" | "flood_nuh (Cmd_op e who nick) = []"

lemma mute_flood_cmd:
  assumes "mute h t0 T st" "in_minute t0 T (e_ms e)" "h \<noteq> []"
  shows "mute h t0 T (snd (flood_cmd e st who nick))"
proof (cases "who < length (st_user_records st)")
  case True
  obtain r n st1 where c: "cmd_at st (u_uuid (st_user_records st ! who)) (e_ms e) = ((r, n), st1)"
    by (metis surj_pair)
  then have "mute h t0 T st1" using mute_cmd_at [OF assms, of "u_uuid (st_user_records st ! who)"] by simp
  then show ?thesis
    using True by (simp add: flood_cmd_def Let_def c mute_core [OF core_emit_ignore] mute_core [OF core_ircf])
qed (simp add: flood_cmd_def assms)

lemma mute_flood_call:
  assumes "mute h t0 T st" "in_minute t0 T (flood_time fop)" "h \<noteq> []" "char_runs (flood_nuh fop)"
  shows "mute h t0 T (flood_call fop st)"
proof (cases fop)
  case (Check_op e nuh)
  then show ?thesis using assms mute_quiet_at [OF assms(1), of "e_ms e"]
    by (auto simp: host_ignored_def split: option.split prod.split)
next
  case (Quiet_op e)
  then show ?thesis using assms mute_quiet_at [OF assms(1), of "e_ms e"]
    by (auto simp: quiet_def split: prod.split)
qed (use assms mute_flood_cmd mute_host_flood_at in
      \<open>simp_all add: flood_msg_def flood_ctcp_def msg_at_def ctcp_at_def\<close>)

lemma mute_run:
  "mute h t0 T st \<Longrightarrow> h \<noteq> [] \<Longrightarrow> \<forall>fop \<in> set ops. in_minute t0 T (flood_time fop) \<and> char_runs (flood_nuh fop) \<Longrightarrow>
   mute h t0 T (fold flood_call ops st)"
  by (induction ops arbitrary: st) (auto intro: mute_flood_call)

text \<open>A silenced source is answered nothing.\<close>

lemma mute_answers:
  assumes "mute h t0 T st" "in_minute t0 T (e_ms e)" "0 \<le> t0" "src_host nuh = Some h" "h \<noteq> []"
    "\<not> is_authorised st nuh"
  shows "fst (flood_msg e st nuh) = Bf_Ignore \<and> fst (flood_ctcp e st nuh) = Bf_Ignore \<and> fst (host_ignored e st nuh)"
proof -
  obtain q bf where q: "quiet_at (st_flood st) (e_ms e) = (q, bf)" by (cases "quiet_at (st_flood st) (e_ms e)")
  then have "q \<or> ignore_find bf h (e_ms e)"
    using silenced_quiet_at [of h t0 T "st_flood st" "e_ms e"] assms by (simp add: mute_def in_minute_def)
  then show ?thesis using assms(4,6) q
    by (auto simp: flood_msg_def flood_ctcp_def msg_at_def ctcp_at_def host_flood_at_def host_ignored_def Let_def)
qed

text \<open>A trip silences its source for at least a minute.\<close>

lemma trip_mutes:
  assumes "src_host nuh = Some h" "h \<noteq> []" "fst (host_flood_at e st nuh False kind t) = Bf_Ignore"
    "\<not> fst (quiet_at (st_flood st) t)" "\<not> ignore_find (st_flood st) h t" "bf_ignores (st_flood st) \<noteq> []"
    "1 \<le> get st None IgnoreTime"
  shows "mute h t (t + QUIET_FILL_MS) (snd (host_flood_at e st nuh False kind t))"
proof -
  obtain bf where q: "quiet_at (st_flood st) t = (False, bf)"
    using assms(4) by (cases "quiet_at (st_flood st) t") auto
  have bf: "bf_ignores bf = bf_ignores (st_flood st)"
    using q by (auto simp: quiet_at_def Let_def split: if_splits)
  then have nf: "\<not> ignore_find bf h t" using assms(5) by (simp add: ignore_find_def)
  obtain n s where ns: "get_flood (st\<lparr>st_flood := bf\<rparr>) None kind = Some (n, s)"
    using assms(3) by (cases "get_flood (st\<lparr>st_flood := bf\<rparr>) None kind")
      (auto simp: host_flood_at_def assms(1) q nf Let_def)
  obtain hit bf2 where h: "host_hit bf h (kind = BotCtcp) n s t = (hit, bf2)"
    by (cases "host_hit bf h (kind = BotCtcp) n s t")
  define st2 where "st2 = st\<lparr>st_flood := bf2\<rparr>"
  have hit and res: "host_flood_at e st nuh False kind t = host_tripped e st2 h (kind = BotCtcp) n s t"
    using assms(3) by (auto simp: host_flood_at_def assms(1) q nf ns h Let_def st2_def split: if_splits)
  have bf2: "bf_ignores bf2 = bf_ignores (st_flood st)"
    using host_hit_ignores(1) [of bf h "kind = BotCtcp" n s t] h bf by simp
  have "QUIET_FILL_MS \<le> ignore_ms st2"
    using assms(7) by (simp add: ignore_ms_def QUIET_FILL_MS_def st2_def)
  then have sil: "silenced h t (t + QUIET_FILL_MS) (snd (ignore_add bf2 h t (ignore_ms st2)))"
    using silenced_by_add [of bf2 h t] assms(2,5,6) bf2 by (simp add: ignore_find_def)
  have "mute h t (t + QUIET_FILL_MS) (snd (ignore_source st2 h t))"
    using sil assms(7) by (auto simp: ignore_source_def mute_def st2_def split: prod.split sum.split)
  then show ?thesis
    by (auto simp: res host_tripped_def Let_def mute_core [OF core_emit_ignore] split: prod.split)
qed

text \<open>C14: Once a flood of messages, or of CTCPs, from a host has tripped its limit, no unauthorised sender on that
  host is answered within the next minute, to messages or CTCPs, whatever other sources do
  meanwhile -- filling the ignore table included.\<close>

theorem flooder_gets_no_answer:
  assumes "src_host nuh = Some h" "char_runs nuh" "\<not> is_authorised st nuh" "0 \<le> e_ms e"
    "event = flood_msg \<or> event = flood_ctcp"
    "fst (event e st nuh) = Bf_Ignore" "\<not> fst (host_ignored e st nuh)"
    "bf_ignores (st_flood st) \<noteq> []" "1 \<le> get st None IgnoreTime"
    "\<forall>fop \<in> set ops. in_minute (e_ms e) (e_ms e + QUIET_FILL_MS) (flood_time fop) \<and> char_runs (flood_nuh fop)"
    "in_minute (e_ms e) (e_ms e + QUIET_FILL_MS) (e_ms e')"
    "src_host nuh' = Some h" "st' = fold flood_call ops (snd (event e st nuh))" "\<not> is_authorised st' nuh'"
  shows "fst (flood_msg e' st' nuh') = Bf_Ignore \<and> fst (flood_ctcp e' st' nuh') = Bf_Ignore \<and>
    fst (host_ignored e' st' nuh')"
proof -
  have h: "h \<noteq> []" by (rule src_host_ne [OF assms(1,2)])
  have "\<not> fst (quiet_at (st_flood st) (e_ms e)) \<and> \<not> ignore_find (st_flood st) h (e_ms e)"
    using assms(7,1,3) by (auto simp: host_ignored_def quiet_at_def ignore_find_def Let_def split: if_splits)
  then have "mute h (e_ms e) (e_ms e + QUIET_FILL_MS) (snd (event e st nuh))"
    using trip_mutes [OF assms(1) h] assms(3,5,6,8,9)
    by (auto simp: flood_msg_def msg_at_def flood_ctcp_def ctcp_at_def)
  then have "mute h (e_ms e) (e_ms e + QUIET_FILL_MS) st'"
    unfolding assms(13) by (rule mute_run [OF _ h assms(10)])
  then show ?thesis by (rule mute_answers [OF _ assms(11,4,12) h assms(14)])
qed

definition demo_flooded :: bot_state where
  "demo_flooded = lean_bot\<lparr>st_flood :=
     \<lparr>bf_ignores = [default_ignore], bf_quiet_until_ms = 0, bf_quiet_logged = False,
      bf_host_flood = [default_host_flood\<lparr>hf_host := ''h'', hf_msg := \<lparr>w_start_ms = 500, w_count = 5\<rparr>\<rparr>],
      bf_cmd_flood = [default_cmd_flood]\<rparr>\<rparr>"

definition demo_flood_ops :: "flood_op list" where
  "demo_flood_ops = [Text_op (calm_env 2) ''x!u@k'', Quiet_op (calm_env 3)]"

lemma flooder_gets_no_answer_witness:
  "fst (flood_msg (calm_env 30) (fold flood_call demo_flood_ops (snd (flood_msg (calm_env 1) demo_flooded ''n!u@h''))) ''z!v@h'')
    = Bf_Ignore"
proof -
  have runs: "char_runs ''n!u@h''" "char_runs ''x!u@k''" "char_runs []"
    by (auto intro!: ascii_char_runs simp: ascii_def byte_def)
  have "fst (flood_msg (calm_env 30) (fold flood_call demo_flood_ops (snd (flood_msg (calm_env 1) demo_flooded ''n!u@h''))) ''z!v@h'')
    = Bf_Ignore \<and>
    fst (flood_ctcp (calm_env 30) (fold flood_call demo_flood_ops (snd (flood_msg (calm_env 1) demo_flooded ''n!u@h''))) ''z!v@h'')
    = Bf_Ignore \<and>
    fst (host_ignored (calm_env 30) (fold flood_call demo_flood_ops (snd (flood_msg (calm_env 1) demo_flooded ''n!u@h''))) ''z!v@h'')"
  proof (rule flooder_gets_no_answer [where h = "''h''" and e = "calm_env 1" and ops = demo_flood_ops and event = flood_msg])
    show "src_host ''n!u@h'' = Some ''h''" "src_host ''z!v@h'' = Some ''h''" by code_simp+
    show "\<not> is_authorised demo_flooded ''n!u@h''" by code_simp
    show "fst (flood_msg (calm_env 1) demo_flooded ''n!u@h'') = Bf_Ignore" by code_simp
    show "\<not> fst (host_ignored (calm_env 1) demo_flooded ''n!u@h'')" by code_simp
    show "bf_ignores (st_flood demo_flooded) \<noteq> []" "1 \<le> get demo_flooded None IgnoreTime" by code_simp+
    show "\<not> is_authorised (fold flood_call demo_flood_ops (snd (flood_msg (calm_env 1) demo_flooded ''n!u@h''))) ''z!v@h''"
      by code_simp
  qed (use runs in \<open>simp_all add: demo_flood_ops_def in_minute_def calm_env_def QUIET_FILL_MS_def\<close>)
  then show ?thesis by blast
qed

end
