(* ===== verification/ChanModes.thy ===== *)
theory ChanModes
  imports Auth Settings SendQ Frame
begin

text \<open>
  Moving a channel's live modes to the stored ones (\<open>src/src/chanlive.rs\<close>: \<open>sync\<close>, \<open>mode_sync\<close>),
  asking the server for the live state, and the small questions about members.
\<close>

definition chan_at :: "bot_state \<Rightarrow> nat \<Rightarrow> chan option" where
  "chan_at st ci = (if ci < length (st_chans st) then Some (st_chans st ! ci) else None)"

definition live_request :: "env \<Rightarrow> bot_state \<Rightarrow> nat \<Rightarrow> bot_state" where
  "live_request e st ci =
     (let nm = c_name (st_chans st ! ci)
      in ircf e (ircf e st (''MODE '' @ nm)) (''MODE '' @ nm @ '' +b''))"

definition member_authorised :: "bot_state \<Rightarrow> nat \<Rightarrow> string \<Rightarrow> bool \<times> bool" where
  "member_authorised st ci nick =
     (case find (\<lambda>r. eq_ic (r_nick r) nick) (c_roster (st_chans st ! ci)) of
        Some r \<Rightarrow> (True, is_authorised st (r_hostmask r))
      | None \<Rightarrow> (False, False))"

definition bitch_set :: "bot_state \<Rightarrow> nat \<Rightarrow> bool" where
  "bitch_set st ci \<longleftrightarrow> get st (chan_at st ci) Bitch \<noteq> 0"

section \<open>The stored modes\<close>

text \<open>The direction of every letter; a character the bots do not store is an error.\<close>

fun mode_dirs :: "bool \<Rightarrow> string list \<Rightarrow> (char \<Rightarrow> bool option) \<Rightarrow> string + (char \<Rightarrow> bool option)" where
  "mode_dirs adding [] dir = Inr dir"
| "mode_dirs adding (m # ms) dir =
     (if m = ''+'' then mode_dirs True ms dir
      else if m = ''-'' then mode_dirs False ms dir
      else if m \<notin> (\<lambda>c. [c]) ` set ''imnpstkl''
      then Inl (''stored modes hold '' @ [CHR 0x27] @ m @ [CHR 0x27])
      else mode_dirs adding ms (dir(hd m := Some adding)))"

definition stored_limit :: "string option \<Rightarrow> int option" where
  "stored_limit arg =
     (case arg of
        Some a \<Rightarrow> if all_digits a \<and> 1 \<le> parse_small a \<and> parse_small a \<le> 99999 then Some (parse_small a) else None
      | None \<Rightarrow> None)"

text \<open>The stored modes, read: the directions and the limit (0 without +l).\<close>

definition stored_modes :: "string \<Rightarrow> string + (char \<Rightarrow> bool option) \<times> int" where
  "stored_modes spec =
     (if length spec \<ge> 128 then Inl ''stored modes too long''
      else case tok_next '' '' spec of
        (None, _) \<Rightarrow> Inl ''no stored modes''
      | (Some letters, rest) \<Rightarrow>
          (case mode_dirs True (utf8_chars letters) (\<lambda>_. None) of
             Inl err \<Rightarrow> Inl err
           | Inr dir \<Rightarrow>
               if dir (CHR ''l'') = Some True
               then (case stored_limit (fst (tok_next '' '' rest)) of
                       Some v \<Rightarrow> Inr (dir, v) | None \<Rightarrow> Inl ''stored limit is not usable'')
               else Inr (dir, 0)))"

section \<open>The changes\<close>

definition usable_key :: "string \<Rightarrow> bool" where
  "usable_key key \<longleftrightarrow> key \<noteq> [] \<and> set key \<inter> {CHR '' '', CHR '','', CHR 0x0D, CHR 0x0A, CHR 0x09} = {}"

definition flag_change :: "(char \<Rightarrow> bool option) \<Rightarrow> chan \<Rightarrow> char \<Rightarrow> (string \<times> string) list" where
  "flag_change dir c p =
     (case dir p of
        None \<Rightarrow> []
      | Some True \<Rightarrow> if \<not> c_live_known c \<or> \<not> live_has c p then [([CHR ''+'', p], [])] else []
      | Some False \<Rightarrow> if \<not> c_live_known c \<or> live_has c p then [([CHR ''-'', p], [])] else [])"

text \<open>A key the server shows, as one that can be given back to take it off.\<close>

definition shown_key :: "chan \<Rightarrow> bool" where
  "shown_key c \<longleftrightarrow> live_has c (CHR ''k'') \<and> c_live_key c \<noteq> [] \<and> c_live_key c \<noteq> ''*''"

definition key_change :: "bool option \<Rightarrow> chan \<Rightarrow> (string \<times> string) list" where
  "key_change kd c =
     (if kd = Some True \<and> usable_key (c_key c) then
        (if \<not> c_live_known c \<or> \<not> live_has c (CHR ''k'') \<or> c_live_key c \<noteq> c_key c
         then (if shown_key c \<and> c_live_key c \<noteq> c_key c then [(''-k'', c_live_key c)] else []) @ [(''+k'', c_key c)]
         else [])
      else if kd = Some False \<and> c_live_known c \<and> shown_key c then [(''-k'', c_live_key c)]
      else [])"

definition limit_change :: "bool option \<Rightarrow> int \<Rightarrow> chan \<Rightarrow> (string \<times> string) list" where
  "limit_change ld want c =
     (case ld of
        None \<Rightarrow> []
      | Some True \<Rightarrow> if \<not> c_live_known c \<or> \<not> live_has c (CHR ''l'') \<or> c_live_limit c \<noteq> want
                     then [(''+l'', dec_int want)] else []
      | Some False \<Rightarrow> if \<not> c_live_known c \<or> live_has c (CHR ''l'') then [(''-l'', [])] else [])"

definition mode_changes :: "bot_state \<Rightarrow> nat \<Rightarrow> bool \<Rightarrow> bool \<Rightarrow> string + (string \<times> string) list" where
  "mode_changes st ci skip_limit require_known =
     (case stored_modes (get_modes st (chan_at st ci)) of
        Inl err \<Rightarrow> Inl err
      | Inr (dir, want) \<Rightarrow>
          let c = st_chans st ! ci in
          if require_known \<and> \<not> c_live_known c then Inl ''live modes not known yet''
          else Inr (concat (map (flag_change dir c) ''imnpst'') @ key_change (dir (CHR ''k'')) c @
                    limit_change (if skip_limit then None else dir (CHR ''l'')) want c))"

definition mode_line :: "string \<Rightarrow> string \<times> string \<Rightarrow> string" where
  "mode_line nm ch = ''MODE '' @ nm @ '' '' @ fst ch @ (if snd ch = [] then [] else '' '' @ snd ch)"

definition changes_queued :: "nat \<Rightarrow> string" where
  "changes_queued n = dec n @ '' change'' @ (if n = 1 then [] else ''s'') @ '' queued''"

definition mode_sync :: "env \<Rightarrow> bot_state \<Rightarrow> nat \<Rightarrow> bool \<Rightarrow> bool \<Rightarrow> bool \<Rightarrow> (int \<times> string) \<times> bot_state" where
  "mode_sync e st ci skip_limit dry require_known =
     (case mode_changes st ci skip_limit require_known of
        Inl err \<Rightarrow> ((-1, err), st)
      | Inr chs \<Rightarrow>
          ((int (length chs), changes_queued (length chs)),
           if dry then st
           else foldl (\<lambda>s ch. ircf e s (mode_line (c_name (st_chans st ! ci)) ch)) st chs))"

definition modes_sync :: "env \<Rightarrow> bot_state \<Rightarrow> nat \<Rightarrow> bool \<Rightarrow> bool \<Rightarrow> bool \<Rightarrow> (int \<times> string) \<times> bot_state" where
  "modes_sync e st ci skip_limit dry require_known =
     (if dry then mode_sync e st ci skip_limit dry require_known
      else case mode_sync e (hold st) ci skip_limit dry require_known of
             (r, st') \<Rightarrow> (r, release e st'))"

definition apply_stored :: "env \<Rightarrow> bot_state \<Rightarrow> nat \<Rightarrow> (int \<times> string) \<times> bot_state" where
  "apply_stored e st ci = modes_sync e st ci False False False"

end
