(* ===== verification/Version.thy ===== *)
theory Version
  imports CStr
begin

text \<open>
  Comparing version strings (\<open>src/src/updater.rs\<close>: \<open>strverscmp\<close>, \<open>version_cmp\<close>), on which the
  updater's downgrade guard and the election of the acting bot rest.  A missing byte reads as 0.
\<close>

datatype ordering = Less | Equal | Greater

definition cmp_byte :: "nat \<Rightarrow> nat \<Rightarrow> ordering" where
  "cmp_byte a b = (if a < b then Less else if a = b then Equal else Greater)"

definition byte_at :: "string \<Rightarrow> nat \<Rightarrow> nat" where
  "byte_at v i = (if i < length v then byte (v ! i) else 0)"

definition digit_byte :: "nat \<Rightarrow> bool" where
  "digit_byte n \<longleftrightarrow> 48 \<le> n \<and> n \<le> 57"

text \<open>The first index where the two differ; none when they are equal up to a terminator.\<close>

function first_diff :: "string \<Rightarrow> string \<Rightarrow> nat \<Rightarrow> nat option" where
  "first_diff a b i =
     (if byte_at a i = byte_at b i
      then if byte_at a i = 0 then None else first_diff a b (i + 1)
      else Some i)"
  by pat_completeness auto
termination
  by (relation "measure (\<lambda>(a, b, i). length a - i)") (auto simp: byte_at_def split: if_splits)

declare first_diff.simps [simp del]

text \<open>The loop over two runs of digits, the current bytes and the positions after them in hand.\<close>

function digit_runs :: "string \<Rightarrow> string \<Rightarrow> ordering \<Rightarrow> nat \<Rightarrow> nat \<Rightarrow> nat \<Rightarrow> nat \<Rightarrow> ordering" where
  "digit_runs a b state c1 c2 p1 p2 =
     (let state1 = (if state = Equal then cmp_byte c1 c2 else state);
          d1 = digit_byte (byte_at a p1); d2 = digit_byte (byte_at b p2)
      in if \<not> d1 \<and> \<not> d2 then state1
         else if \<not> d1 then Less
         else if \<not> d2 then Greater
         else digit_runs a b state1 (byte_at a p1) (byte_at b p2) (p1 + 1) (p2 + 1))"
  by pat_completeness auto
termination
  by (relation "measure (\<lambda>(a, b, state, c1, c2, p1, p2). length a - p1)")
     (auto simp: byte_at_def digit_byte_def split: if_splits)

declare digit_runs.simps [simp del]

definition strverscmp :: "string \<Rightarrow> string \<Rightarrow> ordering" where
  "strverscmp a b =
     (case first_diff a b 0 of
        None \<Rightarrow> Equal
      | Some i \<Rightarrow>
          if digit_byte (byte_at a i) \<and> digit_byte (byte_at b i)
          then digit_runs a b Equal (byte_at a i) (byte_at b i) (i + 1) (i + 1)
          else cmp_byte (byte_at a i) (byte_at b i))"

definition strip_v :: "string \<Rightarrow> string" where
  "strip_v v = (if v \<noteq> [] \<and> hd v \<in> {CHR ''v'', CHR ''V''} then tl v else v)"

definition version_cmp :: "string \<Rightarrow> string \<Rightarrow> ordering" where
  "version_cmp a b = strverscmp (strip_v a) (strip_v b)"

definition version_eq :: "string \<Rightarrow> string \<Rightarrow> bool" where
  "version_eq a b = eq_ic (strip_v a) (strip_v b)"

section \<open>Released versions compare by their numbers\<close>

text \<open>The loop on what is left of the two strings.\<close>

definition at_digit :: "string \<Rightarrow> bool" where
  "at_digit s \<longleftrightarrow> s \<noteq> [] \<and> is_digit (hd s)"

function run_cmp :: "ordering \<Rightarrow> string \<Rightarrow> string \<Rightarrow> ordering" where
  "run_cmp st a b =
     (if \<not> at_digit a \<and> \<not> at_digit b then st
      else if \<not> at_digit a then Less
      else if \<not> at_digit b then Greater
      else run_cmp (if st = Equal then cmp_byte (byte (hd a)) (byte (hd b)) else st) (tl a) (tl b))"
  by pat_completeness auto
termination
  by (relation "measure (\<lambda>(st, a, b). length a)") (auto simp: at_digit_def)

declare run_cmp.simps [simp del]

lemma digit_byte_at: "digit_byte (byte_at v i) \<longleftrightarrow> at_digit (drop i v)"
  by (auto simp: digit_byte_def byte_at_def at_digit_def hd_drop_conv_nth is_digit_def)

lemma digit_runs_run_cmp:
  "digit_runs a b state c1 c2 p1 p2 = run_cmp (if state = Equal then cmp_byte c1 c2 else state) (drop p1 a) (drop p2 b)"
proof (induction a b state c1 c2 p1 p2 rule: digit_runs.induct)
  case (1 a b state c1 c2 p1 p2)
  show ?case
  proof (cases "at_digit (drop p1 a) \<and> at_digit (drop p2 b)")
    case True
    then have "p1 < length a" "p2 < length b" by (auto simp: at_digit_def)
    then have hd: "byte (hd (drop p1 a)) = byte_at a p1" "byte (hd (drop p2 b)) = byte_at b p2"
      and tl: "tl (drop p1 a) = drop (Suc p1) a" "tl (drop p2 b) = drop (Suc p2) b"
      by (simp_all add: byte_at_def hd_drop_conv_nth drop_Suc tl_drop)
    define state1 where "state1 = (if state = Equal then cmp_byte c1 c2 else state)"
    have dg: "digit_byte (byte_at a p1)" "digit_byte (byte_at b p2)" using True by (simp_all add: digit_byte_at)
    have "digit_runs a b state c1 c2 p1 p2 = digit_runs a b state1 (byte_at a p1) (byte_at b p2) (Suc p1) (Suc p2)"
      using dg by (subst digit_runs.simps) (simp add: Let_def state1_def)
    also have "\<dots> = run_cmp (if state1 = Equal then cmp_byte (byte_at a p1) (byte_at b p2) else state1)
        (drop (Suc p1) a) (drop (Suc p2) b)"
      using 1 [OF state1_def refl refl] dg by simp
    also have "\<dots> = run_cmp state1 (drop p1 a) (drop p2 b)"
      using True by (subst (2) run_cmp.simps) (simp only: hd tl if_False if_True not_True_eq_False simp_thms)
    finally show ?thesis by (simp add: state1_def)
  next
    case False
    then show ?thesis by (subst digit_runs.simps, subst run_cmp.simps) (auto simp: Let_def digit_byte_at)
  qed
qed

lemma run_cmp_lengths:
  "st \<noteq> Equal \<Longrightarrow> list_all is_digit ds \<Longrightarrow> list_all is_digit es \<Longrightarrow> \<not> at_digit r \<Longrightarrow> \<not> at_digit q \<Longrightarrow>
   run_cmp st (ds @ r) (es @ q) =
     (if length ds < length es then Less else if length ds > length es then Greater else st)"
proof (induction ds arbitrary: es)
  case Nil
  then show ?case by (cases es; subst run_cmp.simps) (auto simp: at_digit_def)
next
  case (Cons d ds)
  then show ?case by (cases es; subst run_cmp.simps) (auto simp: at_digit_def)
qed

text \<open>A common beginning does not matter.\<close>

definition no_nul :: "string \<Rightarrow> bool" where
  "no_nul s \<longleftrightarrow> list_all (\<lambda>c. byte c \<noteq> 0) s"

lemma byte_at_append: "byte_at (p @ s) (length p + i) = byte_at s i" "i < length p \<Longrightarrow> byte_at (p @ s) i = byte (p ! i)"
  by (simp_all add: byte_at_def nth_append)

lemma first_diff_shift: "first_diff (p @ a) (p @ b) (length p + i) = map_option (\<lambda>j. length p + j) (first_diff a b i)"
proof (induction a b i rule: first_diff.induct)
  case (1 a b i)
  then show ?case by (subst (1 2) first_diff.simps) (simp add: byte_at_append)
qed

lemma first_diff_skip:
  "no_nul p \<Longrightarrow> i \<le> length p \<Longrightarrow> first_diff (p @ a) (p @ b) i = first_diff (p @ a) (p @ b) (length p)"
proof (induction "length p - i" arbitrary: i)
  case (Suc k)
  then have i: "i < length p" by simp
  then have "byte (p ! i) \<noteq> 0" using Suc.prems(1) by (auto simp: no_nul_def list_all_length)
  then have "first_diff (p @ a) (p @ b) i = first_diff (p @ a) (p @ b) (i + 1)"
    using i by (subst first_diff.simps) (simp add: byte_at_append)
  then show ?case using Suc.hyps(1) [of "i + 1"] Suc.hyps(2) Suc.prems i by simp
qed simp

lemma strverscmp_common:
  assumes "no_nul p"
  shows "strverscmp (p @ a) (p @ b) = strverscmp a b"
proof -
  have "first_diff (p @ a) (p @ b) 0 = map_option (\<lambda>j. length p + j) (first_diff a b 0)"
    using first_diff_skip [OF assms, of 0] first_diff_shift [of p a b 0] by simp
  moreover have "drop (length p + j + 1) (p @ s) = drop (j + 1) s" for j s by simp
  ultimately show ?thesis
    by (cases "first_diff a b 0")
      (simp_all add: strverscmp_def byte_at_append digit_runs_run_cmp del: drop_append)
qed

lemma strverscmp_diff:
  assumes "byte_at a 0 \<noteq> byte_at b 0"
  shows "strverscmp a b =
    (if at_digit a \<and> at_digit b then run_cmp (cmp_byte (byte_at a 0) (byte_at b 0)) (tl a) (tl b)
     else cmp_byte (byte_at a 0) (byte_at b 0))"
  using assms
  by (simp add: strverscmp_def first_diff.simps digit_byte_at digit_runs_run_cmp drop_Suc)

text \<open>Two numbers, each followed by what is no digit and sorts below every digit.\<close>

definition below_digits :: "string \<Rightarrow> bool" where
  "below_digits r \<longleftrightarrow> byte_at r 0 < 48"

lemma below_no_digit: "below_digits r \<Longrightarrow> \<not> at_digit r"
  by (auto simp: below_digits_def at_digit_def byte_at_def is_digit_def hd_conv_nth)

lemma digits_val_append: "digits_val (p @ s) = digits_val p * 10 ^ length s + digits_val s"
  by (induction s rule: rev_induct) (simp_all add: algebra_simps flip: append_assoc)

lemma digits_val_one: "digits_val [d] = digit_val d"
  using digits_val_snoc [of "[]" d] by simp

lemma digits_first:
  assumes "list_all is_digit ds" "list_all is_digit es" "is_digit d" "is_digit e" "d \<noteq> e" "length ds = length es"
  shows "digits_val (d # ds) < digits_val (e # es) \<longleftrightarrow> byte d < byte e"
proof -
  have b: "digits_val ds < 10 ^ length es" "digits_val es < 10 ^ length es"
    using digits_val_bound [of ds] digits_val_bound [of es] assms by (simp_all add: list_all_iff)
  have v: "digits_val (x # xs) = digit_val x * 10 ^ length xs + digits_val xs" for x xs
    using digits_val_append [of "[x]" xs] by (simp add: digits_val_one)
  have lt: "x * k + a < y * k + c" if "x < y" "a < k" for x y a c k :: nat
    using mult_le_mono1 [of "Suc x" y k] that by simp
  have d: "digit_val d < digit_val e \<longleftrightarrow> byte d < byte e" "digit_val d \<noteq> digit_val e"
    using assms(3,4) byte_inject [of d e] assms(5) by (auto simp: digit_val_def is_digit_def simp del: byte_inject)
  show ?thesis
  proof (cases "byte d < byte e")
    case True
    then show ?thesis using lt [of "digit_val d" "digit_val e"] b d by (simp add: v assms(6))
  next
    case False
    then have "digit_val e < digit_val d" using d by linarith
    then show ?thesis
      using lt [of "digit_val e" "digit_val d" "digits_val es" "10 ^ length es" "digits_val ds"] b False
      by (simp add: v assms(6))
  qed
qed

lemma strverscmp_numbers:
  assumes "list_all is_digit ds" "list_all is_digit es" "ds \<noteq> es" "below_digits r" "below_digits q"
  shows "strverscmp (ds @ r) (es @ q) =
    (if length ds < length es then Less else if length ds > length es then Greater
     else if digits_val ds < digits_val es then Less else Greater)"
  using assms
proof (induction ds arbitrary: es)
  case Nil
  then obtain e es' where e: "es = e # es'" by (cases es) auto
  have "byte_at r 0 < byte e" using Nil.prems e by (auto simp: below_digits_def is_digit_def)
  then show ?case
    using Nil.prems e below_no_digit [of r] strverscmp_diff [of r "es @ q"]
    by (simp add: cmp_byte_def byte_at_def [of "e # _"])
next
  case (Cons d ds)
  show ?case
  proof (cases es)
    case Nil
    have "byte_at q 0 < byte d" using Cons.prems Nil by (auto simp: below_digits_def is_digit_def)
    then show ?thesis
      using Cons.prems Nil below_no_digit [of q] strverscmp_diff [of "(d # ds) @ r" q]
      by (simp add: cmp_byte_def byte_at_def [of "d # _"])
  next
    case (Cons e es')
    show ?thesis
    proof (cases "d = e")
      case True
      have "no_nul [d]" using Cons.prems by (auto simp: no_nul_def is_digit_def)
      then have "strverscmp ((d # ds) @ r) (es @ q) = strverscmp (ds @ r) (es' @ q)"
        using strverscmp_common [of "[d]" "ds @ r" "es' @ q"] True Cons by simp
      moreover have "length ds = length es' \<Longrightarrow> digits_val (d # ds) < digits_val es \<longleftrightarrow> digits_val ds < digits_val es'"
        using True Cons digits_val_append [of "[d]" ds] digits_val_append [of "[d]" es'] by simp
      ultimately show ?thesis using Cons.IH [of es'] Cons.prems Cons True by auto
    next
      case False
      have dg: "list_all is_digit ds" "list_all is_digit es'" "is_digit d" "is_digit e"
        using Cons.prems Cons by auto
      have ne: "cmp_byte (byte d) (byte e) \<noteq> Equal" using False by (simp add: cmp_byte_def)
      have "strverscmp ((d # ds) @ r) (es @ q) = run_cmp (cmp_byte (byte d) (byte e)) (ds @ r) (es' @ q)"
        using dg False Cons strverscmp_diff [of "(d # ds) @ r" "es @ q"] by (simp add: byte_at_def at_digit_def)
      also have "\<dots> = (if length ds < length es' then Less else if length ds > length es' then Greater
          else cmp_byte (byte d) (byte e))"
        by (rule run_cmp_lengths [OF ne dg(1,2)]) (use Cons.prems below_no_digit in auto)
      finally show ?thesis using digits_first [OF dg(1,2,3,4) False] Cons False by (simp add: cmp_byte_def)
    qed
  qed
qed

text \<open>A version of dotted numbers, as the releases are numbered.\<close>

definition version_text :: "nat list \<Rightarrow> string" where
  "version_text ns = join_char (CHR ''.'') (map dec ns)"

fun cmp_numbers :: "nat list \<Rightarrow> nat list \<Rightarrow> ordering" where
  "cmp_numbers [] [] = Equal"
| "cmp_numbers [] (y # ys) = Less"
| "cmp_numbers (x # xs) [] = Greater"
| "cmp_numbers (x # xs) (y # ys) =
     (if x < y then Less else if y < x then Greater else cmp_numbers xs ys)"

lemma dec_less_length:
  assumes "length (dec x) < length (dec y)"
  shows "x < y"
proof -
  have "x < 10 ^ length (dec x)" using digits_val_bound [OF dec_digits, of x] by simp
  moreover have "\<not> y < 10 ^ length (dec x)" using length_dec [of y "length (dec x)"] assms by fastforce
  ultimately show ?thesis by simp
qed

lemma dec_inj: "dec x = dec y \<Longrightarrow> x = y"
  by (metis digits_val_dec)

lemma strverscmp_dec:
  assumes "x \<noteq> y" "below_digits r" "below_digits q"
  shows "strverscmp (dec x @ r) (dec y @ q) = (if x < y then Less else Greater)"
proof -
  have "list_all is_digit (dec x)" "list_all is_digit (dec y)" "dec x \<noteq> dec y"
    using dec_digits dec_inj assms(1) by (auto simp: list_all_iff)
  then show ?thesis
    using strverscmp_numbers [of "dec x" "dec y" r q] assms dec_less_length [of x y] dec_less_length [of y x]
    by auto
qed

definition dotted :: "nat list \<Rightarrow> string" where
  "dotted ns = concat (map (\<lambda>n. CHR ''.'' # dec n) ns)"

lemma version_text_Cons: "version_text (n # ns) = dec n @ dotted ns"
proof (induction ns arbitrary: n)
  case (Cons m ns)
  then show ?case by (simp add: version_text_def dotted_def)
qed (simp add: version_text_def dotted_def)

lemma dotted_below: "below_digits (dotted ns)"
  by (cases ns) (simp_all add: below_digits_def dotted_def byte_at_def byte_def)

lemma dec_no_nul: "no_nul (dec n)"
  using dec_digits [of n] by (auto simp: no_nul_def list_all_iff is_digit_def)

lemma strverscmp_dotted: "strverscmp (dotted xs) (dotted ys) = cmp_numbers xs ys"
proof (induction xs ys rule: cmp_numbers.induct)
  case 1
  show ?case by (simp add: dotted_def strverscmp_def first_diff.simps byte_at_def)
next
  case (2 y ys)
  show ?case by (simp add: dotted_def strverscmp_def first_diff.simps byte_at_def digit_byte_def cmp_byte_def byte_def)
next
  case (3 x xs)
  show ?case by (simp add: dotted_def strverscmp_def first_diff.simps byte_at_def digit_byte_def cmp_byte_def byte_def)
next
  case (4 x xs y ys)
  have "strverscmp (dotted (x # xs)) (dotted (y # ys)) = strverscmp (dec x @ dotted xs) (dec y @ dotted ys)"
    using strverscmp_common [of "''.''"] by (simp add: dotted_def no_nul_def byte_def)
  then show ?case
    using 4 strverscmp_dec [OF _ dotted_below dotted_below, of x y] strverscmp_common [OF dec_no_nul, of x]
    by (cases "x = y") auto
qed

lemma letters_no_digits: "\<not> is_digit (CHR ''v'')" "\<not> is_digit (CHR ''V'')"
  by (simp_all add: is_digit_def byte_def)

text \<open>C38: Versions of dotted numbers, with or without a leading v, compare as their lists of numbers do: number
  by number, a longer version after its own beginning.\<close>

theorem version_cmp_numbers:
  assumes "xs \<noteq> []" "ys \<noteq> []" "v \<in> {'''', ''v'', ''V''}" "w \<in> {'''', ''v'', ''V''}"
  shows "version_cmp (v @ version_text xs) (w @ version_text ys) = cmp_numbers xs ys"
proof -
  obtain x xs' y ys' where xy: "xs = x # xs'" "ys = y # ys'" using assms(1,2) by (cases xs; cases ys) auto
  have dg: "is_digit (hd (dec n))" for n using dec_digits [of n] hd_in_set [OF dec_nonempty, of n] by blast
  have no_letter: "hd (dec n) \<noteq> c" if "\<not> is_digit c" for n c using dg [of n] that by blast
  have "dec n \<noteq> [] \<and> hd (dec n) \<noteq> CHR ''v'' \<and> hd (dec n) \<noteq> CHR ''V''" for n
    using no_letter [OF letters_no_digits(1)] no_letter [OF letters_no_digits(2)] by simp
  then have strip: "strip_v (u @ version_text (n # ns)) = version_text (n # ns)"
    if "u \<in> {'''', ''v'', ''V''}" for u n ns
    using that by (auto simp: strip_v_def version_text_Cons)
  have "strverscmp (version_text xs) (version_text ys) = cmp_numbers xs ys"
    using strverscmp_dec [OF _ dotted_below dotted_below, of x y] strverscmp_common [OF dec_no_nul, of x]
      strverscmp_dotted [of xs' ys'] by (cases "x = y") (auto simp: xy version_text_Cons)
  then show ?thesis using strip assms(3,4) by (simp add: version_cmp_def xy)
qed

lemma version_cmp_numbers_witness: "version_cmp ''v2.10.0'' ''2.9.1'' = Greater"
proof -
  have "version_text [2, 10, 0] = ''2.10.0''" "version_text [2, 9, 1] = ''2.9.1''"
    by code_simp+
  then show ?thesis using version_cmp_numbers [of "[2, 10, 0]" "[2, 9, 1]" "''v''" "''''"] by simp
qed

text \<open>With leading zeros the comparison is not the C library's, which reads such a run as a fraction: here
  1.009 comes after 1.10.\<close>

theorem leading_zeros_sort_as_numbers: "strverscmp ''1.009'' ''1.10'' = Greater"
  by (simp add: strverscmp_def first_diff.simps digit_runs.simps byte_at_def byte_def digit_byte_def cmp_byte_def
      nth_Cons' Let_def)

end
