(* ===== verification/Deal.thy ===== *)
theory Deal
  imports ChanModes Auth Version "HOL-Library.List_Lexorder" "HOL-Library.Char_ord"
begin

text \<open>
  The election and the ban masks of \<open>src/src/chanenf.rs\<close>: which of the opped bots in a channel holds
  a job (\<open>deal_rank\<close>), and the mask that bans a user at a given width (\<open>ban_mask\<close>).  Nobody tells
  the bots who acts: every one of them sorts the same eligible bots by the same hash, and the
  theorems show that this gives each job one holder and each backup a place of its own.
\<close>

section \<open>Small helpers\<close>

definition nick_byte :: "char \<Rightarrow> bool" where
  "nick_byte c \<longleftrightarrow> is_alnum c \<or> c \<in> set (''[]'' @ [CHR 0x5C, CHR 0x60] @ ''_^{|}-'')"

definition valid_nick :: "bot_state \<Rightarrow> string \<Rightarrow> bool" where
  "valid_nick st n \<longleftrightarrow> n \<noteq> [] \<and> length n \<le> nicklen (st_isup st) \<and> list_all nick_byte n"

definition safe_token :: "string \<Rightarrow> nat \<Rightarrow> bool" where
  "safe_token s n \<longleftrightarrow> s \<noteq> [] \<and> length s \<le> n \<and> list_all (\<lambda>c. byte c > 0x20 \<and> byte c \<noteq> 0x7f) s"

definition lower_copy :: "string \<Rightarrow> nat \<Rightarrow> string" where
  "lower_copy src dsz = lowers (trunc src dsz)"

definition nuh_nick :: "string \<Rightarrow> string option" where
  "nuh_nick nuh =
     (let n = (case position (\<lambda>c. c = CHR ''!'') nuh of None \<Rightarrow> nuh | Some b \<Rightarrow> take b nuh)
      in if n \<noteq> [] \<and> length n < MAX_MEMBER_NICK then Some n else None)"

definition is_me :: "bot_state \<Rightarrow> string \<Rightarrow> bool" where
  "is_me st nick \<longleftrightarrow> eq_ic nick (st_current_nick st)"

definition rfind :: "chan \<Rightarrow> string \<Rightarrow> nat option" where
  "rfind c nick = position (\<lambda>r. eq_ic (r_nick r) nick) (c_roster c)"

definition rremove :: "string \<Rightarrow> chan \<Rightarrow> chan" where
  "rremove nick c =
     (case rfind c nick of
        Some i \<Rightarrow> c\<lparr>c_roster := take i (c_roster c) @ drop (i + 1) (c_roster c)\<rparr>
      | None \<Rightarrow> c)"

definition roster_set :: "string \<Rightarrow> string \<Rightarrow> bool \<Rightarrow> bool \<Rightarrow> bool \<Rightarrow> chan \<Rightarrow> bool \<times> chan" where
  "roster_set nick hostmask op halfop voice c =
     (if length nick \<ge> MAX_MEMBER_NICK \<or> length hostmask \<ge> MAX_MASK_LEN then (False, c)
      else
        let e = \<lparr>r_nick = nick, r_hostmask = hostmask, r_is_op = op, r_is_halfop = halfop,
                 r_is_voice = voice, r_authorised = False, r_auth_gen = 0\<rparr>
        in case rfind c nick of
             Some i \<Rightarrow> (True, c\<lparr>c_roster := (c_roster c)[i := e]\<rparr>)
           | None \<Rightarrow>
               if length (c_roster c) \<ge> MAX_ROSTER_SIZE then (False, c)
               else (True, c\<lparr>c_roster := c_roster c @ [e]\<rparr>))"

definition live_has_ban :: "chan \<Rightarrow> string \<Rightarrow> bool" where
  "live_has_ban c m \<longleftrightarrow> list_ex (\<lambda>b. eq_ic (lb_mask b) m) (c_bans c)"

definition cset :: "bot_state \<Rightarrow> nat \<Rightarrow> cset_id \<Rightarrow> int" where
  "cset st ci i = get st (chan_at st ci) i"

definition key_managed :: "bot_state \<Rightarrow> nat \<Rightarrow> bool" where
  "key_managed st ci \<longleftrightarrow> cset st ci EnforceModes \<noteq> 0 \<and>
     CHR ''k'' \<in> set (hd (split_char (CHR '' '') (get_modes st (chan_at st ci))))"

section \<open>The deal\<close>

datatype elig = Elig (el_h: "64 word") (el_id: string)

instantiation elig :: linorder
begin

definition less_eq_elig :: "elig \<Rightarrow> elig \<Rightarrow> bool" where
  "less_eq_elig a b \<longleftrightarrow> el_h a < el_h b \<or> el_h a = el_h b \<and> el_id a \<le> el_id b"

definition less_elig :: "elig \<Rightarrow> elig \<Rightarrow> bool" where
  "less_elig a b \<longleftrightarrow> el_h a < el_h b \<or> el_h a = el_h b \<and> el_id a < el_id b"

instance
  by standard (auto simp: less_eq_elig_def less_elig_def intro: elig.expand)

end

definition bot_too_old :: "bot_state \<Rightarrow> string \<Rightarrow> bool" where
  "bot_too_old st i \<longleftrightarrow>
     list_ex (\<lambda>r. tr_kind r \<noteq> CHR ''h'' \<and> tr_uuid r = i \<and> tr_version r \<noteq> [] \<and>
        version_cmp (tr_version r) JOB_MIN_VERSION = Less) (st_bot_tree st)"

definition deal_hash :: "env \<Rightarrow> string \<Rightarrow> string \<Rightarrow> 64 word" where
  "deal_hash e lc_chan i = e_sha e (lc_chan @ i)"

definition elig_add :: "env \<Rightarrow> elig list \<Rightarrow> string \<Rightarrow> string \<Rightarrow> bool \<times> elig list" where
  "elig_add e el lc_chan i =
     (if list_ex (\<lambda>x. el_id x = i) el then (False, el)
      else if length lc_chan + length i > MAX_CHAN + 64 then (False, el)
      else (True, el @ [Elig (deal_hash e lc_chan i) (trunc i 64)]))"

text \<open>Which id a trusted bot takes part under, and this bot's own.\<close>

definition deal_id :: "trusted_bot \<Rightarrow> string" where
  "deal_id tb = (if tb_uuid tb = [] then tb_mask tb else tb_uuid tb)"

definition my_deal_id :: "bot_state \<Rightarrow> string" where
  "my_deal_id st = trunc (if st_bot_uuid st = [] then st_current_nick st else st_bot_uuid st) 64"

fun deal_roster :: "env \<Rightarrow> bot_state \<Rightarrow> string \<Rightarrow> elig list \<Rightarrow> roster_entry list \<Rightarrow> elig list" where
  "deal_roster e st lc el [] = el"
| "deal_roster e st lc el (r # rs) =
     (if length el > MAX_ROSTER_SIZE then el
      else if \<not> r_is_op r \<or> is_me st (r_nick r) then deal_roster e st lc el rs
      else case trusted_bot_by_host st (r_hostmask r) of
             None \<Rightarrow> deal_roster e st lc el rs
           | Some ti \<Rightarrow>
               let i = deal_id (st_trusted_bots st ! ti)
               in if bot_too_old st i then deal_roster e st lc el rs
                  else deal_roster e st lc (snd (elig_add e el lc i)) rs)"

text \<open>The eligible bots, in the order of the deal; none when this bot itself does not fit.\<close>

definition deal_list :: "env \<Rightarrow> bot_state \<Rightarrow> chan \<Rightarrow> elig list option" where
  "deal_list e st c =
     (let lc = lower_copy (c_name c) MAX_CHAN
      in case elig_add e [] lc (my_deal_id st) of
           (False, _) \<Rightarrow> None
         | (True, el) \<Rightarrow> Some (sort (deal_roster e st lc el (c_roster c))))"

definition rposition :: "('a \<Rightarrow> bool) \<Rightarrow> 'a list \<Rightarrow> nat option" where
  "rposition P xs = map_option (\<lambda>i. length xs - 1 - i) (position P (rev xs))"

definition rank_in :: "elig list \<Rightarrow> string \<Rightarrow> nat \<Rightarrow> int" where
  "rank_in el me job =
     (case rposition (\<lambda>x. el_id x = me) el of
        None \<Rightarrow> - 1
      | Some pos \<Rightarrow> let n = length el; primary = job mod n in int ((pos + n - primary) mod n))"

definition deal_rank :: "env \<Rightarrow> bot_state \<Rightarrow> nat \<Rightarrow> nat \<Rightarrow> int" where
  "deal_rank e st ci job =
     (case chan_at st ci of
        None \<Rightarrow> - 1
      | Some c \<Rightarrow>
          if \<not> c_i_am_opped c \<or> job \<ge> JOB_COUNT then - 1
          else case deal_list e st c of None \<Rightarrow> - 1 | Some el \<Rightarrow> rank_in el (my_deal_id st) job)"

section \<open>Ban masks\<close>

definition all_in :: "string \<Rightarrow> string \<Rightarrow> bool" where
  "all_in s cs \<longleftrightarrow> s \<noteq> [] \<and> list_all (\<lambda>c. c \<in> set cs) s"

text \<open>Where the first four groups of an IPv6 address end, from index \<open>i\<close> with \<open>k\<close> colons seen.\<close>

fun v6_cut :: "nat \<Rightarrow> nat \<Rightarrow> string \<Rightarrow> nat option" where
  "v6_cut i k [] = None"
| "v6_cut i k (c # cs) =
     (if c = CHR '':'' then
        if k + 1 < 4 \<and> cs \<noteq> [] \<and> hd cs = CHR '':'' then None
        else if k + 1 = 4 then (if i + 2 > MAX_MASK_LEN - 1 then None else Some i)
        else v6_cut (i + 1) (k + 1) cs
      else v6_cut (i + 1) k cs)"

text \<open>Where the last dot of an IPv4 address is, from index \<open>i\<close>.\<close>

fun v4_cut :: "nat \<Rightarrow> nat \<Rightarrow> nat \<Rightarrow> nat \<Rightarrow> string \<Rightarrow> nat option" where
  "v4_cut i dots dot seg [] =
     (if dots \<noteq> 3 \<or> seg = 0 \<or> seg > 3 \<or> dot + 2 > MAX_MASK_LEN - 1 then None else Some dot)"
| "v4_cut i dots dot seg (c # cs) =
     (if c = CHR ''.'' then
        if seg = 0 \<or> seg > 3 then None else v4_cut (i + 1) (dots + 1) i 0 cs
      else v4_cut (i + 1) dots dot (seg + 1) cs)"

text \<open>The labels of a name, none when one is empty.\<close>

fun host_labels :: "bool \<Rightarrow> nat \<Rightarrow> string \<Rightarrow> nat option" where
  "host_labels start n [] = Some n"
| "host_labels start n (c # cs) =
     (if c = CHR ''.'' then
        if start \<or> cs = [] \<or> hd cs = CHR ''.'' then None else host_labels False (n + 1) cs
      else host_labels False n cs)"

definition widen_host :: "string \<Rightarrow> string" where
  "widen_host host =
     (if CHR ''/'' \<in> set host then host
      else if CHR '':'' \<in> set host then
        (if \<not> all_in host ''0123456789abcdefABCDEF:.'' then host
         else case v6_cut 0 0 host of None \<Rightarrow> host | Some i \<Rightarrow> take (i + 1) host @ ''*'')
      else if all_in host ''0123456789.'' then
        (case v4_cut 0 0 0 0 host of None \<Rightarrow> host | Some i \<Rightarrow> take (i + 1) host @ ''*'')
      else case host_labels True 1 host of
             None \<Rightarrow> host
           | Some n \<Rightarrow>
               if n < 3 then host
               else case position (\<lambda>c. c = CHR ''.'') host of
                      Some d \<Rightarrow> ''*'' @ drop d host
                    | None \<Rightarrow> host)"

text \<open>The pieces of a hostmask, when they are literal text that fits.\<close>

definition literal_piece :: "string \<Rightarrow> bool" where
  "literal_piece p \<longleftrightarrow> safe_token p MAX_MASK_LEN \<and> list_all (\<lambda>c. c \<notin> set ''*?!@,'') p"

definition nuh_parts :: "string \<Rightarrow> (string \<times> string \<times> string) option" where
  "nuh_parts nuh =
     (case position (\<lambda>c. c = CHR ''!'') nuh of
        None \<Rightarrow> None
      | Some bang \<Rightarrow>
          (case position (\<lambda>c. c = CHR ''@'') (drop bang nuh) of
             None \<Rightarrow> None
           | Some k \<Rightarrow>
               let pos = bang + k; nick = take bang nuh;
                   user = take (pos - (bang + 1)) (drop (bang + 1) nuh); host = drop (pos + 1) nuh
               in if pos < bang + 2 then None
                  else if nick = [] \<or> length nick \<ge> MAX_MEMBER_NICK \<or> user = [] \<or> length user \<ge> 64
                    \<or> host = [] \<or> length host \<ge> MAX_MASK_LEN then None
                  else if \<not> list_all literal_piece [nick, user, host] then None
                  else Some (nick, user, host)))"

definition drop_tilde :: "string \<Rightarrow> string" where
  "drop_tilde u = (if u \<noteq> [] \<and> hd u = CHR ''~'' then tl u else u)"

definition ban_mask :: "int \<Rightarrow> string \<Rightarrow> string option" where
  "ban_mask typ nuh =
     (if \<not> (0 \<le> typ \<and> typ \<le> 9) then None
      else case nuh_parts nuh of
             None \<Rightarrow> None
           | Some (nick, user, host) \<Rightarrow>
               let h = (if typ \<in> {3, 4, 8, 9} then widen_host host else host);
                   nk = (if typ \<ge> 5 then nick else ''*'');
                   ubuf = (if typ mod 5 = 0 then user
                           else if typ mod 5 = 1 \<or> typ mod 5 = 3 then ''*'' @ drop_tilde user
                           else ''*'');
                   out = nk @ ''!'' @ ubuf @ ''@'' @ h
               in if length out \<le> BAN_MASK_MAX then Some out else None)"

section \<open>The deal is a permutation\<close>

text \<open>Whom a roster entry stands for in the deal, and the ids a bot deals to.\<close>

definition deal_entry :: "bot_state \<Rightarrow> roster_entry \<Rightarrow> string option" where
  "deal_entry st r =
     (if \<not> r_is_op r \<or> is_me st (r_nick r) then None
      else case trusted_bot_by_host st (r_hostmask r) of
             None \<Rightarrow> None
           | Some ti \<Rightarrow> let i = deal_id (st_trusted_bots st ! ti) in if bot_too_old st i then None else Some i)"

definition eligible :: "bot_state \<Rightarrow> chan \<Rightarrow> string set" where
  "eligible st c = insert (my_deal_id st) (\<Union>r \<in> set (c_roster c). set_option (deal_entry st r))"

abbreviation elig_of :: "env \<Rightarrow> string \<Rightarrow> string \<Rightarrow> elig" where
  "elig_of e lc i \<equiv> Elig (deal_hash e lc i) i"

lemma deal_roster_step:
  "deal_roster e st lc el (r # rs) =
     (if length el > MAX_ROSTER_SIZE then el
      else deal_roster e st lc (case deal_entry st r of None \<Rightarrow> el | Some i \<Rightarrow> snd (elig_add e el lc i)) rs)"
  by (auto simp: deal_entry_def Let_def split: option.split)

lemma elig_add_fits:
  assumes "length i < 64" "length lc \<le> MAX_CHAN"
  shows "snd (elig_add e (map (elig_of e lc) ids) lc i) =
    map (elig_of e lc) (if i \<in> set ids then ids else ids @ [i])"
  using assms by (auto simp: elig_add_def list_ex_iff trunc_id)

lemma deal_roster_ids:
  assumes "length lc \<le> MAX_CHAN" "\<forall>r \<in> set rs. \<forall>i \<in> set_option (deal_entry st r). length i < 64"
    "length ids + length rs \<le> MAX_ROSTER_SIZE + 1" "distinct ids"
  shows "\<exists>ids'. deal_roster e st lc (map (elig_of e lc) ids) rs = map (elig_of e lc) ids' \<and>
    distinct ids' \<and> set ids' = set ids \<union> (\<Union>r \<in> set rs. set_option (deal_entry st r))"
  using assms
proof (induction rs arbitrary: ids)
  case (Cons r rs)
  define ids1 where "ids1 = (case deal_entry st r of None \<Rightarrow> ids | Some i \<Rightarrow> if i \<in> set ids then ids else ids @ [i])"
  have "deal_roster e st lc (map (elig_of e lc) ids) (r # rs) = deal_roster e st lc (map (elig_of e lc) ids1) rs"
    using Cons.prems elig_add_fits [of _ lc e ids]
    unfolding deal_roster_step ids1_def by (auto split: option.split)
  moreover have "distinct ids1" "set ids1 = set ids \<union> set_option (deal_entry st r)"
    using Cons.prems(4) by (auto simp: ids1_def split: option.split)
  moreover have "length ids1 + length rs \<le> MAX_ROSTER_SIZE + 1"
    using Cons.prems(3) by (auto simp: ids1_def split: option.split)
  ultimately show ?case using Cons.IH [of ids1] Cons.prems(1,2) by (auto simp: Un_assoc)
qed (rule exI [of _ ids for ids], simp)

lemma deal_list_sorted:
  assumes "\<forall>i \<in> eligible st c. length i < 64" "length (c_roster c) \<le> MAX_ROSTER_SIZE"
  shows "deal_list e st c =
    Some (sorted_list_of_set (elig_of e (lower_copy (c_name c) MAX_CHAN) ` eligible st c))"
proof -
  define lc where "lc = lower_copy (c_name c) MAX_CHAN"
  have lc: "length lc \<le> MAX_CHAN" using length_trunc [of MAX_CHAN "c_name c"]
    by (simp add: lc_def lower_copy_def limits)
  have me: "length (my_deal_id st) < 64" using assms(1) by (simp add: eligible_def)
  have add: "elig_add e [] lc (my_deal_id st) = (True, map (elig_of e lc) [my_deal_id st])"
    using me lc by (simp add: elig_add_def trunc_id)
  obtain ids where ids: "deal_roster e st lc (map (elig_of e lc) [my_deal_id st]) (c_roster c) = map (elig_of e lc) ids"
      "distinct ids" "set ids = eligible st c"
    using deal_roster_ids [OF lc, of "c_roster c" st "[my_deal_id st]" e] assms
    by (auto simp: eligible_def)
  have "distinct (map (elig_of e lc) ids)"
    using ids(2) by (simp add: distinct_map inj_on_def)
  then have "sort (map (elig_of e lc) ids) = sorted_list_of_set (elig_of e lc ` eligible st c)"
    using sorted_list_of_set_sort_remdups [of "map (elig_of e lc) ids"] ids(3)
    by (simp add: distinct_remdups_id)
  then show ?thesis
    unfolding deal_list_def Let_def lc_def [symmetric] add using ids(1) by simp
qed

lemma rposition_at:
  assumes "distinct (map f xs)" "p < length xs"
  shows "rposition (\<lambda>x. f x = f (xs ! p)) xs = Some p"
proof -
  have "position (\<lambda>x. f x = f (xs ! p)) (rev xs) = Some (length xs - 1 - p)"
  proof (rule position_SomeI)
    show "length xs - 1 - p < length (rev xs)" using assms(2) by simp
    show "f (rev xs ! (length xs - 1 - p)) = f (xs ! p)" using assms(2) by (simp add: rev_nth)
    fix j assume "j < length xs - 1 - p"
    then have "rev xs ! j = xs ! (length xs - 1 - j)" "length xs - 1 - j \<noteq> p" "length xs - 1 - j < length xs"
      using assms(2) by (auto simp: rev_nth)
    then show "f (rev xs ! j) \<noteq> f (xs ! p)"
      using assms nth_eq_iff_index_eq [OF assms(1)] by simp
  qed
  then show ?thesis using assms(2) by (simp add: rposition_def)
qed

lemma rotate_index_inj:
  fixes n k :: nat assumes "k < n"
  shows "inj_on (\<lambda>p. (p + n - k) mod n) {..<n}"
proof (rule inj_onI)
  fix p q assume pq: "p \<in> {..<n}" "q \<in> {..<n}" "(p + n - k) mod n = (q + n - k) mod n"
  have "(p + n - k) mod n = (if p < k then p + n - k else p - k)" if "p < n" for p
    using that assms by (auto simp: mod_if)
  then show "p = q" using pq assms by (auto split: if_splits)
qed

lemma ranks_permute:
  assumes "distinct (map el_id el)" "set (map el_id el) = set ids" "distinct ids" "ids \<noteq> []"
  shows "distinct (map (\<lambda>i. rank_in el i job) ids) \<and>
    set (map (\<lambda>i. rank_in el i job) ids) = int ` {..<length ids}"
proof -
  let ?n = "length el"
  have n: "?n = length ids" using assms distinct_card by (metis length_map)
  then have k: "job mod ?n < ?n" using assms(4) by simp
  let ?r = "\<lambda>p. (p + ?n - job mod ?n) mod ?n"
  have rank: "rank_in el (el_id (el ! p)) job = int (?r p)" if "p < ?n" for p
    using rposition_at [OF assms(1) that] by (simp add: rank_in_def Let_def)
  have at: thesis if "i \<in> set ids" "\<And>p. p < ?n \<Longrightarrow> i = el_id (el ! p) \<Longrightarrow> thesis" for i thesis
  proof -
    have "i \<in> set (map el_id el)" using that(1) assms(2) by simp
    then show thesis using that(2) by (metis in_set_conv_nth length_map nth_map)
  qed
  have inj: "inj_on (\<lambda>i. rank_in el i job) (set ids)"
  proof (rule inj_onI)
    fix i j assume ij: "i \<in> set ids" "j \<in> set ids" "rank_in el i job = rank_in el j job"
    obtain p where p: "p < ?n" "i = el_id (el ! p)" using at [OF ij(1)] .
    obtain q where q: "q < ?n" "j = el_id (el ! q)" using at [OF ij(2)] .
    have "?r p = ?r q" using ij(3) rank [OF p(1)] rank [OF q(1)] p(2) q(2) by simp
    then have "p = q" by (rule inj_onD [OF rotate_index_inj [OF k]]) (use p q in simp_all)
    then show "i = j" using p(2) q(2) by simp
  qed
  have sub: "(\<lambda>i. rank_in el i job) ` set ids \<subseteq> int ` {..<?n}"
  proof (rule image_subsetI)
    fix i assume "i \<in> set ids"
    then obtain p where p: "p < ?n" "i = el_id (el ! p)" by (rule at)
    have "?r p < ?n" using p(1) by (intro mod_less_divisor) auto
    then show "rank_in el i job \<in> int ` {..<?n}" using rank p by blast
  qed
  have "card ((\<lambda>i. rank_in el i job) ` set ids) = card (int ` {..<?n})"
    using card_image [OF inj] distinct_card [OF assms(3)] n by (simp add: card_image)
  then have "(\<lambda>i. rank_in el i job) ` set ids = int ` {..<?n}"
    using card_subset_eq [OF _ sub] by simp
  then show ?thesis using inj assms(3) n by (simp add: distinct_map)
qed

text \<open>C5: The election deals every job to exactly one bot.  Bots that see the same channel, each of them
  opped and eligible in the others' eyes, rank themselves for a job from 0 up, each rank once: one of them
  holds the job, and every backup waits a different time.  They need not agree on anything but whom they see:
  not on the order of their rosters, nor on how they list the trusted bots.\<close>

theorem deal_is_fair:
  assumes "\<forall>(e, st, ci) \<in> set bots. \<exists>c. chan_at st ci = Some c \<and> c_i_am_opped c \<and>
      length (c_roster c) \<le> MAX_ROSTER_SIZE \<and> lowers (c_name c) = lc \<and> length lc < MAX_CHAN \<and> e_sha e = sha \<and>
      eligible st c = (\<lambda>(e, st, ci). my_deal_id st) ` set bots"
    "distinct (map (\<lambda>(e, st, ci). my_deal_id st) bots)" "job < JOB_COUNT" "bots \<noteq> []"
  shows "distinct (map (\<lambda>(e, st, ci). deal_rank e st ci job) bots) \<and>
    set (map (\<lambda>(e, st, ci). deal_rank e st ci job) bots) = int ` {..<length bots}"
proof -
  define ids where "ids = map (\<lambda>(e, st, ci). my_deal_id st) bots"
  define el where "el = sorted_list_of_set ((\<lambda>i. Elig (sha (lc @ i)) i) ` set ids)"
  have short: "\<forall>i \<in> set ids. length i < 64"
    using length_trunc [of 64] by (auto simp: ids_def my_deal_id_def)
  have rank: "deal_rank e st ci job = rank_in el (my_deal_id st) job" if m: "(e, st, ci) \<in> set bots" for e st ci
  proof -
    obtain c where c: "chan_at st ci = Some c" "c_i_am_opped c" "length (c_roster c) \<le> MAX_ROSTER_SIZE"
      "lowers (c_name c) = lc" "length lc < MAX_CHAN" "e_sha e = sha" "eligible st c = set ids"
      using assms(1) [rule_format, OF m] by (auto simp: ids_def)
    have "lower_copy (c_name c) MAX_CHAN = lc"
      using c(4,5) by (auto simp: lower_copy_def trunc_id)
    then have "deal_list e st c = Some el"
      using deal_list_sorted [of st c e] short c by (simp add: el_def deal_hash_def)
    then show ?thesis using c assms(3) by (simp add: deal_rank_def)
  qed
  have el: "set (map el_id el) = set ids" "distinct (map el_id el)"
    by (auto simp: el_def image_image distinct_map inj_on_def)
  have "map (\<lambda>(e, st, ci). deal_rank e st ci job) bots = map (\<lambda>i. rank_in el i job) ids"
    using rank by (auto simp: ids_def)
  then show ?thesis
    using ranks_permute [OF el(2,1) assms(2) [folded ids_def], of job] assms(4)
    by (simp only: ids_def length_map) (simp add: ids_def)
qed

text \<open>Two bots of a channel, each with its own order of the roster.\<close>

definition demo_dealer :: "string \<Rightarrow> string \<Rightarrow> (string \<times> string) list \<Rightarrow> bot_state" where
  "demo_dealer uuid nick members =
     lean_bot\<lparr>st_bot_uuid := uuid, st_current_nick := nick,
        st_trusted_bots := [\<lparr>tb_mask = ''a!*@*.x'', tb_uuid = ''u1'', tb_pub_key = [], tb_has_pub = False, tb_ts = 0\<rparr>,
                            \<lparr>tb_mask = ''b!*@*.x'', tb_uuid = ''u2'', tb_pub_key = [], tb_has_pub = False, tb_ts = 0\<rparr>],
        st_chans := [default_chan\<lparr>c_name := ''#c'', c_i_am_opped := True,
          c_roster := map (\<lambda>(n, h). \<lparr>r_nick = n, r_hostmask = h, r_is_op = True, r_is_halfop = False,
             r_is_voice = False, r_authorised = False, r_auth_gen = 0\<rparr>) members\<rparr>]\<rparr>"

definition demo_dealers :: "(env \<times> bot_state \<times> nat) list" where
  "demo_dealers =
     [(calm_env 0, demo_dealer ''u1'' ''a'' [(''a'', ''a!u@h.x''), (''b'', ''b!u@h.x''), (''c'', ''c!u@h.y'')], 0),
      (calm_env 9, demo_dealer ''u2'' ''b'' [(''c'', ''c!u@h.y''), (''b'', ''b!u@h.x''), (''a'', ''a!u@h.x'')], 0)]"

lemma deal_is_fair_witness:
  "set (map (\<lambda>(e, st, ci). deal_rank e st ci JOB_KICK) demo_dealers) = {0, 1}"
proof -
  have "set (map (\<lambda>(e, st, ci). deal_rank e st ci JOB_KICK) demo_dealers) = int ` {..<length demo_dealers}"
  proof (rule conjunct2 [OF deal_is_fair [where lc = "''#c''" and sha = "\<lambda>_. 0"]])
    show "\<forall>(e, st, ci) \<in> set demo_dealers. \<exists>c. chan_at st ci = Some c \<and> c_i_am_opped c \<and>
      length (c_roster c) \<le> MAX_ROSTER_SIZE \<and> lowers (c_name c) = ''#c'' \<and> length ''#c'' < MAX_CHAN \<and>
      e_sha e = (\<lambda>_. 0) \<and> eligible st c = (\<lambda>(e, st, ci). my_deal_id st) ` set demo_dealers"
      by (simp add: demo_dealers_def demo_dealer_def lean_bot_def bot_new_def chan_at_def default_chan_def calm_env_def limits
        eligible_def deal_entry_def my_deal_id_def is_me_def eq_ic_def trusted_bot_by_host_def strip_ident_tilde_def
        trunc_id bot_too_old_def deal_id_def wildcard_match_glob lowers_def lower_def is_upper_def byte_def sym_ok_def Let_def insert_commute)
    show "distinct (map (\<lambda>(e, st, ci). my_deal_id st) demo_dealers)" by code_simp
  qed (simp_all add: limits demo_dealers_def)
  then show ?thesis by (simp add: demo_dealers_def lessThan_Suc insert_commute)
qed

section \<open>A ban mask matches whom it is for\<close>

lemma glob_literal_append: "star \<notin> set p \<Longrightarrow> glob q t \<Longrightarrow> glob (p @ q) (p @ t)"
  by (induction p) (auto simp: sym_ok_def)

lemma glob_star_skip: "glob q t \<Longrightarrow> glob (star # q) (s @ t)"
  using glob_star_append [of q t s] glob_star [of q t] by (metis drop0 le0)

lemma glob_refl: "star \<notin> set p \<Longrightarrow> glob p p"
  using glob_literal_append [of p "[]" "[]"] by simp

lemma widen_host_matches: "star \<notin> set host \<Longrightarrow> glob (widen_host host) host"
proof -
  assume h: "star \<notin> set host"
  have pre: "glob (take n host @ [star]) host" for n
    using glob_literal_append [of "take n host" "[star]" "drop n host"] h glob_star_skip [of "[]" "[]"]
    by (metis append.right_neutral append_take_drop_id glob.simps(1) in_set_takeD)
  have suf: "glob (star # drop n host) host" for n
    using glob_star_skip [of "drop n host" "drop n host" "take n host"] glob_refl [of "drop n host"] h
    by (metis append_take_drop_id in_set_dropD)
  show ?thesis using pre suf glob_refl [OF h]
    by (auto simp: widen_host_def split: option.splits)
qed

lemma nuh_parts_Some:
  assumes "nuh_parts nuh = Some (nick, user, host)"
  shows "nuh = nick @ ''!'' @ user @ ''@'' @ host" "literal_piece nick" "literal_piece user" "literal_piece host"
proof -
  obtain b k where b: "position (\<lambda>c. c = CHR ''!'') nuh = Some b"
    and k: "position (\<lambda>c. c = CHR ''@'') (drop b nuh) = Some k"
    and p: "\<not> b + k < b + 2" "nick = take b nuh" "user = take (b + k - (b + 1)) (drop (b + 1) nuh)"
      "host = drop (b + k + 1) nuh" "list_all literal_piece [nick, user, host]"
    using assms by (auto simp: nuh_parts_def Let_def split: option.splits if_splits)
  have bl: "b < length nuh" "nuh ! b = CHR ''!''" using position_SomeD [OF b] by simp_all
  have kl: "k < length nuh - b" "nuh ! (b + k) = CHR ''@''" using position_SomeD [OF k] by auto
  have "nuh = take b nuh @ nuh ! b # drop (b + 1) nuh" using id_take_nth_drop [OF bl(1)] bl(2) by simp
  moreover have "drop (b + 1) nuh = take (k - 1) (drop (b + 1) nuh) @ drop (k - 1) (drop (b + 1) nuh)"
    by (rule append_take_drop_id [symmetric])
  moreover have "drop (k - 1) (drop (b + 1) nuh) = nuh ! (b + k) # drop (b + k + 1) nuh"
  proof -
    have "k - 1 + (b + 1) = b + k" using p(1) by simp
    moreover have "b + k < length nuh" using kl(1) bl(1) by simp
    ultimately show ?thesis using Cons_nth_drop_Suc [of "b + k" nuh] by (simp add: add.commute)
  qed
  ultimately have "nuh = take b nuh @ CHR ''!'' # take (k - 1) (drop (b + 1) nuh) @ CHR ''@'' # drop (b + k + 1) nuh"
    using bl kl by (metis)
  then show "nuh = nick @ ''!'' @ user @ ''@'' @ host" using p by simp
  show "literal_piece nick" "literal_piece user" "literal_piece host" using p(5) by simp_all
qed

lemma literal_no_star: "literal_piece p \<Longrightarrow> star \<notin> set p"
  by (auto simp: literal_piece_def list_all_iff)

lemma ident_matches: "star \<notin> set user \<Longrightarrow> glob (''*'' @ drop_tilde user) user"
  using glob_star_skip [of "drop_tilde user" "drop_tilde user" "take (length user - length (drop_tilde user)) user"]
    glob_refl [of "drop_tilde user"]
  by (cases user) (auto simp: drop_tilde_def)

lemma glob_join: "star \<notin> set a \<Longrightarrow> glob p a \<Longrightarrow> glob q t \<Longrightarrow> glob (p @ q) (a @ t)"
proof (induction p a rule: glob.induct)
  case (3 c p x t')
  then show ?case by (auto simp: sym_ok_def)
qed (auto simp: glob_star_skip intro: glob_star_skip [of _ _ "[]", simplified])

lemma glob_joins:
  assumes "glob a x" "glob b y" "glob c z" "star \<notin> set x" "star \<notin> set y"
  shows "glob (a @ ''!'' @ b @ ''@'' @ c) (x @ ''!'' @ y @ ''@'' @ z)"
proof -
  have "glob (''@'' @ c) (''@'' @ z)" using assms(3) by (intro glob_literal_append) simp_all
  then have "glob (b @ ''@'' @ c) (y @ ''@'' @ z)" by (rule glob_join [OF assms(5,2)])
  then have "glob (''!'' @ b @ ''@'' @ c) (''!'' @ y @ ''@'' @ z)" by (intro glob_literal_append) simp_all
  then show ?thesis by (rule glob_join [OF assms(4,1)])
qed

lemma safe_token_append:
  "safe_token (s @ t) n \<longleftrightarrow> s @ t \<noteq> [] \<and> length s + length t \<le> n \<and>
     list_all (\<lambda>c. byte c > 0x20 \<and> byte c \<noteq> 0x7f) s \<and> list_all (\<lambda>c. byte c > 0x20 \<and> byte c \<noteq> 0x7f) t"
  by (auto simp: safe_token_def)

lemma widen_host_bytes: "list_all P host \<Longrightarrow> P star \<Longrightarrow> list_all P (widen_host host)"
  by (auto simp: widen_host_def list_all_iff split: option.splits dest: in_set_takeD in_set_dropD)

lemma ban_mask_fits:
  assumes "ban_mask typ nuh = Some m"
  shows "wildcard_match m nuh" "safe_token m BAN_MASK_MAX"
proof -
  obtain nick user host where parts: "nuh_parts nuh = Some (nick, user, host)"
    using assms by (auto simp: ban_mask_def split: option.splits if_splits)
  note nuh = nuh_parts_Some [OF parts]
  define h where "h = (if typ \<in> {3, 4, 8, 9} then widen_host host else host)"
  define nk where "nk = (if typ \<ge> 5 then nick else ''*'')"
  define ub where "ub = (if typ mod 5 = 0 then user
     else if typ mod 5 = 1 \<or> typ mod 5 = 3 then ''*'' @ drop_tilde user else ''*'')"
  have m: "m = nk @ ''!'' @ ub @ ''@'' @ h" "length m \<le> BAN_MASK_MAX"
    using assms parts by (auto simp: ban_mask_def Let_def h_def nk_def ub_def split: if_splits)
  have star: "glob ''*'' t" for t using glob_star_skip [of "[]" "[]" t] by simp
  have lit: "star \<notin> set nick" "star \<notin> set user" "star \<notin> set host"
    using nuh literal_no_star by blast+
  have "glob nk nick" "glob ub user" "glob h host"
    using lit star glob_refl ident_matches widen_host_matches by (auto simp: nk_def ub_def h_def)
  then show "wildcard_match m nuh"
    unfolding wildcard_match_glob m(1) nuh(1) using lit by (intro glob_joins)
  have b: "list_all (\<lambda>c. byte c > 0x20 \<and> byte c \<noteq> 0x7f) p" if "literal_piece p" for p
    using that by (simp add: literal_piece_def safe_token_def)
  have "list_all (\<lambda>c. byte c > 0x20 \<and> byte c \<noteq> 0x7f) (drop_tilde user)"
    using b [OF nuh(3)] by (cases user) (auto simp: drop_tilde_def)
  then have "list_all (\<lambda>c. byte c > 0x20 \<and> byte c \<noteq> 0x7f) nk" "list_all (\<lambda>c. byte c > 0x20 \<and> byte c \<noteq> 0x7f) ub"
    "list_all (\<lambda>c. byte c > 0x20 \<and> byte c \<noteq> 0x7f) h"
    using b nuh(2-4) by (auto simp: nk_def ub_def h_def byte_def intro!: widen_host_bytes)
  then show "safe_token m BAN_MASK_MAX"
    using m by (auto simp: safe_token_def byte_def)
qed

end
