(* ===== verification/Enf.thy ===== *)
theory Enf
  imports Deal Flood ChanCfg HubOut
begin

text \<open>
  In-channel enforcement (\<open>src/src/chanenf.rs\<close>) up to the election jobs: the cached verdicts on the
  members, the ban masks that spare the authorised, the clocks and memories, the acts (deop, kick,
  ban, ...) and the queue of jobs that backups wait in.  The cells a Rust roster entry caches its
  verdict in are fields here, so a verdict is asked for by a function that returns the new state.
\<close>

section \<open>Who is authorised, cached\<close>

definition fnv_prime :: "64 word" where "fnv_prime = 1099511628211"

definition fp_str :: "64 word \<Rightarrow> string \<Rightarrow> 64 word" where
  "fp_str h s =
     (let h1 = foldl (\<lambda>h b. (h XOR of_nat (byte b)) * fnv_prime) h s in (h1 XOR 0xff) * fnv_prime)"

definition auth_hash :: "bot_state \<Rightarrow> 64 word" where
  "auth_hash st =
     (let h1 = foldl (\<lambda>h tb. fp_str (fp_str h (tb_mask tb)) (tb_uuid tb)) 14695981039346656037 (st_trusted_bots st);
          h2 = foldl (\<lambda>h m. fp_str (fp_str h (m_mask m)) (m_uuid m) + (if m_is_active m then 1 else 0)) h1
                 (st_mask_records st);
          h3 = foldl (\<lambda>h u. fp_str h (u_uuid u) + (if u_is_active u then 1 else 0)) h2 (st_user_records st)
      in h3 * fnv_prime + of_nat (length (st_trusted_bots st)) * 3 + of_nat (length (st_mask_records st)) * 5
           + of_nat (length (st_user_records st)))"

definition next_gen :: "32 word \<Rightarrow> 32 word" where
  "next_gen g = (if g + 1 = 0 then 1 else g + 1)"

definition auth_epoch :: "env \<Rightarrow> bot_state \<Rightarrow> 32 word \<times> bot_state" where
  "auth_epoch e st =
     (if st_auth_gen st \<noteq> 0 \<and> st_auth_seen_cfg_gen st = st_cfg_gen st \<and> e_ms e - st_auth_fp_ms st < 200
      then (st_auth_gen st, st)
      else
        let h = auth_hash st;
            st1 = (if st_auth_gen st = 0 \<or> h \<noteq> st_auth_fp st \<or> st_auth_seen_cfg_gen st \<noteq> st_cfg_gen st
                   then st\<lparr>st_auth_fp := h, st_auth_seen_cfg_gen := st_cfg_gen st,
                           st_auth_gen := next_gen (st_auth_gen st)\<rparr>
                   else st);
            st2 = st1\<lparr>st_auth_fp_ms := e_ms e\<rparr>
        in (st_auth_gen st2, st2))"

definition set_verdict :: "nat \<Rightarrow> bool \<Rightarrow> 32 word \<Rightarrow> chan \<Rightarrow> chan" where
  "set_verdict i a g c = c\<lparr>c_roster := (c_roster c)[i := (c_roster c ! i)\<lparr>r_authorised := a, r_auth_gen := g\<rparr>]\<rparr>"

definition entry_authorised :: "env \<Rightarrow> bot_state \<Rightarrow> nat \<Rightarrow> nat \<Rightarrow> bool \<times> bot_state" where
  "entry_authorised e st ci i =
     (let r = c_roster (st_chans st ! ci) ! i in
      if is_me st (r_nick r) then (True, st)
      else case auth_epoch e st of (g, st1) \<Rightarrow>
        if r_auth_gen r \<noteq> g
        then (let a = is_authorised st1 (r_hostmask r) in (a, upd_chan st1 ci (set_verdict i a g)))
        else (r_authorised r, st1))"

text \<open>The verdict on a nick, false when it is not in the roster.\<close>

definition nick_authorised :: "env \<Rightarrow> bot_state \<Rightarrow> nat \<Rightarrow> string \<Rightarrow> bool \<times> bot_state" where
  "nick_authorised e st ci nick =
     (case rfind (st_chans st ! ci) nick of None \<Rightarrow> (False, st) | Some i \<Rightarrow> entry_authorised e st ci i)"

definition chan_nuh_authorised :: "env \<Rightarrow> bot_state \<Rightarrow> nat \<Rightarrow> string \<Rightarrow> bool \<times> bot_state" where
  "chan_nuh_authorised e st ci nuh =
     (case nuh_nick nuh of
        None \<Rightarrow> (False, st)
      | Some nick \<Rightarrow>
          if is_me st nick then (True, st)
          else case chan_at st ci of
                 None \<Rightarrow> (is_authorised st nuh, st)
               | Some c \<Rightarrow>
                   (case rfind c nick of
                      Some i \<Rightarrow> if eq_ic (r_hostmask (c_roster c ! i)) nuh then entry_authorised e st ci i
                                else (is_authorised st nuh, st)
                    | None \<Rightarrow> (is_authorised st nuh, st)))"

text \<open>The first authorised member a mask matches, of the \<open>k\<close> entries from \<open>i\<close>.\<close>

fun member_hit :: "env \<Rightarrow> nat \<Rightarrow> string \<Rightarrow> nat \<Rightarrow> nat \<Rightarrow> bot_state \<Rightarrow> nat option \<times> bot_state" where
  "member_hit e ci m 0 i st = (None, st)"
| "member_hit e ci m (Suc k) i st =
     (case entry_authorised e st ci i of (a, st1) \<Rightarrow>
        if a \<and> wildcard_match m (r_hostmask (c_roster (st_chans st ! ci) ! i)) then (Some i, st1)
        else member_hit e ci m k (i + 1) st1)"

definition allowed_members :: "env \<Rightarrow> bot_state \<Rightarrow> nat \<Rightarrow> string \<Rightarrow> string option \<times> bot_state" where
  "allowed_members e st ci m =
     (case chan_at st ci of
        None \<Rightarrow> (None, st)
      | Some c \<Rightarrow>
          (case member_hit e ci m (length (c_roster c)) 0 st of
             (hit, st1) \<Rightarrow> (map_option (\<lambda>i. ''member '' @ r_nick (c_roster c ! i)) hit, st1)))"

definition ban_hits_authorised :: "env \<Rightarrow> bot_state \<Rightarrow> nat \<Rightarrow> string \<Rightarrow> bool \<times> bot_state" where
  "ban_hits_authorised e st ci m =
     (case member_hit e ci m (length (c_roster (st_chans st ! ci))) 0 st of (hit, st1) \<Rightarrow> (hit \<noteq> None, st1))"

text \<open>\<open>Inl who\<close> names what the mask would hit.\<close>

definition ban_allowed_why :: "env \<Rightarrow> bot_state \<Rightarrow> nat option \<Rightarrow> string \<Rightarrow> (string + unit) \<times> bot_state" where
  "ban_allowed_why e st ci m =
     (if \<not> safe_token m BAN_MASK_MAX then (Inl ''bad mask'', st)
      else case (case ci of None \<Rightarrow> (None, st) | Some ci \<Rightarrow> allowed_members e st ci m) of
             (Some who, st1) \<Rightarrow> (Inl who, st1)
           | (None, st1) \<Rightarrow>
               ((case mask_overlaps_authorised st1 m of Some who \<Rightarrow> Inl who | None \<Rightarrow> Inr ()), st1))"

definition ban_allowed :: "env \<Rightarrow> bot_state \<Rightarrow> nat \<Rightarrow> string \<Rightarrow> bool \<times> bot_state" where
  "ban_allowed e st ci m = (case ban_allowed_why e st (Some ci) m of (r, st1) \<Rightarrow> (r = Inr (), st1))"

text \<open>The configured type, then the narrowing retries; a type already tried is skipped.\<close>

fun narrow :: "env \<Rightarrow> nat \<Rightarrow> string \<Rightarrow> int list \<Rightarrow> int list \<Rightarrow> bot_state \<Rightarrow> string option \<times> bot_state" where
  "narrow e ci nuh tried [] st = (None, st)"
| "narrow e ci nuh tried (t # ts) st =
     (if t \<in> set tried then narrow e ci nuh (tried @ [t]) ts st
      else case ban_mask t nuh of
             None \<Rightarrow> narrow e ci nuh (tried @ [t]) ts st
           | Some m \<Rightarrow>
               (case ban_allowed e st ci m of
                  (True, st1) \<Rightarrow> (Some m, st1)
                | (False, st1) \<Rightarrow> narrow e ci nuh (tried @ [t]) ts st1))"

definition auto_ban_mask :: "env \<Rightarrow> bot_state \<Rightarrow> nat \<Rightarrow> string \<Rightarrow> string option \<times> bot_state" where
  "auto_ban_mask e st ci nuh = narrow e ci nuh [] [cset st ci BanType, 2, 0, 7, 5] st"

section \<open>Clocks and memories\<close>

text \<open>The scan of \<open>track_get\<close> from index \<open>i\<close>: the entry, or the first free and the longest idle one.\<close>

fun track_scan :: "string \<Rightarrow> string \<Rightarrow> ban_track list \<Rightarrow> nat \<Rightarrow> nat \<Rightarrow> nat option \<Rightarrow> nat option \<Rightarrow>
    nat + nat option \<times> nat option" where
  "track_scan ch m tab 0 i free oldest = Inr (free, oldest)"
| "track_scan ch m tab (Suc k) i free oldest =
     (let tr = tab ! i in
      if bt_chan tr = [] then track_scan ch m tab k (i + 1) (if free = None then Some i else free) oldest
      else if eq_ic (bt_chan tr) ch \<and> eq_ic (bt_mask tr) m then Inl i
      else track_scan ch m tab k (i + 1) free
             (case oldest of None \<Rightarrow> Some i
              | Some o' \<Rightarrow> if bt_last_match tr < bt_last_match (tab ! o') then Some i else oldest))"

definition track_get :: "bot_state \<Rightarrow> string \<Rightarrow> string \<Rightarrow> int \<Rightarrow> nat \<times> bot_state" where
  "track_get st ch m t =
     (let tab = st_ban_track st;
          fresh = default_track\<lparr>bt_chan := trunc ch MAX_CHAN, bt_mask := trunc m (BAN_MASK_MAX + 1),
                    bt_last_match := t\<rparr>
      in case track_scan ch m tab (length tab) 0 None None of
           Inl i \<Rightarrow> (i, st)
         | Inr (Some i, _) \<Rightarrow> (i, st\<lparr>st_ban_track := tab[i := fresh]\<rparr>)
         | Inr (None, oldest) \<Rightarrow>
             if length tab < MAX_BAN_TRACK then (length tab, st\<lparr>st_ban_track := tab @ [fresh]\<rparr>)
             else let i = (case oldest of Some i \<Rightarrow> i | None \<Rightarrow> 0) in (i, st\<lparr>st_ban_track := tab[i := fresh]\<rparr>))"

text \<open>The loop of \<open>offence\<close>: forgotten entries are cleared on the way; \<open>Inl\<close> is the repeat's count.\<close>

fun offence_scan :: "string \<Rightarrow> int \<Rightarrow> int \<Rightarrow> nat \<Rightarrow> nat \<Rightarrow> offence_ent list \<Rightarrow> nat option \<Rightarrow> nat \<Rightarrow>
    (32 word + nat option \<times> nat) \<times> offence_ent list" where
  "offence_scan key t span 0 i tab slot oldest = (Inr (slot, oldest), tab)"
| "offence_scan key t span (Suc k) i tab slot oldest =
     (let tab1 = (if of_key (tab ! i) \<noteq> [] \<and> t - of_when (tab ! i) \<ge> span
                  then tab[i := (tab ! i)\<lparr>of_key := []\<rparr>] else tab);
          en = tab1 ! i
      in if of_key en \<noteq> [] \<and> of_key en = key
         then (Inl (of_count en + 1), tab1[i := en\<lparr>of_count := of_count en + 1, of_when := t\<rparr>])
         else if of_key en = [] then offence_scan key t span k (i + 1) tab1 (if slot = None then Some i else slot) oldest
         else offence_scan key t span k (i + 1) tab1 slot
                (if of_when en < of_when (tab1 ! oldest) then i else oldest))"

definition offence_key :: "string \<Rightarrow> string \<Rightarrow> string" where
  "offence_key ch nuh =
     (let host = (case position (\<lambda>c. c = CHR ''@'') nuh of Some a \<Rightarrow> drop (a + 1) nuh | None \<Rightarrow> nuh)
      in trunc (lower_copy ch MAX_CHAN @ ''|'' @ lower_copy host 120) (MAX_CHAN + 128))"

definition offence :: "env \<Rightarrow> bot_state \<Rightarrow> string \<Rightarrow> string \<Rightarrow> 32 word \<times> bot_state" where
  "offence e st ch nuh =
     (let key = offence_key ch nuh;
          c = (case chan_find st ch of Some i \<Rightarrow> chan_at st i | None \<Rightarrow> None);
          bt = get st c BanTime;
          span = (if bt > 0 then bt * 60 else 86400)
      in case offence_scan key (e_now e) span MAX_OFFENCES 0 (st_offences st) None 0 of
           (Inl n, tab) \<Rightarrow> (n, st\<lparr>st_offences := tab\<rparr>)
         | (Inr (slot, oldest), tab) \<Rightarrow>
             let i = (case slot of Some i \<Rightarrow> i | None \<Rightarrow> oldest)
             in (1, st\<lparr>st_offences := tab[i := \<lparr>of_key = key, of_when = e_now e, of_count = 1\<rparr>]\<rparr>))"

definition RECENT_ACT_MS :: int where [limits]: "RECENT_ACT_MS = 30000"
definition RECENT_BAN_MS :: int where [limits]: "RECENT_BAN_MS = 30000"
definition RECENT_MODE_MS :: int where [limits]: "RECENT_MODE_MS = 10000"

definition recent_check :: "env \<Rightarrow> bot_state \<Rightarrow> string \<Rightarrow> int \<Rightarrow> bool \<Rightarrow> bool \<times> bot_state" where
  "recent_check e st key window record =
     (let t = e_ms e; lk = lower_copy key (MAX_CHAN + 8 + MAX_MASK_LEN) in
      if list_ex (\<lambda>r. er_when_ms r \<noteq> 0 \<and> er_key r = lk \<and> t - er_when_ms r < window) (st_enf_recent st)
      then (True, st)
      else if \<not> record then (False, st)
      else (False, st\<lparr>st_enf_recent := (st_enf_recent st)[st_enf_recent_idx st := \<lparr>er_key = lk, er_when_ms = t\<rparr>],
                      st_enf_recent_idx := (st_enf_recent_idx st + 1) mod ENF_RECENT\<rparr>))"

definition recent_key_of :: "string \<Rightarrow> string \<Rightarrow> string \<Rightarrow> string" where
  "recent_key_of nm act target = trunc (nm @ ''|'' @ act @ ''|'' @ target) (MAX_CHAN + 8 + MAX_MASK_LEN)"

definition recent_key :: "env \<Rightarrow> bot_state \<Rightarrow> string \<Rightarrow> string \<Rightarrow> string \<Rightarrow> int \<Rightarrow> bool \<times> bot_state" where
  "recent_key e st nm act target window = recent_check e st (recent_key_of nm act target) window True"

definition recent_peek :: "env \<Rightarrow> bot_state \<Rightarrow> string \<Rightarrow> string \<Rightarrow> string \<Rightarrow> int \<Rightarrow> bool" where
  "recent_peek e st nm act target window = fst (recent_check e st (recent_key_of nm act target) window False)"

definition recent_ack :: "bot_state \<Rightarrow> string \<Rightarrow> string \<Rightarrow> string \<Rightarrow> bot_state" where
  "recent_ack st nm act target =
     (let lk = lower_copy (recent_key_of nm act target) (MAX_CHAN + 8 + MAX_MASK_LEN)
      in st\<lparr>st_enf_recent := map (\<lambda>r. if er_when_ms r \<noteq> 0 \<and> er_key r = lk then r\<lparr>er_when_ms := 0\<rparr> else r)
              (st_enf_recent st)\<rparr>)"

end
