(* ===== verification/EnfActs.thy ===== *)
theory EnfActs
  imports Enf
begin

text \<open>
  The acts of \<open>src/src/chanenf.rs\<close> and the jobs they are done as: a job is executed at once by the bot
  that holds it, and waits in a table on the backups.  Every act is checked again when it is done.
\<close>

section \<open>The acts\<close>

definition clean_reason :: "string \<Rightarrow> nat \<Rightarrow> string" where
  "clean_reason src dsz = trunc (map (\<lambda>c. if byte c < 0x20 \<or> byte c = 0x7f then CHR '' '' else c) src) dsz"

definition event :: "env \<Rightarrow> bot_state \<Rightarrow> string \<Rightarrow> string \<Rightarrow> string \<Rightarrow> string \<Rightarrow> bot_state" where
  "event e st ch act target why = snd (chan_event e st ch act target why)"

text \<open>A line to the server and its event, unless the same act is still pending.\<close>

definition act_once :: "env \<Rightarrow> bot_state \<Rightarrow> string \<Rightarrow> string \<Rightarrow> string \<Rightarrow> string \<Rightarrow> string \<Rightarrow> string \<Rightarrow> bot_state" where
  "act_once e st nm key target line ev why =
     (case recent_key e st nm key target RECENT_ACT_MS of
        (True, st1) \<Rightarrow> st1
      | (False, st1) \<Rightarrow> event e (ircf e st1 line) nm ev target why)"

definition act_deop :: "env \<Rightarrow> bot_state \<Rightarrow> nat \<Rightarrow> string \<Rightarrow> string \<Rightarrow> bool \<Rightarrow> bot_state" where
  "act_deop e st ci nick why half =
     (let c = st_chans st ! ci in
      if \<not> c_i_am_opped c \<or> \<not> valid_nick st nick then st
      else case rfind c nick of
             None \<Rightarrow> st
           | Some i \<Rightarrow>
               let r = c_roster c ! i in
               if \<not> (if half then r_is_halfop r else r_is_op r) then st
               else case entry_authorised e st ci i of
                      (True, st1) \<Rightarrow> st1
                    | (False, st1) \<Rightarrow>
                        act_once e st1 (c_name c) (if half then ''dehalf'' else ''deop'') (r_nick r)
                          (''MODE '' @ c_name c @ (if half then '' -h '' else '' -o '') @ r_nick r) ''deop'' why)"

definition act_reop :: "env \<Rightarrow> bot_state \<Rightarrow> nat \<Rightarrow> string \<Rightarrow> string \<Rightarrow> bot_state" where
  "act_reop e st ci nick why =
     (let c = st_chans st ! ci in
      if \<not> c_i_am_opped c \<or> \<not> valid_nick st nick then st
      else case rfind c nick of
             None \<Rightarrow> st
           | Some i \<Rightarrow>
               let r = c_roster c ! i in
               if r_is_op r \<or> is_me st (r_nick r) then st
               else case entry_authorised e st ci i of
                      (False, st1) \<Rightarrow> st1
                    | (True, st1) \<Rightarrow>
                        act_once e st1 (c_name c) ''reop'' (r_nick r)
                          (''MODE '' @ c_name c @ '' +o '' @ r_nick r) ''reop'' why)"

definition act_kick :: "env \<Rightarrow> bot_state \<Rightarrow> nat \<Rightarrow> string \<Rightarrow> string \<Rightarrow> bot_state" where
  "act_kick e st ci nick reason =
     (let c = st_chans st ! ci in
      if \<not> c_i_am_opped c \<or> \<not> valid_nick st nick then st
      else case rfind c nick of
             None \<Rightarrow> st
           | Some i \<Rightarrow>
               let r = c_roster c ! i in
               case entry_authorised e st ci i of
                 (True, st1) \<Rightarrow> st1
               | (False, st1) \<Rightarrow>
                   let why = clean_reason (if reason = [] then ''kicked'' else reason) (BAN_REASON_MAX + 1)
                   in act_once e st1 (c_name c) ''kick'' (r_nick r)
                        (''KICK '' @ c_name c @ '' '' @ r_nick r @ '' :'' @ why) ''kick'' why)"

text \<open>The overlap half of the check, cached for a minute on the ban's clock \<open>ti\<close>.\<close>

definition ban_overlap_check :: "env \<Rightarrow> bot_state \<Rightarrow> nat \<Rightarrow> string \<Rightarrow> bot_state" where
  "ban_overlap_check e st ti m =
     (let t = e_now e; tr = st_ban_track st ! ti in
      if t - bt_checked_at tr \<ge> 60
      then st\<lparr>st_ban_track := (st_ban_track st)
             [ti := tr\<lparr>bt_overlap_ok := mask_overlaps_authorised st m = None, bt_checked_at := t\<rparr>]\<rparr>
      else st)"

definition act_ban :: "env \<Rightarrow> bot_state \<Rightarrow> nat \<Rightarrow> string \<Rightarrow> string \<Rightarrow> bot_state" where
  "act_ban e st ci m why =
     (let c = st_chans st ! ci in
      if \<not> c_i_am_opped c \<or> \<not> safe_token m BAN_MASK_MAX \<or> live_has_ban c m then st
      else if c_ban_list_known c \<and> length (c_bans c) \<ge> ban_cap (st_isup st) then st
      else
        let nm = c_name c; t = e_now e in
        case track_get st nm m t of (ti, st1) \<Rightarrow>
          if t - bt_set_at (st_ban_track st1 ! ti) < RECENT_BAN_MS div 1000 then st1
          else case allowed_members e st1 ci m of
                 (Some who, st2) \<Rightarrow> st2
               | (None, st2) \<Rightarrow>
                   let st3 = ban_overlap_check e st2 ti m in
                   if \<not> bt_overlap_ok (st_ban_track st3 ! ti) then st3
                   else
                     let st4 = st3\<lparr>st_ban_track := (st_ban_track st3)
                                  [ti := (st_ban_track st3 ! ti)\<lparr>bt_set_at := t\<rparr>]\<rparr>
                     in event e (ircf e st4 (''MODE '' @ nm @ '' +b '' @ m)) nm ''ban'' m why)"

definition act_unban :: "env \<Rightarrow> bot_state \<Rightarrow> nat \<Rightarrow> string \<Rightarrow> string \<Rightarrow> bot_state" where
  "act_unban e st ci m why =
     (let c = st_chans st ! ci in
      if \<not> c_i_am_opped c \<or> \<not> safe_token m BAN_MASK_MAX \<or> \<not> live_has_ban c m then st
      else act_once e st (c_name c) ''unban'' m (''MODE '' @ c_name c @ '' -b '' @ m) ''unban'' why)"

definition exec_ban_nuh :: "env \<Rightarrow> bot_state \<Rightarrow> nat \<Rightarrow> string \<Rightarrow> string \<Rightarrow> bot_state" where
  "exec_ban_nuh e st ci nuh reason =
     (case nuh_nick nuh of
        None \<Rightarrow> st
      | Some nick \<Rightarrow>
          if \<not> c_i_am_opped (st_chans st ! ci) then st
          else case nick_authorised e st ci nick of
                 (True, st1) \<Rightarrow> st1
               | (False, st1) \<Rightarrow>
                   (case chan_nuh_authorised e st1 ci nuh of
                      (True, st2) \<Rightarrow> st2
                    | (False, st2) \<Rightarrow>
                        (case auto_ban_mask e st2 ci nuh of
                           (None, st3) \<Rightarrow> st3
                         | (Some m, st3) \<Rightarrow>
                             let bt = cset st3 ci BanTime;
                                 st4 = (if bt > 0
                                        then snd (bot_ban e st3 (c_name (st_chans st2 ! ci)) m (e_now e + bt * 60)
                                               (Some []) (Some reason) False)
                                        else st3)
                             in act_ban e st4 ci m (if reason = [] then ''auto ban'' else reason))))"

definition exec_mode :: "env \<Rightarrow> bot_state \<Rightarrow> nat \<Rightarrow> bot_state" where
  "exec_mode e st ci =
     (let c = st_chans st ! ci in
      if cset st ci EnforceModes = 0 \<or> \<not> c_live_known c \<or> \<not> c_i_am_opped c then st
      else
        let nm = c_name c; skip = (cset st ci DynamicLimit \<noteq> 0) in
        case modes_sync e st ci skip True True of ((n, _), st1) \<Rightarrow>
          if n \<le> 0 then st1
          else case recent_key e st1 nm ''moderevert'' [] RECENT_MODE_MS of
                 (True, st2) \<Rightarrow> st2
               | (False, st2) \<Rightarrow>
                   (case modes_sync e st2 ci skip False True of ((n2, s), st3) \<Rightarrow>
                      if n2 > 0 then event e st3 nm ''moderevert'' nm (trunc s 64) else st3))"

definition limit_due :: "bot_state \<Rightarrow> nat \<Rightarrow> int" where
  "limit_due st ci =
     (let c = st_chans st ! ci in
      if cset st ci DynamicLimit = 0 \<or> \<not> c_i_am_opped c \<or> \<not> c_who_done c
        \<or> length (c_roster c) \<ge> MAX_ROSTER_SIZE \<or> \<not> c_live_known c then 0
      else
        let want = clamp_int 1 99999 (int (length (c_roster c)) + cset st ci LimitGap) in
        if live_has c (CHR ''l'') \<and> \<bar>c_live_limit c - want\<bar> < 2 then 0 else want)"

definition exec_limit :: "env \<Rightarrow> bot_state \<Rightarrow> nat \<Rightarrow> bot_state" where
  "exec_limit e st ci =
     (let want = limit_due st ci; nm = c_name (st_chans st ! ci) in
      if want = 0 \<or> e_now e - c_enf_last_limit (st_chans st ! ci) < cset st ci LimitDelay then st
      else case recent_key e st nm ''limit'' [] RECENT_MODE_MS of
             (True, st1) \<Rightarrow> st1
           | (False, st1) \<Rightarrow>
               event e (ircf e st1 (''MODE '' @ nm @ '' +l '' @ dec_int want)) nm ''limit'' nm
                 (''+l '' @ dec_int want))"

section \<open>Jobs\<close>

fun act_job :: "job_act \<Rightarrow> nat" where
  "act_job Deop = JOB_OP" | "act_job Dehalf = JOB_OP" | "act_job Reop = JOB_OP"
| "act_job Kick = JOB_KICK"
| "act_job BanNuh = JOB_BAN" | "act_job BanMask = JOB_BAN" | "act_job Unban_job = JOB_BAN"
| "act_job Mode_job = JOB_MODE" | "act_job Limit_job = JOB_LIMIT"

fun job_exec :: "env \<Rightarrow> bot_state \<Rightarrow> nat \<Rightarrow> job_act \<Rightarrow> string \<Rightarrow> string \<Rightarrow> bot_state" where
  "job_exec e st ci Deop target reason = act_deop e st ci target reason False"
| "job_exec e st ci Dehalf target reason = act_deop e st ci target reason True"
| "job_exec e st ci Reop target reason = act_reop e st ci target reason"
| "job_exec e st ci Kick target reason = act_kick e st ci target reason"
| "job_exec e st ci BanNuh target reason = exec_ban_nuh e st ci target reason"
| "job_exec e st ci BanMask target reason = act_ban e st ci target reason"
| "job_exec e st ci Unban_job target reason = act_unban e st ci target reason"
| "job_exec e st ci Mode_job target reason = exec_mode e st ci"
| "job_exec e st ci Limit_job target reason = exec_limit e st ci"

definition same_job :: "job_act \<Rightarrow> string \<Rightarrow> string \<Rightarrow> pending_job \<Rightarrow> bool" where
  "same_job act nm target j \<longleftrightarrow> j_act j = act \<and> eq_ic (j_chan j) nm \<and> eq_ic (j_target j) target"

definition new_job :: "env \<Rightarrow> job_act \<Rightarrow> string \<Rightarrow> string \<Rightarrow> string \<Rightarrow> pending_job" where
  "new_job e act nm target reason =
     \<lparr>j_used = True, j_act = act, j_chan = nm, j_target = trunc target MAX_MASK_LEN,
      j_reason = trunc reason (BAN_REASON_MAX + 1), j_created_ms = e_ms e\<rparr>"

definition job_submit :: "env \<Rightarrow> bot_state \<Rightarrow> nat \<Rightarrow> job_act \<Rightarrow> string \<Rightarrow> string \<Rightarrow> bool \<times> bot_state" where
  "job_submit e st ci act target reason =
     (let rank = deal_rank e st ci (act_job act) in
      if rank < 0 then (False, st)
      else if rank = 0 then (True, job_exec e st ci act target reason)
      else
        let nm = c_name (st_chans st ! ci) in
        if list_ex (\<lambda>j. j_used j \<and> same_job act nm target j) (st_jobs st) then (True, st)
        else case position (\<lambda>j. \<not> j_used j) (st_jobs st) of
               None \<Rightarrow> (False, st)
             | Some i \<Rightarrow> (True, st\<lparr>st_jobs := (st_jobs st)[i := new_job e act nm target reason]\<rparr>))"

definition jobs_drop :: "bot_state \<Rightarrow> nat \<Rightarrow> job_act \<Rightarrow> bot_state" where
  "jobs_drop st ci act =
     (let nm = c_name (st_chans st ! ci)
      in st\<lparr>st_jobs := map (\<lambda>j. if j_used j \<and> j_act j = act \<and> eq_ic (j_chan j) nm then j\<lparr>j_used := False\<rparr> else j)
             (st_jobs st)\<rparr>)"

definition in_chan :: "bot_state \<Rightarrow> string \<Rightarrow> nat option" where
  "in_chan st ch =
     (case chan_find st ch of
        Some ci \<Rightarrow> if c_status (st_chans st ! ci) = CS_In then Some ci else None
      | None \<Rightarrow> None)"

definition drop_job :: "bot_state \<Rightarrow> nat \<Rightarrow> bot_state" where
  "drop_job st i = st\<lparr>st_jobs := (st_jobs st)[i := (st_jobs st ! i)\<lparr>j_used := False\<rparr>]\<rparr>"

text \<open>How long a job of a rank waits.\<close>

definition job_wait :: "job_act \<Rightarrow> int \<Rightarrow> int" where
  "job_wait act rank = rank * JOB_STEP_MS + (if act = Limit_job then ENF_SWEEP_SECS * 1000 else 0)"

text \<open>One pass of the loop of \<open>jobs_tick\<close>, on slot \<open>i\<close> at the time \<open>t\<close>.\<close>

definition job_tick :: "env \<Rightarrow> int \<Rightarrow> bot_state \<Rightarrow> nat \<Rightarrow> bot_state" where
  "job_tick e t st i =
     (let j = st_jobs st ! i in
      if \<not> j_used j then st
      else case in_chan st (j_chan j) of
             None \<Rightarrow> drop_job st i
           | Some ci \<Rightarrow>
               if t - j_created_ms j > JOB_MAX_AGE_MS then drop_job st i
               else
                 let rank = deal_rank e st ci (act_job (j_act j)) in
                 if rank < 0 then drop_job st i
                 else if t - j_created_ms j < job_wait (j_act j) rank then st
                 else
                   let st1 = drop_job st i in
                   if j_reason j = ''bitch'' \<and> cset st1 ci Bitch = 0 then st1
                   else job_exec e st1 ci (j_act j) (j_target j) (j_reason j))"

definition jobs_tick :: "env \<Rightarrow> bot_state \<Rightarrow> bot_state" where
  "jobs_tick e st = foldl (job_tick e (e_ms e)) st [0..<MAX_PENDING_JOBS]"

definition request_kick :: "env \<Rightarrow> bot_state \<Rightarrow> string \<Rightarrow> string \<Rightarrow> string \<Rightarrow> bool \<times> bot_state" where
  "request_kick e st ch nick reason =
     (case in_chan st ch of
        Some ci \<Rightarrow> if valid_nick st nick then job_submit e st ci Kick nick reason else (False, st)
      | None \<Rightarrow> (False, st))"

definition request_deop :: "env \<Rightarrow> bot_state \<Rightarrow> string \<Rightarrow> string \<Rightarrow> string \<Rightarrow> bool \<times> bot_state" where
  "request_deop e st ch nick reason =
     (case in_chan st ch of
        Some ci \<Rightarrow> if valid_nick st nick then job_submit e st ci Deop nick reason else (False, st)
      | None \<Rightarrow> (False, st))"

definition request_ban :: "env \<Rightarrow> bot_state \<Rightarrow> string \<Rightarrow> string \<Rightarrow> string \<Rightarrow> bool \<Rightarrow> bool \<times> bot_state" where
  "request_ban e st ch nuh reason kick_too =
     (case in_chan st ch of
        None \<Rightarrow> (False, st)
      | Some ci \<Rightarrow>
          if length nuh \<ge> MAX_MASK_LEN then (False, st)
          else case nuh_nick nuh of
                 None \<Rightarrow> (False, st)
               | Some nick \<Rightarrow>
                   if \<not> valid_nick st nick then (False, st)
                   else case job_submit e st ci BanNuh nuh reason of (ok, st1) \<Rightarrow>
                     (ok, if kick_too then snd (job_submit e st1 ci Kick nick reason) else st1))"

definition revenge :: "env \<Rightarrow> bot_state \<Rightarrow> nat \<Rightarrow> string \<Rightarrow> bot_state" where
  "revenge e st ci pfx =
     (case nuh_nick pfx of
        None \<Rightarrow> st
      | Some nick \<Rightarrow>
          let nm = c_name (st_chans st ! ci) in
          case offence e st nm pfx of (n, st1) \<Rightarrow>
            if n \<le> 1 then snd (job_submit e st1 ci Deop nick ''revenge'')
            else snd (request_ban e st1 nm pfx ''revenge'' True))"

end
