(* ===== verification/EnfEvents.thy ===== *)
theory EnfEvents
  imports EnfActs "HOL-Library.Product_Lexorder"
begin

text \<open>
  What makes the enforcement act: the channel flood lane (\<open>src/src/chanflood.rs\<close>), the members coming
  and going, MODE lines with a source, and the state sweep of the main loop (\<open>src/src/chanenf.rs\<close>).
\<close>

section \<open>The flood lane\<close>

definition text_kind :: "flood_kind \<Rightarrow> bool" where
  "text_kind k \<longleftrightarrow> k \<in> {FL_Chan, FL_Ctcp, FL_Join, FL_Nick}"

definition op_flood :: "flood_kind \<Rightarrow> bool" where
  "op_flood k \<longleftrightarrow> k \<in> {FL_Deop, FL_Kick, FL_Ban}"

definition track_in :: "nat \<Rightarrow> string \<Rightarrow> nat \<Rightarrow> bool \<Rightarrow> int \<Rightarrow> int \<Rightarrow> int \<Rightarrow> bot_state \<Rightarrow> bool option \<times> bot_state" where
  "track_in ci host k victim_auth n s t st =
     (let c = st_chans st ! ci;
          tab = (if c_flood c = [] then replicate MAX_FLOOD_TRACK default_src else c_flood c)
      in case track tab host k victim_auth n s t of
           (r, tab1) \<Rightarrow> (r, upd_chan st ci (\<lambda>c. c\<lparr>c_flood := tab1\<rparr>)))"

definition count_at :: "env \<Rightarrow> bot_state \<Rightarrow> nat \<Rightarrow> string \<Rightarrow> flood_kind \<Rightarrow> bool \<Rightarrow> int \<Rightarrow> bool option \<times> bot_state" where
  "count_at e st ci nuh kind victim_auth t =
     (let k = flood_idx kind in
      if k \<ge> FL_CHAN_COUNT then (None, st)
      else case chan_at st ci of
        None \<Rightarrow> (None, st)
      | Some c \<Rightarrow>
        (case (get_flood st (Some c) kind, src_host nuh, src_nick nuh) of
           (Some (n, s), Some host, Some nick) \<Rightarrow>
             (case chan_nuh_authorised e st ci nuh of
                (True, st1) \<Rightarrow> (None, st1)
              | (False, st1) \<Rightarrow>
                  if text_kind kind \<and> get st1 (Some c) DontKickOps \<noteq> 0 \<and>
                     list_ex (\<lambda>r. eq_ic (r_nick r) nick \<and> r_is_op r) (c_roster c)
                  then (None, st1)
                  else track_in ci host k victim_auth n s t st1)
         | _ \<Rightarrow> (None, st)))"

definition KIND_NAME :: "string list" where
  "KIND_NAME = [''chan'', ''ctcp'', ''join'', ''nick'', ''deop'', ''kick'', ''ban'']"

definition trip_detail :: "string \<Rightarrow> int \<Rightarrow> int \<Rightarrow> 32 word \<Rightarrow> string \<Rightarrow> string" where
  "trip_detail kname n s off act =
     kname @ '' flood '' @ dec_int n @ '':'' @ dec_int s @ '', offence '' @ dec (unat off) @ '': '' @ act"

definition trip :: "env \<Rightarrow> bot_state \<Rightarrow> nat \<Rightarrow> string \<Rightarrow> flood_kind \<Rightarrow> bool \<Rightarrow> bot_state" where
  "trip e st ci nuh kind auth_victim =
     (case src_nick nuh of
        None \<Rightarrow> st
      | Some nick \<Rightarrow>
          let nm = c_name (st_chans st ! ci);
              lim = (case get_flood st (chan_at st ci) kind of Some p \<Rightarrow> p | None \<Rightarrow> (0, 0))
          in case offence e st nm nuh of (off, st1) \<Rightarrow>
            let rev = (get st1 (chan_at st1 ci) Revenge \<noteq> 0);
                ban_step = (if kind = FL_Join then True
                            else if op_flood kind then off \<ge> 2 \<or> rev \<and> auth_victim else off \<ge> 2);
                job = (if ban_step then JOB_BAN else if op_flood kind then JOB_OP else JOB_KICK);
                act = (if ban_step then ''kick+ban'' else if op_flood kind then ''deop'' else ''kick'');
                kname = KIND_NAME ! flood_idx kind;
                reason = kname @ '' flood'';
                rank = deal_rank e st1 ci job
            in case (if ban_step then request_ban e st1 nm nuh reason True
                     else if op_flood kind then request_deop e st1 nm nick reason
                     else request_kick e st1 nm nick reason) of
                 (accepted, st2) \<Rightarrow>
                   if accepted \<and> rank = 0
                   then event e st2 nm ''floodtrip'' nick (trip_detail kname (fst lim) (snd lim) off act)
                   else st2)"

definition flood_event :: "env \<Rightarrow> bot_state \<Rightarrow> string \<Rightarrow> string \<Rightarrow> flood_kind \<Rightarrow> bool \<Rightarrow> bot_state" where
  "flood_event e st ch nuh kind victim_auth =
     (case in_chan st ch of
        None \<Rightarrow> st
      | Some ci \<Rightarrow>
          (case count_at e st ci nuh kind victim_auth (e_ms e) of
             (None, st1) \<Rightarrow> st1
           | (Some auth_victim, st1) \<Rightarrow> trip e st1 ci nuh kind auth_victim))"

definition flood_text :: "env \<Rightarrow> bot_state \<Rightarrow> string \<Rightarrow> string \<Rightarrow> string \<Rightarrow> string \<Rightarrow> string \<Rightarrow> bot_state" where
  "flood_text e st ch nick user host msg =
     (let nuh = nick @ ''!'' @ user @ ''@'' @ host in
      if length nuh \<ge> MAX_MASK_LEN then st
      else
        let ctcp = (msg \<noteq> [] \<and> hd msg = CHR 0x01 \<and> \<not> starts_with_ic (tl msg) ''ACTION'')
        in flood_event e st ch nuh (if ctcp then FL_Ctcp else FL_Chan) False)"

section \<open>Members coming and going\<close>

definition set_dirty :: "chan \<Rightarrow> chan" where "set_dirty c = c\<lparr>c_enf_dirty := True\<rparr>"

definition on_join :: "env \<Rightarrow> bot_state \<Rightarrow> string \<Rightarrow> string \<Rightarrow> bot_state" where
  "on_join e st ch nuh =
     (case in_chan st ch of
        None \<Rightarrow> st
      | Some ci \<Rightarrow>
          (case nuh_nick nuh of
             None \<Rightarrow> st
           | Some nick \<Rightarrow>
               if CHR ''@'' \<notin> set nuh \<or> is_me st nick then st
               else
                 let st1 = upd_chan st ci (\<lambda>c. set_dirty (snd (roster_set nick nuh False False False c)))
                 in flood_event e st1 (c_name (st_chans st1 ! ci)) nuh FL_Join False))"

definition on_part :: "bot_state \<Rightarrow> string \<Rightarrow> string \<Rightarrow> bot_state" where
  "on_part st ch nick =
     (if is_me st nick then st
      else case chan_find st ch of
             None \<Rightarrow> st
           | Some ci \<Rightarrow> upd_chan st ci (\<lambda>c. set_dirty (rremove nick c)))"

definition on_quit :: "bot_state \<Rightarrow> string \<Rightarrow> bot_state" where
  "on_quit st nick =
     (if is_me st nick then st
      else st\<lparr>st_chans := map (\<lambda>c. if c_status c = CS_In \<and> rfind c nick \<noteq> None then set_dirty (rremove nick c) else c)
               (st_chans st)\<rparr>)"

definition from_user :: "string option \<Rightarrow> bool" where
  "from_user pfx = (case pfx of Some p \<Rightarrow> CHR ''!'' \<in> set p | None \<Rightarrow> False)"

definition on_kick :: "env \<Rightarrow> bot_state \<Rightarrow> string \<Rightarrow> string option \<Rightarrow> string \<Rightarrow> bot_state" where
  "on_kick e st ch pfx victim =
     (case in_chan st ch of
        None \<Rightarrow> st
      | Some ci \<Rightarrow>
          if is_me st victim then st
          else case nick_authorised e st ci victim of (victim_auth, st1) \<Rightarrow>
            let nm = c_name (st_chans st1 ! ci);
                st2 = recent_ack st1 nm ''kick'' victim;
                st3 = upd_chan st2 ci (\<lambda>c. set_dirty (rremove victim c))
            in if \<not> from_user pfx then st3
               else
                 let p = the pfx; st4 = flood_event e st3 nm p FL_Kick victim_auth
                 in if victim_auth \<and> cset st4 ci Revenge \<noteq> 0
                    then (case chan_nuh_authorised e st4 ci p of
                            (True, st5) \<Rightarrow> st5 | (False, st5) \<Rightarrow> revenge e st5 ci p)
                    else st4)"

text \<open>A channel's half of \<open>on_nick\<close>: the renamed mask, when there is one to count.\<close>

definition nick_mask :: "string \<Rightarrow> string \<Rightarrow> string option" where
  "nick_mask hm new_nick =
     (case position (\<lambda>c. c = CHR ''!'') hm of
        Some b \<Rightarrow> if length (new_nick @ drop b hm) < MAX_MASK_LEN then Some (new_nick @ drop b hm) else None
      | None \<Rightarrow> None)"

definition rename_entry :: "string \<Rightarrow> string \<Rightarrow> string \<Rightarrow> chan \<Rightarrow> string option \<times> chan" where
  "rename_entry old new m c =
     (let c1 = (if eq_ic old new then c else rremove new c) in
      case rfind c1 old of
        None \<Rightarrow> (None, c1)
      | Some i \<Rightarrow>
          (Some m, c1\<lparr>c_roster := (c_roster c1)
             [i := (c_roster c1 ! i)\<lparr>r_nick := new, r_hostmask := m, r_auth_gen := 0\<rparr>]\<rparr>))"

definition chan_nick :: "string \<Rightarrow> string \<Rightarrow> chan \<Rightarrow> nat \<Rightarrow> string option \<times> chan" where
  "chan_nick old new c i =
     (case nick_mask (r_hostmask (c_roster c ! i)) new of
        Some m \<Rightarrow> rename_entry old new m c
      | None \<Rightarrow> (None, rremove old c))"

definition nick_step :: "env \<Rightarrow> bool \<Rightarrow> string \<Rightarrow> string \<Rightarrow> bot_state \<Rightarrow> nat \<Rightarrow> bot_state" where
  "nick_step e new_ok old new st ci =
     (let c = st_chans st ! ci in
      case (if c_status c = CS_In then rfind c old else None) of
        None \<Rightarrow> st
      | Some i \<Rightarrow>
          if \<not> new_ok then upd_chan st ci (\<lambda>c. set_dirty (rremove old c))
          else case chan_nick old new c i of (renamed, c1) \<Rightarrow>
            let st1 = upd_chan st ci (\<lambda>_. c1);
                st2 = (case renamed of Some m \<Rightarrow> flood_event e st1 (c_name c1) m FL_Nick False | None \<Rightarrow> st1)
            in upd_chan st2 ci set_dirty)"

definition on_nick :: "env \<Rightarrow> bot_state \<Rightarrow> string \<Rightarrow> string \<Rightarrow> bot_state" where
  "on_nick e st old new = foldl (nick_step e (valid_nick st new) old new) st [0..<length (st_chans st)]"

section \<open>MODE lines with a source\<close>

record mode_ctx =
  mx_user_src :: bool
  mx_server_src :: bool
  mx_pfx :: string
  mx_src_unauth :: bool
  mx_src_me :: bool
  mx_bitch :: bool
  mx_protect :: bool
  mx_rev :: bool
  mx_nethack :: bool
  mx_has_h :: bool

text \<open>Our own acts coming back.\<close>

definition mode_ack :: "bot_state \<Rightarrow> nat \<Rightarrow> mode_ctx \<Rightarrow> char \<Rightarrow> bool \<Rightarrow> string option \<Rightarrow> bot_state" where
  "mode_ack st ci mx ch adding a =
     (let nm = c_name (st_chans st ! ci);
          nick = (case a of Some x \<Rightarrow> valid_nick st x | None \<Rightarrow> False)
      in if ch = CHR ''o'' \<and> nick then recent_ack st nm (if adding then ''reop'' else ''deop'') (the a)
         else if ch = CHR ''h'' \<and> \<not> adding \<and> nick then recent_ack st nm ''dehalf'' (the a)
         else if ch = CHR ''b'' \<and> \<not> adding \<and> (case a of Some x \<Rightarrow> safe_token x BAN_MASK_MAX | None \<Rightarrow> False)
         then recent_ack st nm ''unban'' (the a)
         else if mx_src_me mx \<and> ch = CHR ''l'' then recent_ack st nm ''limit'' []
         else st)"

text \<open>Op floods: from a user only.\<close>

definition mode_flood :: "env \<Rightarrow> bot_state \<Rightarrow> nat \<Rightarrow> mode_ctx \<Rightarrow> char \<Rightarrow> bool \<Rightarrow> string option \<Rightarrow> bot_state" where
  "mode_flood e st ci mx ch adding a =
     (case a of
        None \<Rightarrow> st
      | Some x \<Rightarrow>
          if mx_user_src mx \<and> \<not> adding \<and> ch = CHR ''o'' \<and> valid_nick st x then
            (case nick_authorised e st ci x of (victim_auth, st1) \<Rightarrow>
               flood_event e st1 (c_name (st_chans st1 ! ci)) (mx_pfx mx) FL_Deop victim_auth)
          else if mx_user_src mx \<and> adding \<and> ch = CHR ''b'' \<and> safe_token x BAN_MASK_MAX then
            (case ban_hits_authorised e st ci x of (victim_auth, st1) \<Rightarrow>
               flood_event e st1 (c_name (st_chans st1 ! ci)) (mx_pfx mx) FL_Ban victim_auth)
          else st)"

definition submit :: "env \<Rightarrow> bot_state \<Rightarrow> nat \<Rightarrow> job_act \<Rightarrow> string \<Rightarrow> string \<Rightarrow> bot_state" where
  "submit e st ci act target reason = snd (job_submit e st ci act target reason)"

text \<open>Someone gave or took an op.\<close>

definition mode_op :: "env \<Rightarrow> bot_state \<Rightarrow> nat \<Rightarrow> mode_ctx \<Rightarrow> bool \<Rightarrow> string \<Rightarrow> bool \<Rightarrow> bool \<times> bot_state" where
  "mode_op e st ci mx adding x revenged =
     (let c = st_chans st ! ci in
      case rfind c x of
        None \<Rightarrow> (revenged, st)
      | Some i \<Rightarrow>
          let enick = r_nick (c_roster c ! i) in
          if is_me st enick then (revenged, st)
          else case entry_authorised e st ci i of (auth, st1) \<Rightarrow>
            if adding \<and> \<not> auth then
              (revenged,
               if mx_bitch mx then submit e st1 ci Deop enick ''bitch''
               else if mx_nethack mx \<and> mx_server_src mx then submit e st1 ci Deop enick ''stopnethack''
               else st1)
            else if \<not> adding \<and> auth \<and> mx_user_src mx \<and> mx_src_unauth mx \<and> \<not> mx_src_me mx then
              (let st2 = (if mx_protect mx then submit e st1 ci Reop enick ''protectops'' else st1)
               in if mx_rev mx \<and> \<not> revenged then (True, revenge e st2 ci (mx_pfx mx)) else (revenged, st2))
            else (revenged, st1))"

definition mode_halfop :: "env \<Rightarrow> bot_state \<Rightarrow> nat \<Rightarrow> mode_ctx \<Rightarrow> string \<Rightarrow> bot_state" where
  "mode_halfop e st ci mx x =
     (let c = st_chans st ! ci in
      if \<not> mx_bitch mx then st
      else case rfind c x of
             None \<Rightarrow> st
           | Some i \<Rightarrow>
               if is_me st (r_nick (c_roster c ! i)) then st
               else case entry_authorised e st ci i of
                      (True, st1) \<Rightarrow> st1
                    | (False, st1) \<Rightarrow> submit e st1 ci Dehalf (r_nick (c_roster c ! i)) ''bitch'')"

definition mode_ban :: "env \<Rightarrow> bot_state \<Rightarrow> nat \<Rightarrow> mode_ctx \<Rightarrow> bool \<Rightarrow> string option \<Rightarrow> bool \<Rightarrow> bool \<times> bot_state" where
  "mode_ban e st ci mx adding a revenged =
     (case a of
        None \<Rightarrow> (revenged, st)
      | Some x \<Rightarrow>
          if adding \<and> mx_rev mx \<and> \<not> revenged \<and> mx_src_unauth mx \<and> \<not> mx_src_me mx \<and> safe_token x BAN_MASK_MAX then
            (case ban_hits_authorised e st ci x of
               (True, st1) \<Rightarrow> (True, revenge e st1 ci (mx_pfx mx))
             | (False, st1) \<Rightarrow> (revenged, st1))
          else (revenged, st))"

definition mode_limit_set :: "env \<Rightarrow> bot_state \<Rightarrow> nat \<Rightarrow> mode_ctx \<Rightarrow> char \<Rightarrow> bool \<Rightarrow> bot_state" where
  "mode_limit_set e st ci mx ch adding =
     (if ch = CHR ''l'' \<and> adding \<and> (mx_server_src mx \<or> \<not> mx_src_unauth mx)
      then jobs_drop (upd_chan st ci (\<lambda>c. c\<lparr>c_enf_last_limit := e_now e\<rparr>)) ci Limit_job else st)"

record mode_run =
  mr_st :: bot_state
  mr_modes :: bool
  mr_bans :: bool
  mr_revenged :: bool

text \<open>One letter of a MODE line, with its argument.\<close>

definition mode_letter :: "env \<Rightarrow> nat \<Rightarrow> mode_ctx \<Rightarrow> char \<Rightarrow> bool \<Rightarrow> string option \<Rightarrow> mode_run \<Rightarrow> mode_run" where
  "mode_letter e ci mx ch adding a mr =
     (let st1 = mode_flood e (mode_ack (mr_st mr) ci mx ch adding a) ci mx ch adding a;
          nick = (case a of Some x \<Rightarrow> valid_nick (mr_st mr) x | None \<Rightarrow> False)
      in if ch = CHR ''o'' \<and> nick then
           (case mode_op e st1 ci mx adding (the a) (mr_revenged mr) of
              (rv, st2) \<Rightarrow> mr\<lparr>mr_st := st2, mr_revenged := rv\<rparr>)
         else if ch = CHR ''h'' \<and> adding \<and> mx_has_h mx \<and> nick then
           mr\<lparr>mr_st := mode_halfop e st1 ci mx (the a)\<rparr>
         else if ch = CHR ''b'' then
           (case mode_ban e st1 ci mx adding a (mr_revenged mr) of
              (rv, st2) \<Rightarrow> mr\<lparr>mr_st := st2, mr_bans := True, mr_revenged := rv\<rparr>)
         else if ch \<in> set ''imnpstkl'' then
           mr\<lparr>mr_st := mode_limit_set e st1 ci mx ch adding, mr_modes := True\<rparr>
         else mr\<lparr>mr_st := st1\<rparr>)"

fun mode_loop :: "env \<Rightarrow> nat \<Rightarrow> mode_ctx \<Rightarrow> bool \<Rightarrow> string option \<Rightarrow> string \<Rightarrow> string \<Rightarrow> mode_run \<Rightarrow> mode_run" where
  "mode_loop e ci mx adding arg toks [] mr = mr"
| "mode_loop e ci mx adding arg toks (ch # chs) mr =
     (if ch = CHR ''+'' then mode_loop e ci mx True arg toks chs mr
      else if ch = CHR ''-'' then mode_loop e ci mx False arg toks chs mr
      else
        let has_arg = mode_has_arg (st_isup (mr_st mr)) ch adding;
            a = (if has_arg then arg else None);
            (arg1, toks1) = (if has_arg \<and> arg \<noteq> None then tok_next '' '' toks else (arg, toks))
        in if has_arg \<and> a = None \<and> ch \<noteq> CHR ''k'' then mode_loop e ci mx adding arg1 toks1 chs mr
           else mode_loop e ci mx adding arg1 toks1 chs (mode_letter e ci mx ch adding a mr))"

text \<open>Once the line is read: have the stored modes put back, or settle the revert.\<close>

definition mode_settle :: "env \<Rightarrow> bot_state \<Rightarrow> nat \<Rightarrow> bool \<Rightarrow> bot_state" where
  "mode_settle e st ci src_me =
     (let skip = (cset st ci DynamicLimit \<noteq> 0);
          clean = (c_live_known (st_chans st ! ci) \<and> fst (fst (modes_sync e st ci skip True True)) \<le> 0);
          st1 = (if clean then jobs_drop st ci Mode_job
                 else if \<not> src_me \<and> cset st ci EnforceModes \<noteq> 0 then submit e st ci Mode_job [] ''enforcemodes''
                 else st)
      in if clean \<and> src_me then recent_ack st1 (c_name (st_chans st1 ! ci)) ''moderevert'' [] else st1)"

definition mode_ctx_of :: "bot_state \<Rightarrow> nat \<Rightarrow> string option \<Rightarrow> bool \<Rightarrow> mode_ctx" where
  "mode_ctx_of st ci pfx src_unauth =
     (let p = (case pfx of Some p \<Rightarrow> p | None \<Rightarrow> []); us = from_user pfx
      in \<lparr>mx_user_src = us, mx_server_src = (pfx \<noteq> None \<and> \<not> us), mx_pfx = p, mx_src_unauth = src_unauth,
          mx_src_me = (us \<and> (case nuh_nick p of Some n \<Rightarrow> is_me st n | None \<Rightarrow> False)),
          mx_bitch = (cset st ci Bitch \<noteq> 0), mx_protect = (cset st ci ProtectOps \<noteq> 0),
          mx_rev = (cset st ci Revenge \<noteq> 0), mx_nethack = (cset st ci StopNetHack \<noteq> 0),
          mx_has_h = (CHR ''h'' \<in> set (is_prefix_modes (st_isup st)))\<rparr>)"

definition on_mode_inner :: "env \<Rightarrow> bot_state \<Rightarrow> string \<Rightarrow> string option \<Rightarrow> string \<Rightarrow> string \<Rightarrow> bot_state" where
  "on_mode_inner e st ch pfx modes args =
     (case in_chan st ch of
        None \<Rightarrow> st
      | Some ci \<Rightarrow>
          (case (if from_user pfx then (case chan_nuh_authorised e st ci (the pfx) of (a, st1) \<Rightarrow> (\<not> a, st1))
                 else (False, st)) of
             (src_unauth, st1) \<Rightarrow>
               let mx = mode_ctx_of st1 ci pfx src_unauth;
                   (arg, toks) = tok_next '' '' args;
                   mr = mode_loop e ci mx True arg toks modes
                          \<lparr>mr_st = st1, mr_modes = False, mr_bans = False, mr_revenged = False\<rparr>;
                   st2 = (if mr_modes mr then mode_settle e (mr_st mr) ci (mx_src_me mx) else mr_st mr)
               in if mr_bans mr then upd_chan st2 ci set_dirty else st2))"

definition on_mode :: "env \<Rightarrow> bot_state \<Rightarrow> string \<Rightarrow> string option \<Rightarrow> string \<Rightarrow> string \<Rightarrow> bot_state" where
  "on_mode e st ch pfx modes args = release e (on_mode_inner e (hold st) ch pfx modes args)"

end
