(* ===== verification/EnfSweep.thy ===== *)
theory EnfSweep
  imports EnfEvents
begin

text \<open>
  The state sweep of \<open>src/src/chanenf.rs\<close>: per channel when something changed or it is due, the ops,
  the stored modes, the limit, the ban list and the members it keeps out; then the waiting jobs and,
  once a minute, the bans that ran out.
\<close>

section \<open>The ban list\<close>

text \<open>The verdicts over \<open>k\<close> roster entries from \<open>i\<close>: the unauthorised nicks the mask matches, and
  whether it matches an authorised member.\<close>

fun unauth_match :: "env \<Rightarrow> nat \<Rightarrow> string \<Rightarrow> nat \<Rightarrow> nat \<Rightarrow> string list \<Rightarrow> bool \<Rightarrow> bot_state \<Rightarrow> (string list \<times> bool) \<times> bot_state" where
  "unauth_match e ci m 0 i hits auth_hit st = ((hits, auth_hit), st)"
| "unauth_match e ci m (Suc k) i hits auth_hit st =
     (let r = c_roster (st_chans st ! ci) ! i in
      case entry_authorised e st ci i of
        (True, st1) \<Rightarrow> unauth_match e ci m k (i + 1) hits (auth_hit \<or> wildcard_match m (r_hostmask r)) st1
      | (False, st1) \<Rightarrow>
          unauth_match e ci m k (i + 1) (if wildcard_match m (r_hostmask r) then hits @ [r_nick r] else hits)
            auth_hit st1)"

definition unauth_hits :: "env \<Rightarrow> bot_state \<Rightarrow> nat \<Rightarrow> string \<Rightarrow> (string list \<times> bool) \<times> bot_state" where
  "unauth_hits e st ci m = unauth_match e ci m (length (c_roster (st_chans st ! ci))) 0 [] False st"

fun kick_loop :: "env \<Rightarrow> nat \<Rightarrow> string \<Rightarrow> string list \<Rightarrow> nat \<Rightarrow> bot_state \<Rightarrow> nat \<times> bot_state" where
  "kick_loop e ci reason [] kicks st = (kicks, st)"
| "kick_loop e ci reason (nk # nks) kicks st =
     (if kicks \<ge> ENF_KICKS_PER_SWEEP then (kicks, st)
      else if recent_peek e st (c_name (st_chans st ! ci)) ''kick'' nk RECENT_ACT_MS
      then kick_loop e ci reason nks kicks st
      else kick_loop e ci reason nks (kicks + 1) (submit e st ci Kick nk reason))"

definition sweep_kicks :: "env \<Rightarrow> bot_state \<Rightarrow> nat \<Rightarrow> string list \<Rightarrow> string \<Rightarrow> nat \<Rightarrow> nat \<times> bot_state" where
  "sweep_kicks e st ci hits reason kicks = kick_loop e ci reason (take MAX_ROSTER_SIZE hits) kicks st"

text \<open>(a) bans on the channel that match an authorised member.\<close>

definition protect_step :: "env \<Rightarrow> nat \<Rightarrow> bot_state \<Rightarrow> string \<Rightarrow> bot_state" where
  "protect_step e ci st m =
     (if length m > BAN_MASK_MAX then st
      else case ban_hits_authorised e st ci m of
             (True, st1) \<Rightarrow> submit e st1 ci Unban_job m ''protectops'' | (False, st1) \<Rightarrow> st1)"

text \<open>(b) one record of the network list; \<open>room\<close> is what the server's list still takes.\<close>

record ban_run =
  br_st :: bot_state
  br_room :: int
  br_kicks :: nat

definition touch_track :: "nat \<Rightarrow> int \<Rightarrow> bot_state \<Rightarrow> bot_state" where
  "touch_track ti t st =
     st\<lparr>st_ban_track := (st_ban_track st)[ti := (st_ban_track st ! ti)\<lparr>bt_last_match := t\<rparr>]\<rparr>"

definition place_ban :: "env \<Rightarrow> nat \<Rightarrow> bool \<Rightarrow> cfg_ban \<Rightarrow> bool \<Rightarrow> ban_run \<Rightarrow> bool \<times> ban_run" where
  "place_ban e ci dyn_bans r live br =
     (let sticky = (CHR ''s'' \<in> set (b_flags r)); keep = (sticky \<or> \<not> dyn_bans) in
      if keep \<and> \<not> live then
        (if sticky \<or> br_room br > 0
         then (keep, br\<lparr>br_room := br_room br - 1, br_st := submit e (br_st br) ci BanMask (b_mask r) (b_reason r)\<rparr>)
         else (False, br\<lparr>br_st := upd_chan (br_st br) ci (\<lambda>c. c\<lparr>c_ban_cap_warned := True\<rparr>)\<rparr>))
      else (keep, br))"

definition dynamic_ban :: "env \<Rightarrow> nat \<Rightarrow> int \<Rightarrow> int \<Rightarrow> int \<Rightarrow> cfg_ban \<Rightarrow> bool \<Rightarrow> bool \<Rightarrow> bot_state \<Rightarrow> bot_state" where
  "dynamic_ban e ci t idle last_match r live matched st =
     (if matched \<and> \<not> live then submit e st ci BanMask (b_mask r) (b_reason r)
      else if live \<and> \<not> matched \<and> idle > 0 \<and> t - last_match \<ge> idle
      then submit e st ci Unban_job (b_mask r) ''banidle''
      else st)"

definition ban_step :: "env \<Rightarrow> nat \<Rightarrow> string \<Rightarrow> int \<Rightarrow> bool \<Rightarrow> int \<Rightarrow> ban_run \<Rightarrow> cfg_ban \<Rightarrow> ban_run" where
  "ban_step e ci nm t dyn_bans idle br r =
     (if \<not> safe_token (b_mask r) BAN_MASK_MAX then br
      else case track_get (br_st br) nm (b_mask r) t of (ti, st1) \<Rightarrow>
        let tr = st_ban_track st1 ! ti in
        if bt_checked_at tr \<noteq> 0 \<and> t - bt_checked_at tr < 60 \<and> \<not> bt_overlap_ok tr then br\<lparr>br_st := st1\<rparr>
        else
          let live = live_has_ban (st_chans st1 ! ci) (b_mask r) in
          case unauth_hits e st1 ci (b_mask r) of ((hits, _), st2) \<Rightarrow>
            let matched = (hits \<noteq> []);
                st3 = (if matched then touch_track ti t st2 else st2)
            in case place_ban e ci dyn_bans r live (br\<lparr>br_st := st3\<rparr>) of (keep, br4) \<Rightarrow>
              let st5 = (if \<not> keep then dynamic_ban e ci t idle (bt_last_match tr) r live matched (br_st br4)
                         else br_st br4)
              in if matched
                 then (case sweep_kicks e st5 ci hits (if b_reason r = [] then ''banned'' else b_reason r) (br_kicks br4) of
                         (k, st6) \<Rightarrow> br4\<lparr>br_st := st6, br_kicks := k\<rparr>)
                 else br4\<lparr>br_st := st5\<rparr>)"

text \<open>(c) records that expired or were deleted, with what is live of them.\<close>

definition ban_lifts :: "bot_state \<Rightarrow> nat \<Rightarrow> string \<Rightarrow> int \<Rightarrow> (string \<times> bool) list" where
  "ban_lifts st ci nm t =
     map (\<lambda>b. (b_mask b, b_active b))
       (filter (\<lambda>b. live_has_ban (st_chans st ! ci) (b_mask b))
         (filter (\<lambda>b. b_chan b = ''*'' \<or> eq_ic (b_chan b) nm)
           (filter (\<lambda>b. \<not> (b_active b \<and> \<not> (b_expires b > 0 \<and> b_expires b \<le> t))) (st_cfg_bans st))))"

definition lift_step :: "env \<Rightarrow> nat \<Rightarrow> bot_state \<Rightarrow> string \<times> bool \<Rightarrow> bot_state" where
  "lift_step e ci st p = submit e st ci Unban_job (fst p) (if snd p then ''expired'' else ''removed'')"

text \<open>(d) anyone's ban kicks the unauthorised members it matches, unless it also hits an authorised one.\<close>

definition enforce_step :: "env \<Rightarrow> nat \<Rightarrow> nat \<times> bot_state \<Rightarrow> string \<Rightarrow> nat \<times> bot_state" where
  "enforce_step e ci ks m =
     (if \<not> safe_token m BAN_MASK_MAX then ks
      else case unauth_hits e (snd ks) ci m of ((hits, auth_hit), st1) \<Rightarrow>
        if hits = [] \<or> auth_hit then (fst ks, st1)
        else sweep_kicks e st1 ci hits ''banned'' (fst ks))"

definition sort_bans :: "cfg_ban list \<Rightarrow> cfg_ban list" where
  "sort_bans bs = sort_key (\<lambda>r. (b_expires r \<noteq> 0, b_ts r)) bs"

definition chan_masks :: "bot_state \<Rightarrow> nat \<Rightarrow> string list" where
  "chan_masks st ci = map lb_mask (c_bans (st_chans st ! ci))"

definition ban_sweep :: "env \<Rightarrow> bot_state \<Rightarrow> nat \<Rightarrow> int \<Rightarrow> bot_state" where
  "ban_sweep e st ci t =
     (if \<not> c_ban_list_known (st_chans st ! ci) then st
      else
        let nm = c_name (st_chans st ! ci);
            protect = (cset st ci ProtectOps \<noteq> 0); enforce = (cset st ci EnforceBans \<noteq> 0);
            dyn_bans = (cset st ci DynamicBans \<noteq> 0); idle = cset st ci BanIdle * 60;
            st1 = (if protect then foldl (protect_step e ci) st (chan_masks st ci) else st);
            recs = sort_bans (bans_for e st1 nm (MAX_BANS_PER_CHAN + MAX_GLOBAL_BANS));
            room = int (ban_cap (st_isup st1)) - int (length (c_bans (st_chans st1 ! ci)));
            br = foldl (ban_step e ci nm t dyn_bans idle) \<lparr>br_st = st1, br_room = room, br_kicks = 0\<rparr> recs;
            st3 = foldl (lift_step e ci) (br_st br) (ban_lifts (br_st br) ci nm t)
        in if enforce then snd (foldl (enforce_step e ci) (br_kicks br, st3) (chan_masks st3 ci)) else st3)"

section \<open>The channel\<close>

definition cycle_check :: "env \<Rightarrow> bot_state \<Rightarrow> nat \<Rightarrow> int \<Rightarrow> bot_state" where
  "cycle_check e st ci t =
     (let c = st_chans st ! ci in
      if cset st ci Cycle = 0 \<or> c_i_am_opped c \<or> length (c_roster c) \<noteq> 1 \<or> \<not> is_me st (r_nick (c_roster c ! 0))
        \<or> c_last_who_request c = 0 \<or> t - c_last_who_request c < 30 \<or> t - c_enf_last_cycle c < ENF_CYCLE_MIN_SECS
      then st
      else ircf e (upd_chan st ci (\<lambda>c. c\<lparr>c_enf_last_cycle := t\<rparr>)) (''PART '' @ c_name c @ '' :cycling''))"

text \<open>The unauthorised members: nick, op, halfop.\<close>

fun unauth_members :: "env \<Rightarrow> nat \<Rightarrow> nat \<Rightarrow> nat \<Rightarrow> bot_state \<Rightarrow> (string \<times> bool \<times> bool) list \<times> bot_state" where
  "unauth_members e ci 0 i st = ([], st)"
| "unauth_members e ci (Suc k) i st =
     (let r = c_roster (st_chans st ! ci) ! i in
      case entry_authorised e st ci i of (a, st1) \<Rightarrow>
        (case unauth_members e ci k (i + 1) st1 of (rs, st2) \<Rightarrow>
           (if a then rs else (r_nick r, r_is_op r, r_is_halfop r) # rs, st2)))"

definition bitch_step :: "env \<Rightarrow> nat \<Rightarrow> bool \<Rightarrow> bot_state \<Rightarrow> string \<times> bool \<times> bool \<Rightarrow> bot_state" where
  "bitch_step e ci has_h st p =
     (case p of (nk, op, half) \<Rightarrow>
        let st1 = (if op then submit e st ci Deop nk ''bitch'' else st)
        in if has_h \<and> half then submit e st1 ci Dehalf nk ''bitch'' else st1)"

definition ops_check :: "env \<Rightarrow> bot_state \<Rightarrow> nat \<Rightarrow> bot_state" where
  "ops_check e st ci =
     (if \<not> c_enf_ops_check (st_chans st ! ci) then st
      else
        let st1 = upd_chan st ci (\<lambda>c. c\<lparr>c_enf_ops_check := False\<rparr>) in
        if cset st1 ci Bitch = 0 then st1
        else case unauth_members e ci (length (c_roster (st_chans st1 ! ci))) 0 st1 of (todo, st2) \<Rightarrow>
          foldl (bitch_step e ci (CHR ''h'' \<in> set (is_prefix_modes (st_isup st1)))) st2 todo)"

definition modes_check :: "env \<Rightarrow> bot_state \<Rightarrow> nat \<Rightarrow> bot_state" where
  "modes_check e st ci =
     (if cset st ci EnforceModes \<noteq> 0 \<and> c_live_known (st_chans st ! ci) \<and>
         fst (fst (modes_sync e st ci (cset st ci DynamicLimit \<noteq> 0) True True)) > 0
      then submit e st ci Mode_job [] ''enforcemodes'' else st)"

definition limit_check :: "env \<Rightarrow> bot_state \<Rightarrow> nat \<Rightarrow> int \<Rightarrow> bot_state" where
  "limit_check e st ci t =
     (if cset st ci DynamicLimit \<noteq> 0 \<and> t - c_enf_last_limit (st_chans st ! ci) \<ge> cset st ci LimitDelay \<and>
         limit_due st ci \<noteq> 0
      then submit e st ci Limit_job [] ''dynamiclimit'' else st)"

definition chan_sweep :: "env \<Rightarrow> bot_state \<Rightarrow> nat \<Rightarrow> int \<Rightarrow> bot_state" where
  "chan_sweep e st ci t =
     (if \<not> c_i_am_opped (st_chans st ! ci) then cycle_check e st ci t
      else ban_sweep e (limit_check e (modes_check e (ops_check e st ci) ci) ci t) ci t)"

section \<open>The minute and the tick\<close>

text \<open>Bans this bot wrote and that ran out: \<open>k\<close> records from \<open>i\<close>.\<close>

definition own_expired :: "bot_state \<Rightarrow> int \<Rightarrow> cfg_ban \<Rightarrow> bool" where
  "own_expired st t b \<longleftrightarrow> b_active b \<and> b_expires b > 0 \<and> b_expires b \<le> t \<and> st_bot_uuid st \<noteq> [] \<and>
     b_setter b = st_bot_uuid st"

fun expire_loop :: "env \<Rightarrow> int \<Rightarrow> nat \<Rightarrow> nat \<Rightarrow> bot_state \<Rightarrow> bot_state" where
  "expire_loop e t 0 i st = st"
| "expire_loop e t (Suc k) i st =
     (if i \<ge> length (st_cfg_bans st) then st
      else
        let b = st_cfg_bans st ! i in
        expire_loop e t k (i + 1)
          (if own_expired st t b then snd (bot_ban e st (b_chan b) (b_mask b) 0 None None True) else st))"

function track_compact :: "int \<Rightarrow> nat \<Rightarrow> ban_track list \<Rightarrow> ban_track list" where
  "track_compact t i tab =
     (if i < length tab then
        (let tr = tab ! i in
         if bt_chan tr = [] \<or> t - bt_last_match tr > 86400 \<and> t - bt_set_at tr > 86400
         then track_compact t i (swap_remove i tab) else track_compact t (i + 1) tab)
      else tab)"
  by pat_completeness auto
termination
  by (relation "measure (\<lambda>(t, i, tab). 2 * length tab - i)") (auto simp: length_swap_remove)

declare track_compact.simps [simp del]

definition minute_sweep :: "env \<Rightarrow> bot_state \<Rightarrow> int \<Rightarrow> bot_state" where
  "minute_sweep e st t =
     (let st1 = expire_loop e t (length (st_cfg_bans st)) 0 st
      in st1\<lparr>st_ban_track := track_compact t 0 (st_ban_track st1)\<rparr>)"

definition sweep_step :: "env \<Rightarrow> bool \<Rightarrow> bot_state \<Rightarrow> nat \<Rightarrow> bot_state" where
  "sweep_step e all st ci =
     (let c = st_chans st ! ci; ms = e_ms e in
      if \<not> c_is_managed c \<or> c_status c \<noteq> CS_In then st
      else
        let st1 = (if all then upd_chan st ci (\<lambda>c. c\<lparr>c_enf_dirty := True, c_enf_ops_check := True\<rparr>) else st);
            age = ms - c_enf_last_sweep_ms c
        in if c_enf_dirty (st_chans st1 ! ci) \<and> age \<ge> ENF_RESWEEP_MS \<or> age \<ge> ENF_SWEEP_SECS * 1000
           then chan_sweep e (upd_chan st1 ci (\<lambda>c. c\<lparr>c_enf_dirty := False, c_enf_last_sweep_ms := ms\<rparr>)) ci (e_now e)
           else st1)"

definition tick_inner :: "env \<Rightarrow> bot_state \<Rightarrow> bot_state" where
  "tick_inner e st =
     (if \<not> is_connected st then st
      else
        let st1 = st\<lparr>st_enf_seen_gen := st_cfg_gen st\<rparr>;
            st2 = foldl (sweep_step e (st_cfg_gen st \<noteq> st_enf_seen_gen st)) st1 [0..<length (st_chans st1)];
            st3 = jobs_tick e st2
        in if e_now e - st_enf_last_minute st3 \<ge> 60
           then minute_sweep e (st3\<lparr>st_enf_last_minute := e_now e\<rparr>) (e_now e) else st3)"

definition tick :: "env \<Rightarrow> bot_state \<Rightarrow> bot_state" where
  "tick e st = release e (tick_inner e (hold st))"

end
