(* ===== verification/EnfFacts.thy ===== *)
theory EnfFacts
  imports EnfSweep Frame
begin

text \<open>
  Facts the properties of the enforcement share.  Asking for a verdict writes only the caches of the
  roster, and within one operation the answer about a member does not depend on who was asked about
  before: \<open>ver\<close> is that answer, and every scan over the members is a plain function of it.
\<close>

section \<open>Verdicts\<close>

definition uncached_entry :: "roster_entry \<Rightarrow> roster_entry" where
  "uncached_entry r = r\<lparr>r_authorised := False, r_auth_gen := 0\<rparr>"

definition uncached_chan :: "chan \<Rightarrow> chan" where
  "uncached_chan c = c\<lparr>c_roster := map uncached_entry (c_roster c)\<rparr>"

text \<open>The state without the caches of the verdicts.\<close>

definition uncached :: "bot_state \<Rightarrow> bot_state" where
  "uncached st = st\<lparr>st_chans := map uncached_chan (st_chans st), st_auth_gen := 0, st_auth_seen_cfg_gen := 0,
     st_auth_fp := 0, st_auth_fp_ms := 0\<rparr>"

definition verdict :: "bot_state \<Rightarrow> nat \<Rightarrow> nat \<Rightarrow> bool" where
  "verdict st ci i \<longleftrightarrow> (let r = c_roster (st_chans st ! ci) ! i in
     is_me st (r_nick r) \<or> (if r_auth_gen r = st_auth_gen st then r_authorised r else is_authorised st (r_hostmask r)))"

definition ver :: "env \<Rightarrow> bot_state \<Rightarrow> nat \<Rightarrow> nat \<Rightarrow> bool" where
  "ver e st = verdict (snd (auth_epoch e st))"

named_theorems cached \<comment> \<open>what the caches leave alone\<close>

lemma epoch_frame [simp]:
  "st_chans (snd (auth_epoch e st)) = st_chans st" "st_current_nick (snd (auth_epoch e st)) = st_current_nick st"
  "is_me (snd (auth_epoch e st)) = is_me st" "is_authorised (snd (auth_epoch e st)) = is_authorised st"
  by (simp_all add: auth_epoch_def Let_def is_me_def is_authorised_def is_trusted_bot_def
      trusted_bot_by_host_def mask_has_active_user_def fun_eq_iff)

definition fresh_epoch :: "env \<Rightarrow> bot_state \<Rightarrow> bool" where
  "fresh_epoch e st \<longleftrightarrow> st_auth_gen st \<noteq> 0 \<and> st_auth_seen_cfg_gen st = st_cfg_gen st \<and> e_ms e - st_auth_fp_ms st < 200"

lemma fresh_epochD: "fresh_epoch e st \<Longrightarrow> auth_epoch e st = (st_auth_gen st, st)"
  by (simp add: fresh_epoch_def auth_epoch_def)

lemma fresh_epoch_upd [simp]: "fresh_epoch e (upd_chan st ci f) = fresh_epoch e st"
  by (simp add: fresh_epoch_def upd_chan_def)

lemma epoch_fresh: "fresh_epoch e (snd (auth_epoch e st))"
  by (simp add: auth_epoch_def Let_def next_gen_def fresh_epoch_def)

lemma epoch_settled:
  "fst (auth_epoch e st) = st_auth_gen (snd (auth_epoch e st))"
  "auth_epoch e (snd (auth_epoch e st)) = (st_auth_gen (snd (auth_epoch e st)), snd (auth_epoch e st))"
  using fresh_epochD [OF epoch_fresh] by (simp_all add: auth_epoch_def Let_def)

lemma epoch_uncached: "uncached (snd (auth_epoch e st)) = uncached st"
  by (simp add: auth_epoch_def Let_def uncached_def)

lemma entry_authorised_ver [simp]: "fst (entry_authorised e st ci i) = ver e st ci i"
  by (cases "auth_epoch e st")
     (use epoch_settled(1) [of e st] epoch_frame [of e st] in
      \<open>auto simp: entry_authorised_def ver_def verdict_def Let_def\<close>)

lemma map_update_same: "f y = f (xs ! i) \<Longrightarrow> map f (xs[i := y]) = map f xs"
  by (cases "i < length xs") (simp_all add: map_update list_update_beyond list_update_same_conv)

lemma uncached_set_verdict: "uncached_chan (set_verdict i a g c) = uncached_chan c"
proof -
  have "map uncached_entry ((c_roster c)[i := (c_roster c ! i)\<lparr>r_authorised := a, r_auth_gen := g\<rparr>])
      = map uncached_entry (c_roster c)"
    by (rule map_update_same) (simp add: uncached_entry_def)
  then show ?thesis by (simp add: uncached_chan_def set_verdict_def)
qed

lemma uncached_upd_chan:
  assumes "uncached_chan (f (st_chans st ! ci)) = uncached_chan (st_chans st ! ci)"
  shows "uncached (upd_chan st ci f) = uncached st"
proof -
  have "map uncached_chan ((st_chans st)[ci := f (st_chans st ! ci)]) = map uncached_chan (st_chans st)"
    by (rule map_update_same) (rule assms)
  then show ?thesis by (simp add: uncached_def upd_chan_def)
qed

lemma entry_authorised_uncached [cached]: "uncached (snd (entry_authorised e st ci i)) = uncached st"
  using epoch_uncached [of e st]
  by (auto simp: entry_authorised_def Let_def uncached_upd_chan uncached_set_verdict split: prod.split)

lemma verdict_set:
  assumes "g = st_auth_gen st" "a = is_authorised st (r_hostmask (c_roster (st_chans st ! ci) ! i))"
    "\<not> is_me st (r_nick (c_roster (st_chans st ! ci) ! i))"
    "r_auth_gen (c_roster (st_chans st ! ci) ! i) \<noteq> g"
  shows "verdict (upd_chan st ci (set_verdict i a g)) cj j = verdict st cj j"
proof -
  let ?c = "st_chans st ! ci"
  have me: "is_me (upd_chan st ci f) = is_me st" "is_authorised (upd_chan st ci f) = is_authorised st"
      "st_auth_gen (upd_chan st ci f) = st_auth_gen st" for f
    by (simp_all add: upd_chan_def is_me_def is_authorised_def is_trusted_bot_def
        trusted_bot_by_host_def mask_has_active_user_def fun_eq_iff)
  have entry: "c_roster (st_chans (upd_chan st ci (set_verdict i a g)) ! cj) ! j =
      (if cj = ci \<and> j = i \<and> ci < length (st_chans st) \<and> i < length (c_roster ?c)
       then (c_roster ?c ! i)\<lparr>r_authorised := a, r_auth_gen := g\<rparr> else c_roster (st_chans st ! cj) ! j)"
    by (cases "cj = ci \<and> ci < length (st_chans st)"; cases "j = i \<and> i < length (c_roster ?c)")
       (auto simp: upd_chan_def set_verdict_def nth_list_update list_update_beyond)
  show ?thesis using assms unfolding verdict_def entry Let_def by (auto simp: me)
qed

lemma ver_entry [simp]: "ver e (snd (entry_authorised e st ci i)) = ver e st"
proof -
  let ?s = "snd (auth_epoch e st)" and ?r = "c_roster (st_chans st ! ci) ! i"
  have settled: "snd (auth_epoch e (upd_chan ?s ci f)) = upd_chan ?s ci f" for f
    using fresh_epochD [of e "upd_chan ?s ci f"] epoch_fresh [of e st] by simp
  consider "is_me st (r_nick ?r)" | "\<not> is_me st (r_nick ?r)" "r_auth_gen ?r = st_auth_gen ?s"
    | "\<not> is_me st (r_nick ?r)" "r_auth_gen ?r \<noteq> st_auth_gen ?s" by blast
  then show ?thesis
  proof cases
    case 1
    then show ?thesis by (simp add: entry_authorised_def Let_def)
  next
    case 2
    then have "snd (entry_authorised e st ci i) = ?s"
      using epoch_settled(1) [of e st] by (simp add: entry_authorised_def Let_def case_prod_beta)
    then show ?thesis using epoch_settled(2) [of e st] by (simp add: ver_def)
  next
    case 3
    then have "snd (entry_authorised e st ci i) =
        upd_chan ?s ci (set_verdict i (is_authorised ?s (r_hostmask ?r)) (st_auth_gen ?s))"
      using epoch_settled(1) [of e st] by (auto simp: entry_authorised_def Let_def case_prod_beta)
    then show ?thesis
      using verdict_set [of "st_auth_gen ?s" ?s _ ci i] 3
      by (simp add: ver_def settled fun_eq_iff)
  qed
qed

lemma entry_authorised_eq:
  "entry_authorised e st ci i = (a, st1) \<Longrightarrow> a = ver e st ci i \<and> ver e st1 = ver e st \<and> uncached st1 = uncached st"
  using entry_authorised_ver [of e st ci i] ver_entry [of e st ci i] entry_authorised_uncached [of e st ci i] by simp

section \<open>Same members, same verdicts\<close>

text \<open>Two states that differ only in the caches, and judge everyone alike.\<close>

definition same_view :: "env \<Rightarrow> bot_state \<Rightarrow> bot_state \<Rightarrow> bool" where
  "same_view e st st' \<longleftrightarrow> uncached st' = uncached st \<and> ver e st' = ver e st"

lemma same_view_refl [simp]: "same_view e st st"
  by (simp add: same_view_def)

lemma same_view_trans: "same_view e s1 s2 \<Longrightarrow> same_view e s2 s3 \<Longrightarrow> same_view e s1 s3"
  by (simp add: same_view_def)

lemma same_view_entry [simp]: "same_view e st (snd (entry_authorised e st ci i))"
  by (simp add: same_view_def cached)

abbreviation member :: "bot_state \<Rightarrow> nat \<Rightarrow> nat \<Rightarrow> roster_entry" where
  "member st ci i \<equiv> c_roster (st_chans st ! ci) ! i"

lemma uncached_chans: "uncached st' = uncached st \<Longrightarrow> map uncached_chan (st_chans st') = map uncached_chan (st_chans st)"
  unfolding uncached_def by (drule arg_cong [of _ _ st_chans]) simp

lemma uncached_chan_at:
  assumes "uncached st' = uncached st"
  shows "uncached_chan (st_chans st' ! ci) = uncached_chan (st_chans st ! ci)"
proof (cases "ci < length (st_chans st)")
  case True
  then show ?thesis using uncached_chans [OF assms] by (metis length_map nth_map)
next
  case False
  have len: "length (st_chans st') = length (st_chans st)"
    using uncached_chans [OF assms] by (metis length_map)
  have "xs ! n = [] ! (n - length xs)" if "n \<ge> length xs" for xs :: "chan list" and n
    using that by (induction xs arbitrary: n) (auto simp: nth_Cons' split: if_splits)
  then have "st_chans st' ! ci = st_chans st ! ci" using False len by (metis not_le)
  then show ?thesis by simp
qed

lemma uncached_member:
  assumes "uncached st' = uncached st" "i < length (c_roster (st_chans st ! ci))"
  shows "uncached_entry (member st' ci i) = uncached_entry (member st ci i)"
    "length (c_roster (st_chans st' ! ci)) = length (c_roster (st_chans st ! ci))"
proof -
  have eq: "map uncached_entry (c_roster (st_chans st' ! ci)) = map uncached_entry (c_roster (st_chans st ! ci))"
    using arg_cong [OF uncached_chan_at [OF assms(1), of ci], of c_roster] by (simp add: uncached_chan_def)
  then show "length (c_roster (st_chans st' ! ci)) = length (c_roster (st_chans st ! ci))" by (metis length_map)
  with eq assms(2) show "uncached_entry (member st' ci i) = uncached_entry (member st ci i)" by (metis nth_map)
qed

lemma uncached_entryD:
  assumes "uncached_entry r' = uncached_entry r"
  shows "r_nick r' = r_nick r" "r_hostmask r' = r_hostmask r" "r_is_op r' = r_is_op r"
    "r_is_halfop r' = r_is_halfop r" "r_is_voice r' = r_is_voice r"
  using assms by (cases r; cases r'; simp add: uncached_entry_def)+

lemma uncached_mask: "uncached st' = uncached st \<Longrightarrow> i < length (c_roster (st_chans st ! ci)) \<Longrightarrow>
  r_hostmask (member st' ci i) = r_hostmask (member st ci i)"
  using uncached_entryD(2) uncached_member(1) by blast

lemma member_hit_view:
  assumes "i + k \<le> length (c_roster (st_chans st ! ci))"
  shows "fst (member_hit e ci m k i st) =
      find (\<lambda>j. ver e st ci j \<and> wildcard_match m (r_hostmask (member st ci j))) [i..<i + k] \<and>
    same_view e st (snd (member_hit e ci m k i st))"
  using assms
proof (induction k arbitrary: i st)
  case (Suc k)
  obtain a st1 where en: "entry_authorised e st ci i = (a, st1)" by fastforce
  note v = entry_authorised_eq [OF en]
  have len: "length (c_roster (st_chans st1 ! ci)) = length (c_roster (st_chans st ! ci))"
    using v uncached_member(2) [of st1 st i ci] Suc.prems by simp
  have IH: "fst (member_hit e ci m k (i + 1) st1) =
      find (\<lambda>j. ver e st1 ci j \<and> wildcard_match m (r_hostmask (member st1 ci j))) [i + 1..<i + 1 + k] \<and>
    same_view e st1 (snd (member_hit e ci m k (i + 1) st1))"
    by (rule Suc.IH) (use Suc.prems len in simp)
  have same: "find (\<lambda>j. ver e st1 ci j \<and> wildcard_match m (r_hostmask (member st1 ci j))) [i + 1..<i + 1 + k] =
      find (\<lambda>j. ver e st ci j \<and> wildcard_match m (r_hostmask (member st ci j))) [i + 1..<i + 1 + k]"
    by (rule find_cong) (use v uncached_mask [of st1 st _ ci] Suc.prems in auto)
  have sv: "same_view e st st1" using v by (simp add: same_view_def)
  have "[i..<i + Suc k] = i # [i + 1..<i + 1 + k]" by (simp add: upt_rec)
  then show ?case
    using v IH same same_view_trans [OF sv] sv by (auto simp: en)
qed simp

lemma allowed_members_view:
  assumes "ci < length (st_chans st)"
  shows "(fst (allowed_members e st ci m) = None \<longleftrightarrow>
      (\<forall>j < length (c_roster (st_chans st ! ci)). ver e st ci j \<longrightarrow> \<not> wildcard_match m (r_hostmask (member st ci j)))) \<and>
    same_view e st (snd (allowed_members e st ci m))"
  using member_hit_view [of 0 "length (c_roster (st_chans st ! ci))" st ci e m] assms
  by (auto simp: allowed_members_def chan_at_def find_None_iff case_prod_beta)

lemma view_overlap: "uncached st' = uncached st \<Longrightarrow> mask_overlaps_authorised st' m = mask_overlaps_authorised st m"
proof -
  assume "uncached st' = uncached st"
  moreover have users: "overlap_users (uncached s) n ms = overlap_users s n ms" for s n ms
    by (induction ms) (auto simp: uncached_def mask_has_active_user_def split: option.split)
  have fields: "st_trusted_bots (uncached s) = st_trusted_bots s" "st_mask_records (uncached s) = st_mask_records s" for s
    by (simp_all add: uncached_def)
  have "mask_overlaps_authorised (uncached s) m = mask_overlaps_authorised s m" for s
    unfolding mask_overlaps_authorised_def users fields ..
  ultimately show ?thesis by metis
qed

lemma ban_allowed_view:
  assumes "ci < length (st_chans st)" "ban_allowed e st ci m = (ok, st1)"
  shows "same_view e st st1"
    "ok \<longleftrightarrow> safe_token m BAN_MASK_MAX \<and> mask_overlaps_authorised st m = None \<and>
       (\<forall>j < length (c_roster (st_chans st ! ci)). ver e st ci j \<longrightarrow> \<not> wildcard_match m (r_hostmask (member st ci j)))"
proof -
  obtain who st2 where al: "allowed_members e st ci m = (who, st2)" by fastforce
  note v = allowed_members_view [OF assms(1), of e m, unfolded al fst_conv snd_conv]
  then have ov: "mask_overlaps_authorised st2 m = mask_overlaps_authorised st m"
    by (intro view_overlap) (simp add: same_view_def)
  have "(ok, st1) = (if \<not> safe_token m BAN_MASK_MAX then (False, st)
      else (who = None \<and> mask_overlaps_authorised st m = None, st2))"
    using assms(2) ov by (auto simp: ban_allowed_def ban_allowed_why_def al split: option.splits if_splits)
  then show "same_view e st st1"
    "ok \<longleftrightarrow> safe_token m BAN_MASK_MAX \<and> mask_overlaps_authorised st m = None \<and>
       (\<forall>j < length (c_roster (st_chans st ! ci)). ver e st ci j \<longrightarrow> \<not> wildcard_match m (r_hostmask (member st ci j)))"
    using v by (auto split: if_splits)
qed

lemma same_view_chans: "same_view e st st' \<Longrightarrow> length (st_chans st') = length (st_chans st)"
  unfolding same_view_def using uncached_chans by (metis length_map)

lemma same_view_members:
  "same_view e st st' \<Longrightarrow>
   (\<forall>j < length (c_roster (st_chans st' ! ci)). ver e st' ci j \<longrightarrow> \<not> wildcard_match m (r_hostmask (member st' ci j))) \<longleftrightarrow>
   (\<forall>j < length (c_roster (st_chans st ! ci)). ver e st ci j \<longrightarrow> \<not> wildcard_match m (r_hostmask (member st ci j)))"
  unfolding same_view_def using uncached_mask [of st' st _ ci] uncached_member(2) [of st' st _ ci]
    uncached_member(2) [of st st' _ ci]
  by (metis gr_implies_not_zero not_gr_zero)

lemma narrow_spares:
  assumes "narrow e ci nuh tried ts st = (Some m, st')" "ci < length (st_chans st)"
  shows "same_view e st st' \<and> (\<exists>t. ban_mask t nuh = Some m) \<and> mask_overlaps_authorised st m = None \<and>
    (\<forall>j < length (c_roster (st_chans st ! ci)). ver e st ci j \<longrightarrow> \<not> wildcard_match m (r_hostmask (member st ci j)))"
  using assms
proof (induction ts arbitrary: tried st)
  case (Cons t ts)
  show ?case
  proof (cases "t \<in> set tried \<or> ban_mask t nuh = None")
    case True
    then have "narrow e ci nuh (tried @ [t]) ts st = (Some m, st')"
      using Cons.prems(1) by (auto split: if_splits)
    then show ?thesis by (rule Cons.IH) (rule Cons.prems(2))
  next
    case False
    then obtain b where b: "ban_mask t nuh = Some b" "t \<notin> set tried" by auto
    obtain ok st1 where al: "ban_allowed e st ci b = (ok, st1)" by fastforce
    note v = ban_allowed_view [OF Cons.prems(2) al]
    show ?thesis
    proof (cases ok)
      case True
      then show ?thesis using Cons.prems(1) b al v by auto
    next
      case False
      have "narrow e ci nuh (tried @ [t]) ts st1 = (Some m, st')" using Cons.prems(1) b al False by simp
      then show ?thesis
        using Cons.IH [of "tried @ [t]" st1] Cons.prems(2) v(1) same_view_chans [OF v(1)] same_view_members [OF v(1), of ci m]
          view_overlap [of st1 st m] same_view_trans [OF v(1)]
        by (auto simp: same_view_def)
    qed
  qed
qed simp

end
