(* ===== verification/ChanModesProps.thy ===== *)
theory ChanModesProps
  imports ChanModes
begin

text \<open>
  Enforcing the stored modes settles: once the server has taken the changes \<open>sync\<close> sends and
  echoed them, another \<open>sync\<close> finds nothing to do.
\<close>

definition flag_letters :: string where "flag_letters = ''imnpst''"

text \<open>A server whose 005 puts the letters the bots store in their usual groups, as the defaults do.\<close>

definition std_modes :: "isupport \<Rightarrow> bool" where
  "std_modes isu \<longleftrightarrow>
     list_all (\<lambda>p. \<not> is_prefix_mode isu p \<and> \<not> mode_has_arg isu p True \<and> \<not> mode_has_arg isu p False) flag_letters \<and>
     mode_has_arg isu (CHR ''k'') True \<and> mode_has_arg isu (CHR ''k'') False \<and>
     mode_has_arg isu (CHR ''l'') True \<and> \<not> mode_has_arg isu (CHR ''l'') False"

lemma default_std_modes: "std_modes default_isupport"
  by (simp add: std_modes_def flag_letters_def default_isupport_def is_prefix_mode_def mode_has_arg_def byte_def)

definition set_flag :: "bool \<Rightarrow> char \<Rightarrow> chan \<Rightarrow> chan" where
  "set_flag on p c = c\<lparr>c_live_flags := (if on then c_live_flags c OR live_bit p
                                        else c_live_flags c AND NOT (live_bit p))\<rparr>"

text \<open>What the echo of one change does to the channel.\<close>

definition echo :: "isupport \<Rightarrow> env \<Rightarrow> string \<times> string \<Rightarrow> chan \<Rightarrow> chan" where
  "echo isu e ch c = (case tok_next '' '' (snd ch) of (arg, rest) \<Rightarrow> apply_loop e isu False True arg rest (fst ch) c)"

lemma live_apply_echo: "live_apply e st ci modes args False = upd_chan st ci (echo (st_isup st) e (modes, args))"
proof -
  have "(\<lambda>c. case tok_next '' '' args of (arg, rest) \<Rightarrow> apply_loop e (st_isup st) False True arg rest modes c) =
      echo (st_isup st) e (modes, args)"
    by (rule ext) (simp add: echo_def)
  then show ?thesis by (simp add: live_apply_def Let_def)
qed

lemma echo_one:
  assumes "p \<noteq> CHR ''+''" "p \<noteq> CHR ''-''"
  shows "echo isu e ([CHR ''+'', p], a) c =
      (if mode_has_arg isu p True \<and> fst (tok_next '' '' a) = None \<and> p \<noteq> CHR ''k'' then c
       else apply_letter e isu False p True (mode_has_arg isu p True)
              (if mode_has_arg isu p True then fst (tok_next '' '' a) else None) c)"
    "echo isu e ([CHR ''-'', p], a) c =
      (if mode_has_arg isu p False \<and> fst (tok_next '' '' a) = None \<and> p \<noteq> CHR ''k'' then c
       else apply_letter e isu False p False (mode_has_arg isu p False)
              (if mode_has_arg isu p False then fst (tok_next '' '' a) else None) c)"
  using assms by (cases "tok_next '' '' a"; cases "fst (tok_next '' '' a)"; simp add: echo_def Let_def split_beta)+

lemma flag_letter:
  assumes "p \<in> set flag_letters"
  shows "p \<noteq> CHR ''b''" "p \<noteq> CHR ''k''" "p \<noteq> CHR ''l''" "p \<noteq> CHR ''+''" "p \<noteq> CHR ''-''" "is_lower p" "is_alpha p"
  using assms by (auto simp: flag_letters_def is_lower_def is_alpha_def is_upper_def byte_def)

lemma std_flag:
  "std_modes isu \<Longrightarrow> p \<in> set flag_letters \<Longrightarrow>
     \<not> is_prefix_mode isu p \<and> \<not> mode_has_arg isu p True \<and> \<not> mode_has_arg isu p False"
  by (simp add: std_modes_def list_all_iff)

lemma echo_flag:
  assumes "std_modes isu" "p \<in> set flag_letters"
  shows "echo isu e ([CHR ''+'', p], []) c = set_flag True p c" "echo isu e ([CHR ''-'', p], []) c = set_flag False p c"
  using std_flag [OF assms] flag_letter [OF assms(2)]
  by (simp_all add: echo_one apply_letter_def set_flag_def)

lemma tok_next_single:
  assumes "a \<noteq> []" "CHR '' '' \<notin> set a"
  shows "tok_next '' '' a = (Some a, [])"
proof -
  have "dropWhile (\<lambda>c. c = CHR '' '') a = a" using assms by (cases a) auto
  moreover have "position (\<lambda>c. c = CHR '' '') a = None" using assms by (auto simp: position_None_iff)
  ultimately show ?thesis using assms(1) by (simp add: tok_next_def)
qed

lemma echo_key_on:
  assumes "std_modes isu" "usable_key key" "length key < MAX_KEY"
  shows "echo isu e (''+k'', key) c = (set_flag True (CHR ''k'') c)\<lparr>c_live_key := key\<rparr>"
proof -
  have "tok_next '' '' key = (Some key, [])" using assms(2) by (intro tok_next_single) (auto simp: usable_key_def)
  then show ?thesis using assms by (simp add: echo_one apply_letter_def set_flag_def std_modes_def trunc_id)
qed

lemma echo_key_off:
  assumes "std_modes isu"
  shows "echo isu e (''-k'', key) c = (set_flag False (CHR ''k'') c)\<lparr>c_live_key := []\<rparr>"
  using assms by (simp add: echo_one apply_letter_def set_flag_def std_modes_def)

lemma dec_limit:
  assumes "1 \<le> v" "v \<le> 99999"
  shows "all_digits (dec_int v)" "parse_small (dec_int v) = v" "CHR '' '' \<notin> set (dec_int v)"
proof -
  have "length (dec (nat v)) \<le> 5" using assms by (intro length_dec) auto
  then show "all_digits (dec_int v)" "parse_small (dec_int v) = v"
    using assms dec_digits [of "nat v"] by (simp_all add: all_digits_def dec_int_def parse_small_def list_all_iff)
  show "CHR '' '' \<notin> set (dec_int v)"
    using assms dec_digits [of "nat v"] by (auto simp: dec_int_def is_digit_def byte_def)
qed

lemma echo_limit_on:
  assumes "std_modes isu" "1 \<le> v" "v \<le> 99999"
  shows "echo isu e (''+l'', dec_int v) c = (set_flag True (CHR ''l'') c)\<lparr>c_live_limit := v\<rparr>"
proof -
  have "dec_int v \<noteq> []" using assms(2) by (simp add: dec_int_def)
  then have "tok_next '' '' (dec_int v) = (Some (dec_int v), [])"
    using dec_limit(3) [OF assms(2,3)] by (rule tok_next_single)
  then show ?thesis
    using assms(1) dec_limit [OF assms(2,3)] by (simp add: echo_one apply_letter_def set_flag_def std_modes_def)
qed

lemma echo_limit_off:
  assumes "std_modes isu"
  shows "echo isu e (''-l'', []) c = (set_flag False (CHR ''l'') c)\<lparr>c_live_limit := 0\<rparr>"
  using assms by (simp add: echo_one apply_letter_def set_flag_def std_modes_def)

section \<open>All the changes echoed\<close>

lemma live_has_lower:
  assumes "is_lower m"
  shows "live_has c m \<longleftrightarrow> bit (c_live_flags c) (byte m - 97)"
proof -
  have n: "byte m - 97 < 64" using assms unfolding is_lower_def by linarith
  have "bit (push_bit (byte m - 97) 1 :: 64 word) (byte m - 97)"
    using n by (simp add: bit_exp_iff)
  then have "(push_bit (byte m - 97) 1 :: 64 word) \<noteq> 0" by (metis bit_0_eq bot_fun_def bot_bool_def)
  then show ?thesis using assms using bit_iff_and_push_bit_not_eq_0 [of "c_live_flags c" "byte m - 97"]
    by (simp add: live_has_def live_bit_def)
qed

lemma live_bit_bit:
  assumes "is_lower p" "is_lower q"
  shows "bit (live_bit p) (byte q - 97) \<longleftrightarrow> p = q"
proof -
  have "byte p - 97 < 64" "97 \<le> byte p" "97 \<le> byte q" using assms unfolding is_lower_def by linarith+
  then show ?thesis using assms byte_inject [of p q]
    by (auto simp: live_bit_def bit_exp_iff simp del: byte_inject)
qed

lemma live_has_set_flag:
  assumes "is_lower p" "is_lower q"
  shows "live_has (set_flag on p c) q \<longleftrightarrow> (if p = q then on else live_has c q)"
  using live_bit_bit [OF assms] assms
  by (auto simp: live_has_lower set_flag_def bit_or_iff bit_and_iff bit_not_iff is_lower_def)

lemma set_flag_same: "set_flag on p c = c\<lparr>c_live_flags := c_live_flags (set_flag on p c)\<rparr>"
  by (simp add: set_flag_def)

abbreviation echoes :: "isupport \<Rightarrow> env \<Rightarrow> (string \<times> string) list \<Rightarrow> chan \<Rightarrow> chan" where
  "echoes isu e chs c \<equiv> foldl (\<lambda>c ch. echo isu e ch c) c chs"

lemma live_applies_echoes:
  assumes "ci < length (st_chans st)"
  shows "foldl (\<lambda>s ch. live_apply e s ci (fst ch) (snd ch) False) st chs =
    upd_chan st ci (echoes (st_isup st) e chs)"
  using assms
proof (induction chs arbitrary: st)
  case (Cons ch chs)
  let ?st = "upd_chan st ci (echo (st_isup st) e ch)"
  have "st_isup ?st = st_isup st" "ci < length (st_chans ?st)" using Cons.prems by (simp_all add: upd_chan_def)
  then show ?case using Cons.IH [of ?st] Cons.prems by (simp add: live_apply_echo upd_chan_def)
qed (simp add: upd_chan_def)

lemma flags_settle:
  assumes "std_modes isu" "c_live_known c" "set ps \<subseteq> set flag_letters" "distinct ps"
    "\<forall>p \<in> set ps. live_has d p = live_has c p"
  shows "(\<forall>q. is_lower q \<longrightarrow> live_has (echoes isu e (concat (map (flag_change dir c) ps)) d) q =
      (if q \<in> set ps \<and> dir q \<noteq> None then the (dir q) else live_has d q)) \<and>
    echoes isu e (concat (map (flag_change dir c) ps)) d =
      d\<lparr>c_live_flags := c_live_flags (echoes isu e (concat (map (flag_change dir c) ps)) d)\<rparr>"
  using assms
proof (induction ps arbitrary: d)
  case (Cons p ps)
  have p: "p \<in> set flag_letters" "is_lower p" using Cons.prems(3) flag_letter(6) by auto
  define d1 where "d1 = echoes isu e (flag_change dir c p) d"
  have d1: "d1 = d \<and> (dir p = None \<or> dir p = Some (live_has d p)) \<or> (\<exists>on. dir p = Some on \<and> d1 = set_flag on p d)"
    using Cons.prems(2,5) echo_flag [OF Cons.prems(1) p(1)]
    by (auto simp: d1_def flag_change_def split: option.split bool.split)
  then have lh: "live_has d1 q = (if q = p \<and> dir q \<noteq> None then the (dir q) else live_has d q)"
    if "is_lower q" for q using that p(2) by (auto simp: live_has_set_flag)
  have same: "d1\<lparr>c_live_flags := y\<rparr> = d\<lparr>c_live_flags := y\<rparr>" for y using d1 by (auto simp: set_flag_def)
  have "\<forall>q \<in> set ps. live_has d1 q = live_has c q"
  proof
    fix q assume q: "q \<in> set ps"
    then have "is_lower q" "q \<noteq> p" using Cons.prems(3,4) flag_letter(6) by auto
    then show "live_has d1 q = live_has c q" using lh [of q] Cons.prems(5) q by simp
  qed
  note IH = Cons.IH [OF Cons.prems(1,2) _ _ this]
  have e: "echoes isu e (concat (map (flag_change dir c) (p # ps))) d =
      echoes isu e (concat (map (flag_change dir c) ps)) d1" by (simp add: d1_def)
  show ?case unfolding e
  proof (intro conjI allI impI)
    fix q assume "is_lower q"
    then show "live_has (echoes isu e (concat (map (flag_change dir c) ps)) d1) q =
      (if q \<in> set (p # ps) \<and> dir q \<noteq> None then the (dir q) else live_has d q)"
      using IH Cons.prems(3,4) lh by auto
  next
    have "echoes isu e (concat (map (flag_change dir c) ps)) d1 =
      d1\<lparr>c_live_flags := c_live_flags (echoes isu e (concat (map (flag_change dir c) ps)) d1)\<rparr>"
      using IH Cons.prems(3,4) by auto
    then show "echoes isu e (concat (map (flag_change dir c) ps)) d1 =
      d\<lparr>c_live_flags := c_live_flags (echoes isu e (concat (map (flag_change dir c) ps)) d1)\<rparr>"
      unfolding same .
  qed
qed simp

text \<open>Key and limit: what their changes leave, and that they touch nothing else of a channel.\<close>

lemma live_has_upd [simp]:
  "live_has (c\<lparr>c_live_key := k\<rparr>) = live_has c" "live_has (c\<lparr>c_live_limit := v\<rparr>) = live_has c"
  by (simp_all add: live_has_def fun_eq_iff)

lemma set_flag_fields [simp]:
  "c_live_known (set_flag on p c) = c_live_known c" "c_live_key (set_flag on p c) = c_live_key c"
  "c_live_limit (set_flag on p c) = c_live_limit c" "c_key (set_flag on p c) = c_key c"
  "c_cfg_active (set_flag on p c) = c_cfg_active c" "c_cfg_ts (set_flag on p c) = c_cfg_ts c"
  "c_cfg_modes (set_flag on p c) = c_cfg_modes c"
  by (simp_all add: set_flag_def)

lemma lower_kl [simp]: "is_lower (CHR ''k'')" "is_lower (CHR ''l'')"
  by (simp_all add: is_lower_def byte_def)

text \<open>Two channels that agree on the live state the changes read.\<close>

definition same_live :: "chan \<Rightarrow> chan \<Rightarrow> bool" where
  "same_live c d \<longleftrightarrow> c_live_known d = c_live_known c \<and> c_key d = c_key c \<and> c_cfg_active d = c_cfg_active c \<and>
     c_cfg_ts d = c_cfg_ts c \<and> c_cfg_modes d = c_cfg_modes c"

lemma key_settles:
  assumes "std_modes isu" "c_live_known c" "length (c_key c) < MAX_KEY" "c_live_key d = c_live_key c"
    "live_has d (CHR ''k'') = live_has c (CHR ''k'')" "same_live c d"
  shows "key_change kd (echoes isu e (key_change kd c) d) = [] \<and>
    (\<forall>q. is_lower q \<and> q \<noteq> CHR ''k'' \<longrightarrow> live_has (echoes isu e (key_change kd c) d) q = live_has d q) \<and>
    c_live_limit (echoes isu e (key_change kd c) d) = c_live_limit d \<and> same_live c (echoes isu e (key_change kd c) d)"
proof (cases "kd = Some True \<and> usable_key (c_key c)")
  case True
  then show ?thesis
    using assms echo_key_on [OF assms(1) _ assms(3)]
    by (auto simp: key_change_def echo_key_off [OF assms(1)] live_has_set_flag same_live_def shown_key_def)
next
  case False
  then show ?thesis
    using assms
    by (auto simp: key_change_def echo_key_off [OF assms(1)] live_has_set_flag same_live_def shown_key_def)
qed

lemma limit_settles:
  assumes "std_modes isu" "c_live_known c" "ld = Some True \<longrightarrow> 1 \<le> want \<and> want \<le> 99999"
    "c_live_limit d = c_live_limit c" "live_has d (CHR ''l'') = live_has c (CHR ''l'')" "same_live c d"
  shows "limit_change ld want (echoes isu e (limit_change ld want c) d) = [] \<and>
    (\<forall>q. is_lower q \<and> q \<noteq> CHR ''l'' \<longrightarrow> live_has (echoes isu e (limit_change ld want c) d) q = live_has d q) \<and>
    c_live_key (echoes isu e (limit_change ld want c) d) = c_live_key d \<and> same_live c (echoes isu e (limit_change ld want c) d)"
  using assms echo_limit_on [OF assms(1), of want]
  by (auto simp: limit_change_def echo_limit_off [OF assms(1)] live_has_set_flag same_live_def
      split: option.splits bool.splits)

lemma flags_settled:
  assumes "\<forall>p \<in> set flag_letters. dir p \<noteq> None \<longrightarrow> live_has c p = the (dir p)" "c_live_known c"
  shows "concat (map (flag_change dir c) flag_letters) = []"
proof -
  have "flag_change dir c p = []" if "p \<in> set flag_letters" for p
    using assms that by (cases "dir p") (auto simp: flag_change_def)
  then show ?thesis by simp
qed

lemma key_change_cong:
  "c_live_known c = c_live_known d \<Longrightarrow> live_has c (CHR ''k'') = live_has d (CHR ''k'') \<Longrightarrow>
   c_live_key c = c_live_key d \<Longrightarrow> c_key c = c_key d \<Longrightarrow> key_change kd c = key_change kd d"
  by (simp add: key_change_def shown_key_def)

text \<open>All the changes of one sync, echoed.\<close>

definition changes :: "(char \<Rightarrow> bool option) \<Rightarrow> bool option \<Rightarrow> int \<Rightarrow> chan \<Rightarrow> (string \<times> string) list" where
  "changes dir ld want d = concat (map (flag_change dir d) flag_letters) @ key_change (dir (CHR ''k'')) d @
     limit_change ld want d"

lemma changes_settle:
  fixes c :: chan
  assumes "std_modes isu" "c_live_known c" "length (c_key c) < MAX_KEY"
    "ld = Some True \<longrightarrow> 1 \<le> want \<and> want \<le> 99999"
  shows "changes dir ld want (echoes isu e (changes dir ld want c) c) = [] \<and>
    same_live c (echoes isu e (changes dir ld want c) c)"
proof -
  define c1 where "c1 = echoes isu e (concat (map (flag_change dir c) flag_letters)) c"
  have f: "\<forall>q. is_lower q \<longrightarrow> live_has c1 q = (if q \<in> set flag_letters \<and> dir q \<noteq> None then the (dir q) else live_has c q)"
    and c1: "c1 = c\<lparr>c_live_flags := c_live_flags c1\<rparr>"
    using flags_settle [OF assms(1,2), of flag_letters c e dir] unfolding c1_def
    by (auto simp: flag_letters_def)
  have c1s: "c_live_key c1 = c_live_key c" "c_live_limit c1 = c_live_limit c" "same_live c c1"
    by (subst c1, simp add: same_live_def)+
  have kl: "CHR ''k'' \<notin> set flag_letters" "CHR ''l'' \<notin> set flag_letters" by (simp_all add: flag_letters_def)
  have c1k: "live_has c1 (CHR ''k'') = live_has c (CHR ''k'')" "live_has c1 (CHR ''l'') = live_has c (CHR ''l'')"
    using f kl by auto
  define c2 where "c2 = echoes isu e (key_change (dir (CHR ''k'')) c) c1"
  note k = key_settles [OF assms(1-3) c1s(1) c1k(1) c1s(3), of "dir (CHR ''k'')" e, folded c2_def]
  have c2: "c_live_limit c2 = c_live_limit c" "live_has c2 (CHR ''l'') = live_has c (CHR ''l'')" "same_live c c2"
    using k c1s(2) c1k(2) by simp_all
  define c3 where "c3 = echoes isu e (limit_change ld want c) c2"
  note l = limit_settles [OF assms(1,2,4) c2, of e, folded c3_def]
  have c3: "echoes isu e (changes dir ld want c) c = c3" by (simp add: changes_def c1_def c2_def c3_def)
  have known: "c_live_known c3" "c_live_known c2" using l k assms(2) by (simp_all add: same_live_def)
  have "key_change (dir (CHR ''k'')) c3 = key_change (dir (CHR ''k'')) c2"
    by (rule key_change_cong) (use l k in \<open>simp_all add: same_live_def\<close>)
  moreover have "concat (map (flag_change dir c3) flag_letters) = []"
  proof (rule flags_settled [OF _ known(1)], intro ballI impI)
    fix p assume p: "p \<in> set flag_letters" "dir p \<noteq> None"
    then have "is_lower p" "p \<noteq> CHR ''k''" "p \<noteq> CHR ''l''" using flag_letter by auto
    then show "live_has c3 p = the (dir p)" using f k l p by simp
  qed
  ultimately have "changes dir ld want c3 = [] \<and> same_live c c3" using k l by (simp add: changes_def)
  then show ?thesis by (simp only: c3)
qed

lemma stored_limit_range:
  "stored_modes spec = Inr (dir, want) \<Longrightarrow> dir (CHR ''l'') = Some True \<Longrightarrow> 1 \<le> want \<and> want \<le> 99999"
  by (auto simp: stored_modes_def stored_limit_def split: if_splits option.splits prod.splits sum.splits)

lemma mode_changes_at:
  assumes "stored_modes (get_modes st (chan_at st ci)) = Inr (dir, want)" "c_live_known (st_chans st ! ci)"
  shows "mode_changes st ci skip known = Inr (changes dir (if skip then None else dir (CHR ''l'')) want (st_chans st ! ci))"
  using assms by (simp add: mode_changes_def changes_def flag_letters_def Let_def)

text \<open>C17: Enforcing the stored modes settles: when the server takes every change a sync queues and its echoes
  come back, the live state is as stored and another sync queues nothing, whatever the live modes were.\<close>

theorem stored_modes_settle:
  assumes "ci < length (st_chans st)" "std_modes (st_isup st)" "length (c_key (st_chans st ! ci)) < MAX_KEY"
    "c_live_known (st_chans st ! ci)" "mode_changes st ci skip known = Inr chs"
  shows "mode_changes (foldl (\<lambda>s ch. live_apply e s ci (fst ch) (snd ch) False) st chs) ci skip known = Inr []"
proof -
  obtain dir want where sm: "stored_modes (get_modes st (chan_at st ci)) = Inr (dir, want)"
    using assms(5) by (cases "stored_modes (get_modes st (chan_at st ci))") (auto simp: mode_changes_def)
  define c where "c = st_chans st ! ci"
  define ld where "ld = (if skip then None else dir (CHR ''l''))"
  have chs: "chs = changes dir ld want c"
    using mode_changes_at [OF sm assms(4), of skip known] assms(5) by (simp add: ld_def c_def)
  have "ld = Some True \<longrightarrow> 1 \<le> want \<and> want \<le> 99999"
    using stored_limit_range [OF sm] by (simp add: ld_def)
  note settle = changes_settle [OF assms(2) assms(4,3) [folded c_def] this, of dir e, folded chs]
  define st' where "st' = upd_chan st ci (echoes (st_isup st) e chs)"
  have st': "foldl (\<lambda>s ch. live_apply e s ci (fst ch) (snd ch) False) st chs = st'"
    by (simp add: live_applies_echoes [OF assms(1)] st'_def)
  have at: "st_chans st' ! ci = echoes (st_isup st) e chs c"
    using assms(1) by (simp add: st'_def upd_chan_def c_def)
  have "get_modes st' (chan_at st' ci) = get_modes st (chan_at st ci)"
    using settle assms(1) at
    by (simp add: get_modes_def chan_at_def same_live_def st'_def upd_chan_def c_def Let_def)
  then have "mode_changes st' ci skip known = Inr (changes dir ld want (st_chans st' ! ci))"
    using mode_changes_at [of st' ci dir want skip known] sm settle assms(4)
    by (simp add: at ld_def same_live_def c_def)
  then show ?thesis using settle by (simp add: st' at)
qed

definition demo_moded :: bot_state where
  "demo_moded = (let st = snd (chan_add (calm_env 5) lean_bot ''#c'') in
     upd_chan st 0 (\<lambda>c. c\<lparr>c_cfg_active := True, c_cfg_ts := 9, c_cfg_modes := ''+ntkl-s 20'', c_key := ''abc'',
       c_live_known := True, c_live_flags := live_bit (CHR ''s'') OR live_bit (CHR ''k''), c_live_key := ''old''\<rparr>))"

lemma stored_modes_settle_witness:
  "mode_changes demo_moded 0 False True =
     Inr [(''+n'', []), (''-s'', []), (''+t'', []), (''-k'', ''old''), (''+k'', ''abc''), (''+l'', ''20'')] \<and>
   mode_changes (foldl (\<lambda>s ch. live_apply (calm_env 7) s 0 (fst ch) (snd ch) False) demo_moded
     [(''+n'', []), (''-s'', []), (''+t'', []), (''-k'', ''old''), (''+k'', ''abc''), (''+l'', ''20'')]) 0 False True = Inr []"
proof
  show m: "mode_changes demo_moded 0 False True =
     Inr [(''+n'', []), (''-s'', []), (''+t'', []), (''-k'', ''old''), (''+k'', ''abc''), (''+l'', ''20'')]"
    by code_simp
  show "mode_changes (foldl (\<lambda>s ch. live_apply (calm_env 7) s 0 (fst ch) (snd ch) False) demo_moded
     [(''+n'', []), (''-s'', []), (''+t'', []), (''-k'', ''old''), (''+k'', ''abc''), (''+l'', ''20'')]) 0 False True = Inr []"
  proof (rule stored_modes_settle [OF _ _ _ _ m])
    have "st_isup demo_moded = default_isupport" by code_simp
    then show "std_modes (st_isup demo_moded)" by (simp add: default_std_modes)
  qed code_simp+
qed

end
