(* ===== verification/EnfProps.thy ===== *)
theory EnfProps
  imports EnfFacts ChanModesProps
begin

text \<open>
  What the enforcement guarantees: the bans a bot sets by itself and its acts spare the authorised,
  the table of waiting jobs is sound, and the dynamic limit settles.
\<close>

section \<open>Automatic bans\<close>

text \<open>C12: A ban a bot sets on someone by itself matches that someone and fits on an IRC line, however far the
  configured ban type widens it.  It passes the overlap test against every trusted bot and active
  user, so it matches no authorised host of ordinary length without a tilde, and it matches no
  authorised member of the channel, tilde or not: types that would hit one are passed over.\<close>

theorem auto_ban_spares:
  assumes "auto_ban_mask e st ci nuh = (Some m, st')" "ci < length (st_chans st)"
  shows "wildcard_match m nuh \<and> safe_token m BAN_MASK_MAX \<and> mask_overlaps_authorised st m = None \<and>
    (\<forall>host. is_authorised st host \<and> CHR ''~'' \<notin> set host \<and> length host < MAX_MASK_LEN \<longrightarrow> \<not> wildcard_match m host) \<and>
    (\<forall>j < length (c_roster (st_chans st ! ci)). fst (entry_authorised e st ci j) \<longrightarrow>
       \<not> wildcard_match m (r_hostmask (c_roster (st_chans st ! ci) ! j)))"
proof -
  have n: "wildcard_match m nuh \<and> safe_token m BAN_MASK_MAX \<and> mask_overlaps_authorised st m = None \<and>
    (\<forall>j < length (c_roster (st_chans st ! ci)). fst (entry_authorised e st ci j) \<longrightarrow>
       \<not> wildcard_match m (r_hostmask (c_roster (st_chans st ! ci) ! j)))"
    using narrow_spares [OF assms(1) [unfolded auto_ban_mask_def] assms(2)] ban_mask_fits by auto
  then have "\<not> wildcard_match m host"
    if "is_authorised st host" "CHR ''~'' \<notin> set host" "length host < MAX_MASK_LEN" for host
    using overlap_none_spares [OF that(1) _ that(2,3), of m] by blast
  then show ?thesis using n by blast
qed

text \<open>A channel with another bot and a stranger from the same hosts.\<close>

definition demo_channel :: bot_state where
  "demo_channel = demo_dealer ''u1'' ''a'' [(''a'', ''a!u@h.x''), (''b'', ''b!u@h.x''), (''c'', ''c!~u@h.y'')]"

definition demo_alone :: bot_state where
  "demo_alone = (demo_dealer ''u1'' ''a'' [(''a'', ''a!u@h.x'')])\<lparr>st_trusted_bots := []\<rparr>"

lemma auto_ban_spares_witness:
  "fst (auto_ban_mask (calm_env 0) demo_alone 0 ''c!~u@h.y'') = Some ''*!*@h.y'' \<and>
   wildcard_match ''*!*@h.y'' ''c!~u@h.y'' \<and> \<not> wildcard_match ''*!*@h.y'' ''a!u@h.x''"
proof -
  have "fst (auto_ban_mask (calm_env 0) demo_alone 0 ''c!~u@h.y'') = Some ''*!*@h.y''" by code_simp
  then obtain st' where r: "auto_ban_mask (calm_env 0) demo_alone 0 ''c!~u@h.y'' = (Some ''*!*@h.y'', st')"
    by (metis prod.collapse)
  have l: "0 < length (st_chans demo_alone)" "0 < length (c_roster (st_chans demo_alone ! 0))"
    "r_hostmask (c_roster (st_chans demo_alone ! 0) ! 0) = ''a!u@h.x''"
    by (simp_all add: demo_alone_def demo_dealer_def default_chan_def)
  have "fst (entry_authorised (calm_env 0) demo_alone 0 0)"
    by (simp add: entry_authorised_def Let_def is_me_def eq_ic_def demo_alone_def demo_dealer_def default_chan_def)
  then show ?thesis using auto_ban_spares [OF r l(1)] r l(2,3) by (metis fst_conv)
qed

section \<open>Acts\<close>

text \<open>What others see of a bot: its lines, its frames, its ban records.\<close>

definition outward :: "bot_state \<Rightarrow> string list \<times> sendq \<times> (nat \<times> string) list \<times> cfg_ban list" where
  "outward st = (st_irc_out st, st_sendq st, st_hub_out st, st_cfg_bans st)"

lemma uncached_outward: "uncached st' = uncached st \<Longrightarrow> outward st' = outward st"
proof -
  have "outward (uncached s) = outward s" for s by (simp add: outward_def uncached_def)
  then show "uncached st' = uncached st \<Longrightarrow> outward st' = outward st" by metis
qed

lemma entry_outward [simp]: "outward (snd (entry_authorised e st ci i)) = outward st"
  by (rule uncached_outward) (rule entry_authorised_uncached)

lemma epoch_ban_track:
  "auth_epoch e (st\<lparr>st_ban_track := x\<rparr>) = (fst (auth_epoch e st), (snd (auth_epoch e st))\<lparr>st_ban_track := x\<rparr>)"
proof -
  have "auth_hash (st\<lparr>st_ban_track := x\<rparr>) = auth_hash st" by (simp add: auth_hash_def)
  then show ?thesis by (simp add: auth_epoch_def Let_def)
qed

lemma ver_ban_track [simp]: "ver e (st\<lparr>st_ban_track := x\<rparr>) = ver e st"
proof -
  have "is_me (s\<lparr>st_ban_track := x\<rparr>) = is_me s" "is_authorised (s\<lparr>st_ban_track := x\<rparr>) = is_authorised s" for s
    by (simp_all add: is_me_def is_authorised_def is_trusted_bot_def trusted_bot_by_host_def
        mask_has_active_user_def fun_eq_iff)
  then have "verdict (s\<lparr>st_ban_track := x\<rparr>) = verdict s" for s
    by (simp add: verdict_def fun_eq_iff)
  then show ?thesis by (simp add: ver_def epoch_ban_track)
qed

lemma track_get_table: "snd (track_get st ch m t) = st\<lparr>st_ban_track := st_ban_track (snd (track_get st ch m t))\<rparr>"
  by (simp add: track_get_def Let_def split: sum.split option.split prod.split)

lemma act_ban_spares:
  assumes "ci < length (st_chans st)" "i < length (c_roster (st_chans st ! ci))" "ver e st ci i"
    "wildcard_match m (r_hostmask (member st ci i))"
  shows "outward (act_ban e st ci m why) = outward st"
proof -
  obtain ti st1 where tg: "track_get st (c_name (st_chans st ! ci)) m (e_now e) = (ti, st1)" by fastforce
  obtain x where x: "st1 = st\<lparr>st_ban_track := x\<rparr>"
    using track_get_table [of st "c_name (st_chans st ! ci)" m "e_now e"] tg by simp
  obtain who st2 where al: "allowed_members e st1 ci m = (who, st2)" by fastforce
  have v: "(who = None) = (\<forall>j < length (c_roster (st_chans st ! ci)). ver e st ci j \<longrightarrow>
      \<not> wildcard_match m (r_hostmask (member st ci j)))" "same_view e st1 st2"
    using allowed_members_view [of ci st1 e m] assms(1) x al by simp_all
  then have "who \<noteq> None" using assms by blast
  moreover have "outward st2 = outward st"
    using uncached_outward [of st2 st1] v(2) x by (simp add: same_view_def outward_def)
  moreover have "outward st1 = outward st" by (simp add: x outward_def)
  ultimately show ?thesis by (auto simp: act_ban_def Let_def tg al)
qed

lemma unopped_quiet:
  assumes "\<not> c_i_am_opped (st_chans st ! ci)"
  shows "outward (job_exec e st ci act target reason) = outward st"
  using assms
  by (cases act) (auto simp: act_deop_def act_reop_def act_kick_def act_ban_def act_unban_def exec_ban_nuh_def
      exec_mode_def exec_limit_def limit_due_def Let_def split: option.split)

text \<open>C7: No act goes against an authorised member, or from a bot that is not opped: the bot then sends no
  line, reports nothing to the hub and records no ban, whoever asked for the act and however long the job waited.\<close>

theorem acts_spare_authorised:
  assumes "ci < length (st_chans st)"
    "\<not> c_i_am_opped (st_chans st ! ci) \<or>
     fst (entry_authorised e st ci i) \<and>
       (act \<in> {Deop, Dehalf, Kick} \<and> rfind (st_chans st ! ci) target = Some i \<or>
        act = BanNuh \<and> nuh_nick target = Some nick \<and> rfind (st_chans st ! ci) nick = Some i \<or>
        act = BanMask \<and> i < length (c_roster (st_chans st ! ci)) \<and>
          wildcard_match target (r_hostmask (c_roster (st_chans st ! ci) ! i)))"
  shows "st_irc_out (job_exec e st ci act target reason) = st_irc_out st \<and>
    st_sendq (job_exec e st ci act target reason) = st_sendq st \<and>
    st_hub_out (job_exec e st ci act target reason) = st_hub_out st \<and>
    st_cfg_bans (job_exec e st ci act target reason) = st_cfg_bans st"
proof -
  have "outward (job_exec e st ci act target reason) = outward st"
  proof (cases "c_i_am_opped (st_chans st ! ci)")
    case True
    obtain st1 where en: "entry_authorised e st ci i = (True, st1)" "outward st1 = outward st"
      using assms(2) True entry_outward [of e st ci i] by (cases "entry_authorised e st ci i") auto
    consider "act \<in> {Deop, Dehalf, Kick}" "rfind (st_chans st ! ci) target = Some i"
      | nick where "act = BanNuh" "nuh_nick target = Some nick" "rfind (st_chans st ! ci) nick = Some i"
      | "act = BanMask" "i < length (c_roster (st_chans st ! ci))" "wildcard_match target (r_hostmask (member st ci i))"
      using assms(2) True by blast
    then show ?thesis
    proof cases
      case 1
      then show ?thesis using en by (auto simp: act_deop_def act_kick_def Let_def)
    next
      case (2 nick)
      then show ?thesis using en True by (simp add: exec_ban_nuh_def nick_authorised_def)
    next
      case 3
      have "ver e st ci i" using en(1) entry_authorised_ver [of e st ci i] by simp
      then show ?thesis using act_ban_spares [OF assms(1) 3(2) _ 3(3)] 3(1) by simp
    qed
  qed (rule unopped_quiet)
  then show ?thesis by (simp add: outward_def)
qed

lemma acts_spare_authorised_witness:
  "st_irc_out (job_exec (calm_env 0) demo_channel 0 Kick ''b'' ''out'') = st_irc_out demo_channel"
proof -
  have "0 < length (st_chans demo_channel)" by (simp add: demo_channel_def demo_dealer_def)
  moreover have "fst (entry_authorised (calm_env 0) demo_channel 0 1)" by code_simp
  moreover have "rfind (st_chans demo_channel ! 0) ''b'' = Some 1" by code_simp
  ultimately show ?thesis
    using acts_spare_authorised [of 0 demo_channel "calm_env 0" 1 Kick "''b''" "[]" "''out''"] by blast
qed

section \<open>The table of jobs\<close>

named_theorems jobs_kept

lemma jobs_ircf [jobs_kept]: "st_jobs (ircf e st line) = st_jobs st"
  by (rule core_cong(8)) (rule core_ircf)

lemma jobs_event [jobs_kept]: "st_jobs (event e st ch act target why) = st_jobs st"
  unfolding event_def by (rule core_cong(8)) (rule core_chan_event)

lemma jobs_hold [jobs_kept]: "st_jobs (hold st) = st_jobs st"
  by (rule core_cong(8)) (rule core_hold)

lemma jobs_release [jobs_kept]: "st_jobs (release e st) = st_jobs st"
  by (rule core_cong(8)) (rule core_release)

lemma jobs_push [jobs_kept]: "st_jobs (snd (push_lines e st line)) = st_jobs st"
  using core_cong(8) [OF core_send_frame] by (simp add: push_lines_def)

lemma uncached_jobs: "uncached st' = uncached st \<Longrightarrow> st_jobs st' = st_jobs st"
proof -
  have "st_jobs (uncached s) = st_jobs s" for s by (simp add: uncached_def)
  then show "uncached st' = uncached st \<Longrightarrow> st_jobs st' = st_jobs st" by metis
qed

lemma jobs_entry [jobs_kept]: "st_jobs (snd (entry_authorised e st ci i)) = st_jobs st"
  by (rule uncached_jobs) (rule entry_authorised_uncached)

lemma jobs_entry_eq: "entry_authorised e st ci i = (a, st1) \<Longrightarrow> st_jobs st1 = st_jobs st"
  using jobs_entry [of e st ci i] by simp

lemma jobs_recent [jobs_kept]: "st_jobs (snd (recent_key e st nm act target w)) = st_jobs st"
  by (simp add: recent_key_def recent_check_def Let_def)

lemma jobs_recent_eq: "recent_key e st nm act target w = (b, st1) \<Longrightarrow> st_jobs st1 = st_jobs st"
  using jobs_recent [of e st nm act target w] by simp

lemma jobs_track [jobs_kept]: "st_jobs (snd (track_get st ch m t)) = st_jobs st"
  by (subst track_get_table) simp

lemma jobs_once [jobs_kept]: "st_jobs (act_once e st nm key target line ev why) = st_jobs st"
  by (auto simp: act_once_def jobs_kept dest: jobs_recent_eq split: prod.split bool.split)

lemma jobs_deop [jobs_kept]: "st_jobs (act_deop e st ci nick why half) = st_jobs st"
  by (auto simp: act_deop_def jobs_kept Let_def dest: jobs_entry_eq split: prod.split bool.split option.split)

lemma jobs_reop [jobs_kept]: "st_jobs (act_reop e st ci nick why) = st_jobs st"
  by (auto simp: act_reop_def jobs_kept Let_def dest: jobs_entry_eq split: prod.split bool.split option.split)

lemma jobs_kick [jobs_kept]: "st_jobs (act_kick e st ci nick why) = st_jobs st"
  by (auto simp: act_kick_def jobs_kept Let_def dest: jobs_entry_eq split: prod.split bool.split option.split)

lemma jobs_unban [jobs_kept]: "st_jobs (act_unban e st ci m why) = st_jobs st"
  by (auto simp: act_unban_def jobs_kept Let_def)

lemma jobs_member_hit: "st_jobs (snd (member_hit e ci m k i st)) = st_jobs st"
  by (induction k arbitrary: i st) (auto dest: jobs_entry_eq split: prod.split)

lemma jobs_allowed [jobs_kept]: "st_jobs (snd (allowed_members e st ci m)) = st_jobs st"
  using jobs_member_hit by (auto simp: allowed_members_def case_prod_beta split: option.split)

lemma jobs_ban [jobs_kept]: "st_jobs (act_ban e st ci m why) = st_jobs st"
proof -
  obtain ti st1 where tg: "track_get st (c_name (st_chans st ! ci)) m (e_now e) = (ti, st1)" by fastforce
  obtain who st2 where al: "allowed_members e st1 ci m = (who, st2)" by fastforce
  have "st_jobs st1 = st_jobs st" "st_jobs st2 = st_jobs st1" "st_jobs (ban_overlap_check e st2 ti m) = st_jobs st2"
    using jobs_track [of st "c_name (st_chans st ! ci)" m "e_now e"] tg jobs_allowed [of e st1 ci m] al by (auto simp: ban_overlap_check_def Let_def)
  then show ?thesis by (auto simp: act_ban_def Let_def tg al jobs_kept split: option.split)
qed

lemma jobs_ban_allowed [jobs_kept]: "st_jobs (snd (ban_allowed e st ci m)) = st_jobs st"
proof -
  obtain who st2 where "allowed_members e st ci m = (who, st2)" by fastforce
  then show ?thesis using jobs_allowed [of e st ci m]
    by (auto simp: ban_allowed_def ban_allowed_why_def split: option.split)
qed

lemma jobs_narrow: "st_jobs (snd (narrow e ci nuh tried ts st)) = st_jobs st"
proof (induction ts arbitrary: tried st)
  case (Cons t ts)
  show ?case
  proof (cases "ban_mask t nuh")
    case (Some m)
    obtain b st1 where "ban_allowed e st ci m = (b, st1)" by fastforce
    then show ?thesis using Some Cons.IH jobs_ban_allowed [of e st ci m] by (cases b) auto
  qed (simp add: Cons.IH)
qed simp

lemma jobs_nuh [jobs_kept]: "st_jobs (snd (chan_nuh_authorised e st ci nuh)) = st_jobs st"
  by (auto simp: chan_nuh_authorised_def jobs_kept split: option.split)

lemma jobs_nick [jobs_kept]: "st_jobs (snd (nick_authorised e st ci nick)) = st_jobs st"
  by (auto simp: nick_authorised_def jobs_kept split: option.split)

lemma jobs_ban_store: "st_jobs (snd (ban_store st b)) = st_jobs st"
  by (simp add: ban_store_def bump_gen_def split: option.split)

lemma jobs_bot_ban [jobs_kept]: "st_jobs (snd (bot_ban e st ch m x fl r d)) = st_jobs st"
proof -
  have clear: "st_jobs (clear_pending b s) = st_jobs s" for b s
    by (simp add: clear_pending_def split: option.split)
  have push: "st_jobs s2 = st_jobs s" if "push_lines e s line = (p, s2)" for s line p s2
    using jobs_push [of e s line] that by simp
  have store: "st_jobs s1 = st_jobs s" if "ban_store s b = (p, s1)" for s b p s1
    using jobs_ban_store [of s b] that by simp
  show ?thesis
    by (auto simp: bot_ban_def Let_def clear dest!: push store split: option.split prod.split bool.split)
qed

lemma jobs_sync [jobs_kept]: "st_jobs (snd (modes_sync e st ci skip dry known)) = st_jobs st"
proof -
  have lines: "st_jobs (foldl (\<lambda>s ch. ircf e s (f ch)) s chs) = st_jobs s" for f s chs
    by (induction chs arbitrary: s) (simp_all add: jobs_kept)
  then show ?thesis
    by (auto simp: modes_sync_def mode_sync_def case_prod_beta jobs_kept lines split: sum.split)
qed

lemma jobs_exec [jobs_kept]: "st_jobs (job_exec e st ci act target reason) = st_jobs st"
proof -
  have nuh: "st_jobs (exec_ban_nuh e st ci target reason) = st_jobs st"
  proof -
    have 1: "st_jobs s1 = st_jobs s" if "nick_authorised e s ci n = (b, s1)" for s n b s1
      using jobs_nick [of e s ci n] that by simp
    have 2: "st_jobs s1 = st_jobs s" if "chan_nuh_authorised e s ci target = (b, s1)" for s b s1
      using jobs_nuh [of e s ci target] that by simp
    have 3: "st_jobs s1 = st_jobs s" if "auto_ban_mask e s ci target = (b, s1)" for s b s1
      using jobs_narrow [of e ci target "[]" "[cset s ci BanType, 2, 0, 7, 5]" s] that
      by (simp add: auto_ban_mask_def del: narrow.simps)
    show ?thesis
      by (auto simp: exec_ban_nuh_def Let_def jobs_kept dest!: 1 2 3 split: option.split prod.split bool.split)
  qed
  have sync: "st_jobs s1 = st_jobs s" if "modes_sync e s ci skip dry known = (r, s1)" for s skip dry known r s1
    using jobs_sync [of e s ci skip dry known] that by simp
  have mode: "st_jobs (exec_mode e st ci) = st_jobs st"
    by (auto simp: exec_mode_def Let_def jobs_kept dest!: sync jobs_recent_eq split: prod.split bool.split)
  have limit: "st_jobs (exec_limit e st ci) = st_jobs st"
    by (auto simp: exec_limit_def Let_def jobs_kept dest!: jobs_recent_eq split: prod.split bool.split)
  show ?thesis by (cases act) (simp_all add: jobs_kept nuh mode limit)
qed

text \<open>No work is in the table twice.\<close>

definition jobs_ok :: "pending_job list \<Rightarrow> bool" where
  "jobs_ok js \<longleftrightarrow> length js = MAX_PENDING_JOBS \<and>
     (\<forall>i < length js. \<forall>k < length js. i \<noteq> k \<and> j_used (js ! i) \<and> j_used (js ! k) \<longrightarrow>
        \<not> same_job (j_act (js ! k)) (j_chan (js ! k)) (j_target (js ! k)) (js ! i))"

lemma jobs_ok_fewer:
  assumes "jobs_ok js" "length js' = length js" "\<And>i. i < length js \<Longrightarrow> j_used (js' ! i) \<Longrightarrow> js' ! i = js ! i"
  shows "jobs_ok js'"
  using assms unfolding jobs_ok_def by metis

lemma job_tick_slot:
  assumes "i < length (st_jobs st)"
  shows "\<exists>x. st_jobs (job_tick e t st i) = (st_jobs st)[i := x] \<and>
    (j_used x \<longrightarrow> x = st_jobs st ! i \<and> t - j_created_ms x \<le> JOB_MAX_AGE_MS)"
proof -
  let ?j = "st_jobs st ! i"
  have drop: "st_jobs (drop_job st i) = (st_jobs st)[i := ?j\<lparr>j_used := False\<rparr>]" by (simp add: drop_job_def)
  have "st_jobs (job_tick e t st i) = st_jobs st \<and> (j_used ?j \<longrightarrow> t - j_created_ms ?j \<le> JOB_MAX_AGE_MS) \<or>
      st_jobs (job_tick e t st i) = st_jobs (drop_job st i)"
  proof (cases "\<not> j_used ?j \<or> in_chan st (j_chan ?j) = None \<or> t - j_created_ms ?j > JOB_MAX_AGE_MS")
    case True
    then show ?thesis by (auto simp: job_tick_def Let_def split: option.split)
  next
    case False
    then obtain ci where "in_chan st (j_chan ?j) = Some ci" by auto
    with False show ?thesis by (simp add: job_tick_def Let_def jobs_exec)
  qed
  then consider "st_jobs (job_tick e t st i) = st_jobs st" "j_used ?j \<longrightarrow> t - j_created_ms ?j \<le> JOB_MAX_AGE_MS"
    | "st_jobs (job_tick e t st i) = st_jobs (drop_job st i)" by blast
  then show ?thesis
  proof cases
    case 1
    then show ?thesis by (intro exI [of _ ?j]) simp
  next
    case 2
    then show ?thesis by (intro exI [of _ "?j\<lparr>j_used := False\<rparr>"]) (simp add: drop)
  qed
qed

lemma job_ticks:
  assumes "\<forall>i \<in> set is. i < length (st_jobs st)"
  shows "length (st_jobs (foldl (job_tick e t) st is)) = length (st_jobs st) \<and>
    (\<forall>k < length (st_jobs st). j_used (st_jobs (foldl (job_tick e t) st is) ! k) \<longrightarrow>
       st_jobs (foldl (job_tick e t) st is) ! k = st_jobs st ! k \<and>
       (k \<in> set is \<longrightarrow> t - j_created_ms (st_jobs st ! k) \<le> JOB_MAX_AGE_MS))"
  using assms
proof (induction "is" arbitrary: st)
  case (Cons i js)
  obtain x where x: "st_jobs (job_tick e t st i) = (st_jobs st)[i := x]"
    "j_used x \<Longrightarrow> x = st_jobs st ! i \<and> t - j_created_ms x \<le> JOB_MAX_AGE_MS"
    using job_tick_slot [of i st e t] Cons.prems by auto
  have "\<forall>k \<in> set js. k < length (st_jobs (job_tick e t st i))" using Cons.prems x(1) by simp
  note IH = Cons.IH [of "job_tick e t st i"]
  show ?case using IH Cons.prems x by (auto simp: nth_list_update split: if_splits)
qed simp

lemma jobs_tick_young:
  assumes "length (st_jobs st) = MAX_PENDING_JOBS"
  shows "length (st_jobs (jobs_tick e st)) = MAX_PENDING_JOBS"
    "\<And>k. k < MAX_PENDING_JOBS \<Longrightarrow> j_used (st_jobs (jobs_tick e st) ! k) \<Longrightarrow>
       st_jobs (jobs_tick e st) ! k = st_jobs st ! k \<and> e_ms e - j_created_ms (st_jobs st ! k) \<le> JOB_MAX_AGE_MS"
  using job_ticks [of "[0..<MAX_PENDING_JOBS]" st e "e_ms e"] assms by (auto simp: jobs_tick_def)

lemma same_job_refl: "same_job (j_act j) (j_chan j) (j_target j) j"
  by (simp add: same_job_def eq_ic_def)

lemma same_job_sym:
  "same_job (j_act k) (j_chan k) (j_target k) j \<Longrightarrow> same_job (j_act j) (j_chan j) (j_target j) k"
  by (simp add: same_job_def eq_ic_def)

lemma jobs_ok_new:
  assumes "jobs_ok js" "i < length js" "\<not> j_used (js ! i)" "\<not> list_ex (\<lambda>j. j_used j \<and> same_job act nm target j) js"
    "length target < MAX_MASK_LEN"
  shows "jobs_ok (js[i := new_job e act nm target reason])"
proof -
  have other: "\<not> same_job act nm target (js ! k)" if "k < length js" "j_used (js ! k)" for k
    using assms(4) that by (auto simp: list_ex_length)
  have new: "j_act (new_job e act nm target reason) = act" "j_chan (new_job e act nm target reason) = nm"
    "j_target (new_job e act nm target reason) = target" "j_used (new_job e act nm target reason)"
    using assms(5) by (simp_all add: new_job_def trunc_id)
  have sym: "same_job (j_act j) (j_chan j) (j_target j) (new_job e act nm target reason) = same_job act nm target j" for j
    using same_job_sym [of j "new_job e act nm target reason"] same_job_sym [of "new_job e act nm target reason" j] new
    by auto
  show ?thesis
    using assms(1,2) other by (auto simp: jobs_ok_def nth_list_update new sym)
qed

text \<open>What happens to the table: work is handed in, the tick runs, work is called off; and anything
  else may happen to the rest of the state in between.\<close>

datatype job_op = Submit env nat job_act string string | Tick_jobs env | Drop_jobs nat job_act | Elsewhere bot_state

fun job_do :: "bot_state \<Rightarrow> job_op \<Rightarrow> bot_state" where
  "job_do st (Submit e ci act target reason) = snd (job_submit e st ci act target reason)"
| "job_do st (Tick_jobs e) = jobs_tick e st"
| "job_do st (Drop_jobs ci act) = jobs_drop st ci act"
| "job_do st (Elsewhere s) = s\<lparr>st_jobs := st_jobs st\<rparr>"

fun short_target :: "job_op \<Rightarrow> bool" where
  "short_target (Submit e ci act target reason) = (length target < MAX_MASK_LEN)"
| "short_target _ = True"

lemma job_do_ok:
  assumes "jobs_ok (st_jobs st)" "short_target p"
  shows "jobs_ok (st_jobs (job_do st p))"
proof (cases p)
  case (Submit e ci act target reason)
  let ?nm = "c_name (st_chans st ! ci)"
  show ?thesis
  proof (cases "deal_rank e st ci (act_job act) \<le> 0 \<or> list_ex (\<lambda>j. j_used j \<and> same_job act ?nm target j) (st_jobs st)
      \<or> position (\<lambda>j. \<not> j_used j) (st_jobs st) = None")
    case True
    then have "st_jobs (job_do st p) = st_jobs st"
      by (auto simp: Submit job_submit_def Let_def jobs_exec split: option.split)
    then show ?thesis using assms(1) by simp
  next
    case False
    then obtain i where i: "position (\<lambda>j. \<not> j_used j) (st_jobs st) = Some i" by auto
    have "st_jobs (job_do st p) = (st_jobs st)[i := new_job e act ?nm target reason]"
      using False i by (simp add: Submit job_submit_def Let_def)
    then show ?thesis
      using jobs_ok_new [OF assms(1)] position_SomeD [OF i] False assms(2) by (simp add: Submit)
  qed
next
  case (Tick_jobs e)
  have len: "length (st_jobs st) = MAX_PENDING_JOBS" using assms(1) by (simp add: jobs_ok_def)
  show ?thesis
    by (rule jobs_ok_fewer [OF assms(1)]) (use jobs_tick_young [OF len] len in \<open>auto simp: Tick_jobs\<close>)
next
  case (Drop_jobs ci act)
  show ?thesis
    by (rule jobs_ok_fewer [OF assms(1)]) (auto simp: Drop_jobs jobs_drop_def Let_def split: if_splits)
qed (use assms(1) in simp)

text \<open>C15: The table of waiting jobs stays sound whatever is handed in, run or called off, and however the
  rest of the state changes meanwhile: it keeps its size, holds no piece of work twice, so that a backup does
  it at most once, and after a tick no job in it is older than the longest a job may wait.\<close>

theorem waiting_jobs_sound:
  assumes "st_jobs st = replicate MAX_PENDING_JOBS default_job" "list_all short_target ops"
  shows "length (st_jobs (foldl job_do st ops)) = MAX_PENDING_JOBS \<and>
    (\<forall>i < MAX_PENDING_JOBS. \<forall>k < MAX_PENDING_JOBS.
       i \<noteq> k \<and> j_used (st_jobs (foldl job_do st ops) ! i) \<and> j_used (st_jobs (foldl job_do st ops) ! k) \<longrightarrow>
       \<not> same_job (j_act (st_jobs (foldl job_do st ops) ! k)) (j_chan (st_jobs (foldl job_do st ops) ! k))
           (j_target (st_jobs (foldl job_do st ops) ! k)) (st_jobs (foldl job_do st ops) ! i)) \<and>
    (\<forall>j \<in> set (st_jobs (jobs_tick e (foldl job_do st ops))). j_used j \<longrightarrow>
       j \<in> set (st_jobs (foldl job_do st ops)) \<and> e_ms e - j_created_ms j \<le> JOB_MAX_AGE_MS)"
proof -
  have "jobs_ok (st_jobs (foldl job_do s ops))" if "jobs_ok (st_jobs s)" "list_all short_target ops" for s
    using that by (induction ops arbitrary: s) (auto simp: job_do_ok)
  moreover have "jobs_ok (st_jobs st)" using assms(1) by (simp add: jobs_ok_def default_job_def)
  ultimately have ok: "jobs_ok (st_jobs (foldl job_do st ops))" using assms(2) by blast
  then have len: "length (st_jobs (foldl job_do st ops)) = MAX_PENDING_JOBS" by (simp add: jobs_ok_def)
  have "j \<in> set (st_jobs (foldl job_do st ops)) \<and> e_ms e - j_created_ms j \<le> JOB_MAX_AGE_MS"
    if j: "j \<in> set (st_jobs (jobs_tick e (foldl job_do st ops)))" "j_used j" for j
  proof -
    obtain k where k: "k < MAX_PENDING_JOBS" "j = st_jobs (jobs_tick e (foldl job_do st ops)) ! k"
      using j(1) unfolding in_set_conv_nth jobs_tick_young(1) [OF len] by blast
    have "j = st_jobs (foldl job_do st ops) ! k" "e_ms e - j_created_ms j \<le> JOB_MAX_AGE_MS"
      using jobs_tick_young(2) [OF len k(1), of e] k(2) j(2) by simp_all
    then show ?thesis using nth_mem [of k "st_jobs (foldl job_do st ops)"] k(1) len by simp
  qed
  moreover have "\<forall>i < MAX_PENDING_JOBS. \<forall>k < MAX_PENDING_JOBS.
       i \<noteq> k \<and> j_used (st_jobs (foldl job_do st ops) ! i) \<and> j_used (st_jobs (foldl job_do st ops) ! k) \<longrightarrow>
       \<not> same_job (j_act (st_jobs (foldl job_do st ops) ! k)) (j_chan (st_jobs (foldl job_do st ops) ! k))
           (j_target (st_jobs (foldl job_do st ops) ! k)) (st_jobs (foldl job_do st ops) ! i)"
    using ok unfolding jobs_ok_def len by simp
  ultimately show ?thesis using len by simp
qed

lemma waiting_jobs_sound_witness:
  "length (st_jobs (foldl job_do demo_channel
     [Submit (calm_env 0) 0 BanMask ''*!*@bad'' ''out'', Tick_jobs (calm_env 1), Drop_jobs 0 BanMask])) = 32"
proof -
  have "st_jobs demo_channel = replicate MAX_PENDING_JOBS default_job"
    by (simp add: demo_channel_def demo_dealer_def lean_bot_def bot_new_def)
  then show ?thesis
    using waiting_jobs_sound [THEN conjunct1, of demo_channel
      "[Submit (calm_env 0) 0 BanMask ''*!*@bad'' ''out'', Tick_jobs (calm_env 1), Drop_jobs 0 BanMask]"]
    by (simp add: MAX_PENDING_JOBS_def MAX_MASK_LEN_def del: job_do.simps foldl.simps)
qed

section \<open>The dynamic limit\<close>

text \<open>C39: The dynamic limit settles: once the limit it asked for is echoed, no further limit is due, not even
  when one member comes or goes.\<close>

theorem dynamic_limit_settles:
  assumes "ci < length (st_chans st)" "std_modes (st_isup st)" "limit_due st ci \<noteq> 0"
    "\<bar>int (length rs) - int (length (c_roster (st_chans st ! ci)))\<bar> \<le> 1"
  shows "limit_due (upd_chan (live_apply e st ci ''+l'' (dec_int (limit_due st ci)) False) ci
    (\<lambda>c. c\<lparr>c_roster := rs\<rparr>)) ci = 0"
proof -
  let ?c = "st_chans st ! ci" and ?gap = "cset st ci LimitGap"
  let ?want = "clamp_int 1 99999 (int (length (c_roster ?c)) + ?gap)"
  have due: "limit_due st ci = ?want" using assms(3) by (auto simp: limit_due_def Let_def split: if_splits)
  have range: "1 \<le> ?want" "?want \<le> 99999" using clamp_int_range [of 1 99999] by auto
  define st2 where "st2 = upd_chan (live_apply e st ci ''+l'' (dec_int ?want) False) ci (\<lambda>c. c\<lparr>c_roster := rs\<rparr>)"
  have c2: "st_chans st2 ! ci = ((set_flag True (CHR ''l'') ?c)\<lparr>c_live_limit := ?want\<rparr>)\<lparr>c_roster := rs\<rparr>"
    using assms(1) echo_limit_on [OF assms(2), of ?want e ?c] range
    by (simp add: st2_def live_apply_echo upd_chan_def)
  have net: "st_net_ts st2 = st_net_ts st" "st_net_set st2 = st_net_set st" "length (st_chans st2) = length (st_chans st)"
    by (simp_all add: st2_def live_apply_echo upd_chan_def)
  have cfg: "c_cfg_active (st_chans st2 ! ci) = c_cfg_active ?c" "c_cfg_ts (st_chans st2 ! ci) = c_cfg_ts ?c"
    "c_cfg_set (st_chans st2 ! ci) = c_cfg_set ?c"
    by (simp_all add: c2 set_flag_def)
  have cs: "cset st2 ci k = cset st ci k" for k
    using assms(1) net by (simp add: cset_def chan_at_def get_def cfg Let_def)
  have has: "live_has (st_chans st2 ! ci) (CHR ''l'')"
    unfolding c2 by (simp add: live_has_def) (use live_has_set_flag [of "CHR ''l''" "CHR ''l''" True ?c] in \<open>simp add: live_has_def\<close>)
  have "\<bar>?want - clamp_int 1 99999 (int (length rs) + ?gap)\<bar> < 2"
    using assms(4) by (auto simp: clamp_int_def)
  then have "limit_due st2 ci = 0"
    using has by (simp add: limit_due_def Let_def cs) (simp add: c2)
  then show ?thesis by (simp add: st2_def due)
qed

definition demo_limited :: bot_state where
  "demo_limited = lean_bot\<lparr>st_chans := [default_chan\<lparr>c_name := ''#c'', c_i_am_opped := True, c_who_done := True,
     c_live_known := True, c_cfg_active := True, c_cfg_ts := 1,
     c_cfg_set := default_settings\<lparr>cs_present := 512, cs_val := (replicate CS_COUNT 0)[9 := 1]\<rparr>\<rparr>]\<rparr>"

lemma dynamic_limit_settles_witness:
  "limit_due demo_limited 0 = 5 \<and>
   limit_due (upd_chan (live_apply (calm_env 0) demo_limited 0 ''+l'' (dec_int 5) False) 0
     (\<lambda>c. c\<lparr>c_roster := [\<lparr>r_nick = ''x'', r_hostmask = ''x!y@z'', r_is_op = False, r_is_halfop = False,
        r_is_voice = False, r_authorised = False, r_auth_gen = 0\<rparr>]\<rparr>)) 0 = 0"
proof -
  have due: "limit_due demo_limited 0 = 5" by code_simp
  have "0 < length (st_chans demo_limited)" "st_isup demo_limited = default_isupport"
    "c_roster (st_chans demo_limited ! 0) = []"
    by (simp_all add: demo_limited_def lean_bot_def bot_new_def default_chan_def)
  then show ?thesis
    using dynamic_limit_settles [of 0 demo_limited "[\<lparr>r_nick = ''x'', r_hostmask = ''x!y@z'', r_is_op = False,
      r_is_halfop = False, r_is_voice = False, r_authorised = False, r_auth_gen = 0\<rparr>]" "calm_env 0"] default_std_modes
    by (simp add: due)
qed

end
