(* ===== verification/Crypto.thy ===== *)
theory Crypto
  imports HubOut
begin

text \<open>
  The sealed frames and keys of \<open>src/src/crypto.rs\<close>, and the bot's identity key
  (\<open>src/src/hub_client.rs\<close>).  The primitives (AES-GCM, X25519, HKDF, Ed25519, base64, the random
  generator) are third-party code: they are the fields of \<open>env\<close>, and \<open>crypt_laws\<close> names what is
  documented of them.  Random draws are numbered, so that no two read the same bytes.
\<close>

section \<open>Random bytes\<close>

definition random_bytes :: "env \<Rightarrow> bot_state \<Rightarrow> nat \<Rightarrow> string option \<times> bot_state" where
  "random_bytes e st n = (e_rnd e (st_rnd st) n, st\<lparr>st_rnd := st_rnd st + 1\<rparr>)"

definition hex_digit :: "nat \<Rightarrow> char" where
  "hex_digit n = ''0123456789abcdef'' ! (n mod 16)"

definition hex2 :: "char \<Rightarrow> string" where
  "hex2 c = [hex_digit (byte c div 16), hex_digit (byte c)]"

definition hexs :: "string \<Rightarrow> string" where
  "hexs s = concat (map hex2 s)"

text \<open>The version and variant bits of an RFC 4122 version 4 UUID.\<close>

definition uuid_bits :: "string \<Rightarrow> string" where
  "uuid_bits r = r[6 := char_of (byte (r ! 6) mod 16 + 64 :: nat),
                   8 := char_of (byte (r ! 8) mod 64 + 128 :: nat)]"

definition uuid_text :: "string \<Rightarrow> string" where
  "uuid_text r = hexs (take 4 r) @ ''-'' @ hexs (take 2 (drop 4 r)) @ ''-'' @
     hexs (take 2 (drop 6 r)) @ ''-'' @ hexs (take 2 (drop 8 r)) @ ''-'' @ hexs (take 6 (drop 10 r))"

definition gen_uuid_v4 :: "env \<Rightarrow> bot_state \<Rightarrow> string option \<times> bot_state" where
  "gen_uuid_v4 e st = (case random_bytes e st 16 of
       (None, st1) \<Rightarrow> (None, st1)
     | (Some r, st1) \<Rightarrow> (Some (uuid_text (uuid_bits r)), st1))"

section \<open>AES-256-GCM\<close>

definition gcm_seal :: "env \<Rightarrow> bot_state \<Rightarrow> string \<Rightarrow> string \<Rightarrow> string \<Rightarrow> string option \<times> bot_state" where
  "gcm_seal e st key aad pt =
     (case random_bytes e st GCM_IV_LEN of
        (None, st1) \<Rightarrow> (None, st1)
      | (Some iv, st1) \<Rightarrow>
          (case e_gcm_enc e key iv aad pt of
             None \<Rightarrow> (None, st1)
           | Some (ct, tag) \<Rightarrow> (Some (iv @ ct @ tag), st1)))"

definition gcm_decrypt_detached ::
  "env \<Rightarrow> string \<Rightarrow> string \<Rightarrow> string \<Rightarrow> string \<Rightarrow> string \<Rightarrow> string option" where
  "gcm_decrypt_detached e key iv aad ct tag =
     (if length iv \<noteq> GCM_IV_LEN \<or> length tag \<noteq> GCM_TAG_LEN then None else e_gcm_dec e key iv aad ct tag)"

definition gcm_open :: "env \<Rightarrow> string \<Rightarrow> string \<Rightarrow> string \<Rightarrow> string option" where
  "gcm_open e key aad frame =
     (if length frame < GCM_IV_LEN + GCM_TAG_LEN then None
      else let rest = drop GCM_IV_LEN frame; n = length rest - GCM_TAG_LEN
           in gcm_decrypt_detached e key (take GCM_IV_LEN frame) aad (take n rest) (drop n rest))"

section \<open>Keys\<close>

definition split_priv :: "string \<Rightarrow> string \<times> string" where
  "split_priv k = (take 32 k, take 32 (drop 32 k))"

definition combined_pub_from_priv :: "env \<Rightarrow> string \<Rightarrow> string" where
  "combined_pub_from_priv e k = (let (ed, x) = split_priv k in e_ed_pub e ed @ e_x_pub e x)"

definition pub_halves :: "string \<Rightarrow> string \<times> string" where
  "pub_halves p = (take 32 p, take 32 (drop 32 p))"

definition b64_decode :: "env \<Rightarrow> string \<Rightarrow> string option" where
  "b64_decode e s = (case e_unb64_any e s of Some [] \<Rightarrow> None | r \<Rightarrow> r)"

definition all_zero :: "string \<Rightarrow> bool" where
  "all_zero s = list_all (\<lambda>c. c = CHR 0x00) s"

definition b64_char :: "char \<Rightarrow> bool" where
  "b64_char c \<longleftrightarrow> is_alnum c \<or> c = CHR ''+'' \<or> c = CHR ''/''"

definition pubkey_b64_decode :: "env \<Rightarrow> string \<Rightarrow> string option" where
  "pubkey_b64_decode e b =
     (if length b \<noteq> COMBINED_KEY_B64 then None
      else if \<not> list_all b64_char (take (COMBINED_KEY_B64 - 2) b) \<or>
              \<not> list_all (\<lambda>c. c = CHR ''='') (drop (COMBINED_KEY_B64 - 2) b) then None
      else case e_unb64 e b of
        None \<Rightarrow> None
      | Some k \<Rightarrow>
          if length k \<noteq> HUB_KEY_RAW_LEN \<or> e_b64 e k \<noteq> b then None
          else if all_zero (take 32 k) \<or> all_zero (drop 32 k) then None else Some k)"

text \<open>\<open>bot_key_decode\<close>: the identity key's halves, kept once decoded.\<close>

definition bot_key_decode :: "env \<Rightarrow> bot_state \<Rightarrow> (string \<times> string) option \<times> bot_state" where
  "bot_key_decode e st =
     (if \<not> all_zero (st_hub_key_raw st) then (Some (split_priv (st_hub_key_raw st)), st)
      else case b64_decode e (st_hub_key st) of
        Some k \<Rightarrow>
          if length k = HUB_KEY_RAW_LEN then (Some (split_priv k), st\<lparr>st_hub_key_raw := k\<rparr>) else (None, st)
      | None \<Rightarrow> (None, st))"

definition self_pub_refresh :: "env \<Rightarrow> bot_state \<Rightarrow> bool \<times> bot_state" where
  "self_pub_refresh e st0 =
     (let st = st0\<lparr>st_self_pub_set := False, st_self_pub := replicate HUB_KEY_RAW_LEN (CHR 0x00)\<rparr> in
      if st_hub_key st = [] \<and> all_zero (st_hub_key_raw st) then (False, st)
      else case bot_key_decode e st of
        (None, st1) \<Rightarrow> (False, st1)
      | (Some (ed, x), st1) \<Rightarrow>
          (True, st1\<lparr>st_self_pub := combined_pub_from_priv e (ed @ x), st_self_pub_set := True\<rparr>))"

section \<open>Sealed frames\<close>

definition opt_bytes :: "string option \<Rightarrow> string" where
  "opt_bytes k = (case k of Some s \<Rightarrow> s | None \<Rightarrow> [])"

definition seal_kdf :: "env \<Rightarrow> string \<Rightarrow> string \<Rightarrow> string \<Rightarrow> string option \<Rightarrow> string \<Rightarrow> string option" where
  "seal_kdf e ikm eph_pub label sx rx =
     (if length label > 64 then None else e_hkdf e ikm eph_pub (label @ opt_bytes sx @ rx) 32)"

definition seal_ikm :: "env \<Rightarrow> string \<Rightarrow> (string \<times> string) option \<Rightarrow> string \<Rightarrow> string option" where
  "seal_ikm e eph sender rx =
     (case e_x_dh e eph rx of
        None \<Rightarrow> None
      | Some a \<Rightarrow>
          (case sender of
             None \<Rightarrow> Some a
           | Some (s_priv, _) \<Rightarrow> (case e_x_dh e s_priv rx of None \<Rightarrow> None | Some b \<Rightarrow> Some (a @ b))))"

definition seal ::
  "env \<Rightarrow> bot_state \<Rightarrow> (string \<times> string) option \<Rightarrow> string \<Rightarrow> string \<Rightarrow> string \<Rightarrow> string \<Rightarrow> string option \<times> bot_state"
where
  "seal e st sender rx label aad pt =
     (if length pt > SEAL_MAX_PLAINTEXT then (None, st)
      else case random_bytes e st 32 of
        (None, st1) \<Rightarrow> (None, st1)
      | (Some eph, st1) \<Rightarrow>
          let eph_pub = e_x_pub e eph in
          (case seal_ikm e eph sender rx of
             None \<Rightarrow> (None, st1)
           | Some ikm \<Rightarrow>
               (case seal_kdf e ikm eph_pub label (map_option snd sender) rx of
                  None \<Rightarrow> (None, st1)
                | Some key \<Rightarrow>
                    (case gcm_seal e st1 key aad pt of
                       (None, st2) \<Rightarrow> (None, st2)
                     | (Some body, st2) \<Rightarrow> (Some (eph_pub @ body), st2)))))"

definition open_ikm :: "env \<Rightarrow> string \<Rightarrow> string \<Rightarrow> string option \<Rightarrow> string option" where
  "open_ikm e r_priv eph_pub sx =
     (case e_x_dh e r_priv eph_pub of
        None \<Rightarrow> None
      | Some a \<Rightarrow>
          (case sx of
             None \<Rightarrow> Some a
           | Some s \<Rightarrow> (case e_x_dh e r_priv s of None \<Rightarrow> None | Some b \<Rightarrow> Some (a @ b))))"

definition open_rk ::
  "env \<Rightarrow> string \<Rightarrow> string \<Rightarrow> string option \<Rightarrow> string \<Rightarrow> string \<Rightarrow> string \<Rightarrow> string option \<Rightarrow>
     (string \<times> string option) option" where
  "open_rk e r_priv rx sx label aad frame rk_label =
     (if rk_label \<noteq> None \<and> sx = None then None
      else if length frame < SEAL_OVERHEAD then None
      else let ct_len = length frame - SEAL_OVERHEAD; eph_pub = take 32 frame in
      if ct_len > SEAL_MAX_PLAINTEXT then None
      else case open_ikm e r_priv eph_pub sx of
        None \<Rightarrow> None
      | Some ikm \<Rightarrow>
          (case seal_kdf e ikm eph_pub label sx rx of
             None \<Rightarrow> None
           | Some key \<Rightarrow>
               (case gcm_open e key aad (drop 32 frame) of
                  None \<Rightarrow> None
                | Some pt \<Rightarrow>
                    if length pt \<noteq> ct_len then None
                    else case rk_label of
                      None \<Rightarrow> Some (pt, None)
                    | Some l \<Rightarrow>
                        (case seal_kdf e ikm eph_pub l sx rx of
                           None \<Rightarrow> None
                         | Some k \<Rightarrow> Some (pt, Some k)))))"

definition open_frame :: "env \<Rightarrow> string \<Rightarrow> string \<Rightarrow> string option \<Rightarrow> string \<Rightarrow> string \<Rightarrow> string \<Rightarrow> string option" where
  "open_frame e r_priv rx sx label aad frame = map_option fst (open_rk e r_priv rx sx label aad frame None)"

section \<open>\<open>String::from_utf8_lossy\<close>\<close>

text \<open>How many bytes the next character takes, or how many are the longest prefix of one that
  then goes wrong: the latter are replaced by U+FFFD together.\<close>

definition utf8_second :: "nat \<Rightarrow> nat \<times> nat" where
  "utf8_second b = (if b = 0xE0 then (0xA0, 0xBF) else if b = 0xED then (0x80, 0x9F)
     else if b = 0xF0 then (0x90, 0xBF) else if b = 0xF4 then (0x80, 0x8F) else (0x80, 0xBF))"

definition utf8_width :: "nat \<Rightarrow> nat" where
  "utf8_width b = (if b < 0x80 then 1 else if 0xC2 \<le> b \<and> b \<le> 0xDF then 2
     else if 0xE0 \<le> b \<and> b \<le> 0xEF then 3 else if 0xF0 \<le> b \<and> b \<le> 0xF4 then 4 else 0)"

definition utf8_good :: "char \<Rightarrow> string \<Rightarrow> nat" where
  "utf8_good c cs =
     (let w = utf8_width (byte c); (lo, hi) = utf8_second (byte c) in
      if w < 2 \<or> cs = [] \<or> byte (hd cs) < lo \<or> byte (hd cs) > hi then 1
      else 2 + length (takeWhile is_cont (take (w - 2) (tl cs))))"

function from_utf8_lossy :: "string \<Rightarrow> string" where
  "from_utf8_lossy [] = []"
| "from_utf8_lossy (c # cs) =
     (let n = utf8_good c cs in
      (if n = utf8_width (byte c) then take n (c # cs) else [CHR 0xEF, CHR 0xBF, CHR 0xBD]) @
      from_utf8_lossy (drop n (c # cs)))"
  by pat_completeness auto
termination
  by (relation "measure length") (auto simp: utf8_good_def Let_def split: prod.splits)

end
