(* ===== verification/CryptoProps.thy ===== *)
theory CryptoProps
  imports Crypto
begin

text \<open>
  What \<open>crypto.rs\<close> promises of its frames: a sealed frame opens to its text for
  the recipient who expects its sender.
\<close>

text \<open>What the primitives' documentation says: X25519 agrees from both ends, random draws have
  the length asked for, AES-GCM keeps the length and is undone by its inverse.\<close>

definition crypt_laws :: "env \<Rightarrow> bool" where
  "crypt_laws e \<longleftrightarrow>
     (\<forall>a b. e_x_dh e a (e_x_pub e b) = e_x_dh e b (e_x_pub e a)) \<and>
     (\<forall>k n s. e_rnd e k n = Some s \<longrightarrow> length s = n) \<and>
     (\<forall>k. length k = 32 \<longrightarrow> length (e_x_pub e k) = 32) \<and>
     (\<forall>key iv aad pt ct tag. e_gcm_enc e key iv aad pt = Some (ct, tag) \<longrightarrow>
        length ct = length pt \<and> length tag = GCM_TAG_LEN \<and> e_gcm_dec e key iv aad ct tag = Some pt)"

lemma crypt_lawsD:
  assumes "crypt_laws e"
  shows "e_x_dh e a (e_x_pub e b) = e_x_dh e b (e_x_pub e a)"
    "e_rnd e k n = Some s \<Longrightarrow> length s = n"
    "length s = 32 \<Longrightarrow> length (e_x_pub e s) = 32"
    "e_gcm_enc e key iv aad pt = Some (ct, tag) \<Longrightarrow>
        length ct = length pt \<and> length tag = GCM_TAG_LEN \<and> e_gcm_dec e key iv aad ct tag = Some pt"
  using assms unfolding crypt_laws_def by blast+

lemma calm_laws: "crypt_laws (calm_env t)"
  by (auto simp: crypt_laws_def calm_env_def)

lemma gcm_seal_open:
  assumes "crypt_laws e" "gcm_seal e st key aad pt = (Some frame, st')"
  shows "gcm_open e key aad frame = Some pt" "length frame = GCM_IV_LEN + length pt + GCM_TAG_LEN"
proof -
  obtain iv ct tag where d: "e_rnd e (st_rnd st) GCM_IV_LEN = Some iv"
    "e_gcm_enc e key iv aad pt = Some (ct, tag)" "frame = iv @ ct @ tag"
    using assms(2) by (auto simp: gcm_seal_def random_bytes_def split: option.splits)
  have l: "length iv = GCM_IV_LEN" using crypt_lawsD(2) [OF assms(1) d(1)] .
  note e = crypt_lawsD(4) [OF assms(1) d(2)]
  show "gcm_open e key aad frame = Some pt"
    using d(3) l e by (simp add: gcm_open_def gcm_decrypt_detached_def Let_def)
  show "length frame = GCM_IV_LEN + length pt + GCM_TAG_LEN" using d(3) l e by simp
qed

lemma ikm_agree:
  assumes "crypt_laws e" "rx = e_x_pub e r_priv" "map_option snd sender = map_option (e_x_pub e \<circ> fst) sender"
  shows "open_ikm e r_priv (e_x_pub e eph) (map_option snd sender) = seal_ikm e eph sender rx"
proof -
  have eq: "e_x_dh e r_priv (e_x_pub e a) = e_x_dh e a rx" for a
    using crypt_lawsD(1) [OF assms(1)] assms(2) by simp
  show ?thesis
    using assms(3) by (cases sender) (auto simp: open_ikm_def seal_ikm_def eq split: option.splits)
qed

lemma seal_cases:
  assumes "seal e st sender rx label aad pt = (Some frame, st')"
  obtains eph ikm key body st1 where "length pt \<le> SEAL_MAX_PLAINTEXT"
    "e_rnd e (st_rnd st) 32 = Some eph" "seal_ikm e eph sender rx = Some ikm"
    "seal_kdf e ikm (e_x_pub e eph) label (map_option snd sender) rx = Some key"
    "gcm_seal e st1 key aad pt = (Some body, st')" "frame = e_x_pub e eph @ body"
  using assms by (auto simp: seal_def random_bytes_def Let_def split: if_splits option.splits prod.splits)

text \<open>C19: a sealed frame opens, for the recipient whose key it was sealed to and who expects its
  sender, to exactly the text that was sealed, and is longer than it by the fixed overhead.\<close>

theorem seal_opens:
  assumes "crypt_laws e" "seal e st (Some (s_priv, e_x_pub e s_priv)) (e_x_pub e r_priv) label aad pt = (Some frame, st')"
  shows "open_frame e r_priv (e_x_pub e r_priv) (Some (e_x_pub e s_priv)) label aad frame = Some pt \<and>
    length frame = SEAL_OVERHEAD + length pt"
proof -
  let ?s = "Some (s_priv, e_x_pub e s_priv)"
  from assms(2) obtain eph ikm key body st1 where s: "length pt \<le> SEAL_MAX_PLAINTEXT"
    "e_rnd e (st_rnd st) 32 = Some eph" "seal_ikm e eph ?s (e_x_pub e r_priv) = Some ikm"
    "seal_kdf e ikm (e_x_pub e eph) label (Some (e_x_pub e s_priv)) (e_x_pub e r_priv) = Some key"
    "gcm_seal e st1 key aad pt = (Some body, st')" "frame = e_x_pub e eph @ body"
    by (elim seal_cases) simp
  have eph: "length (e_x_pub e eph) = 32"
    using crypt_lawsD(2,3) [OF assms(1)] s(2) by blast
  have ikm: "open_ikm e r_priv (e_x_pub e eph) (Some (e_x_pub e s_priv)) = Some ikm"
    using ikm_agree [OF assms(1) refl, of ?s] s(3) by simp
  note b = gcm_seal_open [OF assms(1) s(5)]
  have len: "length frame = SEAL_OVERHEAD + length pt" using s(6) eph b(2) by (simp add: limits)
  show ?thesis
    using s(1,4,6) eph ikm b(1) len by (simp add: open_frame_def open_rk_def Let_def)
qed

lemma seal_opens_witness:
  "fst (seal (calm_env 5) (bot_new 0 0) (Some (replicate 32 CHR ''s'', replicate 32 CHR ''s'')) (replicate 32 CHR ''r'')
     B2_LABEL ''a'' ''hello'') \<noteq> None \<and>
   open_frame (calm_env 5) (replicate 32 CHR ''r'') (replicate 32 CHR ''r'') (Some (replicate 32 CHR ''s'')) B2_LABEL ''a''
     (the (fst (seal (calm_env 5) (bot_new 0 0) (Some (replicate 32 CHR ''s'', replicate 32 CHR ''s''))
        (replicate 32 CHR ''r'') B2_LABEL ''a'' ''hello''))) = Some ''hello''"
proof -
  let ?r = "seal (calm_env 5) (bot_new 0 0) (Some (replicate 32 CHR ''s'', replicate 32 CHR ''s'')) (replicate 32 CHR ''r'')
     B2_LABEL ''a'' ''hello''"
  have s: "fst ?r \<noteq> None"
    by (simp add: seal_def random_bytes_def seal_ikm_def seal_kdf_def gcm_seal_def Let_def calm_env_def bot_new_def limits)
  then have "?r = (Some (the (fst ?r)), snd ?r)" by simp
  from seal_opens [OF calm_laws, of 5 "bot_new 0 0" "replicate 32 CHR ''s''" "replicate 32 CHR ''r''" B2_LABEL "''a''" "''hello''"
      "the (fst ?r)" "snd ?r"] this
  have "open_frame (calm_env 5) (replicate 32 CHR ''r'') (replicate 32 CHR ''r'') (Some (replicate 32 CHR ''s''))
      B2_LABEL ''a'' (the (fst ?r)) = Some ''hello''"
    by (simp add: calm_env_def)
  with s show ?thesis by blast
qed

end
