(* ===== verification/Lines.thy ===== *)
theory Lines
  imports Crypto ChanCfg "HOL-Library.Monad_Syntax"
begin

text \<open>
  The record lines the configuration file and the hub share (\<open>src/src/config.rs\<close>): users, trusted
  bots, masks, option flags, channels.  Each parser answers \<open>None\<close> for a line it refuses; each
  formatter gives the whole line with its newline.
\<close>

abbreviation nl :: string where "nl \<equiv> [CHR 0x0A]"

definition b_flag :: "bool \<Rightarrow> string" where
  "b_flag a = (if a then ''add'' else ''del'')"

text \<open>The cursor of \<open>sscanf\<close>, stopping at the first directive that does not match.\<close>

definition set_opt :: "nat \<Rightarrow> string \<Rightarrow> string \<Rightarrow> (string \<times> string) option" where
  "set_opt mx excl r = (case scan_set_not mx excl r of (Some s, r') \<Rightarrow> Some (s, r') | (None, _) \<Rightarrow> None)"

definition lit_opt :: "char \<Rightarrow> string \<Rightarrow> string option" where
  "lit_opt c r = (case scan_lit c r of (True, r') \<Rightarrow> Some r' | (False, _) \<Rightarrow> None)"

definition tail_int :: "string \<Rightarrow> int" where
  "tail_int r = (case lit_opt (CHR ''|'') r of
       None \<Rightarrow> 0
     | Some r' \<Rightarrow> (case fst (scan_int r') of Some v \<Rightarrow> v | None \<Rightarrow> 0))"

text \<open>\<open>parse::<i64>\<close>\<close>

definition parse_i64 :: "string \<Rightarrow> int option" where
  "parse_i64 s =
     (let neg = (take 1 s = ''-''); d = (if neg \<or> take 1 s = ''+'' then drop 1 s else s);
          v = (if neg then - int (digits_val d) else int (digits_val d))
      in if d = [] \<or> \<not> list_all is_digit d \<or> \<not> in_i64 v then None else Some v)"

section \<open>Users\<close>

record user_line =
  ul_uuid :: string
  ul_name :: string
  ul_pubkey_b64 :: string
  ul_has_pubkey :: bool
  ul_legacy :: bool
  ul_is_active :: bool
  ul_last_seen :: int
  ul_timestamp :: int

definition field_pubkey :: "env \<Rightarrow> string \<Rightarrow> string option" where
  "field_pubkey e f =
     (if length f \<noteq> COMBINED_KEY_B64 then None
      else case pubkey_b64_decode e f of None \<Rightarrow> None | Some _ \<Rightarrow> Some f)"

definition parse_user_line :: "env \<Rightarrow> string \<Rightarrow> user_line option" where
  "parse_user_line e data =
     (let f = split_fields data 8 in
      if length f < 6 \<or> \<not> is_uuid (f ! 0) then None
      else if f ! 1 = [] \<or> length (f ! 1) \<ge> USER_NAME_BUF then None
      else
        let new_key = field_pubkey e (f ! 2);
            key = (case new_key of
                     Some k \<Rightarrow> Some k
                   | None \<Rightarrow> if 6 < length f then field_pubkey e (f ! 6) else None)
        in Some \<lparr>ul_uuid = f ! 0, ul_name = f ! 1, ul_pubkey_b64 = opt_bytes key, ul_has_pubkey = (key \<noteq> None),
             ul_legacy = (new_key = None), ul_is_active = (f ! 3 = ''add''),
             ul_last_seen = atoll (f ! 4), ul_timestamp = atoll (f ! 5)\<rparr>)"

definition format_user_line :: "user_record \<Rightarrow> string" where
  "format_user_line u = [u_typ u] @ ''|'' @ u_uuid u @ ''|'' @ u_name u @ ''|'' @
     (if u_has_pubkey u then u_pubkey_b64 u else []) @ ''|'' @ b_flag (u_is_active u) @ ''|'' @
     dec_int (u_last_seen u) @ ''|'' @ dec_int (u_timestamp u) @ ''|'' @ nl"

section \<open>Trusted bots\<close>

definition parse_bot_line :: "env \<Rightarrow> string \<Rightarrow> trusted_bot option" where
  "parse_bot_line e data =
     (let f = split_fields data 5; tb0 = default_bot\<lparr>tb_mask := f ! 0\<rparr> in
      if f ! 0 = [] \<or> length (f ! 0) \<ge> MAX_MASK_LEN then None
      else if length f = 1 then Some tb0
      else if length (f ! 1) \<ge> UUID_BUF then None
      else
        let tb1 = tb0\<lparr>tb_uuid := f ! 1\<rparr> in
        if length f = 2 then Some tb1
        else if length f = 3 then Some (tb1\<lparr>tb_ts := atoll (f ! 2)\<rparr>)
        else
          let key = (if f ! 2 = [] then None
                     else case field_pubkey e (f ! 2) of None \<Rightarrow> None | Some b \<Rightarrow> pubkey_b64_decode e b)
          in Some ((case key of
                      None \<Rightarrow> tb1
                    | Some k \<Rightarrow> tb1\<lparr>tb_pub_key := k, tb_has_pub := True\<rparr>)\<lparr>tb_ts := atoll (f ! 3)\<rparr>))"

definition format_bot_line :: "env \<Rightarrow> trusted_bot \<Rightarrow> string" where
  "format_bot_line e tb = ''b|'' @ tb_mask tb @ ''|'' @ tb_uuid tb @ ''|'' @
     (if tb_has_pub tb then e_b64 e (tb_pub_key tb) else []) @ ''|'' @ dec_int (tb_ts tb) @ nl"

section \<open>Masks\<close>

definition format_mask_line :: "mask_record \<Rightarrow> string" where
  "format_mask_line m = ''m|'' @ m_uuid m @ ''|'' @ m_mask m @ ''|'' @ b_flag (m_is_active m) @ ''|'' @
     dec_int (m_last_used m) @ ''|'' @ dec_int (m_timestamp m) @ nl"

text \<open>The first field of a mask line: no UUID is 40 bytes long.\<close>

definition first_field :: "string \<Rightarrow> string" where
  "first_field data = (case position ((=) (CHR ''|'')) data of
       Some p \<Rightarrow> if p < 40 then take p data else []
     | None \<Rightarrow> [])"

text \<open>The older shape \<open>mask|add/del|ts\<close>.\<close>

definition old_mask_line :: "env \<Rightarrow> string \<Rightarrow> mask_record option" where
  "old_mask_line e data = do {
     (msk, r1) \<leftarrow> set_opt 255 ''|'' data;
     r2 \<leftarrow> lit_opt (CHR ''|'') r1;
     (op, r3) \<leftarrow> set_opt 15 ''|'' r2;
     Some (default_mask\<lparr>m_uuid := ''MIGRATE'', m_mask := msk, m_is_active := (op \<noteq> ''del''),
       m_timestamp := (if tail_int r3 > 0 then tail_int r3 else e_now e)\<rparr>)
   }"

definition load_mask_line :: "env \<Rightarrow> bot_state \<Rightarrow> string \<Rightarrow> bot_state" where
  "load_mask_line e st data =
     (if length (st_mask_records st) \<ge> MAX_USER_MASKS then st
      else if has_uuid_dashes (first_field data) then
        let f = splitn_char 5 (CHR ''|'') data in
        if length f = 5 then
          st\<lparr>st_mask_records := st_mask_records st @
             [\<lparr>m_uuid = trunc (f ! 0) UUID_BUF, m_mask = trunc (f ! 1) MAX_MASK_LEN,
               m_is_active = (take 3 (f ! 2) = ''add''), m_last_used = atoll (f ! 3),
               m_timestamp = atoll (f ! 4), m_act_pending = 0\<rparr>]\<rparr>
        else st
      else case old_mask_line e data of
        None \<Rightarrow> st
      | Some m \<Rightarrow> st\<lparr>st_mask_records := st_mask_records st @ [m]\<rparr>)"

section \<open>Option flags\<close>

definition clean_opt_flags :: "string \<Rightarrow> string" where
  "clean_opt_flags s = take MAX_OPT_FLAGS (filter is_alnum s)"

definition parse_opt_line :: "string \<Rightarrow> (string \<times> int) option" where
  "parse_opt_line data =
     (if take 1 data = ''|'' then
        let (v, used) = strtoll (drop 1 data) in if used > 0 then Some ([], v) else None
      else do {
        (flags, r) \<leftarrow> set_opt MAX_OPT_FLAGS ''|'' data;
        Some (clean_opt_flags flags, tail_int r)
      })"

section \<open>Channels\<close>

text \<open>\<open>channel|key|add/del|ts\<close>, or with an empty key \<open>channel||add/del|ts\<close>; the stamp may be
  missing.\<close>

definition cfg_chan_keyed :: "string \<Rightarrow> (string \<times> string \<times> string \<times> int) option" where
  "cfg_chan_keyed data = do {
     (c, r1) \<leftarrow> set_opt 64 ''|'' data;
     r2 \<leftarrow> lit_opt (CHR ''|'') r1;
     (k, r3) \<leftarrow> set_opt 30 ''|'' r2;
     r4 \<leftarrow> lit_opt (CHR ''|'') r3;
     (op, r5) \<leftarrow> set_opt 15 ''|'' r4;
     Some (c, k, op, tail_int r5)
   }"

definition cfg_chan_open :: "string \<Rightarrow> (string \<times> string \<times> string \<times> int) option" where
  "cfg_chan_open data = do {
     (c, r1) \<leftarrow> set_opt 64 ''|'' data;
     r2 \<leftarrow> lit_opt (CHR ''|'') r1;
     r3 \<leftarrow> lit_opt (CHR ''|'') r2;
     (op, r4) \<leftarrow> set_opt 15 ''|'' r3;
     Some (c, [], op, tail_int r4)
   }"

definition parse_cfg_chan :: "string \<Rightarrow> (string \<times> string \<times> string \<times> int) option" where
  "parse_cfg_chan data =
     (case cfg_chan_keyed data of Some r \<Rightarrow> Some r | None \<Rightarrow> cfg_chan_open data)"

end
