(* ===== verification/HubPush.thy ===== *)
theory HubPush
  imports Lines SendQ
begin

text \<open>
  What the bot tells its hub (\<open>src/src/hub_client.rs\<close>): the keepalive and the presence report, single
  changes as deltas, its own records as a configuration push, and the requests it makes of other
  bots through the hub.  Each sender answers whether the frame left; without a link none does.
\<close>

section \<open>Deltas and presence\<close>

definition push_delta :: "env \<Rightarrow> bot_state \<Rightarrow> string \<Rightarrow> string \<Rightarrow> int \<Rightarrow> bool \<times> bot_state" where
  "push_delta e st key val ts =
     (if key = [] \<or> \<not> link_ready st then (False, st)
      else let payload = key @ ''|'' @ val @ ''|'' @ dec_int (if ts \<noteq> 0 then ts else e_now e) in
        if length payload \<ge> MAX_BUFFER then (False, st) else send_frame e st CMD_BOT_DELTA payload)"

definition sync_hostmask :: "env \<Rightarrow> bot_state \<Rightarrow> bot_state" where
  "sync_hostmask e st =
     (if st_actual_hostname st = [] \<or> \<not> link_ready st then st
      else snd (push_delta e st ''h'' (st_actual_hostname st) (st_actual_hostname_ts st)))"

definition own_server :: "bot_state \<Rightarrow> string" where
  "own_server st =
     (if is_connected st then
        if st_actual_server_name st \<noteq> [] then trunc (st_actual_server_name st) (TREE_SERVER_MAX + 1)
        else case st_irc_server_idx st of
          None \<Rightarrow> []
        | Some i \<Rightarrow>
            if i < length (st_server_list st) then trunc (st_server_list st ! i) (TREE_SERVER_MAX + 1) else []
      else [])"

definition send_presence :: "env \<Rightarrow> bot_state \<Rightarrow> bool \<Rightarrow> bot_state" where
  "send_presence e st force =
     (if \<not> link_ready st then st
      else
        let server = own_server st; changed = (server \<noteq> st_presence_server st) in
        if \<not> force \<and> \<not> changed \<and> st_last_presence_sent st \<noteq> 0 \<and>
           e_now e - st_last_presence_sent st < BOT_PRESENCE_REPORT_INTERVAL
        then st
        else case send_frame e st CMD_BOT_PRESENCE
               (e_version e @ ''|'' @ server @ ''|'' @ dec_int (st_bot_start_time st) @ ''|'' @ BOT_UPDATE_VARIANT) of
          (True, st1) \<Rightarrow> st1\<lparr>st_presence_server := server, st_last_presence_sent := e_now e\<rparr>
        | (False, st1) \<Rightarrow> st1)"

text \<open>\<open>state.hub_connected && state.hub_authenticated && state.hub.is_some()\<close>\<close>

definition hub_up :: "bot_state \<Rightarrow> bool" where
  "hub_up st \<longleftrightarrow> st_hub_connected st \<and> st_hub_authenticated st \<and> st_hub st"

definition heartbeat :: "env \<Rightarrow> bot_state \<Rightarrow> bot_state" where
  "heartbeat e st =
     (if st_hubs st = [] \<or> \<not> hub_up st then st
      else
        let st1 = send_presence e st False in
        if e_now e - st_last_hub_ping_time st1 < 30 then st1
        else snd (send_frame e (st1\<lparr>st_last_hub_ping_time := e_now e\<rparr>) CMD_PING []))"

section \<open>The bot's own records\<close>

definition chan_line :: "chan \<Rightarrow> string" where
  "chan_line c = ''c|'' @ c_name c @ ''|'' @ c_key c @ ''|'' @ dec_int (sint (c_modes c)) @ ''|'' @
     b_flag (c_is_managed c) @ ''|'' @ dec_int (c_timestamp c) @ nl"

definition PUSH_MAX :: nat where "PUSH_MAX = MAX_BUFFER - 64"

fun push_chans :: "bool \<Rightarrow> string \<Rightarrow> chan list \<Rightarrow> string" where
  "push_chans hub_only out [] = out"
| "push_chans hub_only out (c # cs) =
     (if hub_only \<and> \<not> c_enf_pending c then push_chans hub_only out cs
      else if c_timestamp c = 0 \<and> \<not> c_is_managed c then push_chans hub_only out cs
      else if length out + length (chan_line c) \<ge> PUSH_MAX then out
      else push_chans hub_only (out @ chan_line c) cs)"

fun push_bans :: "string \<Rightarrow> string \<Rightarrow> cfg_ban list \<Rightarrow> string" where
  "push_bans me out [] = out"
| "push_bans me out (b # bs) =
     (if \<not> b_push_pending b \<or> me = [] \<or> b_setter b \<noteq> me then push_bans me out bs
      else case format_b_line b of
        None \<Rightarrow> out
      | Some l \<Rightarrow> if length out + length l \<ge> PUSH_MAX then out else push_bans me (out @ l) bs)"

definition push_add :: "string \<Rightarrow> string \<Rightarrow> string" where
  "push_add s out = (if length out + length s < PUSH_MAX then out @ s else out)"

definition generate_config_payload :: "bot_state \<Rightarrow> string" where
  "generate_config_payload st =
     (let out1 = push_chans (is_opt_set st OPT_HUB_ONLY_MUTATIONS) [] (st_chans st);
          out2 = push_bans (st_bot_uuid st) out1 (st_cfg_bans st);
          out3 = push_add (''v|'' @ dec_int BOT_PROTO_VERSION @ ''|1'' @ nl) out2;
          out4 = (if st_actual_hostname st \<noteq> [] \<and> st_actual_hostname_ts st > 0
                  then push_add (''h|'' @ st_actual_hostname st @ ''|'' @ dec_int (st_actual_hostname_ts st) @ nl) out3
                  else out3)
      in if st_current_nick st \<noteq> [] \<and> st_current_nick_ts st > 0
         then push_add (''n|'' @ st_current_nick st @ ''|'' @ dec_int (st_current_nick_ts st) @ nl) out4
         else out4)"

definition push_config :: "env \<Rightarrow> bot_state \<Rightarrow> bot_state" where
  "push_config e st =
     (if \<not> link_ready st then st
      else let payload = generate_config_payload st in
        if payload = [] then st
        else case send_frame e st CMD_CONFIG_PUSH payload of
          (True, st1) \<Rightarrow> st1\<lparr>st_cfg_bans := map (\<lambda>b. b\<lparr>b_push_pending := False\<rparr>) (st_cfg_bans st1)\<rparr>
        | (False, st1) \<Rightarrow> st1)"

definition push_channel :: "env \<Rightarrow> bot_state \<Rightarrow> nat \<Rightarrow> bot_state" where
  "push_channel e st ci =
     (if \<not> link_ready st \<or> \<not> ci < length (st_chans st) then st
      else let payload = chan_line (st_chans st ! ci) in
        if length payload \<ge> MAX_BUFFER then st
        else case send_frame e st CMD_CONFIG_PUSH payload of
          (True, st1) \<Rightarrow> upd_chan st1 ci (\<lambda>c. c\<lparr>c_enf_pending := False\<rparr>)
        | (False, st1) \<Rightarrow> st1)"

section \<open>Requests through the hub\<close>

definition request_op :: "env \<Rightarrow> bot_state \<Rightarrow> string \<Rightarrow> string \<Rightarrow> bool \<times> bot_state" where
  "request_op e st target ch =
     (if \<not> hub_up st \<or> target = st_bot_uuid st then (False, st)
      else send_frame e st CMD_OP_REQUEST (trunc (target @ ''|'' @ ch) 256))"

definition relay_bot_command :: "env \<Rightarrow> bot_state \<Rightarrow> string \<Rightarrow> string \<Rightarrow> bool \<times> bot_state" where
  "relay_bot_command e st target line =
     (if \<not> hub_up st then (False, st)
      else let payload = target @ ''|'' @ line in
        if length payload \<ge> MAX_BUFFER then (False, st) else send_frame e st CMD_BOT_RELAY payload)"

definition send_invite_request :: "env \<Rightarrow> bot_state \<Rightarrow> string \<Rightarrow> string \<Rightarrow> bool \<times> bot_state" where
  "send_invite_request e st nick ch =
     (if \<not> hub_up st then (False, st)
      else let payload = nick @ ''|'' @ ch in
        if length payload \<ge> 256 then (False, st) else send_frame e st CMD_INVITE_REQUEST payload)"

definition send_chan_request :: "env \<Rightarrow> bot_state \<Rightarrow> string \<Rightarrow> string \<Rightarrow> bool \<times> bot_state" where
  "send_chan_request e st kind ch =
     (if \<not> hub_up st then (False, st)
      else let payload = kind @ ''|'' @ ch in
        if length payload \<ge> MAX_CHAN + 16 then (False, st) else send_frame e st CMD_CHAN_REQUEST payload)"

definition send_chan_reply ::
  "env \<Rightarrow> bot_state \<Rightarrow> string \<Rightarrow> string \<Rightarrow> string \<Rightarrow> string \<Rightarrow> string \<Rightarrow> bool \<times> bot_state" where
  "send_chan_reply e st rid kind ch status dat =
     (if \<not> hub_up st then (False, st)
      else let payload = rid @ ''|'' @ kind @ ''|'' @ ch @ ''|'' @ status @ ''|'' @ dat in
        if length payload \<ge> MAX_CHAN + MAX_KEY + 96 then (False, st) else send_frame e st CMD_CHAN_REPLY payload)"

text \<open>\<open>grant_held_ops\<close>: the grants held while the bot had no op itself.\<close>

definition grant_one :: "env \<Rightarrow> nat \<Rightarrow> bot_state \<Rightarrow> string \<times> int \<Rightarrow> bot_state" where
  "grant_one e ci st g =
     (let (nick, when) = g; c = st_chans st ! ci in
      if e_now e - when > OP_GRANT_HOLD_SECS then st
      else case List.find (\<lambda>r. eq_ic (r_nick r) nick) (c_roster c) of
        None \<Rightarrow> st
      | Some r \<Rightarrow> if r_is_op r then st else ircf e st (''MODE '' @ c_name c @ '' +o '' @ nick))"

definition grant_held_ops :: "env \<Rightarrow> bot_state \<Rightarrow> nat \<Rightarrow> bot_state" where
  "grant_held_ops e st ci =
     foldl (grant_one e ci) (upd_chan st ci (\<lambda>c. c\<lparr>c_op_grant_held := []\<rparr>))
       (c_op_grant_held (st_chans st ! ci))"

end
