(* ===== verification/Config.thy ===== *)
theory Config
  imports HubPush
begin

text \<open>
  The configuration file (\<open>src/src/config.rs\<close>): what is written, how a file is read back line by line,
  the migration of pre-UUID records, and the two ways to save.  \<open>st_disk\<close> is the plaintext the file
  holds; the encryption under the password and the replacement by a rename are the parameter
  \<open>e_disk\<close>, which says whether they succeed.
\<close>

section \<open>Writing\<close>

definition line_n :: "bot_state \<Rightarrow> string" where
  "line_n st = ''n|'' @ st_target_nick st @ nl"

definition cfg_chan_line :: "chan \<Rightarrow> string" where
  "cfg_chan_line c = ''c|'' @ c_name c @ ''|'' @ c_key c @ ''|'' @ b_flag (c_is_managed c) @ ''|'' @
     dec_int (c_timestamp c) @ nl"

definition own_chan_lines :: "bot_state \<Rightarrow> string" where
  "own_chan_lines st = concat (map cfg_chan_line
     (filter (\<lambda>c. \<not> (c_timestamp c = 0 \<and> \<not> c_is_managed c)) (st_chans st)))"

text \<open>The lines of a list, unless one of them has none.\<close>

definition all_lines :: "('a \<Rightarrow> string option) \<Rightarrow> 'a list \<Rightarrow> string option" where
  "all_lines f xs = (if list_all (\<lambda>x. f x \<noteq> None) xs then Some (concat (map (\<lambda>x. opt_bytes (f x)) xs)) else None)"

definition capped :: "nat \<Rightarrow> string \<Rightarrow> string option" where
  "capped n l = (if length l \<ge> n then None else Some l)"

definition hub_line :: "env \<Rightarrow> hub_entry \<Rightarrow> string" where
  "hub_line e h = ''h|'' @ he_addr h @ (if he_ed_pub_set h then ''|'' @ e_b64 e (he_ed_pub h) else []) @ nl"

definition tail_lines :: "env \<Rightarrow> bot_state \<Rightarrow> string" where
  "tail_lines e st =
     (if st_log_level st \<noteq> DEFAULT_LOG_LEVEL then ''l|'' @ dec_int (sint (st_log_level st)) @ nl else []) @
     (if st_log_max st \<noteq> BOT_LOG_FILE_SIZE then ''L|'' @ dec_int (st_log_max st) @ nl else []) @
     ''u|'' @ st_user st @ nl @ ''g|'' @ st_gecos st @ nl @
     (if st_vhost st \<noteq> [] then ''v|'' @ st_vhost st @ nl else []) @
     concat (map (hub_line e) (st_hubs st)) @
     (if st_hub_key st \<noteq> [] then ''k|'' @ st_hub_key st @ nl else []) @
     (if st_bot_uuid st \<noteq> [] then ''i|'' @ st_bot_uuid st @ nl else []) @
     (if st_opt_flags st \<noteq> [] \<or> st_opt_flags_ts st > 0
      then ''O|'' @ st_opt_flags st @ ''|'' @ dec_int (st_opt_flags_ts st) @ nl else []) @
     (if st_admin_delta_pending st then ''D|1'' @ nl else [])"

definition serialize :: "env \<Rightarrow> bot_state \<Rightarrow> string option" where
  "serialize e st = do {
     cs \<leftarrow> all_lines format_c_line (st_chans st);
     d \<leftarrow> format_d_line st;
     bs \<leftarrow> all_lines format_b_line (st_cfg_bans st);
     us \<leftarrow> all_lines (\<lambda>u. capped CFG_USER_LINE_MAX (format_user_line u)) (st_user_records st);
     ts \<leftarrow> all_lines (\<lambda>t. capped CFG_BLINE_MAX (format_bot_line e t)) (st_trusted_bots st);
     let out = line_n st @ concat (map (\<lambda>s. ''s|'' @ s @ nl) (st_server_list st)) @ own_chan_lines st @
           cs @ d @ bs @ us @ concat (map format_mask_line (st_mask_records st)) @ ts @ tail_lines e st;
     if int (length out) < MAX_CONFIG_SIZE then Some out else None
   }"

definition write_file :: "env \<Rightarrow> bot_state \<Rightarrow> bot_state" where
  "write_file e st = (case serialize e st of
       None \<Rightarrow> st
     | Some t \<Rightarrow> if e_disk e t then st\<lparr>st_disk := Some t\<rparr> else st)"

definition write_cfg :: "env \<Rightarrow> bot_state \<Rightarrow> bot_state" where
  "write_cfg e st =
     (let st1 = write_file e st in
      if st_hubs st1 \<noteq> [] \<and> st_hub_authenticated st1 then push_config e st1 else st1)"

definition write_local :: "env \<Rightarrow> bot_state \<Rightarrow> bot_state" where
  "write_local e st = write_file e st"

section \<open>Reading a line\<close>

definition load_chan :: "env \<Rightarrow> bot_state \<Rightarrow> string \<Rightarrow> bot_state" where
  "load_chan e st data =
     (case parse_cfg_chan data of
        None \<Rightarrow> st
      | Some (ch, key, op, ts) \<Rightarrow>
          let is_add = (op \<noteq> ''del''); eff = (if ts > 0 then ts else e_now e) in
          (case chan_find st ch of
             Some ci \<Rightarrow>
               let c = st_chans st ! ci in
               if c_timestamp c = 0 \<or> lww_accepts eff is_add (c_timestamp c) (c_is_managed c) then
                 upd_chan st ci (\<lambda>c. c\<lparr>c_key := trunc key MAX_KEY, c_is_managed := is_add, c_timestamp := eff,
                   c_status := (if is_add then c_status c else CS_Out)\<rparr>)
               else st
           | None \<Rightarrow>
               (case chan_add e st ch of
                  (None, st1) \<Rightarrow> st1
                | (Some ci, st1) \<Rightarrow>
                    upd_chan st1 ci (\<lambda>c. c\<lparr>c_key := (if key \<noteq> [] then trunc key MAX_KEY else c_key c),
                      c_is_managed := is_add, c_timestamp := eff,
                      c_status := (if is_add then c_status c else CS_Out)\<rparr>))))"

text \<open>A pre-UUID admin or oper line, marked for the migration.\<close>

definition old_user :: "env \<Rightarrow> char \<Rightarrow> string list \<Rightarrow> user_record option" where
  "old_user e typ f =
     (let stamp = (\<lambda>i. let ts = (if i < length f then atoll (f ! i) else 0) in if ts > 0 then ts else e_now e) in
      if typ = CHR ''a'' then
        Some (default_user\<lparr>u_typ := typ, u_uuid := ''MIGRATE'', u_is_active := True, u_timestamp := stamp 1\<rparr>)
      else if length f < 3 \<or> f ! 0 = [] \<or> length (f ! 0) \<ge> MAX_MASK_LEN then None
      else Some (default_user\<lparr>u_typ := typ, u_uuid := ''MIGRATE_O'', u_name := f ! 0,
                   u_is_active := (f ! 2 \<noteq> ''del''), u_timestamp := stamp 3\<rparr>))"

definition user_of_line :: "char \<Rightarrow> user_line \<Rightarrow> user_record" where
  "user_of_line typ ul = \<lparr>u_uuid = ul_uuid ul, u_name = ul_name ul, u_pubkey_b64 = ul_pubkey_b64 ul,
     u_has_pubkey = ul_has_pubkey ul, u_typ = typ, u_is_active = ul_is_active ul,
     u_last_seen = ul_last_seen ul, u_timestamp = ul_timestamp ul, u_last_auth_reply = 0, u_act_pending = 0\<rparr>"

definition add_user :: "bot_state \<Rightarrow> user_record \<Rightarrow> bot_state" where
  "add_user st u = st\<lparr>st_user_records := st_user_records st @ [u]\<rparr>"

text \<open>The answer also says whether the line had the password-era shape.\<close>

definition load_user :: "env \<Rightarrow> bot_state \<Rightarrow> char \<Rightarrow> string \<Rightarrow> bool \<times> bot_state" where
  "load_user e st typ data =
     (if length (st_user_records st) \<ge> MAX_USER_RECORDS then (False, st)
      else if is_uuid (split_fields data 5 ! 0) then
        (case parse_user_line e data of
           None \<Rightarrow> (False, st)
         | Some ul \<Rightarrow> (ul_legacy ul, add_user st (user_of_line typ ul)))
      else case old_user e typ (split_fields data 5) of
        None \<Rightarrow> (False, st)
      | Some u \<Rightarrow> (True, add_user st u))"

definition load_hub_line :: "env \<Rightarrow> bot_state \<Rightarrow> string \<Rightarrow> bot_state" where
  "load_hub_line e st data =
     (if length (st_hubs st) \<ge> MAX_SERVERS then st
      else
        let he = (case position ((=) (CHR ''|'')) data of
            None \<Rightarrow> default_hub\<lparr>he_addr := trunc data 256\<rparr>
          | Some bar \<Rightarrow>
              let h = default_hub\<lparr>he_addr := trunc (take bar data) 256\<rparr> in
              (case b64_decode e (drop (Suc bar) data) of
                 None \<Rightarrow> h
               | Some k \<Rightarrow>
                   if length k = 32 \<or> length k = HUB_KEY_RAW_LEN
                   then h\<lparr>he_ed_pub := take 32 k, he_ed_pub_set := True\<rparr> else h))
        in st\<lparr>st_hubs := st_hubs st @ [he]\<rparr>)"

text \<open>\<open>str::trim\<close> and \<open>parse::<u64>\<close>.\<close>

definition uni_space :: "string \<Rightarrow> bool" where
  "uni_space ch \<longleftrightarrow> map byte ch \<in> set ([[0x09], [0x0A], [0x0B], [0x0C], [0x0D], [0x20],
     [0xC2, 0x85], [0xC2, 0xA0], [0xE1, 0x9A, 0x80], [0xE2, 0x80, 0xA8], [0xE2, 0x80, 0xA9],
     [0xE2, 0x80, 0xAF], [0xE2, 0x81, 0x9F], [0xE3, 0x80, 0x80]] @
     map (\<lambda>k. [0xE2, 0x80, 0x80 + k]) [0..<11])"

definition trim :: "string \<Rightarrow> string" where
  "trim s = concat (rev (dropWhile uni_space (rev (dropWhile uni_space (utf8_chars s)))))"

definition parse_u64 :: "string \<Rightarrow> int option" where
  "parse_u64 s =
     (let d = (if take 1 s = ''+'' then drop 1 s else s) in
      if d = [] \<or> \<not> list_all is_digit d \<or> int (digits_val d) \<ge> 2 ^ 64 then None else Some (int (digits_val d)))"

text \<open>What the lines of a file leave beside the state: password-era users, a retired bot password,
  a legacy hub key.\<close>

record load_run =
  ld_st :: bot_state
  ld_legacy :: nat
  ld_botpass :: bool

definition on_st :: "(bot_state \<Rightarrow> bot_state) \<Rightarrow> load_run \<Rightarrow> load_run" where
  "on_st f r = r\<lparr>ld_st := f (ld_st r)\<rparr>"

definition load_identity :: "env \<Rightarrow> string \<Rightarrow> bot_state \<Rightarrow> bot_state" where
  "load_identity e data st =
     (case b64_decode e data of
        Some k \<Rightarrow>
          if length k = HUB_KEY_RAW_LEN then st\<lparr>st_hub_key := trunc data MAX_HUB_KEY_SIZE, st_hub_key_raw := k\<rparr>
          else st
      | None \<Rightarrow> st)"

definition load_old_pin :: "env \<Rightarrow> string \<Rightarrow> bot_state \<Rightarrow> bot_state" where
  "load_old_pin e data st =
     (case b64_decode e data of
        Some k \<Rightarrow>
          if length k = 32 then st\<lparr>st_hub_remote_ed_pub := k, st_hub_remote_ed_pub_set := True\<rparr> else st
      | None \<Rightarrow> st)"

definition load_opt :: "env \<Rightarrow> string \<Rightarrow> bot_state \<Rightarrow> bot_state" where
  "load_opt e data st =
     (case parse_opt_line data of
        Some (flags, ts) \<Rightarrow> st\<lparr>st_opt_flags := flags, st_opt_flags_ts := (if ts > 0 then ts else e_now e)\<rparr>
      | None \<Rightarrow> st)"

definition load_bot :: "env \<Rightarrow> string \<Rightarrow> bot_state \<Rightarrow> bot_state" where
  "load_bot e data st =
     (if length (st_trusted_bots st) < MAX_TRUSTED_BOTS then
        (case parse_bot_line e data of
           Some tb \<Rightarrow> st\<lparr>st_trusted_bots := st_trusted_bots st @ [tb]\<rparr>
         | None \<Rightarrow> st)
      else st)"

definition load_server :: "string \<Rightarrow> bot_state \<Rightarrow> bot_state" where
  "load_server data st =
     (if length (st_server_list st) < MAX_SERVERS then st\<lparr>st_server_list := st_server_list st @ [data]\<rparr> else st)"

definition load_defaults :: "string \<Rightarrow> bot_state \<Rightarrow> bot_state" where
  "load_defaults data st =
     (if CHR ''|'' \<notin> set data then st\<lparr>st_admin_delta_pending := (data = ''1'')\<rparr>
      else snd (apply_d_line st data))"

definition load_record :: "env \<Rightarrow> char \<Rightarrow> string \<Rightarrow> load_run \<Rightarrow> load_run" where
  "load_record e typ data r =
     (if typ = CHR ''n'' then on_st (\<lambda>st. st\<lparr>st_target_nick := trunc data MAX_NICK\<rparr>) r
      else if typ = CHR ''s'' then on_st (load_server data) r
      else if typ = CHR ''c'' then on_st (\<lambda>st. load_chan e st data) r
      else if typ = CHR ''C'' then on_st (\<lambda>st. snd (apply_c_line e st data)) r
      else if typ = CHR ''B'' then on_st (\<lambda>st. snd (apply_b_line st data)) r
      else if typ = CHR ''m'' then on_st (\<lambda>st. load_mask_line e st data) r
      else if typ = CHR ''a'' \<or> typ = CHR ''o'' then
        (case load_user e (ld_st r) typ data of
           (old, st1) \<Rightarrow> r\<lparr>ld_st := st1, ld_legacy := ld_legacy r + (if old then 1 else 0)\<rparr>)
      else if typ = CHR ''p'' then r\<lparr>ld_botpass := True\<rparr>
      else if typ = CHR ''b'' then on_st (load_bot e data) r
      else if typ = CHR ''l'' then on_st (\<lambda>st. st\<lparr>st_log_level := word_of_int (atoi data)\<rparr>) r
      else if typ = CHR ''L'' then
        on_st (\<lambda>st. st\<lparr>st_log_max := clamp_int BOT_LOG_SIZE_MIN BOT_LOG_SIZE_MAX
          (case parse_u64 (trim data) of Some v \<Rightarrow> v | None \<Rightarrow> 0)\<rparr>) r
      else if typ = CHR ''u'' then on_st (\<lambda>st. st\<lparr>st_user := trunc data 64\<rparr>) r
      else if typ = CHR ''g'' then on_st (\<lambda>st. st\<lparr>st_gecos := trunc data 128\<rparr>) r
      else if typ = CHR ''v'' then on_st (\<lambda>st. st\<lparr>st_vhost := trunc data 128\<rparr>) r
      else if typ = CHR ''h'' then on_st (\<lambda>st. load_hub_line e st data) r
      else if typ = CHR ''k'' then on_st (load_identity e data) r
      else if typ = CHR ''j'' then on_st (load_old_pin e data) r
      else if typ = CHR ''i'' then on_st (\<lambda>st. st\<lparr>st_bot_uuid := trunc data 64\<rparr>) r
      else if typ = CHR ''D'' then on_st (load_defaults data) r
      else if typ = CHR ''O'' then on_st (load_opt e data) r
      else r)"

definition strip_cr :: "string \<Rightarrow> string" where
  "strip_cr l = (if l \<noteq> [] \<and> last l = CHR 0x0D then butlast l else l)"

definition load_line :: "env \<Rightarrow> load_run \<Rightarrow> string \<Rightarrow> load_run" where
  "load_line e r raw =
     (let line = until_nul (strip_cr raw) in
      if length line < 2 \<or> hd line = CHR ''#'' \<or> line ! 1 \<noteq> CHR ''|'' then r
      else load_record e (hd line) (drop 2 line) r)"

end
