(* ===== verification/ConfigLoad.thy ===== *)
theory ConfigLoad
  imports Config
begin

text \<open>
  Loading a decrypted configuration file (\<open>src/src/config.rs\<close>): the migration of records from before
  users had UUIDs, the minting of a missing identity, and the whole of \<open>load\<close>.
\<close>

section \<open>Migration\<close>

definition starts_migrate :: "user_record \<Rightarrow> bool" where
  "starts_migrate u \<longleftrightarrow> take 7 (u_uuid u) = ''MIGRATE''"

definition default_uuid :: "string option \<Rightarrow> string" where
  "default_uuid u = (case u of Some s \<Rightarrow> s | None \<Rightarrow> [])"

text \<open>The first of \<open>name\<close>, \<open>name_2\<close>, \<open>name_3\<close> and so on that nobody has: \<open>n\<close> names leave one free
  among the first \<open>n + 1\<close>.\<close>

definition suffixed :: "string \<Rightarrow> nat \<Rightarrow> string" where
  "suffixed derived k = trunc derived (USER_NAME_BUF - 11) @ ''_'' @ dec k"

definition uniq_name :: "string list \<Rightarrow> string \<Rightarrow> string" where
  "uniq_name names derived =
     (if derived \<notin> set names then derived
      else case List.find (\<lambda>k. suffixed derived k \<notin> set names) [2..<length names + 3] of
        Some k \<Rightarrow> suffixed derived k
      | None \<Rightarrow> derived)"

record migration =
  mg_users :: "user_record list"
  mg_masks :: "mask_record list"
  mg_st :: bot_state

definition mg_user :: "migration \<Rightarrow> user_record \<Rightarrow> migration" where
  "mg_user g u = g\<lparr>mg_users := mg_users g @ [u]\<rparr>"

definition mg_mask :: "migration \<Rightarrow> mask_record \<Rightarrow> migration" where
  "mg_mask g m = (if length (mg_masks g) < MAX_USER_MASKS then g\<lparr>mg_masks := mg_masks g @ [m]\<rparr> else g)"

definition stamp_or_now :: "env \<Rightarrow> int \<Rightarrow> int" where
  "stamp_or_now e ts = (if ts \<noteq> 0 then ts else e_now e)"

definition migrate_admin :: "env \<Rightarrow> string \<Rightarrow> migration \<Rightarrow> migration" where
  "migrate_admin e admin g =
     (case List.find (\<lambda>u. u_uuid u = ''MIGRATE'' \<and> u_typ u = CHR ''a'') (st_user_records (mg_st g)) of
        None \<Rightarrow> g
      | Some u \<Rightarrow> mg_user g (default_user\<lparr>u_uuid := admin, u_name := ''admin'', u_typ := CHR ''a'',
          u_is_active := True, u_timestamp := stamp_or_now e (u_timestamp u)\<rparr>))"

definition migrate_oper :: "env \<Rightarrow> migration \<Rightarrow> nat \<times> user_record \<Rightarrow> migration" where
  "migrate_oper e g iu =
     (let (i, u) = iu in
      if u_uuid u \<noteq> ''MIGRATE_O'' \<or> length (mg_users g) \<ge> MAX_USER_RECORDS then g
      else
        let (ou, st1) = gen_uuid_v4 e (mg_st g); ouuid = default_uuid ou;
            derived = (case position ((=) (CHR ''!'')) (u_name u) of
                         Some b \<Rightarrow> trunc (take b (u_name u)) USER_NAME_BUF
                       | None \<Rightarrow> ''oper'' @ dec i);
            ts = stamp_or_now e (u_timestamp u)
        in mg_mask
             (mg_user (g\<lparr>mg_st := st1\<rparr>)
                (default_user\<lparr>u_uuid := ouuid, u_name := uniq_name (map u_name (mg_users g)) derived,
                   u_typ := CHR ''o'', u_is_active := u_is_active u, u_timestamp := ts\<rparr>))
             (default_mask\<lparr>m_uuid := ouuid, m_mask := trunc (u_name u) MAX_MASK_LEN,
                m_is_active := u_is_active u, m_timestamp := ts\<rparr>))"

definition keep_user :: "migration \<Rightarrow> user_record \<Rightarrow> migration" where
  "keep_user g u = (if length (mg_users g) \<ge> MAX_USER_RECORDS then g else mg_user g u)"

definition migrate_legacy_records :: "env \<Rightarrow> bot_state \<Rightarrow> bot_state" where
  "migrate_legacy_records e st =
     (let (au, st1) = gen_uuid_v4 e st; admin = default_uuid au;
          users = st_user_records st; masks = st_mask_records st;
          g1 = migrate_admin e admin \<lparr>mg_users = [], mg_masks = [], mg_st = st1\<rparr>;
          g2 = foldl (\<lambda>g m. mg_mask g (m\<lparr>m_uuid := admin, m_last_used := 0, m_act_pending := 0\<rparr>)) g1
                 (filter (\<lambda>m. m_uuid m = ''MIGRATE'') masks);
          g3 = foldl (migrate_oper e) g2 (enumerate 0 users);
          g4 = foldl keep_user g3 (filter (\<lambda>u. \<not> starts_migrate u) users);
          g5 = foldl mg_mask g4 (filter (\<lambda>m. m_uuid m \<noteq> ''MIGRATE'') masks)
      in (mg_st g5)\<lparr>st_user_records := mg_users g5, st_mask_records := mg_masks g5\<rparr>)"

definition needs_migration :: "bot_state \<Rightarrow> bool" where
  "needs_migration st \<longleftrightarrow> list_ex starts_migrate (st_user_records st) \<or>
     list_ex (\<lambda>m. m_uuid m = ''MIGRATE'') (st_mask_records st)"

section \<open>Loading\<close>

text \<open>A legacy \<open>j|\<close> key applies to every hub without its own pin.\<close>

definition apply_old_pin :: "bot_state \<Rightarrow> bot_state" where
  "apply_old_pin st =
     (if st_hub_remote_ed_pub_set st then
        st\<lparr>st_hubs := map (\<lambda>h. if he_ed_pub_set h then h
             else h\<lparr>he_ed_pub := st_hub_remote_ed_pub st, he_ed_pub_set := True\<rparr>) (st_hubs st)\<rparr>
      else st)"

text \<open>A standalone file without a key or a UUID gets one minted; the answer says so.\<close>

definition mint_key :: "env \<Rightarrow> bot_state \<Rightarrow> bool \<times> bot_state" where
  "mint_key e st =
     (if st_hub_key st = [] \<and> st_hubs st = [] then
        (case random_bytes e st HUB_KEY_RAW_LEN of
           (None, st1) \<Rightarrow> (False, st1)
         | (Some k, st1) \<Rightarrow> (True, st1\<lparr>st_hub_key := e_b64 e k, st_hub_key_raw := k\<rparr>))
      else (False, st))"

definition mint_uuid :: "env \<Rightarrow> bot_state \<Rightarrow> bool \<times> bot_state" where
  "mint_uuid e st =
     (if st_bot_uuid st = [] \<and> st_hubs st = [] then
        (case gen_uuid_v4 e st of
           (None, st1) \<Rightarrow> (False, st1)
         | (Some u, st1) \<Rightarrow> (True, st1\<lparr>st_bot_uuid := u\<rparr>))
      else (False, st))"

definition load_lines :: "env \<Rightarrow> bot_state \<Rightarrow> string \<Rightarrow> load_run" where
  "load_lines e st txt =
     foldl (load_line e) \<lparr>ld_st = st, ld_legacy = 0, ld_botpass = False\<rparr> (split_char (CHR 0x0A) txt)"

definition config_complete :: "bot_state \<Rightarrow> bool" where
  "config_complete st \<longleftrightarrow> st_target_nick st \<noteq> [] \<and> st_server_list st \<noteq> [] \<and> st_user st \<noteq> []"

text \<open>\<open>load\<close>, given what \<open>decrypt_file\<close> answered (the plaintext and whether the legacy key had to be
  used) and whether this is \<open>-selftest\<close>, which writes nothing.\<close>

definition load_cfg :: "env \<Rightarrow> bool \<Rightarrow> bot_state \<Rightarrow> (string \<times> bool) option \<Rightarrow> bool \<times> bot_state" where
  "load_cfg e read_only st pt =
     (case pt of
        None \<Rightarrow> (False, st)
      | Some (plain, old_key) \<Rightarrow>
          let r = load_lines e st (from_utf8_lossy plain);
              st1 = apply_old_pin (ld_st r);
              migrate = needs_migration st1;
              st2 = (if migrate then migrate_legacy_records e st1 else st1);
              (key_minted, st3) = mint_key e st2;
              (uuid_minted, st4) = mint_uuid e st3;
              st5 = snd (self_pub_refresh e st4);
              st6 = (if \<not> read_only \<and> (migrate \<or> old_key \<or> ld_legacy r > 0 \<or> ld_botpass r \<or>
                         key_minted \<or> uuid_minted)
                     then write_cfg e st5 else st5)
          in (config_complete st6, st6))"

end
