(* ===== verification/Access.thy ===== *)
theory Access
  imports Config Auth
begin

text \<open>
  Channel upkeep and access requests (\<open>src/src/channel.rs\<close>), and the sealed commands bots send each
  other (\<open>src/src/bot_comms.rs\<close>).  A bot locked out of a channel asks the mesh for an unban, an invite
  or the key, through the hub or by a \<open>~B2\<close> frame to one trusted bot; a bot that is asked serves the
  request from its own channel state.
\<close>

section \<open>Sealed commands out\<close>

definition b2_aad :: "string \<Rightarrow> string \<Rightarrow> string" where
  "b2_aad sender recipient = B2_LABEL @ [CHR 0x00] @ sender @ [CHR 0x00] @ recipient"

text \<open>The frame of a command, if the generator, the key and the recipient's key allow one.\<close>

definition b2_text :: "env \<Rightarrow> string \<Rightarrow> string \<Rightarrow> string" where
  "b2_text e nonce cmd = dec_int (e_now e) @ '':'' @ nonce @ '':'' @ cmd"

definition b2_line :: "env \<Rightarrow> bot_state \<Rightarrow> trusted_bot \<Rightarrow> string \<Rightarrow> string option \<times> bot_state" where
  "b2_line e st tb cmd =
     (case random_bytes e st 8 of
        (None, st1) \<Rightarrow> (None, st1)
      | (Some rnd, st1) \<Rightarrow>
          let pt = b2_text e (hexs rnd) cmd in
          if length pt \<ge> 512 then (None, st1)
          else (case bot_key_decode e st1 of
              (None, st2) \<Rightarrow> (None, st2)
            | (Some (_, x), st2) \<Rightarrow>
                (case seal e st2 (Some (x, snd (pub_halves (st_self_pub st2)))) (snd (pub_halves (tb_pub_key tb)))
                        B2_LABEL (b2_aad (st_bot_uuid st2) (tb_uuid tb)) pt of
                   (None, st3) \<Rightarrow> (None, st3)
                 | (Some frame, st3) \<Rightarrow> (Some (''~B2 '' @ e_b64 e frame), st3))))"

definition b2_send :: "env \<Rightarrow> bot_state \<Rightarrow> nat option \<Rightarrow> string \<Rightarrow> string \<Rightarrow> bot_state" where
  "b2_send e st ti nick cmd =
     (case ti of
        None \<Rightarrow> st
      | Some i \<Rightarrow>
          let tb = st_trusted_bots st ! i in
          if \<not> tb_has_pub tb \<or> tb_uuid tb = [] then st
          else if \<not> st_self_pub_set st \<or> st_bot_uuid st = [] then st
          else if length cmd \<ge> 256 then st
          else (case b2_line e st tb cmd of
              (None, st1) \<Rightarrow> st1
            | (Some line, st1) \<Rightarrow>
                if length line \<ge> 1024 then st1
                else
                  let (via_hub, st2) =
                    (if hub_up st1 then relay_bot_command e st1 (tb_uuid tb) line else (False, st1))
                  in if via_hub then st2 else ircf e st2 (''PRIVMSG '' @ nick @ '' :'' @ line)))"

definition send_command :: "env \<Rightarrow> bot_state \<Rightarrow> string \<Rightarrow> string \<Rightarrow> bot_state" where
  "send_command e st nick cmd = b2_send e st (trusted_bot_by_nick st nick) nick cmd"

definition send_to_host :: "env \<Rightarrow> bot_state \<Rightarrow> string \<Rightarrow> string \<Rightarrow> string \<Rightarrow> bot_state" where
  "send_to_host e st host nick cmd = b2_send e st (trusted_bot_by_host st host) nick cmd"

section \<open>Ban-list walks\<close>

definition unban_job_find :: "bot_state \<Rightarrow> string \<Rightarrow> nat option" where
  "unban_job_find st ch = position (\<lambda>j. uj_active j \<and> eq_ic (uj_channel j) ch) (st_unban_jobs st)"

definition unban_expire :: "env \<Rightarrow> bot_state \<Rightarrow> bot_state" where
  "unban_expire e st = st\<lparr>st_unban_jobs := map (\<lambda>j.
     if uj_active j \<and> e_now e - uj_started j > UNBAN_JOB_TTL then j\<lparr>uj_active := False\<rparr> else j) (st_unban_jobs st)\<rparr>"

definition unban_job_start :: "env \<Rightarrow> bot_state \<Rightarrow> string \<Rightarrow> string \<Rightarrow> bool \<times> bot_state" where
  "unban_job_start e st0 ch hostmask =
     (let st = unban_expire e st0 in
      if unban_job_find st ch \<noteq> None then (False, st)
      else case position (\<lambda>j. \<not> uj_active j) (st_unban_jobs st) of
        None \<Rightarrow> (False, st)
      | Some slot \<Rightarrow>
          (True, ircf e (st\<lparr>st_unban_jobs := (st_unban_jobs st)[slot :=
             \<lparr>uj_channel = trunc ch MAX_CHAN, uj_hostmask = trunc hostmask MAX_MASK_LEN,
               uj_started = e_now e, uj_removed = 0, uj_active = True\<rparr>]\<rparr>) (''MODE '' @ ch @ '' +b'')))"

definition opped_in :: "bot_state \<Rightarrow> string \<Rightarrow> bool" where
  "opped_in st ch \<longleftrightarrow> (case chan_find st ch of
     Some ci \<Rightarrow> c_status (st_chans st ! ci) = CS_In \<and> c_i_am_opped (st_chans st ! ci)
   | None \<Rightarrow> False)"

definition unban_note_ban :: "env \<Rightarrow> bot_state \<Rightarrow> string \<Rightarrow> string \<Rightarrow> bot_state" where
  "unban_note_ban e st ch bm =
     (case unban_job_find st ch of
        None \<Rightarrow> st
      | Some ji \<Rightarrow>
          let j = st_unban_jobs st ! ji in
          if bm = [] \<or> uj_removed j \<ge> UNBAN_MAX_REMOVALS \<or> \<not> wildcard_match bm (uj_hostmask j) then st
          else if \<not> opped_in st ch then st
          else
            let st1 = ircf e st (''MODE '' @ ch @ '' -b '' @ bm)
            in st1\<lparr>st_unban_jobs := (st_unban_jobs st1)[ji :=
                 (st_unban_jobs st1 ! ji)\<lparr>uj_removed := uj_removed (st_unban_jobs st1 ! ji) + 1\<rparr>]\<rparr>)"

definition unban_finish :: "bot_state \<Rightarrow> string \<Rightarrow> bot_state" where
  "unban_finish st ch =
     (case unban_job_find st ch of
        None \<Rightarrow> st
      | Some ji \<Rightarrow> st\<lparr>st_unban_jobs := (st_unban_jobs st)[ji := (st_unban_jobs st ! ji)\<lparr>uj_active := False\<rparr>]\<rparr>)"

section \<open>Asking\<close>

definition access_cmd :: "bot_state \<Rightarrow> chan_req \<Rightarrow> string \<Rightarrow> string option" where
  "access_cmd st kind ch = (case kind of
       Unban \<Rightarrow> Some (''UNBAN '' @ ch)
     | Invite \<Rightarrow> if st_current_nick st = [] then None else Some (''INVITE '' @ ch @ '' '' @ st_current_nick st)
     | Key \<Rightarrow> Some (''KEY '' @ ch))"

text \<open>One turn of the round robin: done with an answer, or go on to the next bot.\<close>

definition fallback_step :: "env \<Rightarrow> bot_state \<Rightarrow> chan_req \<Rightarrow> string \<Rightarrow> bool option \<times> bot_state" where
  "fallback_step e st0 kind ch =
     (let n = length (st_trusted_bots st0); idx = st_chan_req_fallback_idx st0 mod n;
          st = st0\<lparr>st_chan_req_fallback_idx := (idx + 1) mod n\<rparr>;
          nick = tb_nick (st_trusted_bots st ! idx) in
      if nick = [] then (None, st)
      else if st_current_nick st \<noteq> [] \<and> eq_ic nick (st_current_nick st) then (None, st)
      else case access_cmd st kind ch of
        None \<Rightarrow> (Some False, st)
      | Some cmd \<Rightarrow> (Some True, send_command e st nick cmd))"

fun fallback_loop :: "nat \<Rightarrow> env \<Rightarrow> bot_state \<Rightarrow> chan_req \<Rightarrow> string \<Rightarrow> bool \<times> bot_state" where
  "fallback_loop 0 e st kind ch = (False, st)"
| "fallback_loop (Suc k) e st kind ch =
     (case fallback_step e st kind ch of
        (Some ok, st1) \<Rightarrow> (ok, st1)
      | (None, st1) \<Rightarrow> fallback_loop k e st1 kind ch)"

definition access_fallback :: "env \<Rightarrow> bot_state \<Rightarrow> chan_req \<Rightarrow> string \<Rightarrow> bool \<times> bot_state" where
  "access_fallback e st kind ch = fallback_loop (length (st_trusted_bots st)) e st kind ch"

definition access_request :: "env \<Rightarrow> bot_state \<Rightarrow> nat \<Rightarrow> chan_req \<Rightarrow> bool \<times> bot_state" where
  "access_request e st0 ci kind =
     (let k = chan_req_idx kind; now = e_now e; c0 = st_chans st0 ! ci in
      if \<not> ci < length (st_chans st0) then (False, st0)
      else if \<not> c_is_managed c0 \<or> c_join_disabled c0 \<or> st_status st0 AND S_AUTHED = 0 then (False, st0)
      else
        let spent = (c_access_retry_count c0 ! k \<ge> CHAN_REQUEST_MAX_RETRIES);
            cooled = (now - c_last_access_request c0 ! k > CHAN_REQUEST_COOLOFF);
            st = (if spent \<and> cooled
                  then upd_chan st0 ci (\<lambda>c. c\<lparr>c_access_retry_count := (c_access_retry_count c)[k := 0]\<rparr>) else st0);
            c = st_chans st ! ci in
        if spent \<and> \<not> cooled then (False, st)
        else if c_last_access_request c ! k \<noteq> 0 \<and> now - c_last_access_request c ! k < CHAN_REQUEST_RETRY_TIME
        then (False, st)
        else if now - st_last_chan_request_sent st < CHAN_REQUEST_MIN_INTERVAL then (False, st)
        else
          let (by_hub, st1) = send_chan_request e st (chan_req_token kind) (c_name c);
              (sent, st2) = (if by_hub then (True, st1) else access_fallback e st1 kind (c_name c))
          in if \<not> sent then (False, st2)
             else (True, (upd_chan st2 ci (\<lambda>c. c\<lparr>c_last_access_request := (c_last_access_request c)[k := now],
                   c_access_retry_count := (c_access_retry_count c)[k := c_access_retry_count c ! k + 1]\<rparr>))
                   \<lparr>st_last_chan_request_sent := now\<rparr>))"

section \<open>Serving\<close>

definition nonempty :: "string option \<Rightarrow> string option" where
  "nonempty s = (case s of Some [] \<Rightarrow> None | r \<Rightarrow> r)"

definition serve_key :: "env \<Rightarrow> bot_state \<Rightarrow> string \<Rightarrow> string \<Rightarrow> string \<Rightarrow> string option \<Rightarrow> bot_state" where
  "serve_key e st rid ch key reply_to =
     (if key = [] then st
      else case nonempty reply_to of
        Some to \<Rightarrow> send_command e st to (''KEYIS '' @ ch @ '' '' @ key)
      | None \<Rightarrow> if rid \<noteq> [] then snd (send_chan_reply e st rid (chan_req_token Key) ch ''ok'' key) else st)"

definition access_service ::
  "env \<Rightarrow> bot_state \<Rightarrow> string \<Rightarrow> chan_req \<Rightarrow> string \<Rightarrow> string option \<Rightarrow> string option \<Rightarrow> string option \<Rightarrow> bot_state"
where
  "access_service e st rid kind ch nick hostmask reply_to =
     (if ch = [] then st
      else case chan_find st ch of
        None \<Rightarrow> st
      | Some ci \<Rightarrow>
          let c = st_chans st ! ci in
          if c_status c \<noteq> CS_In then st
          else case kind of
            Unban \<Rightarrow>
              (case nonempty hostmask of
                 None \<Rightarrow> st
               | Some hm \<Rightarrow> if c_i_am_opped c then snd (unban_job_start e st ch hm) else st)
          | Invite \<Rightarrow>
              (case nonempty nick of
                 None \<Rightarrow> st
               | Some n \<Rightarrow> if c_i_am_opped c then ircf e st (''INVITE '' @ n @ '' '' @ ch) else st)
          | Key \<Rightarrow> serve_key e st rid ch (c_key c) reply_to)"

definition access_accept_key :: "env \<Rightarrow> bot_state \<Rightarrow> string \<Rightarrow> string \<Rightarrow> bot_state" where
  "access_accept_key e st ch key =
     (if key = [] \<or> length key \<ge> MAX_KEY then st
      else case chan_find st ch of
        None \<Rightarrow> st
      | Some ci \<Rightarrow>
          let c = st_chans st ! ci; asked = c_last_access_request c ! chan_req_idx Key in
          if \<not> c_is_managed c \<or> c_status c = CS_In then st
          else if asked = 0 \<or> e_now e - asked > CHAN_REPLY_ACCEPT_WINDOW then st
          else if c_key c = key then st
          else
            let st1 = upd_chan st ci (\<lambda>c. c\<lparr>c_key := key, c_timestamp := lww_next_ts (e_now e) (c_timestamp c)\<rparr>);
                st2 = push_channel e st1 ci; st3 = write_cfg e st2
            in upd_chan st3 ci (\<lambda>c. c\<lparr>c_last_join_attempt := 0\<rparr>))"

section \<open>Joins and rosters\<close>

definition join_line :: "chan \<Rightarrow> string" where
  "join_line c = (if c_key c = [] then ''JOIN '' @ c_name c else ''JOIN '' @ c_name c @ '' '' @ c_key c)"

definition roster_stale :: "env \<Rightarrow> chan \<Rightarrow> bool" where
  "roster_stale e c \<longleftrightarrow> c_roster c = [] \<and> e_now e - c_last_who_request c > 30 \<or>
     e_now e - c_last_who_request c > ROSTER_REFRESH_INTERVAL"

definition op_request_late :: "env \<Rightarrow> chan \<Rightarrow> bool" where
  "op_request_late e c \<longleftrightarrow> c_op_request_pending c \<and> e_now e - c_last_op_request_time c > 60 \<and>
     c_op_request_retry_count c < 5"

definition check_join :: "env \<Rightarrow> bot_state \<Rightarrow> nat \<Rightarrow> bot_state" where
  "check_join e st i =
     (let c = st_chans st ! i; now = e_now e in
      if \<not> i < length (st_chans st) \<or> \<not> c_is_managed c \<or> c_join_disabled c then st
      else if c_status c \<noteq> CS_In then
        (if now - c_last_join_attempt c > JOIN_RETRY_TIME
         then ircf e (upd_chan st i (\<lambda>c. c\<lparr>c_last_join_attempt := now\<rparr>)) (join_line c) else st)
      else if c_i_am_opped c then
        upd_chan st i (\<lambda>c. c\<lparr>c_op_request_pending := False, c_op_request_retry_count := 0\<rparr>)
      else if roster_stale e c \<or> op_request_late e c then
        let st1 = (if roster_stale e c then st else upd_chan st i (\<lambda>c. c\<lparr>c_op_request_pending := False\<rparr>));
            st2 = ircf e (upd_chan st1 i (\<lambda>c. c\<lparr>c_roster := []\<rparr>)) (''WHO '' @ c_name c)
        in upd_chan st2 i (\<lambda>c. c\<lparr>c_last_who_request := now\<rparr>)
      else st)"

definition check_joins :: "env \<Rightarrow> bot_state \<Rightarrow> bot_state" where
  "check_joins e st =
     (if st_status st AND S_AUTHED = 0 then st
      else foldl (check_join e) (unban_expire e st) [0..<length (st_chans (unban_expire e st))])"

section \<open>Sealed commands in\<close>

text \<open>\<open>envelope_parse\<close>: \<open>ts:nonce:command\<close>, with \<open>u64::from_str_radix\<close> on 16 lower-case hex digits.\<close>

definition lower_hex :: "char \<Rightarrow> bool" where
  "lower_hex c \<longleftrightarrow> is_digit c \<or> 97 \<le> byte c \<and> byte c \<le> 102"

definition hex_val :: "string \<Rightarrow> nat" where
  "hex_val = foldl (\<lambda>n c. 16 * n + (if is_digit c then digit_val c else byte c - 87)) 0"

definition envelope_parse :: "string \<Rightarrow> (int \<times> 64 word \<times> string) option" where
  "envelope_parse pt =
     (let ds = takeWhile is_digit pt; r = drop (length ds) pt in
      if ds = [] \<or> length ds > 19 \<or> take 1 r \<noteq> '':'' then None
      else
        let q = drop 1 r in
        if length q < 18 \<or> \<not> list_all lower_hex (take 16 q) \<or> q ! 16 \<noteq> CHR '':'' then None
        else if int (digits_val ds) > i64_max then None
        else Some (int (digits_val ds), word_of_nat (hex_val (take 16 q)), drop 17 q))"

definition second_word :: "string \<Rightarrow> (string \<times> string \<times> string) option" where
  "second_word cmd = (case tok_next '' '' cmd of
       (Some verb, r1) \<Rightarrow> (case tok_next '' '' r1 of (Some arg1, r2) \<Rightarrow> Some (verb, arg1, r2) | _ \<Rightarrow> None)
     | _ \<Rightarrow> None)"

definition b2_setnick :: "env \<Rightarrow> bot_state \<Rightarrow> string \<Rightarrow> bot_state" where
  "b2_setnick e st nick =
     (if is_rfc_nick nick then
        let st1 = st\<lparr>st_target_nick := nick, st_current_nick_ts := e_now e\<rparr>
        in write_cfg e (snd (push_delta e st1 ''n'' nick (e_now e)))
      else st)"

definition b2_run :: "env \<Rightarrow> bot_state \<Rightarrow> trusted_bot \<Rightarrow> string option \<Rightarrow> string \<Rightarrow> bot_state" where
  "b2_run e st sender nick cmd =
     (case second_word cmd of
        None \<Rightarrow> st
      | Some (verb, arg1, r) \<Rightarrow>
          if eq_ic verb ''OPME'' then
            (case nick of Some n \<Rightarrow> ircf e st (''MODE '' @ arg1 @ '' +o '' @ n) | None \<Rightarrow> st)
          else if eq_ic verb ''SETNICK'' then b2_setnick e st arg1
          else if eq_ic verb ''INVITE'' then
            (case fst (tok_next '' '' r) of
               Some arg2 \<Rightarrow> if opped_in st arg1 then ircf e st (''INVITE '' @ arg2 @ '' '' @ arg1) else st
             | None \<Rightarrow> st)
          else if eq_ic verb ''UNBAN'' then access_service e st [] Unban arg1 None (Some (tb_mask sender)) None
          else if eq_ic verb ''KEY'' then
            (case nick of Some n \<Rightarrow> access_service e st [] Key arg1 None None (Some n) | None \<Rightarrow> st)
          else if eq_ic verb ''KEYIS'' then
            (case fst (tok_next '' '' r) of Some arg2 \<Rightarrow> access_accept_key e st arg1 arg2 | None \<Rightarrow> st)
          else st)"

text \<open>What a frame from a trusted bot says, if it opens.\<close>

definition b2_open :: "env \<Rightarrow> bot_state \<Rightarrow> trusted_bot \<Rightarrow> string \<Rightarrow> string option \<times> bot_state" where
  "b2_open e st sender b64 =
     (if \<not> tb_has_pub sender \<or> tb_uuid sender = [] then (None, st)
      else if \<not> st_self_pub_set st \<or> st_bot_uuid st = [] then (None, st)
      else if length b64 > A2_B64_MAX then (None, st)
      else case b64_decode e b64 of
        None \<Rightarrow> (None, st)
      | Some frame \<Rightarrow>
          if length frame < SEAL_OVERHEAD then (None, st)
          else (case bot_key_decode e st of
              (None, st1) \<Rightarrow> (None, st1)
            | (Some (_, x), st1) \<Rightarrow>
                (open_frame e x (snd (pub_halves (st_self_pub st))) (Some (snd (pub_halves (tb_pub_key sender))))
                   B2_LABEL (b2_aad (tb_uuid sender) (st_bot_uuid st)) frame, st1)))"

definition b2_accept :: "env \<Rightarrow> bot_state \<Rightarrow> string \<Rightarrow> string option \<times> bot_state" where
  "b2_accept e st pt =
     (if has_control_bytes pt then (None, st)
      else case envelope_parse (from_utf8_lossy pt) of
        None \<Rightarrow> (None, st)
      | Some (ts, nonce, cmd) \<Rightarrow>
          if \<bar>e_now e - ts\<bar> > B2_TS_SKEW then (None, st)
          else if nonce_seen (st_recent_nonces st) nonce (e_now e) then (None, st)
          else (Some cmd, st\<lparr>st_recent_nonces := nonce_record (st_recent_nonces st) nonce (e_now e)\<rparr>))"

definition open_and_dispatch :: "env \<Rightarrow> bot_state \<Rightarrow> nat \<Rightarrow> string \<Rightarrow> string option \<Rightarrow> bot_state" where
  "open_and_dispatch e st ti b64 nick =
     (let sender = st_trusted_bots st ! ti in
      case b2_open e st sender b64 of
        (None, st1) \<Rightarrow> st1
      | (Some pt, st1) \<Rightarrow>
          (case b2_accept e st1 pt of
             (None, st2) \<Rightarrow> st2
           | (Some cmd, st2) \<Rightarrow> b2_run e st2 sender nick cmd))"

definition b2_body :: "string \<Rightarrow> string option" where
  "b2_body s = (if take 4 s = ''~B2 '' then Some (drop 4 s) else None)"

definition process_payload :: "env \<Rightarrow> bot_state \<Rightarrow> string \<Rightarrow> bot_state" where
  "process_payload e st payload =
     (case position ((=) (CHR ''|'')) payload of
        None \<Rightarrow> st
      | Some bar \<Rightarrow>
          let uuid = take bar payload in
          if uuid = [] \<or> length uuid \<ge> UUID_BUF then st
          else case b2_body (drop (Suc bar) payload) of
            None \<Rightarrow> st
          | Some b64 \<Rightarrow>
              (case trusted_bot_by_uuid st uuid of
                 None \<Rightarrow> st
               | Some ti \<Rightarrow> open_and_dispatch e st ti b64 None))"

definition handle_privmsg :: "env \<Rightarrow> bot_state \<Rightarrow> string \<Rightarrow> string \<Rightarrow> string \<Rightarrow> bool \<times> bot_state" where
  "handle_privmsg e st nick user_host msg =
     (case b2_body msg of
        None \<Rightarrow> (False, st)
      | Some b64 \<Rightarrow>
          (True, case trusted_bot_by_host st user_host of
             None \<Rightarrow> st
           | Some ti \<Rightarrow> open_and_dispatch e st ti b64 (Some nick)))"

end
