(* ===== verification/HubSync.thy ===== *)
theory HubSync
  imports Config Auth ChanModes
begin

text \<open>
  The records the hub sends (\<open>src/src/hub_client.rs\<close>): channels, masks, users, trusted bots, option
  flags and the settings records, each applied by last-writer-wins; the purge of tombstones; the
  whole configuration push; the bot tree.  \<open>push_admin_delta\<close> is the other direction, the user and
  mask records changed here.
\<close>

section \<open>User and mask records out\<close>

fun admin_loop :: "env \<Rightarrow> bot_state \<Rightarrow> string \<Rightarrow> string list \<Rightarrow> bool \<times> string \<times> bot_state" where
  "admin_loop e st payload [] = (True, payload, st)"
| "admin_loop e st payload (l # ls) =
     (if length l \<ge> (if CFG_MASK_LINE_MAX < CFG_USER_LINE_MAX then CFG_USER_LINE_MAX else CFG_MASK_LINE_MAX)
      then admin_loop e st payload ls
      else if length payload + length l > MAX_BUFFER - 64 then
        (case send_frame e st CMD_CONFIG_PUSH payload of
           (False, st1) \<Rightarrow> (False, payload, st1)
         | (True, st1) \<Rightarrow> admin_loop e st1 l ls)
      else admin_loop e st (payload @ l) ls)"

definition admin_lines :: "bot_state \<Rightarrow> string list" where
  "admin_lines st = map format_user_line (st_user_records st) @ map format_mask_line (st_mask_records st)"

definition push_admin_delta :: "env \<Rightarrow> bot_state \<Rightarrow> bot_state" where
  "push_admin_delta e st =
     (if \<not> st_hub_authenticated st \<or> \<not> st_hub st then
        (if st_hubs st \<noteq> [] \<and> \<not> st_admin_delta_pending st
         then write_local e (st\<lparr>st_admin_delta_pending := True\<rparr>) else st)
      else
        let st1 = st\<lparr>st_admin_delta_pending := True, st_config_dirty := True\<rparr> in
        (case admin_loop e st1 [] (admin_lines st1) of
           (False, _, st2) \<Rightarrow> st2
         | (True, payload, st2) \<Rightarrow>
             if payload = [] then st2\<lparr>st_admin_delta_pending := False\<rparr>
             else (case send_frame e st2 CMD_CONFIG_PUSH payload of
                 (False, st3) \<Rightarrow> st3
               | (True, st3) \<Rightarrow> st3\<lparr>st_admin_delta_pending := False\<rparr>)))"

section \<open>Purging tombstones\<close>

definition purged :: "int \<Rightarrow> int \<Rightarrow> bool" where
  "purged cutoff ts \<longleftrightarrow> cutoff = 0 \<or> ts < cutoff"

definition apply_purge :: "env \<Rightarrow> bot_state \<Rightarrow> string \<Rightarrow> nat \<times> bot_state" where
  "apply_purge e st arg =
     (case parse_i64 (dropWhile is_c_space arg) of
        None \<Rightarrow> (0, st)
      | Some cutoff \<Rightarrow>
          if cutoff < 0 then (0, st)
          else
            let cs = filter (\<lambda>c. c_is_managed c \<or> \<not> purged cutoff (c_timestamp c)) (st_chans st);
                us = filter (\<lambda>u. u_is_active u \<or> \<not> purged cutoff (u_timestamp u)) (st_user_records st);
                ms = filter (\<lambda>m. m_is_active m \<or> \<not> purged cutoff (m_timestamp m)) (st_mask_records st);
                n = (length (st_chans st) - length cs) + (length (st_user_records st) - length us) +
                    (length (st_mask_records st) - length ms);
                (nb, st1) = purge_bans (st\<lparr>st_chans := cs, st_user_records := us, st_mask_records := ms\<rparr>) cutoff
            in (n + nb, if n + nb > 0 then write_cfg e st1 else st1))"

section \<open>Channels\<close>

definition conv_s :: "conv list \<Rightarrow> nat \<Rightarrow> string \<Rightarrow> string" where
  "conv_s r i old = (if i < length r then (case r ! i of ConvS s \<Rightarrow> s | ConvI _ \<Rightarrow> []) else old)"

definition conv_i :: "conv list \<Rightarrow> nat \<Rightarrow> int \<Rightarrow> int" where
  "conv_i r i old = (if i < length r then (case r ! i of ConvI v \<Rightarrow> v | ConvS _ \<Rightarrow> 0) else old)"

record hub_chan =
  hc_chan :: string
  hc_key :: string
  hc_modes :: int
  hc_op :: string
  hc_ts :: int

definition hub_chan_1 :: "string \<Rightarrow> nat \<times> hub_chan" where
  "hub_chan_1 data =
     (let r = sscanf data [FSet 64 ''|'', FLit ''|'', FSet 30 ''|'', FLit ''|'', FInt, FLit ''|'', FSet 7 ''|'',
                FLit ''|'', FInt]
      in (length r, \<lparr>hc_chan = conv_s r 0 [], hc_key = conv_s r 1 [], hc_modes = conv_i r 2 0,
            hc_op = conv_s r 3 [], hc_ts = conv_i r 4 0\<rparr>))"

definition hub_chan_2 :: "string \<Rightarrow> hub_chan \<Rightarrow> nat \<times> hub_chan" where
  "hub_chan_2 data h =
     (let r = sscanf data [FSet 64 ''|'', FLit ''||'', FInt, FLit ''|'', FSet 7 ''|'', FLit ''|'', FInt]
      in (length r, h\<lparr>hc_chan := conv_s r 0 (hc_chan h), hc_modes := conv_i r 1 0,
            hc_op := conv_s r 2 (hc_op h), hc_ts := conv_i r 3 (hc_ts h)\<rparr>))"

definition hub_chan_3 :: "string \<Rightarrow> hub_chan \<Rightarrow> nat \<times> hub_chan" where
  "hub_chan_3 data h =
     (let r = sscanf data [FSet 64 ''|'', FLit ''|'', FSet 30 ''|'', FLit ''|'', FSet 7 ''|'', FLit ''|'', FInt]
      in (length r, h\<lparr>hc_chan := conv_s r 0 (hc_chan h), hc_key := conv_s r 1 (hc_key h), hc_modes := 0,
            hc_op := conv_s r 2 (hc_op h), hc_ts := conv_i r 3 (hc_ts h)\<rparr>))"

definition hub_chan_4 :: "string \<Rightarrow> hub_chan \<Rightarrow> nat \<times> hub_chan" where
  "hub_chan_4 data h =
     (let r = sscanf data [FSet 64 ''|'', FLit ''||'', FSet 7 ''|'', FLit ''|'', FInt]
      in (length r, h\<lparr>hc_chan := conv_s r 0 (hc_chan h), hc_key := [],
            hc_op := conv_s r 1 (hc_op h), hc_ts := conv_i r 2 (hc_ts h)\<rparr>))"

definition parse_hub_chan :: "string \<Rightarrow> hub_chan option" where
  "parse_hub_chan data =
     (let (n1, h1) = hub_chan_1 data; (n2, h2) = hub_chan_2 data h1;
          (n3, h3) = hub_chan_3 data h2; (n4, h4) = hub_chan_4 data h3
      in if n1 \<ge> 5 then Some h1
         else if n2 \<ge> 4 then Some (h2\<lparr>hc_key := []\<rparr>)
         else if n3 \<ge> 3 then Some h3
         else if n4 \<ge> 3 then Some h4 else None)"

definition new_key :: "string \<Rightarrow> chan \<Rightarrow> chan" where
  "new_key k c = (if k \<noteq> [] then c\<lparr>c_key := trunc k MAX_KEY\<rparr> else c)"

definition sync_channel_new :: "env \<Rightarrow> bot_state \<Rightarrow> hub_chan \<Rightarrow> bool \<times> bot_state" where
  "sync_channel_new e st h =
     (if hc_op h \<noteq> ''add'' then (False, st)
      else case chan_add e st (hc_chan h) of
        (None, st1) \<Rightarrow> (False, st1)
      | (Some ci, st1) \<Rightarrow>
          (True, upd_chan st1 ci (\<lambda>c. (new_key (hc_key h) c)\<lparr>c_modes := word_of_int (hc_modes h),
             c_is_managed := True, c_timestamp := hc_ts h\<rparr>)))"

definition sync_channel_old :: "env \<Rightarrow> bot_state \<Rightarrow> hub_chan \<Rightarrow> nat \<Rightarrow> bool \<times> bot_state" where
  "sync_channel_old e st h ci =
     (let c = st_chans st ! ci; is_add = (hc_op h = ''add'') in
      if \<not> lww_accepts (hc_ts h) is_add (c_timestamp c) (c_is_managed c) then (False, st)
      else
        let st1 = upd_chan st ci (\<lambda>c. (new_key (hc_key h) c)\<lparr>c_modes := word_of_int (hc_modes h),
                    c_is_managed := is_add, c_timestamp := hc_ts h\<rparr>);
            c1 = st_chans st1 ! ci;
            st2 = (if c_is_managed c \<and> \<not> is_add \<and> c_status c = CS_In
                   then upd_chan (ircf e st1 (''PART '' @ hc_chan h @ '' :Hub sync'')) ci (\<lambda>c. c\<lparr>c_status := CS_Out\<rparr>)
                   else st1);
            st3 = (if \<not> c_is_managed c \<and> is_add \<and> c_status c \<noteq> CS_In
                   then ircf e st2 (''JOIN '' @ hc_chan h @ (if c_key c1 = [] then [] else '' '' @ c_key c1))
                   else st2)
        in (True, st3))"

definition sync_channel_line :: "env \<Rightarrow> bot_state \<Rightarrow> string \<Rightarrow> bool \<times> bot_state" where
  "sync_channel_line e st data =
     (case parse_hub_chan data of
        None \<Rightarrow> (False, st)
      | Some h \<Rightarrow>
          (case chan_find st (hc_chan h) of
             None \<Rightarrow> sync_channel_new e st h
           | Some ci \<Rightarrow> sync_channel_old e st h ci))"

section \<open>Masks, users, bots\<close>

definition later :: "int \<Rightarrow> int \<Rightarrow> int" where
  "later a b = (if a > b then a else b)"

definition take_mask :: "bool \<Rightarrow> int \<Rightarrow> int \<Rightarrow> mask_record \<Rightarrow> mask_record" where
  "take_mask active used ts m =
     m\<lparr>m_is_active := active, m_last_used := later used (m_last_used m), m_timestamp := ts\<rparr>"

definition sync_mask_line :: "bot_state \<Rightarrow> string \<Rightarrow> bool \<times> bot_state" where
  "sync_mask_line st data =
     (let f = splitn_char 5 (CHR ''|'') data in
      if \<not> has_uuid_dashes (first_field data) \<or> length f < 5 then (False, st)
      else
        let uuid = trunc (f ! 0) UUID_BUF; msk = trunc (f ! 1) MAX_MASK_LEN;
            active = (take 3 (trunc (f ! 2) 8) = ''add''); used = atoll (f ! 3); ts = atoll (f ! 4);
            old = position (\<lambda>m. m_uuid m = uuid \<and> eq_ic (m_mask m) msk) (st_mask_records st);
            (slot, ms) = (case old of
                Some i \<Rightarrow> (Some i, st_mask_records st)
              | None \<Rightarrow>
                  if length (st_mask_records st) < MAX_USER_MASKS
                  then (Some (length (st_mask_records st)),
                        st_mask_records st @ [default_mask\<lparr>m_uuid := uuid, m_mask := msk\<rparr>])
                  else (None, st_mask_records st))
        in case slot of
          None \<Rightarrow> (False, st)
        | Some i \<Rightarrow>
            if \<not> lww_accepts ts active (m_timestamp (ms ! i)) (m_is_active (ms ! i))
            then (False, st\<lparr>st_mask_records := ms\<rparr>)
            else (True, st\<lparr>st_mask_records := ms[i := take_mask active used ts (ms ! i)]\<rparr>))"

definition take_user :: "char \<Rightarrow> user_line \<Rightarrow> user_record \<Rightarrow> user_record" where
  "take_user typ ul u = u\<lparr>u_name := ul_name ul, u_pubkey_b64 := ul_pubkey_b64 ul, u_has_pubkey := ul_has_pubkey ul,
     u_typ := typ, u_is_active := ul_is_active ul, u_last_seen := later (ul_last_seen ul) (u_last_seen u),
     u_timestamp := ul_timestamp ul\<rparr>"

definition sync_user_line :: "env \<Rightarrow> bot_state \<Rightarrow> char \<Rightarrow> string \<Rightarrow> bool \<times> bot_state" where
  "sync_user_line e st typ data =
     (case parse_user_line e data of
        None \<Rightarrow> (False, st)
      | Some ul \<Rightarrow>
          let old = position (\<lambda>u. u_uuid u = ul_uuid ul) (st_user_records st);
              (slot, us) = (case old of
                  Some i \<Rightarrow> (Some i, st_user_records st)
                | None \<Rightarrow>
                    if length (st_user_records st) < MAX_USER_RECORDS
                    then (Some (length (st_user_records st)),
                          st_user_records st @ [default_user\<lparr>u_uuid := ul_uuid ul\<rparr>])
                    else (None, st_user_records st))
          in (case slot of
                None \<Rightarrow> (False, st)
              | Some i \<Rightarrow>
                  if \<not> lww_accepts (ul_timestamp ul) (ul_is_active ul) (u_timestamp (us ! i)) (u_is_active (us ! i))
                  then (False, st\<lparr>st_user_records := us\<rparr>)
                  else (True, st\<lparr>st_user_records := us[i := take_user typ ul (us ! i)]\<rparr>)))"

text \<open>The first bot with a UUID stays, its later duplicates go.\<close>

definition bot_dedup :: "string \<Rightarrow> trusted_bot list \<Rightarrow> nat option \<times> trusted_bot list" where
  "bot_dedup uuid tbs =
     (case position (\<lambda>t. tb_uuid t = uuid) tbs of
        None \<Rightarrow> (None, tbs)
      | Some i \<Rightarrow> (Some i, take (Suc i) tbs @ filter (\<lambda>t. tb_uuid t \<noteq> uuid) (drop (Suc i) tbs)))"

definition key_is_new :: "trusted_bot \<Rightarrow> trusted_bot \<Rightarrow> bool" where
  "key_is_new inb ex \<longleftrightarrow> tb_has_pub inb \<and> (\<not> tb_has_pub ex \<or> tb_pub_key ex \<noteq> tb_pub_key inb)"

definition keep_key :: "trusted_bot \<Rightarrow> trusted_bot \<Rightarrow> trusted_bot" where
  "keep_key inb ex = (if \<not> tb_has_pub inb \<and> tb_has_pub ex \<and> tb_uuid ex = tb_uuid inb
     then inb\<lparr>tb_has_pub := True, tb_pub_key := tb_pub_key ex\<rparr> else inb)"

definition sync_bot_line :: "env \<Rightarrow> bot_state \<Rightarrow> string \<Rightarrow> string list \<Rightarrow> bool \<times> bot_state \<times> string list" where
  "sync_bot_line e st data seen =
     (case parse_bot_line e data of
        None \<Rightarrow> (False, st, seen)
      | Some inb \<Rightarrow>
          let seen1 = (if tb_uuid inb \<noteq> [] \<and> length seen < MAX_TRUSTED_BOTS then seen @ [tb_uuid inb] else seen);
              (by_uuid, tbs) = (if tb_uuid inb \<noteq> [] then bot_dedup (tb_uuid inb) (st_trusted_bots st)
                                else (None, st_trusted_bots st));
              slot = (case by_uuid of Some i \<Rightarrow> Some i | None \<Rightarrow> position (\<lambda>t. tb_mask t = tb_mask inb) tbs);
              st1 = st\<lparr>st_trusted_bots := tbs\<rparr>
          in (case slot of
                Some i \<Rightarrow>
                  let ex = tbs ! i in
                  if tb_ts inb > tb_ts ex \<or> (tb_ts inb = tb_ts ex \<and> key_is_new inb ex)
                  then (True, st1\<lparr>st_trusted_bots := tbs[i := keep_key inb ex]\<rparr>, seen1)
                  else (False, st1, seen1)
              | None \<Rightarrow>
                  if length tbs < MAX_TRUSTED_BOTS
                  then (True, st1\<lparr>st_trusted_bots := tbs @ [inb]\<rparr>, seen1) else (False, st1, seen1)))"

section \<open>A configuration push\<close>

record sync_run =
  sr_st :: bot_state
  sr_listed :: "string list"
  sr_updates :: nat

definition sync_did :: "bool \<times> bot_state \<Rightarrow> sync_run \<Rightarrow> sync_run" where
  "sync_did r s = s\<lparr>sr_st := snd r, sr_updates := sr_updates s + (if fst r then 1 else 0)\<rparr>"

definition sync_opt :: "env \<Rightarrow> bot_state \<Rightarrow> string \<Rightarrow> bool \<times> bot_state" where
  "sync_opt e st data =
     (case parse_opt_line data of
        Some (flags, ts) \<Rightarrow>
          if opt_accepts ts flags (st_opt_flags_ts st) (st_opt_flags st)
          then (True, st\<lparr>st_opt_flags := flags, st_opt_flags_ts := (if ts > 0 then ts else e_now e)\<rparr>)
          else (False, st)
      | None \<Rightarrow> (False, st))"

definition sync_record :: "env \<Rightarrow> char \<Rightarrow> string \<Rightarrow> sync_run \<Rightarrow> sync_run" where
  "sync_record e typ data s =
     (let st = sr_st s in
      if typ = CHR ''c'' then sync_did (sync_channel_line e st data) s
      else if typ = CHR ''m'' then sync_did (sync_mask_line st data) s
      else if typ = CHR ''C'' then sync_did (apply_c_line e st data) s
      else if typ = CHR ''D'' then sync_did (apply_d_line st data) s
      else if typ = CHR ''B'' then sync_did (apply_b_line st data) s
      else if typ = CHR ''a'' \<or> typ = CHR ''o'' then sync_did (sync_user_line e st typ data) s
      else if typ = CHR ''O'' then sync_did (sync_opt e st data) s
      else if typ = CHR ''b'' then
        (case sync_bot_line e st data (sr_listed s) of
           (ok, st1, seen) \<Rightarrow> sync_did (ok, st1) (s\<lparr>sr_listed := seen\<rparr>))
      else s)"

definition sync_line :: "env \<Rightarrow> sync_run \<Rightarrow> string \<Rightarrow> sync_run" where
  "sync_line e s line =
     (if length line < 2 \<or> hd line = CHR ''#'' then s
      else if take 6 line = ''PURGE|'' then s\<lparr>sr_st := snd (apply_purge e (sr_st s) (drop 6 line))\<rparr>
      else if line ! 1 \<noteq> CHR ''|'' then s
      else sync_record e (hd line) (drop 2 line) s)"

definition has_lines :: "string \<Rightarrow> string list \<Rightarrow> bool" where
  "has_lines kinds ls \<longleftrightarrow> list_ex (\<lambda>l. length l \<ge> 2 \<and> l ! 1 = CHR ''|'' \<and> hd l \<in> set kinds) ls"

definition keep_seen :: "user_record list \<Rightarrow> user_record \<Rightarrow> user_record" where
  "keep_seen saved u = (case List.find (\<lambda>s. u_uuid s = u_uuid u) saved of
       Some s \<Rightarrow> u\<lparr>u_last_seen := later (u_last_seen s) (u_last_seen u)\<rparr>
     | None \<Rightarrow> u)"

definition keep_used :: "mask_record list \<Rightarrow> mask_record \<Rightarrow> mask_record" where
  "keep_used saved m = (case List.find (\<lambda>s. m_uuid s = m_uuid m \<and> eq_ic (m_mask s) (m_mask m)) saved of
       Some s \<Rightarrow> m\<lparr>m_last_used := later (m_last_used s) (m_last_used m)\<rparr>
     | None \<Rightarrow> m)"

text \<open>The \<open>T|\<close> marker makes the listed bots the whole trusted set.\<close>

definition trust_sweep :: "bool \<Rightarrow> sync_run \<Rightarrow> sync_run" where
  "trust_sweep has_set s =
     (if has_set then
        let tbs = st_trusted_bots (sr_st s);
            kept = filter (\<lambda>t. tb_uuid t \<noteq> [] \<and> tb_uuid t \<in> set (sr_listed s)) tbs
        in s\<lparr>sr_st := (sr_st s)\<lparr>st_trusted_bots := kept\<rparr>,
             sr_updates := sr_updates s + (length tbs - length kept)\<rparr>
      else s)"

definition sync_begin :: "string list \<Rightarrow> bot_state \<Rightarrow> bot_state" where
  "sync_begin ls st = st\<lparr>st_user_records := (if has_lines ''ao'' ls then [] else st_user_records st),
     st_mask_records := (if has_lines ''m'' ls then [] else st_mask_records st)\<rparr>"

definition process_config_data :: "env \<Rightarrow> bot_state \<Rightarrow> string \<Rightarrow> bot_state" where
  "process_config_data e st payload =
     (let ls = split_char (CHR 0x0A) payload;
          work = filter (\<lambda>l. l \<noteq> []) (split_char (CHR 0x0A) (trunc payload MAX_CONFIG_PAYLOAD));
          s1 = foldl (sync_line e) \<lparr>sr_st = sync_begin ls st, sr_listed = [], sr_updates = 0\<rparr> work;
          s2 = trust_sweep (has_lines ''T'' ls) s1;
          st2 = (sr_st s2)\<lparr>st_user_records := map (keep_seen (st_user_records st)) (st_user_records (sr_st s2)),
                  st_mask_records := map (keep_used (st_mask_records st)) (st_mask_records (sr_st s2))\<rparr>
      in if sr_updates s2 > 0 then write_local e st2 else st2)"

section \<open>The bot tree\<close>

definition not_dash :: "nat \<Rightarrow> string \<Rightarrow> string" where
  "not_dash cap s = (if s \<noteq> ''-'' then trunc s cap else [])"

definition tree_started :: "string list \<Rightarrow> bot_tree_row \<Rightarrow> bot_tree_row" where
  "tree_started f r = (if length f \<ge> 8 then r\<lparr>tr_started := atoll (f ! 7), tr_has_started := True\<rparr> else r)"

definition tree_hub :: "string list \<Rightarrow> bot_tree_row" where
  "tree_hub f = tree_started f (default_row\<lparr>tr_kind := CHR ''h'', tr_depth := atoi (f ! 0),
     tr_name := trunc (f ! 1) TREE_NAME_MAX, tr_uuid := trunc (f ! 2) 64, tr_online := (atoi (f ! 3) \<noteq> 0),
     tr_uptime := atoll (f ! 4),
     tr_version := (if length f \<ge> 6 then not_dash (TREE_VERSION_MAX + 1) (f ! 5) else []),
     tr_variant := (if length f \<ge> 7 then not_dash (TREE_VARIANT_MAX + 1) (f ! 6) else [])\<rparr>)"

definition tree_bot :: "string list \<Rightarrow> bot_tree_row" where
  "tree_bot f = tree_started f (default_row\<lparr>tr_kind := CHR ''b'', tr_depth := atoi (f ! 0),
     tr_name := trunc (f ! 1) TREE_NAME_MAX, tr_uuid := trunc (f ! 2) 64,
     tr_version := not_dash (TREE_VERSION_MAX + 1) (f ! 3), tr_server := not_dash (TREE_SERVER_MAX + 1) (f ! 4),
     tr_uptime := atoll (f ! 5),
     tr_variant := (if length f \<ge> 7 then not_dash (TREE_VARIANT_MAX + 1) (f ! 6) else []), tr_online := True\<rparr>)"

definition tree_down :: "string list \<Rightarrow> bot_tree_row" where
  "tree_down f = default_row\<lparr>tr_kind := CHR ''d'', tr_name := trunc (f ! 0) TREE_NAME_MAX,
     tr_uuid := trunc (f ! 1) 64, tr_uptime := atoll (f ! 2)\<rparr>"

definition tree_row :: "string \<Rightarrow> bot_tree_row option" where
  "tree_row line =
     (if length line < 2 \<or> line ! 1 \<noteq> CHR ''|'' then None
      else
        let f = take 8 (splitn_char 9 (CHR ''|'') (drop 2 line)); n = length f; k = lower (hd line);
            row = (if k = CHR ''h'' \<and> n \<ge> 5 then Some (tree_hub f)
                   else if k = CHR ''b'' \<and> n \<ge> 6 then Some (tree_bot f)
                   else if k = CHR ''d'' \<and> n \<ge> 3 then Some (tree_down f) else None)
        in map_option (\<lambda>r. r\<lparr>tr_name := (if tr_name r = ''-'' then [] else tr_name r),
             tr_depth := clamp_int 0 MAX_TREE_DEPTH (tr_depth r)\<rparr>) row)"

definition process_tree :: "env \<Rightarrow> bot_state \<Rightarrow> string \<Rightarrow> bot_state" where
  "process_tree e st payload =
     st\<lparr>st_bot_tree := take MAX_BOT_TREE_ROWS (List.map_filter tree_row
          (filter (\<lambda>l. l \<noteq> []) (split_char (CHR 0x0A) payload))), st_bot_tree_ts := e_now e\<rparr>"

end
