(* ===== verification/Reports.thy ===== *)
theory Reports
  imports Lines Auth SendQ
begin

text \<open>
  The listings of users and masks (\<open>src/src/commands.rs\<close>) and the activity queries behind them: a listing
  asks the hub for the network-wide times and is parked until the answer, or until a deadline
  shows the local ones.  A parked command is answered in the context it came in: its DCC chat, its
  reply key.
\<close>

section \<open>Reply helpers\<close>

definition say :: "env \<Rightarrow> bot_state \<Rightarrow> string \<Rightarrow> string \<Rightarrow> bot_state" where
  "say e st nick msg = ircf e st (''PRIVMSG '' @ nick @ '' :'' @ msg)"

text \<open>The rows a listing may print: no limit down a chat.\<close>

definition reply_row_cap :: "bot_state \<Rightarrow> nat option" where
  "reply_row_cap st = (if st_dcc_reply st \<noteq> None then None else Some BOT_STATUS_MAX_LINES)"

definition below_cap :: "nat option \<Rightarrow> nat \<Rightarrow> bool" where
  "below_cap cap n = (case cap of None \<Rightarrow> True | Some k \<Rightarrow> n < k)"

definition reply_rows_omitted :: "env \<Rightarrow> bot_state \<Rightarrow> string \<Rightarrow> nat \<Rightarrow> string \<Rightarrow> bot_state" where
  "reply_rows_omitted e st nick omitted what =
     (if omitted > 0 then say e st nick (''| (+'' @ dec omitted @ '' more '' @ what @
        '' not shown -- ask over '' @ [CHR 0x27] @ ''dcc'' @ [CHR 0x27] @ '' for the full list)'') else st)"

definition RULE :: string where "RULE = ''+'' @ replicate 76 (CHR ''-'')"
definition FOOT :: string where "FOOT = CHR 0x60 # replicate 76 (CHR ''-'')"

definition gm_time :: "env \<Rightarrow> int \<Rightarrow> string \<Rightarrow> string" where
  "gm_time e ts fmt = (case e_gm_time e ts fmt of Some s \<Rightarrow> s | None \<Rightarrow> ''invalid'')"

definition last_seen_str :: "env \<Rightarrow> int \<Rightarrow> string" where
  "last_seen_str e ts = (if ts = 0 then ''never'' else gm_time e ts ''%Y-%m-%d %H:%M:%S UTC'')"

definition fmt_elapsed :: "env \<Rightarrow> int \<Rightarrow> string" where
  "fmt_elapsed e since =
     (let d = (if since \<le> 0 \<or> e_now e - since < 0 then 0 else e_now e - since) in
      dec_int (d div 86400) @ ''d '' @ dec_int (d mod 86400 div 3600) @ ''h '' @
      dec_int (d mod 3600 div 60) @ ''m '' @ dec_int (d mod 60) @ ''s'')"

definition tree_fmt_uptime :: "int \<Rightarrow> string" where
  "tree_fmt_uptime secs =
     (if secs \<le> 0 then ''-''
      else
        let d = secs div 86400; h = secs mod 86400 div 3600; m = secs mod 3600 div 60; s = secs mod 60 in
        if d \<noteq> 0 then dec_int d @ ''d'' @ dec_int h @ ''h''
        else if h \<noteq> 0 then dec_int h @ ''h'' @ dec_int m @ ''m''
        else if m \<noteq> 0 then dec_int m @ ''m'' @ dec_int s @ ''s'' else dec_int s @ ''s'')"

text \<open>\<open>key_fingerprint\<close>: the first eight bytes of the digest, in four groups.\<close>

definition word_byte :: "64 word \<Rightarrow> nat \<Rightarrow> string" where
  "word_byte w i = hex2 (char_of (unat (drop_bit (8 * (7 - i)) w)))"

definition key_fingerprint :: "env \<Rightarrow> string \<Rightarrow> string" where
  "key_fingerprint e k = (let w = e_sha e k; g = (\<lambda>i. word_byte w i @ word_byte w (i + 1)) in
     g 0 @ '':'' @ g 2 @ '':'' @ g 4 @ '':'' @ g 6)"

definition user_key_fp :: "env \<Rightarrow> user_record \<Rightarrow> string" where
  "user_key_fp e u =
     (if u_has_pubkey u then
        (case pubkey_b64_decode e (u_pubkey_b64 u) of
           Some p \<Rightarrow> key_fingerprint e p | None \<Rightarrow> ''(no key)'')
      else ''(no key)'')"

section \<open>The listings\<close>

definition list_title :: "char \<Rightarrow> string" where
  "list_title typ = (if typ = CHR ''a'' then ''admins'' else ''opers'')"

definition user_row :: "env \<Rightarrow> nat \<Rightarrow> user_record \<Rightarrow> string" where
  "user_row e w u = ''| '' @ pad_right (u_name u) w @ ''  key '' @ user_key_fp e u @ ''  (last seen: '' @
     last_seen_str e (u_last_seen u) @ '')'' @ (if u_is_active u then [] else '' [deleted]'')"

definition max_width :: "nat \<Rightarrow> nat \<Rightarrow> nat" where
  "max_width a b = (if a < b then b else a)"

definition cap_rows :: "nat option \<Rightarrow> 'a list \<Rightarrow> 'a list" where
  "cap_rows cap rows = (case cap of None \<Rightarrow> rows | Some k \<Rightarrow> take k rows)"

definition cmd_list_users :: "env \<Rightarrow> bot_state \<Rightarrow> string \<Rightarrow> char \<Rightarrow> bot_state" where
  "cmd_list_users e st nick typ =
     (let what = list_title typ; us = filter (\<lambda>u. u_typ u = typ) (st_user_records st);
          w = foldl max_width 8 (map (\<lambda>u. length (u_name u)) us);
          st1 = say e (say e st nick (''| ircbot '' @ e_version e @ '' '' @ what)) nick RULE;
          rows = map (user_row e w) us; shown = cap_rows (reply_row_cap st1) rows;
          st2 = foldl (\<lambda>st r. say e st nick r) st1 shown;
          st3 = (if shown = [] then say e st2 nick (''| (no '' @ what @ '')'') else st2)
      in say e (reply_rows_omitted e st3 nick (length rows - length shown) what) nick FOOT)"

record match_run =
  mt_st :: bot_state
  mt_shown :: nat
  mt_omitted :: nat

definition mt_row :: "env \<Rightarrow> nat option \<Rightarrow> string \<Rightarrow> match_run \<Rightarrow> string \<Rightarrow> match_run" where
  "mt_row e cap nick m row =
     (if below_cap cap (mt_shown m) then m\<lparr>mt_st := say e (mt_st m) nick row, mt_shown := mt_shown m + 1\<rparr>
      else m\<lparr>mt_omitted := mt_omitted m + 1\<rparr>)"

definition mask_row :: "env \<Rightarrow> mask_record \<Rightarrow> string" where
  "mask_row e m = ''|   '' @ m_mask m @ ''  (last used: '' @ last_seen_str e (m_last_used m) @ '')''"

definition match_user :: "env \<Rightarrow> nat option \<Rightarrow> string \<Rightarrow> match_run \<Rightarrow> user_record \<Rightarrow> match_run" where
  "match_user e cap nick m u =
     (let masks = filter (\<lambda>k. m_is_active k \<and> m_uuid k = u_uuid u) (st_mask_records (mt_st m)) in
      if \<not> below_cap cap (mt_shown m) then m\<lparr>mt_omitted := mt_omitted m + 1 + length masks\<rparr>
      else foldl (mt_row e cap nick)
             (mt_row e cap nick m (''| ['' @ [u_typ u] @ ''] '' @ pad_right (u_name u) 20 @ ''  key '' @ user_key_fp e u @
                ''  (last seen: '' @ last_seen_str e (u_last_seen u) @ '')''))
             (map (mask_row e) masks))"

definition match_bot :: "env \<Rightarrow> bot_state \<Rightarrow> string \<Rightarrow> trusted_bot \<Rightarrow> bot_state" where
  "match_bot e st nick tb =
     (let p = (\<lambda>s t. say e s nick t);
          st1 = p st (''| [b] '' @ pad_right (tb_nick tb) 20 @ ''  (last seen: '' @ last_seen_str e (tb_ts tb) @ '')'');
          st2 = (if tb_mask tb \<noteq> [] then p st1 (''|   mask: '' @ tb_mask tb) else st1);
          st3 = (if tb_uuid tb \<noteq> [] then p st2 (''|   uuid: '' @ tb_uuid tb) else st2);
          st4 = (if tb_has_pub tb then p st3 (''|   key : '' @ key_fingerprint e (tb_pub_key tb))
                 else p st3 ''|   key : (none on file)'');
          hub = (if st_hub_connected st4 \<and> st_current_hub st4 \<noteq> [] then st_current_hub st4 else ''none'')
      in p st4 (''|   hub : '' @ hub))"

definition cmd_match :: "env \<Rightarrow> bot_state \<Rightarrow> string \<Rightarrow> string \<Rightarrow> bot_state" where
  "cmd_match e st nick arg1 =
     (let everyone = (arg1 = ''*'');
          st1 = say e (say e st nick (''| ircbot '' @ e_version e @ '' match'' @ (if everyone then '' *'' else []))) nick RULE;
          cap = reply_row_cap st1;
          us = filter (\<lambda>u. (everyone \<or> eq_ic (u_name u) arg1) \<and> u_is_active u) (st_user_records st1);
          m = foldl (match_user e cap nick) \<lparr>mt_st = st1, mt_shown = 0, mt_omitted = 0\<rparr> us;
          bot = (if mt_shown m = 0 \<and> \<not> everyone
                 then List.find (\<lambda>t. eq_ic (tb_nick t) arg1) (st_trusted_bots (mt_st m)) else None);
          st2 = (case bot of Some tb \<Rightarrow> match_bot e (mt_st m) nick tb | None \<Rightarrow> mt_st m);
          st3 = (if mt_shown m = 0 \<and> bot = None \<and> \<not> everyone
                 then say e st2 nick (''| unknown user: '' @ arg1) else st2)
      in say e (reply_rows_omitted e st3 nick (mt_omitted m) ''records'') nick FOOT)"

section \<open>Activity queries\<close>

definition activity_render :: "env \<Rightarrow> bot_state \<Rightarrow> string \<Rightarrow> actq_kind \<Rightarrow> string \<Rightarrow> bot_state" where
  "activity_render e st nick kind arg = (case kind of
       ActMatch \<Rightarrow> cmd_match e st nick arg
     | ActAdmins \<Rightarrow> cmd_list_users e st nick (CHR ''a'')
     | ActOpers \<Rightarrow> cmd_list_users e st nick (CHR ''o''))"

definition activity_what :: "bot_state \<Rightarrow> actq_kind \<Rightarrow> string \<Rightarrow> string option" where
  "activity_what st kind arg =
     (if kind \<noteq> ActMatch then Some ''users''
      else if arg = ''*'' then Some ''masks|*''
      else map_option (\<lambda>u. ''masks|'' @ u_uuid u)
             (List.find (\<lambda>u. u_is_active u \<and> eq_ic (u_name u) arg) (st_user_records st)))"

definition activity_park :: "env \<Rightarrow> bot_state \<Rightarrow> string \<Rightarrow> actq_kind \<Rightarrow> string \<Rightarrow> bool \<times> bot_state" where
  "activity_park e st nick kind arg =
     (if \<not> st_hub_authenticated st \<or> \<not> st_hub st \<or> length (st_activity st) \<ge> MAX_ACTIVITY_QUERIES \<or>
         length nick \<ge> A2_NICK_MAX \<or> length arg \<ge> 64 then (False, st)
      else case activity_what st kind arg of
        None \<Rightarrow> (False, st)
      | Some what \<Rightarrow>
          (case random_bytes e st 8 of
             (None, st1) \<Rightarrow> (False, st1)
           | (Some rnd, st1) \<Rightarrow>
               let qid = hexs rnd in
               (case send_frame e st1 CMD_ACTIVITY_QUERY (qid @ ''|'' @ what) of
                  (False, st2) \<Rightarrow> (False, st2)
                | (True, st2) \<Rightarrow>
                    (True, st2\<lparr>st_activity := st_activity st2 @
                       [\<lparr>aq_id = qid, aq_kind = kind, aq_arg = arg, aq_nick = nick,
                         aq_dcc = map_option (\<lambda>i. (i, dc_token (st_dcc st2 ! i))) (st_dcc_reply st2),
                         aq_a2r = st_a2r st2, aq_deadline = e_now e + ACTIVITY_QUERY_TIMEOUT\<rparr>]\<rparr>))))"

definition activity_run :: "env \<Rightarrow> bot_state \<Rightarrow> string \<Rightarrow> actq_kind \<Rightarrow> string \<Rightarrow> bot_state" where
  "activity_run e st nick kind arg = (case activity_park e st nick kind arg of
       (True, st1) \<Rightarrow> st1 | (False, st1) \<Rightarrow> activity_render e st1 nick kind arg)"

definition activity_gone :: "bot_state \<Rightarrow> activity_query \<Rightarrow> bool" where
  "activity_gone st q = (case aq_dcc q of
       None \<Rightarrow> False
     | Some (i, tok) \<Rightarrow> dc_phase (st_dcc st ! i) \<noteq> DccOpen \<or> dc_token (st_dcc st ! i) \<noteq> tok)"

definition activity_finish :: "env \<Rightarrow> bot_state \<Rightarrow> activity_query \<Rightarrow> bot_state" where
  "activity_finish e st q =
     (if activity_gone st q then st
      else (activity_render e (st\<lparr>st_a2r := aq_a2r q, st_dcc_reply := map_option fst (aq_dcc q)\<rparr>)
              (aq_nick q) (aq_kind q) (aq_arg q))\<lparr>st_a2r := st_a2r st, st_dcc_reply := st_dcc_reply st\<rparr>)"

definition activity_merge :: "env \<Rightarrow> string \<Rightarrow> int \<Rightarrow> int" where
  "activity_merge e ts_s cur = (case parse_i64 ts_s of
       None \<Rightarrow> cur
     | Some ts \<Rightarrow> if ts > 0 \<and> ts \<le> e_now e + ACTIVITY_MAX_FUTURE \<and> ts > cur then ts else cur)"

text \<open>A reply line; the UUID is bytes 2 to 37, which must be whole characters.\<close>

definition activity_line :: "env \<Rightarrow> bot_state \<Rightarrow> string \<Rightarrow> bot_state" where
  "activity_line e st line =
     (case position ((=) (CHR ''|'')) (rev line) of
        None \<Rightarrow> st
      | Some k \<Rightarrow>
          let lst = length line - 1 - k; uuid = take 36 (drop 2 line); ts = drop (Suc lst) line in
          if length line < 2 + 36 + 2 \<or> line ! 1 \<noteq> CHR ''|'' \<or> lst < 2 + 36 then st
          else if \<not> is_char_boundary line 2 \<or> \<not> is_char_boundary line 38 then st
          else if hd line = CHR ''a'' \<and> lst = 38 then
            st\<lparr>st_user_records := map (\<lambda>u. if u_uuid u = uuid
                 then u\<lparr>u_last_seen := activity_merge e ts (u_last_seen u)\<rparr> else u) (st_user_records st)\<rparr>
          else if hd line = CHR ''m'' \<and> line ! 38 = CHR ''|'' \<and> lst > 39 then
            let msk = take (lst - 39) (drop 39 line) in
            st\<lparr>st_mask_records := map (\<lambda>m. if m_uuid m = uuid \<and> eq_ic (m_mask m) msk
                 then m\<lparr>m_last_used := activity_merge e ts (m_last_used m)\<rparr> else m) (st_mask_records st)\<rparr>
          else st)"

definition activity_drop :: "env \<Rightarrow> bot_state \<Rightarrow> nat \<Rightarrow> bot_state" where
  "activity_drop e st qi =
     activity_finish e (st\<lparr>st_activity := take qi (st_activity st) @ drop (Suc qi) (st_activity st)\<rparr>) (st_activity st ! qi)"

definition activity_reply :: "env \<Rightarrow> bot_state \<Rightarrow> string \<Rightarrow> bot_state" where
  "activity_reply e st payload =
     (let ls = split_char (CHR 0x0A) payload in
      case split_once (CHR ''|'') (hd ls) of
        None \<Rightarrow> st
      | Some (qid, rest) \<Rightarrow>
          if length qid > ACTIVITY_REQ_ID_MAX then st
          else case position (\<lambda>q. aq_id q = qid) (st_activity st) of
            None \<Rightarrow> st
          | Some qi \<Rightarrow>
              let st1 = foldl (activity_line e) st (tl ls)
              in if rest = ''0'' then activity_drop e st1 qi else st1)"

fun activity_tick_loop :: "nat \<Rightarrow> env \<Rightarrow> bot_state \<Rightarrow> int \<Rightarrow> bot_state" where
  "activity_tick_loop 0 e st t = st"
| "activity_tick_loop (Suc n) e st t =
     (case position (\<lambda>q. t \<ge> aq_deadline q) (st_activity st) of
        None \<Rightarrow> st
      | Some qi \<Rightarrow> activity_tick_loop n e (activity_drop e st qi) t)"

text \<open>Answering parks nothing new, so the queue's length is fuel enough.\<close>

definition activity_tick :: "env \<Rightarrow> bot_state \<Rightarrow> int \<Rightarrow> bot_state" where
  "activity_tick e st t = activity_tick_loop (length (st_activity st)) e st t"

end
