(* ===== verification/HubLink.thy ===== *)
theory HubLink
  imports Access HubSync Reports Version
begin

text \<open>
  The hub link as a protocol (\<open>src/src/hub_client.rs\<close>): the election of one bot for a channel request,
  the part of a follower in a network upgrade, every command the hub may send, and the handshake
  that must come first.  The updater's download and install are parameters of \<open>env\<close>.
\<close>

section \<open>The channel-request election\<close>

definition elect_chan :: "bot_state \<Rightarrow> string \<Rightarrow> nat option" where
  "elect_chan st ch = (case chan_find st ch of
     Some ci \<Rightarrow> if c_status (st_chans st ! ci) = CS_In then Some ci else None | None \<Rightarrow> None)"

definition chan_elect_cannot :: "bot_state \<Rightarrow> string \<Rightarrow> string \<Rightarrow> string option" where
  "chan_elect_cannot st kind ch =
     (case elect_chan st ch of
        None \<Rightarrow> Some ''not in channel''
      | Some ci \<Rightarrow>
          let c = st_chans st ! ci in
          if kind = ''key'' then (if c_key c = [] then Some ''no key'' else None)
          else if kind \<in> {''op'', ''invite'', ''unban'', ''mode''}
          then (if \<not> c_i_am_opped c then Some ''not opped'' else None)
          else Some ''unknown request'')"

definition do_nick_char :: "char \<Rightarrow> bool" where
  "do_nick_char c \<longleftrightarrow> is_alnum c \<or> c \<in> set (''[]'' @ [CHR 0x5C, CHR 0x60] @ ''_^{}|-'')"

definition chan_do_nick_ok :: "string \<Rightarrow> bool" where
  "chan_do_nick_ok n \<longleftrightarrow> n \<noteq> [] \<and> length n \<le> CHAN_DO_NICK_MAX \<and> \<not> is_digit (hd n) \<and> hd n \<noteq> CHR ''-'' \<and>
     list_all do_nick_char n"

definition chan_done_send :: "env \<Rightarrow> bot_state \<Rightarrow> string \<Rightarrow> bool \<Rightarrow> string \<Rightarrow> bot_state" where
  "chan_done_send e st eid good detail =
     (let out = eid @ ''|'' @ (if good then ''ok'' else ''fail'') @ ''|'' @ detail in
      if length out < 192 then snd (send_frame e st CMD_CHAN_DONE out) else st)"

definition elect_mode :: "env \<Rightarrow> bot_state \<Rightarrow> string \<Rightarrow> string \<Rightarrow> bot_state" where
  "elect_mode e st eid ch =
     (case (case chan_find st ch of
              Some mc \<Rightarrow> apply_stored e st mc | None \<Rightarrow> ((- 1, ''not in channel''), st)) of
        ((n, note), st1) \<Rightarrow>
          if n < 0 then chan_done_send e st1 eid False note
          else chan_done_send e st1 eid True (st_current_nick st1))"

text \<open>With +bitch only an authorised member may hold ops, and an unknown nick is not vouched for.\<close>

definition bitch_refuses :: "bot_state \<Rightarrow> string \<Rightarrow> string \<Rightarrow> bool" where
  "bitch_refuses st ch nick = (case chan_find st ch of
     Some bc \<Rightarrow> bitch_set st bc \<and> member_authorised st bc nick \<noteq> (True, True) | None \<Rightarrow> False)"

definition elect_op :: "env \<Rightarrow> bot_state \<Rightarrow> string \<Rightarrow> string \<Rightarrow> string \<Rightarrow> bot_state" where
  "elect_op e st eid ch nick =
     (if bitch_refuses st ch nick then chan_done_send e st eid False ''bitch''
      else chan_done_send e (ircf e st (''MODE '' @ ch @ '' +o '' @ nick)) eid True ''MODE +o sent'')"

definition request_note :: "chan_req \<Rightarrow> string" where
  "request_note k = (case k of Invite \<Rightarrow> ''INVITE sent'' | Unban \<Rightarrow> ''ban list check started'' | Key \<Rightarrow> ''key sent'')"

definition elect_access :: "env \<Rightarrow> bot_state \<Rightarrow> string \<Rightarrow> string \<Rightarrow> string \<Rightarrow> string \<Rightarrow> string \<Rightarrow> bot_state" where
  "elect_access e st eid kind ch nick hostmask =
     (case chan_req_from_token kind of
        None \<Rightarrow> chan_done_send e st eid False ''unknown request''
      | Some k \<Rightarrow>
          if k = Unban \<and> hostmask = [] then chan_done_send e st eid False ''no hostmask to match''
          else chan_done_send e (access_service e st eid k ch (Some nick) (Some hostmask) None) eid True
                 (request_note k))"

definition chan_elect_do :: "env \<Rightarrow> bot_state \<Rightarrow> string \<Rightarrow> bot_state" where
  "chan_elect_do e st payload =
     (let r = sscanf payload [FSet 63 ''|'', FLit ''|'', FSet 15 ''|'', FLit ''|'', FSet 64 ''|'', FLit ''|'',
                FSet 63 ''|'', FLit ''|'', FSet 31 ''|'', FLit ''|'', FSet 255 (''|'' @ [CHR 0x0D, CHR 0x0A])];
          eid = conv_s r 0 []; kind = conv_s r 1 []; ch = conv_s r 2 []; nick = conv_s r 4 [];
          hostmask = conv_s r 5 [] in
      if length r < 3 \<or> length r < 4 \<and> kind \<noteq> ''mode'' then st
      else case chan_elect_cannot st kind ch of
        Some why \<Rightarrow> chan_done_send e st eid False why
      | None \<Rightarrow>
          if (kind = ''op'' \<or> kind = ''invite'') \<and> \<not> chan_do_nick_ok nick
          then chan_done_send e st eid False ''not a valid nick''
          else if kind = ''mode'' then elect_mode e st eid ch
          else if kind = ''op'' then elect_op e st eid ch nick
          else elect_access e st eid kind ch nick hostmask)"

section \<open>Following a network upgrade\<close>

definition upgrade_char :: "char \<Rightarrow> char" where
  "upgrade_char c = (if c = CHR ''|'' then CHR ''/'' else if byte c < 0x20 \<or> byte c = 0x7F then CHR '' '' else c)"

definition upgrade_field :: "string \<Rightarrow> string" where
  "upgrade_field src = concat (take 191 (utf8_chars (map upgrade_char src)))"

definition send_upgrade_ready :: "env \<Rightarrow> bot_state \<Rightarrow> string \<Rightarrow> bool \<Rightarrow> string \<Rightarrow> bot_state" where
  "send_upgrade_ready e st uid good reason = snd (send_frame e st CMD_UPGRADE_READY
     (uid @ ''|'' @ st_bot_uuid st @ ''|'' @ e_version e @ ''|'' @ BOT_UPDATE_VARIANT @ ''|'' @ e_arch e @ ''|'' @
      e_libc e @ ''|'' @ (if good then ''1'' else ''0'') @ ''|'' @ upgrade_field reason))"

definition send_upgrade_result :: "env \<Rightarrow> bot_state \<Rightarrow> string \<Rightarrow> string \<Rightarrow> string \<Rightarrow> bot_state" where
  "send_upgrade_result e st uid status detail = snd (send_frame e st CMD_UPGRADE_RESULT
     (uid @ ''|'' @ st_bot_uuid st @ ''|'' @ status @ ''|'' @ e_version e @ ''|'' @ upgrade_field detail))"

definition set_up :: "(upgrade \<Rightarrow> upgrade) \<Rightarrow> bot_state \<Rightarrow> bot_state" where
  "set_up f st = st\<lparr>st_upgrade := f (st_upgrade st)\<rparr>"

text \<open>Nothing when the bot is back where it was, else what is missing.\<close>

definition ops_ready :: "bool \<Rightarrow> string list \<Rightarrow> (string \<times> bool \<times> bool) list \<Rightarrow> string option" where
  "ops_ready registered want chans =
     (if \<not> registered then Some ''back; IRC not reconnected''
      else
        let missing = filter (\<lambda>w. \<not> list_ex (\<lambda>(n, joined, opped). eq_ic n w \<and> joined \<and> opped) chans) want
        in if missing = [] then None else Some (''back; not re-opped in '' @ join_char (CHR '' '') missing))"

definition chan_ops :: "bot_state \<Rightarrow> (string \<times> bool \<times> bool) list" where
  "chan_ops st = map (\<lambda>c. (c_name c, c_status c = CS_In, c_i_am_opped c)) (st_chans st)"

definition upgrade_ready_tick :: "env \<Rightarrow> bot_state \<Rightarrow> bot_state" where
  "upgrade_ready_tick e st =
     (case up_report (st_upgrade st) of
        None \<Rightarrow> st
      | Some rep \<Rightarrow>
          if \<not> st_hub_authenticated st then st
          else
            let report = (\<lambda>d. send_upgrade_result e (set_up (\<lambda>u. u\<lparr>up_report := None\<rparr>) st) (ur_id rep) ''ok'' d) in
            (case ops_ready (st_status st AND S_AUTHED \<noteq> 0) (ur_ops rep) (chan_ops st) of
               None \<Rightarrow> report []
             | Some d \<Rightarrow> if e_now e - ur_since rep \<ge> UPGRADE_OPS_WAIT then report d else st))"

text \<open>\<open>take_pending_upgrade\<close> reads the hand-off note and removes it: \<open>marker\<close> is what it found.\<close>

definition report_upgrade_result ::
  "env \<Rightarrow> bot_state \<Rightarrow> (string \<times> string \<times> string \<times> string list) option \<Rightarrow> bot_state" where
  "report_upgrade_result e st marker =
     (if up_report (st_upgrade st) \<noteq> None then upgrade_ready_tick e st
      else case marker of
        None \<Rightarrow> st
      | Some (uid, ver, variant, ops) \<Rightarrow>
          let good = (version_cmp (e_version e) ver = Equal \<and> (variant = [] \<or> variant = BOT_UPDATE_VARIANT));
              st1 = set_up (\<lambda>u. u\<lparr>up_installed_id := uid\<rparr>) st;
              wanted = (if variant = [] then ver else ver @ ''/'' @ variant)
          in if \<not> good then send_upgrade_result e st1 uid ''version-mismatch'' (''wanted '' @ wanted)
             else upgrade_ready_tick e
                    (set_up (\<lambda>u. u\<lparr>up_report := Some \<lparr>ur_id = uid, ur_ops = ops, ur_since = e_now e\<rparr>\<rparr>) st1))"

definition nth_field :: "string list \<Rightarrow> nat \<Rightarrow> string" where
  "nth_field f i = (if i < length f then f ! i else [])"

definition bad_run :: "string list \<Rightarrow> bool" where
  "bad_run f \<longleftrightarrow> length f < 2 \<or> f ! 0 = [] \<or> f ! 1 = [] \<or> length (f ! 0) > 63 \<or> length (f ! 1) > 63"

definition handle_upgrade_prepare :: "env \<Rightarrow> bot_state \<Rightarrow> string \<Rightarrow> bot_state" where
  "handle_upgrade_prepare e st payload =
     (let f = split_char (CHR ''|'') payload in
      if bad_run f then st
      else
        let uid = f ! 0; ver = f ! 1; variant = nth_field f 2; base = nth_field f 5 in
        case e_prepare e ver variant (nth_field f 4) base of
          Some reason \<Rightarrow> send_upgrade_ready e st uid False reason
        | None \<Rightarrow>
            send_upgrade_ready e
              (set_up (\<lambda>u. u\<lparr>up_id := uid, up_target := ver,
                 up_variant := (if variant = [] then BOT_UPDATE_VARIANT else variant),
                 up_base := base, up_prepared := e_now e\<rparr>) st) uid True [])"

text \<open>\<open>str::contains\<close>.\<close>

fun contains_str :: "string \<Rightarrow> string \<Rightarrow> bool" where
  "contains_str [] p = (p = [])"
| "contains_str (c # s) p = (take (length p) (c # s) = p \<or> contains_str s p)"

definition commit_err_is_integrity :: "string \<Rightarrow> bool" where
  "commit_err_is_integrity err = list_ex (contains_str err)
     [''SHA-256 mismatch'', ''signature INVALID'', ''is not a ircbot release'', ''untrusted artifact URL'']"

definition handle_upgrade_commit :: "env \<Rightarrow> bot_state \<Rightarrow> string \<Rightarrow> bot_state" where
  "handle_upgrade_commit e st payload =
     (let f = splitn_char 3 (CHR ''|'') payload; uid = f ! 0; ver = f ! 1; variant = nth_field f 2;
          up = st_upgrade st in
      if bad_run f then st
      else if up_id up = [] \<or> up_id up \<noteq> uid then
        (if version_cmp (e_version e) ver = Equal \<and> (variant = [] \<or> variant = BOT_UPDATE_VARIANT)
         then send_upgrade_result e st uid ''ok'' []
         else send_upgrade_result e st uid ''skip'' ''no matching UPGRADE_PREPARE'')
      else if up_target up \<noteq> ver then send_upgrade_result e st uid ''skip'' ''commit version differs from prepare''
      else if e_now e - up_prepared up > UPGRADE_PREPARE_TTL
      then send_upgrade_result e (set_up (\<lambda>u. u\<lparr>up_id := []\<rparr>) st) uid ''skip'' ''prepare expired''
      else case e_commit e uid ver (if variant = [] then up_variant up else variant) (up_base up) of
        None \<Rightarrow> st
      | Some err \<Rightarrow>
          set_up (\<lambda>u. u\<lparr>up_id := []\<rparr>)
            (send_upgrade_result e st uid (if commit_err_is_integrity err then ''fail'' else ''skip'') err))"

definition handle_upgrade_abort :: "env \<Rightarrow> bot_state \<Rightarrow> string \<Rightarrow> bot_state" where
  "handle_upgrade_abort e st payload =
     (let uid0 = (case split_once (CHR ''|'') payload of Some (a, _) \<Rightarrow> a | None \<Rightarrow> payload);
          uid = (if uid0 = [] then ''-'' else uid0);
          st1 = set_up (\<lambda>u. u\<lparr>up_id := [], up_prepared := 0\<rparr>) st in
      if uid = ''-'' \<or> uid \<noteq> up_installed_id (st_upgrade st1)
      then send_upgrade_result e st1 uid ''aborted'' ''not moved by this run''
      else if e_rollback e then st1
      else send_upgrade_result e st1 uid ''aborted'' ''nothing retained to roll back to'')"

section \<open>Commands from the hub\<close>

definition hold_grant :: "env \<Rightarrow> string \<Rightarrow> chan \<Rightarrow> chan" where
  "hold_grant e nick c =
     (let held = filter (\<lambda>(n, when). e_now e - when \<le> OP_GRANT_HOLD_SECS \<and> \<not> eq_ic n nick) (c_op_grant_held c) in
      c\<lparr>c_op_grant_held := (if length held < OP_GRANT_HOLD_MAX then held @ [(nick, e_now e)] else held)\<rparr>)"

definition handle_op_grant :: "env \<Rightarrow> bot_state \<Rightarrow> string \<Rightarrow> bot_state" where
  "handle_op_grant e st payload =
     (let r = sscanf payload [FSet 255 ''|'', FLit ''|'', FWord 64]; ch = conv_s r 1 [];
          nick = mask_nick (conv_s r 0 []) MAX_NICK in
      if length r \<noteq> 2 then st
      else case elect_chan st ch of
        None \<Rightarrow> st
      | Some ci \<Rightarrow>
          if c_i_am_opped (st_chans st ! ci) then ircf e st (''MODE '' @ ch @ '' +o '' @ nick)
          else upd_chan st ci (hold_grant e nick))"

definition handle_op_failed :: "env \<Rightarrow> bot_state \<Rightarrow> bot_state" where
  "handle_op_failed e st = st\<lparr>st_chans := map (\<lambda>c.
     if c_op_request_pending c
     then c\<lparr>c_op_request_pending := False, c_last_op_request_time := e_now e - 30\<rparr> else c) (st_chans st)\<rparr>"

definition handle_invite_request :: "env \<Rightarrow> bot_state \<Rightarrow> string \<Rightarrow> bot_state" where
  "handle_invite_request e st payload =
     (let r = sscanf payload [FSet 9 ''|'', FLit ''|'', FSet 64 nl]; nick = conv_s r 0 []; ch = conv_s r 1 [] in
      if length r = 2 \<and> opped_in st ch then ircf e st (''INVITE '' @ nick @ '' '' @ ch) else st)"

definition handle_chan_probe :: "env \<Rightarrow> bot_state \<Rightarrow> string \<Rightarrow> bot_state" where
  "handle_chan_probe e st payload =
     (let r = sscanf payload [FSet 63 ''|'', FLit ''|'', FSet 15 ''|'', FLit ''|'', FSet 64 (''|'' @ [CHR 0x0D, CHR 0x0A])];
          why = chan_elect_cannot st (conv_s r 1 []) (conv_s r 2 []);
          ack = conv_s r 0 [] @ ''|'' @ (if why = None then ''1'' else ''0'') @ ''|'' @ opt_bytes why in
      if length r = 3 \<and> length ack < 160 then snd (send_frame e st CMD_CHAN_PROBE_ACK ack) else st)"

definition handle_chan_action :: "env \<Rightarrow> bot_state \<Rightarrow> string \<Rightarrow> bot_state" where
  "handle_chan_action e st payload =
     (let r = sscanf payload [FSet 63 ''|'', FLit ''|'', FSet 15 ''|'', FLit ''|'', FSet 64 ''|'', FLit ''|'',
                FSet 63 ''|'', FLit ''|'', FSet 9 ''|'', FLit ''|'', FSet 255 ''|''] in
      if length r < 4 then st
      else case chan_req_from_token (conv_s r 1 []) of
        Some k \<Rightarrow> access_service e st (conv_s r 0 []) k (conv_s r 2 []) (Some (conv_s r 4 [])) (Some (conv_s r 5 [])) None
      | None \<Rightarrow> st)"

definition handle_chan_reply :: "env \<Rightarrow> bot_state \<Rightarrow> string \<Rightarrow> bot_state" where
  "handle_chan_reply e st payload =
     (let r = sscanf payload [FSet 63 ''|'', FLit ''|'', FSet 15 ''|'', FLit ''|'', FSet 64 ''|'', FLit ''|'', FSet 15 ''|''] in
      if length r = 4 \<and> chan_req_from_token (conv_s r 1 []) = Some Key \<and> conv_s r 3 [] = ''ok''
      then access_accept_key e st (conv_s r 2 []) (nth_field (splitn_char 5 (CHR ''|'') payload) 4)
      else st)"

definition handle_response :: "env \<Rightarrow> bot_state \<Rightarrow> nat \<Rightarrow> string \<Rightarrow> bot_state" where
  "handle_response e st cmd payload =
     (if cmd = CMD_BOT_TREE then process_tree e st payload
      else if cmd = CMD_ACTIVITY_REPLY then activity_reply e st payload
      else if cmd = CMD_OP_GRANT then handle_op_grant e st payload
      else if cmd = CMD_OP_FAILED then handle_op_failed e st
      else if cmd = CMD_INVITE_REQUEST then handle_invite_request e st payload
      else if cmd = CMD_CHAN_PROBE then handle_chan_probe e st payload
      else if cmd = CMD_CHAN_ACTION then handle_chan_action e st payload
      else if cmd = CMD_CHAN_REPLY then handle_chan_reply e st payload
      else if payload = [] then st
      else if cmd = CMD_CONFIG_DATA then process_config_data e st payload
      else if cmd = CMD_CHAN_DO then chan_elect_do e st payload
      else if cmd = CMD_UPGRADE_PREPARE then handle_upgrade_prepare e st payload
      else if cmd = CMD_UPGRADE_COMMIT then handle_upgrade_commit e st payload
      else if cmd = CMD_UPGRADE_ABORT then handle_upgrade_abort e st payload
      else if cmd = CMD_BOT_MSG then process_payload e st payload
      else st)"

section \<open>The handshake\<close>

definition be32 :: "nat \<Rightarrow> string" where
  "be32 n = map (\<lambda>i. char_of (n div 256 ^ i mod 256)) [3, 2, 1, 0]"

definition be32_val :: "string \<Rightarrow> nat" where
  "be32_val s = foldl (\<lambda>n c. 256 * n + byte c) 0 (take 4 s)"

definition send_raw :: "env \<Rightarrow> bot_state \<Rightarrow> string \<Rightarrow> bool \<times> bot_state" where
  "send_raw e st dat =
     (if \<not> st_hub st then (False, st)
      else if e_hub_raw e dat then (True, st\<lparr>st_hub_raw := st_hub_raw st @ [dat]\<rparr>)
      else (False, hub_disconnect e st))"

definition sign_challenge :: "env \<Rightarrow> bot_state \<Rightarrow> string \<Rightarrow> string \<Rightarrow> string option \<times> bot_state" where
  "sign_challenge e st challenge hub_eph =
     (case bot_key_decode e st of
        (None, st1) \<Rightarrow> (None, st1)
      | (Some (ed, _), st1) \<Rightarrow>
          (Some (e_ed_sign e ed (''irchub-bot-challenge-v1|'' @ st_bot_uuid st1 @ ''|'' @ hub_eph @ challenge)), st1))"

definition derive_session_key :: "env \<Rightarrow> bot_state \<Rightarrow> string \<Rightarrow> string \<Rightarrow> string option \<times> bot_state" where
  "derive_session_key e st hub_eph challenge =
     (case bot_key_decode e st of
        (None, st1) \<Rightarrow> (None, st1)
      | (Some (_, x), st1) \<Rightarrow>
          (case e_x_dh e x hub_eph of
             None \<Rightarrow> (None, st1)
           | Some shared \<Rightarrow>
               (e_hkdf e shared challenge (''irchub-bot-session-v1|'' @ st_bot_uuid st1) 32, st1)))"

definition hub_transcript :: "bot_state \<Rightarrow> string \<Rightarrow> string \<Rightarrow> string" where
  "hub_transcript st challenge hub_eph = ''irchub-hub-auth-v2|'' @ st_bot_uuid st @ ''|'' @ challenge @ hub_eph"

definition handle_challenge :: "env \<Rightarrow> bot_state \<Rightarrow> string \<Rightarrow> bot_state" where
  "handle_challenge e st body =
     (let challenge = take 32 body; hub_eph = take 32 (drop 32 body); hub_sig = drop 64 body in
      if length body \<noteq> 128 then hub_disconnect e st
      else if \<not> st_hub_remote_ed_pub_set st then hub_disconnect e st
      else if \<not> e_ed_verify e (st_hub_remote_ed_pub st) (hub_transcript st challenge hub_eph) hub_sig
      then hub_disconnect e st
      else case derive_session_key e st hub_eph challenge of
        (None, st1) \<Rightarrow> hub_disconnect e st1
      | (Some key, st1) \<Rightarrow>
          (case sign_challenge e (st1\<lparr>st_session_key := key\<rparr>) challenge hub_eph of
             (None, st2) \<Rightarrow> hub_disconnect e st2
           | (Some s, st2) \<Rightarrow>
               (case send_raw e st2 (be32 64 @ s) of
                  (True, st3) \<Rightarrow> st3\<lparr>st_hub_auth_state := SentSignature\<rparr>
                | (False, st3) \<Rightarrow> st3)))"

definition link_up :: "env \<Rightarrow> bot_state \<Rightarrow> bot_state" where
  "link_up e st = st\<lparr>st_hub_authenticated := True, st_hub_auth_state := HA_Complete,
     st_last_hub_activity := e_now e, st_hub_connect_time := e_now e\<rparr>"

definition greet_hub :: "env \<Rightarrow> bot_state \<Rightarrow> bot_state" where
  "greet_hub e st =
     (let st1 = send_presence e (push_config e st) True;
          st2 = send_activity e (report_upgrade_result e st1 (e_marker e))
      in if st_admin_delta_pending st2 then push_admin_delta e st2 else st2)"

definition handle_ack :: "env \<Rightarrow> bot_state \<Rightarrow> string \<Rightarrow> bot_state" where
  "handle_ack e st body =
     (if length body < GCM_IV_LEN + 1 + GCM_TAG_LEN then hub_disconnect e st
      else if gcm_open e (st_session_key st) [] body \<noteq> Some [CHR 0x01] then hub_disconnect e st
      else greet_hub e (link_up e st))"

definition answer_ping :: "env \<Rightarrow> bot_state \<Rightarrow> bot_state" where
  "answer_ping e st =
     (if e_now e - st_last_hub_pong_sent st \<ge> 5 then
        (case send_frame e st CMD_PING [] of
           (False, st1) \<Rightarrow> st1 | (True, st1) \<Rightarrow> st1\<lparr>st_last_hub_pong_sent := e_now e\<rparr>)
      else st)"

definition hub_plain :: "env \<Rightarrow> bot_state \<Rightarrow> string \<Rightarrow> bot_state" where
  "hub_plain e st plain =
     (if byte (hd plain) = CMD_PING then answer_ping e st
      else if length plain \<le> 5 then st
      else
        let n = be32_val (drop 1 plain) in
        if n = 0 \<or> n > length plain - 5 \<or> n > 2147483647 then st
        else handle_response e st (byte (hd plain)) (until_nul (from_utf8_lossy (take n (drop 5 plain)))))"

definition process_packet :: "env \<Rightarrow> bot_state \<Rightarrow> string \<Rightarrow> bot_state" where
  "process_packet e st body =
     (if \<not> st_hub_authenticated st then
        (case st_hub_auth_state st of
           SentUuid \<Rightarrow> handle_challenge e st body
         | SentSignature \<Rightarrow> handle_ack e st body
         | _ \<Rightarrow> st)
      else
        let st1 = st\<lparr>st_last_hub_activity := e_now e\<rparr> in
        if length body \<le> GCM_IV_LEN + GCM_TAG_LEN then st1
        else case gcm_open e (st_session_key st1) [] body of
          None \<Rightarrow> hub_disconnect e st1
        | Some plain \<Rightarrow> if plain = [] then hub_disconnect e st1 else hub_plain e st1 plain)"

text \<open>
  The frames in what has arrived, one at a time: a frame may drop the link, and a length out of
  bounds does.
\<close>

function hub_run :: "env \<Rightarrow> bot_state \<Rightarrow> string \<Rightarrow> string \<times> bot_state" where
  "hub_run e st buf =
     (if \<not> st_hub st \<or> length buf < 4 then (buf, st)
      else
        let n = be32_val buf in
        if n = 0 \<or> n > MAX_HUB_FRAME then ([], hub_disconnect e st)
        else if length buf < 4 + n then (buf, st)
        else hub_run e (process_packet e st (take n (drop 4 buf))) (drop (4 + n) buf))"
  by pat_completeness auto
termination
  by (relation "measure (\<lambda>(e, st, buf). length buf)") auto

declare hub_run.simps [simp del]

definition hub_read :: "env \<Rightarrow> bot_state \<Rightarrow> string \<Rightarrow> bool \<Rightarrow> string \<times> bot_state" where
  "hub_read e st buf eof = (case hub_run e st buf of
     (rest, st1) \<Rightarrow> if \<not> st_hub st1 then ([], st1) else if eof then ([], hub_disconnect e st1) else (rest, st1))"

section \<open>Connecting\<close>

text \<open>The guards before a hub is dialled: what is refused is not tried again for an hour.\<close>

definition hub_ready :: "bot_state \<Rightarrow> bool" where
  "hub_ready st \<longleftrightarrow> st_bot_uuid st \<noteq> [] \<and> has_uuid_dashes (st_bot_uuid st) \<and> st_hub_key st \<noteq> [] \<and>
     length (st_hub_key st) = COMBINED_KEY_B64 \<and> he_addr (hd (st_hubs st)) \<noteq> []"

text \<open>\<open>dial\<close> says whether a socket to the chosen address opens and registers.\<close>

definition dial_hub :: "env \<Rightarrow> (string \<Rightarrow> bool) \<Rightarrow> bot_state \<Rightarrow> hub_entry \<Rightarrow> bot_state" where
  "dial_hub e dial st0 h =
     (let st = st0\<lparr>st_hub_remote_ed_pub := he_ed_pub h, st_hub_remote_ed_pub_set := True\<rparr> in
      if CHR '':'' \<notin> set (he_addr h) \<or> \<not> dial (he_addr h) then st\<lparr>st_hub_connecting := False\<rparr>
      else
        let st1 = st\<lparr>st_hub := True, st_hub_connected := True, st_hub_authenticated := False,
                    st_hub_auth_state := HA_None, st_current_hub := he_addr h\<rparr>;
            (sent, st2) = send_raw e st1 (be32 (length (st_bot_uuid st1)) @ st_bot_uuid st1)
        in (if sent then st2\<lparr>st_hub_auth_state := SentUuid\<rparr> else st2)\<lparr>st_hub_connecting := False\<rparr>)"

definition hub_connect :: "env \<Rightarrow> (string \<Rightarrow> bool) \<Rightarrow> bot_state \<Rightarrow> bot_state" where
  "hub_connect e dial st =
     (if st_hubs st = [] \<or> st_hub st \<or> st_hub_connecting st then st
      else if \<not> hub_ready st then st\<lparr>st_last_hub_connect_attempt := e_now e + 3600\<rparr>
      else if e_now e - st_last_hub_connect_attempt st < HUB_RECONNECT_DELAY then st
      else
        let st1 = st\<lparr>st_last_hub_connect_attempt := e_now e, st_hub_connecting := True\<rparr>;
            h = st_hubs st1 ! e_rand e (length (st_hubs st1)) in
        if he_ed_pub_set h then dial_hub e dial st1 h
        else st1\<lparr>st_hub_remote_ed_pub_set := False, st_hub_connecting := False,
               st_last_hub_connect_attempt := e_now e + 60\<rparr>)"

end
