(* ===== verification/Users.thy ===== *)
theory Users
  imports Reports Access HubSync
begin

text \<open>
  The commands that change users, masks and trusted bots (\<open>src/src/commands.rs\<close>): adding and removing
  admins, opers, their masks and their keys, trusted bots, and renaming any of them.  Each one
  checks its arguments, changes the records with a stamp past the old one, saves, tells the hub
  and answers.
\<close>

section \<open>Arguments\<close>

record cmd_args =
  ca_1 :: "string option"
  ca_2 :: "string option"
  ca_3 :: "string option"
  ca_line :: "string option"

definition q :: "string \<Rightarrow> string" where
  "q s = [CHR 0x27] @ s @ [CHR 0x27]"

definition mdash :: string where
  "mdash = [CHR 0xE2, CHR 0x80, CHR 0x94]"

definition chan_arg :: "string \<Rightarrow> bool \<Rightarrow> string" where
  "chan_arg arg amp_ok =
     (if take 1 arg = ''#'' \<or> amp_ok \<and> take 1 arg = ''&'' then trunc arg MAX_CHAN
      else trunc (''#'' @ arg) MAX_CHAN)"

definition has_mask_shape :: "string \<Rightarrow> bool" where
  "has_mask_shape m \<longleftrightarrow> CHR ''!'' \<in> set m \<and> CHR ''@'' \<in> set m"

definition active_named :: "string \<Rightarrow> user_record \<Rightarrow> bool" where
  "active_named name u \<longleftrightarrow> u_is_active u \<and> eq_ic (u_name u) name"

definition user_named :: "bot_state \<Rightarrow> string \<Rightarrow> nat option" where
  "user_named st name = position (active_named name) (st_user_records st)"

text \<open>Saved, and the user and mask records pushed to the hub.\<close>

definition save_users :: "env \<Rightarrow> bot_state \<Rightarrow> bot_state" where
  "save_users e st = push_admin_delta e (write_cfg e st)"

section \<open>Keys\<close>

definition key_owner :: "bot_state \<Rightarrow> string \<Rightarrow> nat option \<Rightarrow> string option" where
  "key_owner st key me = map_option (\<lambda>(i, u). u_name u)
     (List.find (\<lambda>(i, u). Some i \<noteq> me \<and> u_is_active u \<and> u_has_pubkey u \<and> u_pubkey_b64 u = key)
        (enumerate 0 (st_user_records st)))"

definition user_key_arg_ok ::
  "env \<Rightarrow> bot_state \<Rightarrow> string \<Rightarrow> string \<Rightarrow> nat option \<Rightarrow> string \<Rightarrow> bool \<times> bot_state" where
  "user_key_arg_ok e st nick key me cmdname =
     (if pubkey_b64_decode e key = None then
        (False, say e st nick (''Error: '' @ cmdname @ '' needs the user'' @ [CHR 0x27] @ ''s public key '' @ mdash @
           '' the 88-char contents of their <ts>_<name>.public.b64. Ask them for it; '' @ q (''help '' @ cmdname) @
           '' shows how they make one.''))
      else case key_owner st key me of
        Some owner \<Rightarrow>
          (False, say e st nick (''Error: that key already belongs to '' @ q owner @
             ''. Each user needs their own keypair.''))
      | None \<Rightarrow> (True, st))"

definition upd_user :: "bot_state \<Rightarrow> nat \<Rightarrow> (user_record \<Rightarrow> user_record) \<Rightarrow> bot_state" where
  "upd_user st ui f = st\<lparr>st_user_records := (st_user_records st)[ui := f (st_user_records st ! ui)]\<rparr>"

definition set_user_key :: "env \<Rightarrow> bot_state \<Rightarrow> nat \<Rightarrow> string \<Rightarrow> bot_state" where
  "set_user_key e st ui key = save_users e (upd_user st ui (\<lambda>u. u\<lparr>u_pubkey_b64 := key, u_has_pubkey := True,
     u_timestamp := lww_next_ts (e_now e) (u_timestamp u), u_last_auth_reply := 0\<rparr>))"

text \<open>\<open>chkey\<close> as an admin gives it, on a named user.\<close>

definition cmd_chkey :: "env \<Rightarrow> bot_state \<Rightarrow> string \<Rightarrow> cmd_args \<Rightarrow> bot_state" where
  "cmd_chkey e st nick a = (case (ca_1 a, ca_2 a) of
       (Some name, Some key) \<Rightarrow>
         (case user_named st name of
            None \<Rightarrow> say e st nick (''Error: user '' @ q name @ '' not found.'')
          | Some ui \<Rightarrow>
              (case user_key_arg_ok e st nick key (Some ui) ''chkey'' of
                 (False, st1) \<Rightarrow> st1
               | (True, st1) \<Rightarrow>
                   let st2 = set_user_key e st1 ui key; u = st_user_records st2 ! ui in
                   say e st2 nick (''Key for '' @ u_name u @ '' changed (key '' @ user_key_fp e u @
                     ''). They must use the new private key from now on.'')))
     | _ \<Rightarrow> say e st nick ''Syntax: chkey <name> <pubkey>'')"

text \<open>\<open>chkey\<close> as an oper gives it, on the oper's own record.\<close>

definition oper_chkey :: "env \<Rightarrow> bot_state \<Rightarrow> string \<Rightarrow> nat \<Rightarrow> cmd_args \<Rightarrow> bot_state" where
  "oper_chkey e st nick who a =
     (if is_opt_set st OPT_HUB_ONLY_MUTATIONS then
        say e st nick (''Error: '' @ q ''chkey'' @ '' is disabled '' @ mdash @
          '' network is in hub-only-mutation mode (opt '' @ q ''h'' @ ''). Ask a hub admin.'')
      else case (ca_1 a, ca_2 a) of
        (Some name, Some key) \<Rightarrow>
          if \<not> eq_ic (u_name (st_user_records st ! who)) name
          then say e st nick ''Error: opers may only change their own key.''
          else (case user_key_arg_ok e st nick key (Some who) ''chkey'' of
              (False, st1) \<Rightarrow> st1
            | (True, st1) \<Rightarrow>
                let st2 = set_user_key e st1 who key in
                say e st2 nick (''Your key has been changed (key '' @ user_key_fp e (st_user_records st2 ! who) @
                  ''). Use the new private key from now on.''))
      | _ \<Rightarrow> say e st nick ''Syntax: chkey <yourname> <pubkey>'')"

section \<open>Users\<close>

definition new_user :: "env \<Rightarrow> bool \<Rightarrow> string \<Rightarrow> string \<Rightarrow> string \<Rightarrow> user_record" where
  "new_user e admin uuid name key = default_user\<lparr>u_uuid := uuid, u_name := name, u_pubkey_b64 := key,
     u_has_pubkey := True, u_typ := (if admin then CHR ''a'' else CHR ''o''), u_is_active := True,
     u_timestamp := e_now e\<rparr>"

definition new_mask :: "env \<Rightarrow> string \<Rightarrow> string \<Rightarrow> mask_record" where
  "new_mask e uuid m = default_mask\<lparr>m_uuid := uuid, m_mask := m, m_is_active := True, m_timestamp := e_now e\<rparr>"

definition create_user :: "env \<Rightarrow> bot_state \<Rightarrow> string \<Rightarrow> bool \<Rightarrow> string \<Rightarrow> string \<Rightarrow> string \<Rightarrow> bot_state" where
  "create_user e st nick admin name key m =
     (if length (st_user_records st) \<ge> MAX_USER_RECORDS then say e st nick ''Error: user record table full.''
      else if length (st_mask_records st) \<ge> MAX_USER_MASKS then say e st nick ''Error: mask table full.''
      else case gen_uuid_v4 e st of
        (None, st1) \<Rightarrow> say e st1 nick ''Error: RNG failure.''
      | (Some uuid, st1) \<Rightarrow>
          let u = new_user e admin uuid name key;
              st2 = save_users e (st1\<lparr>st_user_records := st_user_records st1 @ [u],
                      st_mask_records := st_mask_records st1 @ [new_mask e uuid m]\<rparr>)
          in say e st2 nick ((if admin then ''Admin'' else ''Oper'') @ '' '' @ q name @ '' added with mask '' @ m @
               '' (key '' @ user_key_fp e u @ '')''))"

definition cmd_add_user :: "env \<Rightarrow> bot_state \<Rightarrow> string \<Rightarrow> bool \<Rightarrow> cmd_args \<Rightarrow> bot_state" where
  "cmd_add_user e st nick admin a =
     (let what = (if admin then ''+admin'' else ''+oper'') in
      case (ca_1 a, ca_2 a, ca_3 a) of
        (Some name, Some key, Some m) \<Rightarrow>
          if length name > 63 then say e st nick ''Error: name too long (max 63).''
          else if \<not> has_mask_shape m \<or> length m \<ge> MAX_MASK_LEN
          then say e st nick (''Error: mask must be nick!user@host (max '' @ dec (MAX_MASK_LEN - 1) @ '' chars)'')
          else if user_named st name \<noteq> None then say e st nick (''Error: name '' @ q name @ '' already exists.'')
          else (case user_key_arg_ok e st nick key None what of
              (False, st1) \<Rightarrow> st1
            | (True, st1) \<Rightarrow> create_user e st1 nick admin name key m)
      | _ \<Rightarrow> say e st nick (''Syntax: '' @ what @ '' <name> <pubkey> <nick!user@host> - <pubkey> is the user'' @
               [CHR 0x27] @ ''s 88-char public key. Ask them for it; '' @ q (''help '' @ what) @
               '' shows how they make one.''))"

definition bury_user :: "env \<Rightarrow> user_record \<Rightarrow> user_record" where
  "bury_user e u = u\<lparr>u_is_active := False, u_timestamp := lww_next_ts (e_now e) (u_timestamp u)\<rparr>"

definition bury_mask :: "env \<Rightarrow> mask_record \<Rightarrow> mask_record" where
  "bury_mask e m = m\<lparr>m_is_active := False, m_timestamp := lww_next_ts (e_now e) (m_timestamp m)\<rparr>"

definition cmd_del_user :: "env \<Rightarrow> bot_state \<Rightarrow> string \<Rightarrow> char \<Rightarrow> cmd_args \<Rightarrow> bot_state" where
  "cmd_del_user e st nick typ a =
     (let what = (if typ = CHR ''a'' then ''admin'' else ''oper'') in
      case ca_1 a of
        None \<Rightarrow> say e st nick (''Syntax: -'' @ what @ '' <name>'')
      | Some name \<Rightarrow>
          (case position (\<lambda>u. u_is_active u \<and> u_typ u = typ \<and> eq_ic (u_name u) name) (st_user_records st) of
             None \<Rightarrow> say e st nick (''Error: '' @ what @ '' '' @ q name @ '' not found.'')
           | Some ui \<Rightarrow>
               let uuid = u_uuid (st_user_records st ! ui);
                   st1 = upd_user st ui (bury_user e);
                   st2 = st1\<lparr>st_mask_records :=
                           map (\<lambda>m. if m_uuid m = uuid then bury_mask e m else m) (st_mask_records st1)\<rparr>
               in say e (save_users e st2) nick ((if typ = CHR ''a'' then ''Admin'' else ''Oper'') @ '' '' @ q name @
                    '' and all their masks removed.'')))"

section \<open>Masks\<close>

definition upd_mask :: "bot_state \<Rightarrow> nat \<Rightarrow> (mask_record \<Rightarrow> mask_record) \<Rightarrow> bot_state" where
  "upd_mask st mi f = st\<lparr>st_mask_records := (st_mask_records st)[mi := f (st_mask_records st ! mi)]\<rparr>"

text \<open>What the user's list already holds of a mask: an active record, else the last tombstone.\<close>

definition same_mask :: "string \<Rightarrow> string \<Rightarrow> mask_record \<Rightarrow> bool" where
  "same_mask uuid m r \<longleftrightarrow> m_uuid r = uuid \<and> eq_ic (m_mask r) m"

definition last_tomb :: "bot_state \<Rightarrow> string \<Rightarrow> string \<Rightarrow> nat option" where
  "last_tomb st uuid m = map_option fst
     (List.find (\<lambda>(i, r). same_mask uuid m r) (rev (enumerate 0 (st_mask_records st))))"

definition cmd_add_usermask :: "env \<Rightarrow> bot_state \<Rightarrow> string \<Rightarrow> cmd_args \<Rightarrow> bot_state" where
  "cmd_add_usermask e st nick a = (case (ca_1 a, ca_2 a) of
       (Some name, Some m) \<Rightarrow>
         if \<not> has_mask_shape m then say e st nick ''Error: mask must contain ! and @''
         else (case user_named st name of
            None \<Rightarrow> say e st nick (''Error: user '' @ q name @ '' not found.'')
          | Some ui \<Rightarrow>
              let uuid = u_uuid (st_user_records st ! ui);
                  added = (\<lambda>s. say e (save_users e s) nick (''Mask '' @ m @ '' added to '' @ name)) in
              if list_ex (\<lambda>r. same_mask uuid m r \<and> m_is_active r) (st_mask_records st)
              then say e st nick ''Error: mask already exists.''
              else case last_tomb st uuid m of
                Some i \<Rightarrow> added (upd_mask st i (\<lambda>r. r\<lparr>m_is_active := True,
                  m_timestamp := lww_next_ts (e_now e) (m_timestamp r)\<rparr>))
              | None \<Rightarrow>
                  if length (st_mask_records st) \<ge> MAX_USER_MASKS then say e st nick ''Error: mask table full.''
                  else added (st\<lparr>st_mask_records := st_mask_records st @ [new_mask e uuid (trunc m MAX_MASK_LEN)]\<rparr>))
     | _ \<Rightarrow> say e st nick ''Syntax: +usermask <name> <nick!user@host>'')"

definition cmd_del_usermask :: "env \<Rightarrow> bot_state \<Rightarrow> string \<Rightarrow> cmd_args \<Rightarrow> bot_state" where
  "cmd_del_usermask e st nick a = (case (ca_1 a, ca_2 a) of
       (Some name, Some m) \<Rightarrow>
         (case user_named st name of
            None \<Rightarrow> say e st nick (''Error: user '' @ q name @ '' not found.'')
          | Some ui \<Rightarrow>
              (case position (\<lambda>r. m_is_active r \<and> same_mask (u_uuid (st_user_records st ! ui)) m r) (st_mask_records st) of
                 None \<Rightarrow> say e st nick (''Error: mask '' @ q m @ '' not found for '' @ name @ ''.'')
               | Some mi \<Rightarrow> say e (save_users e (upd_mask st mi (bury_mask e))) nick
                   (''Mask '' @ m @ '' removed from '' @ name)))
     | _ \<Rightarrow> say e st nick ''Syntax: -usermask <name> <mask>'')"

section \<open>Trusted bots\<close>

definition hub_manages_bots :: string where
  "hub_manages_bots = ''Error: Bot management disabled when hub is configured. '' @
     ''Bot additions/deletions must be performed on the hub.''"

definition trust_bot :: "env \<Rightarrow> bot_state \<Rightarrow> string \<Rightarrow> string \<Rightarrow> string \<Rightarrow> string \<Rightarrow> bot_state" where
  "trust_bot e st nick m uuid pub_key =
     (if list_ex (\<lambda>t. eq_ic (tb_mask t) m \<or> tb_uuid t = uuid) (st_trusted_bots st)
      then say e st nick (''Error: Trusted bot '' @ q m @ '' already exists (same mask or UUID). Remove it with -bot first.'')
      else if length (st_trusted_bots st) \<ge> MAX_TRUSTED_BOTS then say e st nick ''Error: trusted bot list is full.''
      else say e (write_cfg e (st\<lparr>st_trusted_bots := st_trusted_bots st @
             [\<lparr>tb_mask = m, tb_uuid = uuid, tb_pub_key = pub_key, tb_has_pub = True, tb_ts = e_now e\<rparr>]\<rparr>)) nick
             (''Added trusted bot: '' @ m @ '' (key '' @ key_fingerprint e pub_key @ '')''))"

definition cmd_add_bot :: "env \<Rightarrow> bot_state \<Rightarrow> string \<Rightarrow> cmd_args \<Rightarrow> bot_state" where
  "cmd_add_bot e st nick a =
     (if st_hubs st \<noteq> [] then say e st nick hub_manages_bots
      else case (ca_1 a, ca_2 a, ca_3 a) of
        (Some m, Some uuid, Some key) \<Rightarrow>
          if length m \<ge> MAX_MASK_LEN \<or> \<not> has_mask_shape m
          then say e st nick (''Error: mask must be nick!user@host (max '' @ dec (MAX_MASK_LEN - 1) @ '' chars).'')
          else if \<not> has_uuid_dashes uuid then say e st nick (''Error: '' @ q uuid @ '' is not a bot UUID.'')
          else (case pubkey_b64_decode e key of
              None \<Rightarrow> say e st nick (''Error: pubkey must be the bot'' @ [CHR 0x27] @
                ''s 88-char public key (Pubkey line of its '' @ q ''status'' @ '').'')
            | Some k \<Rightarrow>
                if uuid = st_bot_uuid st then say e st nick ''Error: that is this bot.''
                else trust_bot e st nick m uuid k)
      | _ \<Rightarrow> say e st nick (''Syntax: +bot <nick!user@host> <uuid> <pubkey> - '' @
               ''copy the UUID and Pubkey lines from that bot'' @ [CHR 0x27] @ ''s '' @ q ''status'' @ ''.''))"

definition cmd_del_bot :: "env \<Rightarrow> bot_state \<Rightarrow> string \<Rightarrow> cmd_args \<Rightarrow> bot_state" where
  "cmd_del_bot e st nick a =
     (if st_hubs st \<noteq> [] then say e st nick hub_manages_bots
      else case ca_1 a of
        None \<Rightarrow> say e st nick ''Syntax: -bot <nick*!*user@hostmask.com>''
      | Some m \<Rightarrow>
          (case position (\<lambda>t. eq_ic (tb_mask t) m) (st_trusted_bots st) of
             Some i \<Rightarrow> say e (write_cfg e (st\<lparr>st_trusted_bots :=
                 take i (st_trusted_bots st) @ drop (Suc i) (st_trusted_bots st)\<rparr>)) nick (''Removed trusted bot: '' @ m)
           | None \<Rightarrow> say e st nick (''Error: no trusted bot with mask '' @ q m @ '' (see '' @ q ''status'' @ '').'')))"

section \<open>Renaming\<close>

definition rfc_err :: "env \<Rightarrow> bot_state \<Rightarrow> string \<Rightarrow> string \<Rightarrow> bot_state" where
  "rfc_err e st nick nw = say e st nick (''Error: '' @ q nw @ '' is not a valid IRC nick: a letter or one of []'' @
     [CHR 0x5C, CHR 0x60] @ ''_^{} first, then letters, digits, those or '' @ q ''-'' @ ''.'')"

definition rename_self :: "env \<Rightarrow> bot_state \<Rightarrow> string \<Rightarrow> string \<Rightarrow> bot_state" where
  "rename_self e st nick nw =
     (if \<not> is_rfc_nick nw then rfc_err e st nick nw
      else
        let st1 = write_cfg e (st\<lparr>st_target_nick := nw, st_current_nick_ts := e_now e\<rparr>);
            st2 = snd (push_delta e st1 ''n'' nw (st_current_nick_ts st1))
        in say e st2 nick (''This bot'' @ [CHR 0x27] @ ''s nick changed to '' @ q nw @ '' and saved.''))"

definition rename_user :: "env \<Rightarrow> bot_state \<Rightarrow> string \<Rightarrow> nat \<Rightarrow> string \<Rightarrow> string \<Rightarrow> bot_state" where
  "rename_user e st nick ui old nw =
     say e (save_users e (upd_user st ui (\<lambda>u. u\<lparr>u_name := nw, u_timestamp := lww_next_ts (e_now e) (u_timestamp u)\<rparr>)))
       nick (''User '' @ q old @ '' renamed to '' @ q nw @ ''.'')"

definition rename_bot :: "env \<Rightarrow> bot_state \<Rightarrow> string \<Rightarrow> nat \<Rightarrow> string \<Rightarrow> string \<Rightarrow> bot_state" where
  "rename_bot e st nick ti old nw =
     (if \<not> is_rfc_nick nw then rfc_err e st nick nw
      else
        let m = tb_mask (st_trusted_bots st ! ti);
            newmask = (case position ((=) (CHR ''!'')) m of Some b \<Rightarrow> nw @ drop b m | None \<Rightarrow> nw) in
        if length newmask \<ge> MAX_MASK_LEN then say e st nick ''Error: resulting mask too long.''
        else
          let st1 = send_command e st old (''SETNICK '' @ nw);
              st2 = st1\<lparr>st_trusted_bots := (st_trusted_bots st1)[ti :=
                      (st_trusted_bots st1 ! ti)\<lparr>tb_mask := newmask, tb_ts := e_now e\<rparr>]\<rparr>
          in say e (write_cfg e st2) nick (''Bot '' @ q old @ '' renamed to '' @ q nw @ '' and notified.''))"

definition cmd_chnick :: "env \<Rightarrow> bot_state \<Rightarrow> string \<Rightarrow> cmd_args \<Rightarrow> bot_state" where
  "cmd_chnick e st nick a = (case (ca_1 a, ca_2 a) of
       (Some old, Some nw) \<Rightarrow>
         if \<not> is_valid_bot_nick nw then
           (if CHR ''|'' \<in> set nw then say e st nick (''Error: New nick cannot contain '' @ q ''|'' @ ''.'')
            else say e st nick (''Error: New nick too long (max '' @ dec (MAX_NICK - 1) @ '' chars).''))
         else if user_named st nw \<noteq> None then say e st nick (''Error: Name '' @ q nw @ '' already in use.'')
         else if eq_ic (st_target_nick st) nw
         then say e st nick (''Error: Name '' @ q nw @ '' already in use by this bot.'')
         else if list_ex (\<lambda>t. eq_ic (tb_nick t) nw) (st_trusted_bots st)
         then say e st nick (''Error: Name '' @ q nw @ '' already in use by a bot.'')
         else if eq_ic (st_target_nick st) old then rename_self e st nick nw
         else (case user_named st old of
             Some ui \<Rightarrow> rename_user e st nick ui old nw
           | None \<Rightarrow>
               (case position (\<lambda>t. eq_ic (tb_nick t) old) (st_trusted_bots st) of
                  Some ti \<Rightarrow> rename_bot e st nick ti old nw
                | None \<Rightarrow> say e st nick (''Error: No bot/admin/oper named '' @ q old @ '' found.'')))
     | _ \<Rightarrow> say e st nick ''Syntax: chnick <oldnick> <newnick>'')"

end
