(* ===== verification/Listings.thy ===== *)
theory Listings
  imports Users
begin

text \<open>
  The longer replies (\<open>src/src/commands.rs\<close>): the tree of bots, the configured servers, \<open>status\<close> and
  \<open>getlog\<close>.  The lines the log keeps in memory are an argument: logging is not modelled.
\<close>

section \<open>The table of bots\<close>

definition BOTS_NAME_COL_MIN :: nat where "BOTS_NAME_COL_MIN = 19"
definition BOTS_NAME_COL_MAX :: nat where "BOTS_NAME_COL_MAX = 48"
definition BOTS_VERSION_COL_MIN :: nat where "BOTS_VERSION_COL_MIN = 12"
definition BOTS_UPTIME_COL_MIN :: nat where "BOTS_UPTIME_COL_MIN = 13"
definition BOTS_COL_GAP :: nat where "BOTS_COL_GAP = 2"

record bots_row =
  br_name :: string
  br_version :: string
  br_uptime :: string
  br_server :: string

definition bots_fmt_version :: "string \<Rightarrow> string \<Rightarrow> string" where
  "bots_fmt_version ver variant =
     (let v = (if ver = [] then ''-'' else ver) in if variant = [] then v else v @ '' ('' @ variant @ '')'')"

fun last_sibling :: "int \<Rightarrow> bot_tree_row list \<Rightarrow> bool" where
  "last_sibling d [] = True"
| "last_sibling d (r # rs) =
     (if tr_kind r = CHR ''d'' \<or> tr_depth r < d then True
      else if tr_depth r = d then False else last_sibling d rs)"

definition tree_is_last :: "bot_state \<Rightarrow> nat \<Rightarrow> bool" where
  "tree_is_last st i = last_sibling (tr_depth (st_bot_tree st ! i)) (drop (i + 1) (st_bot_tree st))"

definition tree_has_children :: "bot_state \<Rightarrow> nat \<Rightarrow> bool" where
  "tree_has_children st i \<longleftrightarrow> i + 1 < length (st_bot_tree st) \<and> tr_kind (st_bot_tree st ! (i + 1)) \<noteq> CHR ''d'' \<and>
     tr_depth (st_bot_tree st ! (i + 1)) > tr_depth (st_bot_tree st ! i)"

definition box :: "nat \<Rightarrow> string" where
  "box n = [CHR 0xE2, CHR 0x94, char_of n]"

definition tree_prefix :: "int \<Rightarrow> bool list \<Rightarrow> bool \<Rightarrow> bool \<Rightarrow> string" where
  "tree_prefix depth last_at is_last has_kids =
     (if depth \<le> 0 then []
      else concat (map (\<lambda>a. if a < length last_at \<and> last_at ! a then ''  '' else box 0x82 @ '' '') [1..<nat depth]) @
           (if is_last then box 0x94 else box 0x9C) @ box 0x80 @ (if has_kids then box 0xAC else box 0x80) @ '' '')"

definition row_label :: "bot_tree_row \<Rightarrow> string" where
  "row_label r =
     (if tr_kind r = CHR ''h''
      then (if tr_name r = [] then ''(hub)'' else tr_name r) @ (if tr_online r then [] else '' (unlinked)'')
      else if tr_name r = [] then ''(unnamed)'' else tr_name r)"

definition row_uptime :: "env \<Rightarrow> bot_state \<Rightarrow> bot_tree_row \<Rightarrow> int" where
  "row_uptime e st r =
     (let t = e_now e; age = (if t - st_bot_tree_ts st < 0 then 0 else t - st_bot_tree_ts st) in
      if tr_kind r = CHR ''h'' \<and> \<not> tr_online r then 0
      else if tr_has_started r then (if tr_started r > 0 then t - tr_started r else 0)
      else tr_uptime r + age)"

definition bots_tree_row :: "env \<Rightarrow> bot_state \<Rightarrow> nat \<Rightarrow> bool list \<Rightarrow> bots_row \<times> bool list" where
  "bots_tree_row e st i last_at =
     (let r = st_bot_tree st ! i; is_last = tree_is_last st i;
          la = (if tr_depth r \<ge> 0 \<and> nat (tr_depth r) < length last_at
                then last_at[nat (tr_depth r) := is_last] else last_at) in
      (\<lparr>br_name = tree_prefix (tr_depth r) la is_last (tree_has_children st i) @ trunc (row_label r) (TREE_NAME_MAX + 32),
        br_version = bots_fmt_version (tr_version r) (tr_variant r),
        br_uptime = tree_fmt_uptime (row_uptime e st r),
        br_server = (if tr_kind r = CHR ''h'' then ''(hub)'' else if tr_server r = [] then ''-'' else tr_server r)\<rparr>, la))"

definition bots_self_row :: "env \<Rightarrow> bot_state \<Rightarrow> bots_row" where
  "bots_self_row e st =
     \<lparr>br_name = (if st_current_nick st = [] then ''me'' else st_current_nick st),
      br_version = bots_fmt_version (e_version e) BOT_UPDATE_VARIANT,
      br_uptime = tree_fmt_uptime (e_now e - st_bot_start_time st),
      br_server = (if is_connected st \<and> st_actual_server_name st \<noteq> []
                   then trunc (st_actual_server_name st) (TREE_SERVER_MAX + 1) else ''-'')\<rparr>"

definition bots_trusted_row :: "bot_state \<Rightarrow> nat \<Rightarrow> bots_row" where
  "bots_trusted_row st i =
     (let bnick = tb_nick (st_trusted_bots st ! i) in
      \<lparr>br_name = tree_prefix 1 [] (i + 1 = length (st_trusted_bots st)) False @
          (if bnick = [] then ''(unnamed)'' else bnick),
       br_version = ''-'', br_uptime = ''-'', br_server = ''-''\<rparr>)"

definition at_least :: "nat \<Rightarrow> nat \<Rightarrow> nat" where
  "at_least a b = (if a < b then b else a)"

definition bots_widen :: "nat \<times> nat \<times> nat \<Rightarrow> bots_row \<Rightarrow> nat \<times> nat \<times> nat" where
  "bots_widen cols c = (let (w1, w2, w3) = cols; n = display_width (br_name c) + BOTS_COL_GAP in
     (at_least w1 (if n > BOTS_NAME_COL_MAX then BOTS_NAME_COL_MAX else n),
      at_least w2 (display_width (br_version c) + BOTS_COL_GAP),
      at_least w3 (display_width (br_uptime c) + BOTS_COL_GAP)))"

definition bots_pad :: "nat \<Rightarrow> nat \<Rightarrow> nat \<Rightarrow> string" where
  "bots_pad col w cap =
     (let n = (if w + BOTS_COL_GAP \<le> col then col - w else BOTS_COL_GAP)
      in replicate (if n > cap - 1 then cap - 1 else n) (CHR '' ''))"

definition bots_line :: "nat \<times> nat \<times> nat \<Rightarrow> bots_row \<Rightarrow> string" where
  "bots_line cols c = (let (w1, w2, w3) = cols in
     ''| '' @ br_name c @ bots_pad w1 (display_width (br_name c)) (BOTS_NAME_COL_MAX + 1) @
     br_version c @ bots_pad w2 (display_width (br_version c)) (TREE_VERSION_MAX + 1 + BOTS_COL_GAP + 1) @
     br_uptime c @ bots_pad w3 (display_width (br_uptime c)) (32 + BOTS_COL_GAP + 1) @ br_server c)"

fun tree_rows :: "env \<Rightarrow> bot_state \<Rightarrow> bool list \<Rightarrow> nat list \<Rightarrow> bots_row list" where
  "tree_rows e st last_at [] = []"
| "tree_rows e st last_at (i # is) =
     (if tr_kind (st_bot_tree st ! i) = CHR ''d'' then tree_rows e st last_at is
      else case bots_tree_row e st i last_at of (r, la) \<Rightarrow> r # tree_rows e st la is)"

definition have_tree :: "bot_state \<Rightarrow> bool" where
  "have_tree st \<longleftrightarrow> st_bot_tree_ts st \<noteq> 0 \<and> st_bot_tree st \<noteq> []"

text \<open>Without a tree, the trusted bots, as many as the cap leaves beside the bot's own row.\<close>

definition bots_rows :: "env \<Rightarrow> bot_state \<Rightarrow> nat option \<Rightarrow> bots_row list" where
  "bots_rows e st cap =
     (if have_tree st
      then tree_rows e st (replicate (nat MAX_TREE_DEPTH + 1) False) [0..<length (st_bot_tree st)]
      else bots_self_row e st #
        cap_rows (map_option (\<lambda>k. k - 1) cap) (map (bots_trusted_row st) [0..<length (st_trusted_bots st)]))"

definition offline_word :: "env \<Rightarrow> string \<Rightarrow> bot_tree_row \<Rightarrow> string" where
  "offline_word e offline r = (if offline = [] then [] else '', '') @ (if tr_name r = [] then ''(unnamed)'' else tr_name r) @
     '' ('' @ (if tr_uptime r \<le> 0 then ''never'' else gm_time e (tr_uptime r) ''%Y-%m-%d %H:%M UTC'') @ '')''"

definition offline_step :: "env \<Rightarrow> string \<times> nat \<times> nat \<Rightarrow> bot_tree_row \<Rightarrow> string \<times> nat \<times> nat" where
  "offline_step e acc r = (case acc of (offline, listed, omitted) \<Rightarrow>
     let w = offline_word e offline r in
     if length offline + length w \<ge> 419 then (offline, listed, omitted + 1) else (offline @ w, listed + 1, omitted))"

definition bots_tail :: "env \<Rightarrow> bot_state \<Rightarrow> string \<Rightarrow> bot_state" where
  "bots_tail e st nick =
     (if have_tree st then
        (case foldl (offline_step e) ([], 0, 0) (filter (\<lambda>r. tr_kind r = CHR ''d'') (st_bot_tree st)) of
           (offline, listed, omitted) \<Rightarrow>
             let st1 = (if omitted > 0 then say e st nick (''| Disconnected: '' @ offline @ '' (+'' @ dec omitted @ '' more)'')
                        else if listed > 0 then say e st nick (''| Disconnected: '' @ offline) else st);
                 age = e_now e - st_bot_tree_ts st1
             in if age > BOT_TREE_STALE_AFTER
                then say e st1 nick (''| (hub last refreshed this '' @ tree_fmt_uptime age @ '' ago)'') else st1)
      else if st_hubs st \<noteq> [] then say e st nick ''| (no hub tree yet -- showing trusted bots only)'' else st)"

definition says :: "env \<Rightarrow> bot_state \<Rightarrow> string \<Rightarrow> string list \<Rightarrow> bot_state" where
  "says e st nick ls = foldl (\<lambda>s l. say e s nick l) st ls"

definition cmd_bots :: "env \<Rightarrow> bot_state \<Rightarrow> string \<Rightarrow> cmd_args \<Rightarrow> bot_state" where
  "cmd_bots e st nick a =
     (if ca_1 a \<noteq> None then say e st nick ''Syntax: bots''
      else
        let st1 = says e st nick [''| ircbot '' @ e_version e @ '' bots  [ version,  uptime,  irc server ]'', RULE];
            cap = reply_row_cap st1; rows = bots_rows e st1 cap;
            cols = foldl bots_widen (BOTS_NAME_COL_MIN, BOTS_VERSION_COL_MIN, BOTS_UPTIME_COL_MIN) rows;
            st2 = says e st1 nick (map (bots_line cols) rows);
            st3 = (if \<not> have_tree st2 \<and> st_trusted_bots st2 = [] then say e st2 nick ''| (no other bots known)'' else st2);
            omitted = (if have_tree st3 then 0 else length (st_trusted_bots st3) + 1 - length rows)
        in say e (bots_tail e (reply_rows_omitted e st3 nick omitted ''bots'') nick) nick FOOT)"

section \<open>The configured servers\<close>

definition last_colon :: "string \<Rightarrow> nat option" where
  "last_colon s = map_option (\<lambda>k. length s - 1 - k) (position ((=) (CHR '':'')) (rev s))"

definition server_parts :: "string \<Rightarrow> string \<times> string" where
  "server_parts s = (case last_colon s of
     Some c \<Rightarrow> if c + 1 < length s then (trunc (take c s) 256, drop (c + 1) s) else (trunc s 256, ''default'')
   | None \<Rightarrow> (trunc s 256, ''default''))"

definition server_width :: "bot_state \<Rightarrow> nat" where
  "server_width st = foldl at_least 8
     (map (\<lambda>s. case last_colon s of Some c \<Rightarrow> c | None \<Rightarrow> length s) (st_server_list st))"

definition server_marks :: "bot_state \<Rightarrow> nat option \<times> nat option" where
  "server_marks st =
     (let up = (if is_connected st then st_irc_server_idx st else None) in
      (up, if up = None then Some (if st_current_server_index st < length (st_server_list st)
                                   then st_current_server_index st else 0) else None))"

definition server_row :: "env \<Rightarrow> bot_state \<Rightarrow> nat \<Rightarrow> nat option \<times> nat option \<Rightarrow> nat \<Rightarrow> string" where
  "server_row e st w marks i =
     (let (host, port) = server_parts (st_server_list st ! i); held = server_block_desc e st i in
      ''| '' @ (if Some i = fst marks then ''*'' else if Some i = snd marks then ''>'' else '' '') @ '' '' @
      pad_right host w @ ''  port '' @ pad_right port 7 @ (if held = [] then [] else ''  ['' @ held @ '']''))"

definition server_note :: "nat \<Rightarrow> nat option \<Rightarrow> string" where
  "server_note shown up =
     (if shown = 0 then ''| (no servers configured)''
      else if up \<noteq> None then ''| '' @ q ''*'' @ '' connected, [..] on hold''
      else ''| not connected; '' @ q ''>'' @ '' tried next, [..] on hold'')"

fun say_servers :: "env \<Rightarrow> string \<Rightarrow> nat \<Rightarrow> nat option \<times> nat option \<Rightarrow> bot_state \<Rightarrow> nat list \<Rightarrow> bot_state" where
  "say_servers e nick w marks st [] = st"
| "say_servers e nick w marks st (i # is) =
     say_servers e nick w marks (say e st nick (server_row e st w marks i)) is"

definition cmd_servers :: "env \<Rightarrow> bot_state \<Rightarrow> string \<Rightarrow> bot_state" where
  "cmd_servers e st nick =
     (let w = server_width st; marks = server_marks st;
          n = (if length (st_server_list st) < BOT_STATUS_MAX_LINES then length (st_server_list st) else BOT_STATUS_MAX_LINES);
          st1 = says e st nick [''| ircbot '' @ e_version e @ '' servers'', RULE];
          st2 = say_servers e nick w marks st1 [0..<n]
      in says e st2 nick [server_note n (fst marks), FOOT])"

section \<open>Status\<close>

definition join_step :: "nat \<Rightarrow> string \<Rightarrow> string \<Rightarrow> string" where
  "join_step cap buf x =
     (let b = (if buf \<noteq> [] \<and> length buf + 2 + length x < cap - 1 then buf @ '', '' else buf)
      in if length b + length x < cap - 1 then b @ x else b)"

definition join_bounded :: "string list \<Rightarrow> nat \<Rightarrow> string" where
  "join_bounded xs cap = foldl (join_step cap) [] xs"

text \<open>\<open>emit_bot_names\<close>: the nicks in lines of at most 66 columns.\<close>

fun name_lines :: "string \<Rightarrow> string list \<Rightarrow> string list" where
  "name_lines line [] = (if line = [] then [] else [line])"
| "name_lines line (n # ns) =
     (let need = (if line = [] then length n else length n + 2) in
      if line \<noteq> [] \<and> length line + need > 66 then line # name_lines n ns
      else name_lines ((if line = [] then [] else line @ '', '') @ n) ns)"

definition emit_bot_names :: "env \<Rightarrow> bot_state \<Rightarrow> string \<Rightarrow> bot_state" where
  "emit_bot_names e st nick =
     (let n = length (st_trusted_bots st); ls = name_lines [] (map tb_nick (take 100 (st_trusted_bots st)));
          st1 = says e st nick (map (\<lambda>(i, l). (if i = 0 then ''| Bots   : '' else ''|          '') @ l) (enumerate 0 ls))
      in if n > 100 then say e st1 nick (''|          ...and '' @ dec (n - 100) @ '' more'') else st1)"

definition cur_server :: "bot_state \<Rightarrow> string option" where
  "cur_server st = (let i = st_current_server_index st in
     if i > 0 \<and> i - 1 < length (st_server_list st) then Some (st_server_list st ! (i - 1)) else None)"

definition status_network :: "bot_state \<Rightarrow> string" where
  "status_network st =
     (if st_actual_server_name st \<noteq> [] then
        let port = (case cur_server st of
               Some s \<Rightarrow> (case last_colon s of Some c \<Rightarrow> atoi (drop (c + 1) s) | None \<Rightarrow> 0)
             | None \<Rightarrow> 0)
        in if port > 0 then st_actual_server_name st @ '':'' @ dec_int port else st_actual_server_name st
      else case cur_server st of Some s \<Rightarrow> s | None \<Rightarrow> ''N/A'')"

definition status_conn :: "env \<Rightarrow> bot_state \<Rightarrow> string" where
  "status_conn e st =
     (if is_connected st then
        (if st_connection_time st > 0 then ''CONNECTED '' @ fmt_elapsed e (st_connection_time st) else ''CONNECTED'')
      else ''DISCONNECTED'')"

definition status_head :: "env \<Rightarrow> bool \<Rightarrow> bot_state \<Rightarrow> string list" where
  "status_head e tls st =
     [''| ircbot '' @ e_version e @ '' status'', RULE,
      ''| Identity : '' @ st_current_nick st @ '' (Target: '' @ st_target_nick st @ '') | UUID: '' @
        (if st_bot_uuid st = [] then ''none'' else st_bot_uuid st),
      (if st_self_pub_set st
       then ''| Pubkey   : '' @ e_b64 e (st_self_pub st) @ '' (fp '' @ key_fingerprint e (st_self_pub st) @ '')''
       else ''| Pubkey   : NONE (re-run -setup)''),
      ''| Uptime   : '' @ (if st_bot_start_time st > 0 then fmt_elapsed e (st_bot_start_time st) else ''N/A''),
      ''| Network  : '' @ trunc (status_network st) 300 @ '' ('' @ status_conn e st @ '', TLS: '' @
        (if tls then ''YES'' else ''NO'') @ '')'']"

definition bar_title :: "string \<Rightarrow> nat \<Rightarrow> string" where
  "bar_title t n = ''+-[ '' @ t @ '' ]'' @ replicate n (CHR ''-'')"

definition status_server :: "env \<Rightarrow> bot_state \<Rightarrow> nat \<Rightarrow> string" where
  "status_server e st i =
     (let cur = (st_current_server_index st > 0 \<and> i = st_current_server_index st - 1 \<and> is_connected st);
          held = server_block_desc e st i in
      trunc ((if cur then ''*'' else '' '') @ st_server_list st ! i @ (if held = [] then [] else '' ('') @ held @
        (if held = [] then [] else '')'')) 200)"

definition status_servers :: "env \<Rightarrow> bot_state \<Rightarrow> string \<Rightarrow> bot_state" where
  "status_servers e st nick =
     (if length (st_server_list st) > 1 then
        let st1 = say e st nick (bar_title ''Servers'' 63)
        in say e st1 nick (''| '' @ from_utf8_lossy
             (join_bounded (map (status_server e st1) [0..<length (st_server_list st1)]) 600))
      else st)"

text \<open>How much of the channel list goes on the next line of 68 columns: up to the last comma.\<close>

definition in_width :: "string \<Rightarrow> nat" where
  "in_width s =
     (if length s \<le> 68 then length s
      else case List.find (\<lambda>b. s ! (b - 1) = CHR '' '' \<and> b > 1 \<and> s ! (b - 2) = CHR '','') (rev [1..<69]) of
        Some b \<Rightarrow> b | None \<Rightarrow> 68)"

lemma in_width_pos: "s \<noteq> [] \<Longrightarrow> 0 < in_width s"
  by (auto simp: in_width_def find_Some_iff simp del: upt_Suc split: option.split)

function in_lines :: "string \<Rightarrow> string list" where
  "in_lines s = (if s = [] then [] else take (in_width s) s # in_lines (drop (in_width s) s))"
  by pat_completeness auto
termination
  by (relation "measure length") (auto simp: in_width_pos)

declare in_lines.simps [simp del]

definition status_chans :: "env \<Rightarrow> bot_state \<Rightarrow> string \<Rightarrow> bot_state" where
  "status_chans e st0 nick =
     (let st = say e st0 nick (bar_title ''Channels'' 63); cs = filter c_is_managed (st_chans st);
          ins = map (\<lambda>c. trunc ((if c_i_am_opped c then ''@'' else []) @ c_name c) 128) (filter (\<lambda>c. c_status c = CS_In) cs);
          outs = map c_name (filter (\<lambda>c. c_status c \<noteq> CS_In) cs);
          in_buf = join_bounded ins 800; out_buf = join_bounded outs 400;
          st1 = (if in_buf = [] then say e st nick ''| (IN)  (none)''
                 else says e st nick (map (\<lambda>(i, l). (if i = 0 then ''| (IN)  '' else ''|        '') @ from_utf8_lossy l)
                        (enumerate 0 (in_lines in_buf))))
      in if out_buf \<noteq> [] then say e st1 nick (''| (OUT) '' @ from_utf8_lossy out_buf) else st1)"

definition count_typ :: "bot_state \<Rightarrow> char \<Rightarrow> nat" where
  "count_typ st typ = length (filter (\<lambda>u. u_is_active u \<and> u_typ u = typ) (st_user_records st))"

definition hubs_step :: "string \<Rightarrow> hub_entry \<Rightarrow> string" where
  "hubs_step l h = (let l1 = (if l = [] then [] else l @ '', '') in
     if length l1 + length (he_addr h) < 299 then l1 @ he_addr h else l1)"

definition status_hub :: "env \<Rightarrow> bot_state \<Rightarrow> string" where
  "status_hub e st =
     (if st_hub_connected st \<and> st_current_hub st \<noteq> [] then
        (if st_hub_connect_time st > 0 \<and> st_hub_authenticated st
         then ''| Hub    : '' @ st_current_hub st @ '' (CONNECTED '' @ fmt_elapsed e (st_hub_connect_time st) @ '')''
         else ''| Hub    : '' @ st_current_hub st @ '' (CONNECTED)'')
      else ''| Hub    : DISCONNECTED'')"

definition status_tail :: "env \<Rightarrow> bot_state \<Rightarrow> string \<Rightarrow> bot_state" where
  "status_tail e st nick =
     (if st_hubs st \<noteq> [] then
        let st1 = say e st nick (bar_title ''Hub Config'' 61);
            st2 = says e st1 nick [status_hub e st1, ''| Hubs   : '' @ foldl hubs_step [] (st_hubs st1)];
            st3 = (if st_trusted_bots st2 = [] then say e st2 nick ''| Bots   : (none)'' else emit_bot_names e st2 nick)
        in say e st3 nick FOOT
      else if st_trusted_bots st \<noteq> []
      then say e (emit_bot_names e (say e st nick (bar_title ''Bots'' 67)) nick) nick FOOT
      else say e st nick FOOT)"

definition cmd_status :: "env \<Rightarrow> bool \<Rightarrow> bot_state \<Rightarrow> string \<Rightarrow> bot_state" where
  "cmd_status e tls st nick =
     (let st1 = says e st nick (status_head e tls st);
          st2 = status_chans e (status_servers e st1 nick) nick;
          st3 = says e st2 nick [bar_title ''Access Control'' 57,
                  ''| Admins : '' @ pad_right (dec (count_typ st (CHR ''a''))) 4 @ ''  Ops: '' @
                  dec (count_typ st (CHR ''o''))]
      in status_tail e st3 nick)"

section \<open>The log\<close>

definition DEFAULT_LOG_LINES :: int where "DEFAULT_LOG_LINES = 10"
definition MAX_LOG_LINES :: int where "MAX_LOG_LINES = 20"

definition log_show :: "cmd_args \<Rightarrow> int \<times> bool" where
  "log_show a = (case ca_2 a of
     None \<Rightarrow> (DEFAULT_LOG_LINES, False)
   | Some n \<Rightarrow>
       let k = (if atoi n \<le> 0 then DEFAULT_LOG_LINES else atoi n)
       in if k > MAX_LOG_LINES then (MAX_LOG_LINES, True) else (k, False))"

text \<open>\<open>log\<close> holds the lines of each level, newest last.\<close>

definition cmd_getlog :: "env \<Rightarrow> (nat \<Rightarrow> string list) \<Rightarrow> bot_state \<Rightarrow> string \<Rightarrow> cmd_args \<Rightarrow> bot_state" where
  "cmd_getlog e log st nick a = (case ca_1 a of
       None \<Rightarrow> say e st nick (''Syntax: getlog <level> [lines]. Levels are '' @ q ''msg'' @ '' '' @ q ''ctcp'' @ '' '' @
         q ''info'' @ '' '' @ q ''cmd'' @ '' '' @ q ''raw'' @ '' '' @ q ''debug'' @ ''. Default: '' @
         dec_int DEFAULT_LOG_LINES @ ''. Max: '' @ dec_int MAX_LOG_LINES @ ''.'')
     | Some level \<Rightarrow>
         (case position (eq_ic level) [''msg'', ''ctcp'', ''info'', ''cmd'', ''raw'', ''debug''] of
            None \<Rightarrow> say e st nick (''Error: Unknown log level '' @ q level @ ''.'')
          | Some bi \<Rightarrow>
              let (show_n, capped_n) = log_show a; ls = log bi; n = length ls;
                  k = (if n < nat show_n then n else nat show_n);
                  st1 = (if capped_n then say e st nick (''Warning: Line count capped at '' @ dec_int MAX_LOG_LINES @ ''.'') else st);
                  st2 = say e st1 nick (''--- Start of Log ('' @ level @ '') - Showing last '' @ dec k @ '' of '' @ dec n @ '' lines --- '');
                  st3 = says e st2 nick (rev (drop (n - k) ls))
              in say e st3 nick (''--- End of Log ('' @ level @ '') --- '')))"

end
