(* ===== verification/Help.thy ===== *)
theory Help
  imports Listings Settings
begin

text \<open>
  The help commands (\<open>src/src/commands.rs\<close>): the topic lists, the text of every topic, and what an
  oper sees of them.
\<close>

definition BOT_NAME :: string where "BOT_NAME = ''ircbot.rs by trojanman''"

definition KEYPAIR_LINES :: "string list" where
  "KEYPAIR_LINES =
     [''<pubkey> is the user'' @ [CHR 0x27] @
       ''s 88-char public key. The user makes a keypair on their own machine, keeps the '' @
       ''.private.b64 (chmod 600) for their IRC script, and sends you only the '' @
       ''.public.b64 contents:'',
      ''  keygen <name>     (ircbot/utils/keygen or irchub/bin/keygen; writes '' @
       ''<YYYYMMDDHHMMSS>_<name>.private.b64 and .public.b64)'',
      ''  or with openssl 1.1.1+:  umask 077; openssl genpkey -algorithm ED25519 -out '' @
       ''ed.pem; openssl genpkey -algorithm X25519 -out x.pem'',
      ''  (openssl pkey -in ed.pem -outform DER | tail -c 32; openssl pkey -in x.pem '' @
       ''-outform DER | tail -c 32) | openssl base64 -A > NAME.private.b64'',
      ''  (openssl pkey -in ed.pem -pubout -outform DER | tail -c 32; openssl pkey -in '' @
       ''x.pem -pubout -outform DER | tail -c 32) | openssl base64 -A > NAME.public.b64'',
      ''  shred -u ed.pem x.pem    (or rm -f; the .pem files hold the private key)'']"

definition AUTH_LINES :: "string list" where
  "AUTH_LINES =
     [''Admins and opers sign in with their Curve25519 key; there are no passwords. Use '' @
       ''a client script from ircbot/utils (irssi, hexchat, weechat, mIRC via '' @
       ''bot-auth.exe, or the bot-auth CLI) pointed at your .private.b64.'',
      ''On the first command to a bot the script sends a signed ~A2A request; the bot '' @
       ''answers with a ~A2K notice carrying its public key (the script shows its '' @
       ''fingerprint). Commands then travel sealed as ~A2 frames; as ~A2S, the bot'' @ [CHR 0x27] @
       ''s replies are sealed too (~A2R) and the script shows them decrypted, marked '' @
       ''with a lock.'',
      ''Compare that fingerprint once with this bot'' @ [CHR 0x27] @ ''s '' @ q ''status'' @
       '' or the hub console'' @ [CHR 0x27] @ ''s '' @ q ''bot list'' @ ''. After a bot '' @
       q ''rekey'' @ '', run /botforget <bot> so the script fetches the new key.'']"

definition HUB_ONLY_TOPICS :: "string list" where
  "HUB_ONLY_TOPICS =
     ['' |   die, jump, op, invite, status, givenick, chnick'',
      '' |   +server, -server, servers, bots, admins, opers, match, dcc'',
      '' |   +hub, -hub, rekey, saveconf, setlog, getlog, update, help, bans'',
      '' |   (hub-only-mutation mode: users, masks, keys, channels via the hub console)'']"

definition ALL_TOPICS :: "string list" where
  "ALL_TOPICS =
     ['' |   die, jump, op, invite, join, part, status, givenick, chnick'',
      '' |   +server, -server, servers, bots, admins, opers, match, dcc'',
      '' |   +admin, -admin, +oper, -oper, +usermask, -usermask, chkey'',
      '' |   +bot, -bot, +hub, -hub, rekey'',
      '' |   chanmode, chanset, +ban, -ban, bans'',
      '' |   saveconf, setlog, getlog, update, help'']"

definition HELP_TOPICS :: "(string \<times> string list) list" where
  "HELP_TOPICS =
     [(''die'', [''Syntax: die - Kills the bot process.'']),
      (''jump'', [''Syntax: jump [server] - Jump to the next IRC server, or to a specific server by '' @
       ''hostname (port-independent match). Servers that banned or throttled the bot are '' @
       ''skipped; naming one clears its hold and retries it now.'']),
      (''op'', [''Syntax: op <#channel> - Get operator status on a channel.'']),
      (''status'', [''Syntax: status - Show bot status.'']),
      (''givenick'', [''Syntax: givenick - Temporarily changes the bot nick to an alternate. Will try '' @
       ''to regain primary nick after 20 seconds until it accomplishes the task.'']),
      (''chnick'', [''Syntax: chnick <oldnick> <newnick> - Renames a bot, admin, or oper. Nicks must '' @
       ''be unique across all types. For bots, propagates the change via hub mesh.'']),
      (''+server'', [''Syntax: +server <irc.network.net:6667> - Add another irc server to the bot'' @ [CHR 0x27] @
       ''s server list. Port not required.'']),
      (''-server'', [''Syntax: -server <irc.network.net:6667> - Removes a server from the bot'' @ [CHR 0x27] @
       ''s server list. Specify server as it is listed in '' @ q ''status'' @ '' command.'']),
      (''servers'', [''Syntax: servers - List every configured IRC server and its port. '' @ q ''*'' @
       '' marks the one we are on, '' @ q ''>'' @
       '' the one selected, and [..] a ban or throttle hold.'']),
      (''bots'', [''Syntax: bots - Draw the bot tree: this bot'' @ [CHR 0x27] @
       ''s hub at the root, peer hubs beneath it, each hub'' @ [CHR 0x27] @ ''s bots under it.'',
       ''  Every row shows version with its code base (2.4.0 (c) or 2.4.0 (rs)), uptime '' @
       ''and IRC server (hubs show '' @ q ''(hub)'' @
       ''). Bots that are known but offline are listed last with their last-seen time. '' @
       ''With no hub, all trusted bots list on one branch.'']),
      (''admins'', [''Syntax: admins - List all admins.'']),
      (''opers'', [''Syntax: opers - List all opers.'']),
      (''+admin'', [''Syntax: +admin <name> <pubkey> <nick!user@host> - Add a named admin with a '' @
       ''first usermask. Name must be unique across admins and opers.''] @ KEYPAIR_LINES),
      (''-admin'', [''Syntax: -admin <name> - Remove admin and all their masks.'']),
      (''+oper'', [''Syntax: +oper <name> <pubkey> <nick!user@host> - Add a named oper with a first '' @
       ''usermask. Opers may use op, chkey (own key) and help.''] @ KEYPAIR_LINES),
      (''-oper'', [''Syntax: -oper <name> - Remove oper and all their masks.'']),
      (''+usermask'', [''Syntax: +usermask <name> <mask> - Add a usermask to admin or oper.'']),
      (''-usermask'', [''Syntax: -usermask <name> <mask> - Remove a specific usermask from admin or oper.'']),
      (''chkey'', [''Syntax: chkey <name> <pubkey> - Replace the public key of a named admin or oper '' @
       ''(UUID and usermasks are kept). Opers may only change their own key.''] @ KEYPAIR_LINES),
      (''chanmode'', [''Syntax: chanmode <#channel> [<modes> [args]|-] - Show, set or reset the channel'' @
       [CHR 0x27] @
       ''s stored modes (i m n p s t k l). +k takes a key and +l a limit (1..99999) as '' @
       ''arguments, left to right; '' @ q ''-'' @
       '' goes back to the network default (built-in +nt). The modes are applied once if '' @
       ''this bot is opped; with +enforcemodes the bots keep them. chkey <#channel> '' @
       ''<key> is chanmode <#channel> +k <key>.'']),
      (''+ban'', [''Syntax: +ban <#channel|*> <nick!user@host> [<minutes>|perm] [sticky] [reason] - '' @
       ''Add a network ban (permanent unless a time is given; '' @ q ''*'' @
       '' = every channel). Refused if the mask would hit a bot or an authorised user.'']),
      (''-ban'', [''Syntax: -ban <#channel|*> <nick!user@host> - Remove a network ban.'']),
      (''bans'', [''Syntax: bans [#channel|*] - List the network bans (all, or one channel'' @ [CHR 0x27] @
       ''s plus the '' @ q ''*'' @ '' ones).'']),
      (''invite'', [''Syntax: invite <#channel> - Invite yourself to a channel (asks the hub or a '' @
       ''trusted bot if this bot is not opped there).'']),
      (''auth'', AUTH_LINES),
      (''dcc'', [''Syntax: dcc - Open a DCC chat with this bot for long replies. The bot never '' @
       ''accepts connections: it sends a passive offer and connects out to the port your '' @
       ''client opens, so open your client'' @ [CHR 0x27] @
       ''s DCC port range in your firewall and set its DCC address to your public IP.'',
       ''Commands in the chat are still sealed: while it is open, the client script '' @
       ''seals what you type there (and /botcmd <bot> <command>) and the replies come '' @
       ''back there; anything unsealed closes it. A command sent by PRIVMSG is still '' @
       ''answered by PRIVMSG. Admins only.'']),
      (''match'', [''Syntax: match <name|*> - Show all records for a user, or * for all users.'']),
      (''+bot'', [''Syntax: +bot <nick!user@host> <uuid> <pubkey> - Standalone bots only '' @
       ''(hub-managed bots get peers from the hub): trust another bot for encrypted '' @
       ''bot-to-bot commands. Copy the UUID and Pubkey from that bot'' @ [CHR 0x27] @ ''s '' @
       q ''status'' @ '' (or its -setup output). The mask should be the one the network shows for it.'']),
      (''-bot'', [''Syntax: -bot <nick*!*user@hostmask.com> - Removes a bot from the known bot list '' @
       ''as shown in the '' @ q ''status'' @ '' command.'']),
      (''saveconf'', [''Syntax: saveconf - Immediately save config file.'']),
      (''setlog'', [''Syntax: setlog <loglevel> [maxbytes] - Set loglevel for output to a log file, '' @
       ''and optionally its size cap. 0=NONE,15=INFO,63=DEBUG.'']),
      (''update'', [''Syntax: update without argument shows available versions. Run with update <ver> '' @
       ''to download/compile/and update bot binary.'']),
      (''join'', [''Syntax: join <#channel> - Joins a channel.'']),
      (''part'', [''Syntax: part <#channel> - Parts a channel.'']),
      (''+hub'', [''Syntax: +hub <host:port> <pubkey-b64> - Add a hub and pin its Ed25519 pubkey '' @
       ''(44 or 88 char base64 from the hub'' @ [CHR 0x27] @ ''s hub_public.b64).'']),
      (''-hub'', [''Syntax: -hub <host:port> - Remove a configured hub.'']),
      (''rekey'', [''Syntax: rekey - Generate a new Curve25519 identity keypair locally, push the '' @
       ''new public key to the hub, and reconnect. UUID is unchanged. Requires an active '' @
       ''hub session. Clients holding the old key must re-auth (/botforget <bot>).''])]"

definition CHANSET_HELP :: "string list" where
  "CHANSET_HELP =
     [''Syntax: chanset <#channel|default> [+opt -opt ...] [<name> <value|default>] '' @
       ''[flood <type> <N:S|off|default>] - Show or change channel settings.'',
      ''  On/off options take +name or -name; the others take a value or '' @ q ''default'' @
       '' (inherit again); a flood takes N:S (more than N in S seconds), off or default. '' @
       ''Only unauthorised members are acted on, by an opped bot. Setting (built-in '' @
       ''default): what it does --'']"

definition help_header :: "env \<Rightarrow> bot_state \<Rightarrow> string \<Rightarrow> bot_state" where
  "help_header e st nick = says e st nick ['' | '' @ BOT_NAME @ '' '' @ e_version e @ '' help'', '' '' @ RULE, '' | '']"

definition help_footer :: "env \<Rightarrow> bot_state \<Rightarrow> string \<Rightarrow> bot_state" where
  "help_footer e st nick = says e st nick ['' |'', '' '' @ FOOT]"

text \<open>The settings, as \<open>help chanset\<close> lists them.\<close>

definition item_line :: "nat \<Rightarrow> string list" where
  "item_line i = (case (item_help i, item_name i True) of
     (Some (def, what), Some name) \<Rightarrow>
       [''  '' @ name @ '' ('' @ def @ '')'' @ (if item_name i False = None then '' [default only]'' else []) @ '': '' @ what]
   | _ \<Rightarrow> [])"

definition getlog_help :: string where
  "getlog_help = ''Syntax: getlog <loglevel> [lines]. Get latest logs for requested loglevel. Levels are '' @
     q ''msg'' @ '' '' @ q ''ctcp'' @ '' '' @ q ''info'' @ '' '' @ q ''cmd'' @ '' '' @ q ''raw'' @ '' '' @ q ''debug'' @
     ''. Default number of lines: '' @ dec_int DEFAULT_LOG_LINES @ ''. Max number of lines: '' @
     dec_int MAX_LOG_LINES @ ''.''"

definition admin_topic :: "string \<Rightarrow> string list" where
  "admin_topic t =
     (let l = lowers t in
      if l = ''chanset'' then CHANSET_HELP @ concat (map item_line [0..<CS_COUNT + FL_COUNT])
      else if l = ''getlog'' then [getlog_help]
      else case map_of HELP_TOPICS l of
        Some ls \<Rightarrow> ls | None \<Rightarrow> [''No help available for command '' @ q t @ ''.''])"

definition admin_help :: "env \<Rightarrow> bot_state \<Rightarrow> string \<Rightarrow> string option \<Rightarrow> bot_state" where
  "admin_help e st nick topic = (case topic of
       Some t \<Rightarrow> says e st nick (admin_topic t)
     | None \<Rightarrow>
         let st1 = help_header e st nick;
             st2 = says e st1 nick (if is_opt_set st1 OPT_HUB_ONLY_MUTATIONS then HUB_ONLY_TOPICS else ALL_TOPICS);
             st3 = say e st2 nick ('' |   '' @ q ''help auth'' @ '' explains how clients sign in with their key'')
         in help_footer e st3 nick)"

definition oper_topic :: "string \<Rightarrow> string list" where
  "oper_topic t =
     (if eq_ic t ''op'' then [''Syntax: op <#channel> - Get operator status on a channel.'']
      else if eq_ic t ''chkey'' then ''Syntax: chkey <yourname> <pubkey> - Replace your own public key.'' # KEYPAIR_LINES
      else if eq_ic t ''auth'' then AUTH_LINES
      else if eq_ic t ''help'' then [''Syntax: help [command] - Show available commands.'']
      else [''No help available for command '' @ q t @ ''.''])"

definition oper_help :: "env \<Rightarrow> bot_state \<Rightarrow> string \<Rightarrow> string option \<Rightarrow> bot_state" where
  "oper_help e st nick topic = (case topic of
       Some t \<Rightarrow> says e st nick (oper_topic t)
     | None \<Rightarrow> help_footer e (say e (help_header e st nick) nick '' |   op, chkey, help'') nick)"

end
