(* ===== verification/IrcNick.thy ===== *)
theory IrcNick
  imports Lww SendQ
begin

text \<open>
  The nick the bot asks the server for (\<open>src/src/irc_client.rs\<close>): a change of nick, the alternates
  tried one after another, and which lines are mere keepalives.
\<close>

definition attempt_nick_change :: "env \<Rightarrow> bot_state \<Rightarrow> string \<Rightarrow> bot_state" where
  "attempt_nick_change e st nick = (ircf e st (''NICK '' @ nick))\<lparr>st_last_nick_attempt := e_now e\<rparr>"

definition NICK_SUFFIXES :: string where
  "NICK_SUFFIXES = [CHR ''_'', CHR 0x60, CHR ''^'']"

text \<open>The characters of the target that may stand in a nick, at most eight bytes of them.\<close>

definition base_step :: "string \<Rightarrow> string \<Rightarrow> string" where
  "base_step base ch =
     (if length base \<ge> 8 then base
      else if is_rfc_nick (if base = [] then ch else CHR ''a'' # ch) then base @ ch else base)"

definition nick_base :: "string \<Rightarrow> string" where
  "nick_base target = (let b = foldl base_step [] (utf8_chars target) in if b = [] then ''bot'' else b)"

definition alternate_nick :: "string \<Rightarrow> nat \<Rightarrow> string option" where
  "alternate_nick target attempt =
     (if attempt < length NICK_SUFFIXES then Some (nick_base target @ [NICK_SUFFIXES ! attempt])
      else if attempt - length NICK_SUFFIXES < 10
      then Some (nick_base target @ dec (attempt - length NICK_SUFFIXES))
      else None)"

definition generate_new_nick :: "env \<Rightarrow> bot_state \<Rightarrow> bot_state" where
  "generate_new_nick e st = (case alternate_nick (st_target_nick st) (st_nick_generation_attempt st) of
       None \<Rightarrow> st\<lparr>st_nick_generation_attempt := 0\<rparr>
     | Some n \<Rightarrow>
         let nick = trunc n MAX_NICK in
         attempt_nick_change e (st\<lparr>st_current_nick := nick,
           st_nick_generation_attempt := st_nick_generation_attempt st + 1\<rparr>) nick)"

definition lstrip_spaces :: "string \<Rightarrow> string" where
  "lstrip_spaces = dropWhile (\<lambda>c. c = CHR '' '')"

definition line_is_keepalive :: "string \<Rightarrow> bool" where
  "line_is_keepalive line =
     (let l0 = lstrip_spaces line;
          l = (if take 1 l0 = '':'' then lstrip_spaces (dropWhile (\<lambda>c. c \<noteq> CHR '' '') l0) else l0) in
      length l \<ge> 4 \<and> (eq_ic (take 4 l) ''PING'' \<or> eq_ic (take 4 l) ''PONG'') \<and>
      (length l = 4 \<or> l ! 4 \<in> {CHR '' '', CHR '':'', CHR 0x0D}))"

end
