(* ===== verification/ChanCmd.thy ===== *)
theory ChanCmd
  imports Listings ChanModes Enf IrcNick
begin

text \<open>
  The channel commands of a network without a hub (\<open>src/src/chancmd.rs\<close>): \<open>chanmode\<close>, \<open>chanset\<close>,
  \<open>+ban\<close>, \<open>-ban\<close> and \<open>bans\<close>.  They write this bot's own C|, D| and B| records through the same
  codecs as the hub's lines, and check every ban against bots and authorised users first.
\<close>

section \<open>Targets\<close>

definition chan_refused :: "env \<Rightarrow> bot_state \<Rightarrow> string \<Rightarrow> string \<Rightarrow> bool \<times> bot_state" where
  "chan_refused e st nick cmd =
     (if admin_change_refused st then
        (True, say e st nick (''Error: '' @ q cmd @ '' is disabled -- network is in hub-only-mutation mode (opt '' @
           q ''h'' @ ''). Use the hub console.''))
      else (False, st))"

definition find_chan :: "env \<Rightarrow> bot_state \<Rightarrow> string \<Rightarrow> string \<Rightarrow> nat option \<times> bot_state" where
  "find_chan e st nick name =
     (if (take 1 name \<noteq> ''#'' \<and> take 1 name \<noteq> ''&'') \<or> length name \<ge> MAX_CHAN
      then (None, say e st nick ''Error: give a channel name (#channel).'')
      else case chan_find st name of
        Some ci \<Rightarrow>
          if c_is_managed (st_chans st ! ci) then (Some ci, st)
          else (None, say e st nick (''Error: '' @ name @ '' is not in my channel list.''))
      | None \<Rightarrow> (None, say e st nick (''Error: '' @ name @ '' is not in my channel list.'')))"

section \<open>Mode strings\<close>

definition key_ok :: "string \<Rightarrow> bool" where
  "key_ok k \<longleftrightarrow> k \<noteq> [] \<and> length k < MAX_KEY \<and>
     list_all (\<lambda>c. byte c > 0x20 \<and> byte c \<noteq> 0x7F \<and> c \<noteq> CHR '','' \<and> c \<noteq> CHR ''|'') k"

record parsed_modes =
  pm_stored :: string
  pm_key :: "string option"
  pm_key_clear :: bool

text \<open>The walk over the letters: what was seen, the text so far, the arguments left.\<close>

record mode_walk =
  mw_seen :: "string list"
  mw_letters :: string
  mw_sign :: "char option"
  mw_args :: "string list"
  mw_limit :: int
  mw_key :: "string option"
  mw_key_clear :: bool
  mw_adding :: bool
  mw_s :: bool
  mw_p :: bool

definition mode_limit :: "string \<Rightarrow> int option" where
  "mode_limit a =
     (let digits = (if take 1 a = ''+'' \<or> take 1 a = ''-'' then drop 1 a else a) in
      if length a \<le> 5 \<and> digits \<noteq> [] \<and> list_all is_digit digits then
        (case parse_i64 a of Some v \<Rightarrow> if 1 \<le> v \<and> v \<le> 99999 then Some v else None | None \<Rightarrow> None)
      else None)"

definition mode_arg :: "string \<Rightarrow> mode_walk \<Rightarrow> string + mode_walk" where
  "mode_arg m w =
     (if m = ''k'' \<and> mw_adding w then
        (case mw_args w of
           a # as \<Rightarrow>
             if key_ok a then Inr (w\<lparr>mw_key := Some a, mw_args := as\<rparr>)
             else Inl (''+k needs a key (1..'' @ dec (MAX_KEY - 1) @ '' bytes, no space, comma or control character)'')
         | [] \<Rightarrow> Inl (''+k needs a key (1..'' @ dec (MAX_KEY - 1) @ '' bytes, no space, comma or control character)''))
      else if m = ''k'' then Inr (w\<lparr>mw_key_clear := True\<rparr>)
      else if m = ''l'' \<and> mw_adding w then
        (case mw_args w of
           [] \<Rightarrow> Inl ''+l needs a limit (1..99999)''
         | a # as \<Rightarrow>
             (case mode_limit a of
                Some v \<Rightarrow> Inr (w\<lparr>mw_limit := v, mw_args := as\<rparr>)
              | None \<Rightarrow> Inl ''the limit must be 1..99999''))
      else Inr w)"

definition parse_mode_letter :: "string \<Rightarrow> mode_walk \<Rightarrow> string + mode_walk" where
  "parse_mode_letter m w =
     (if m = ''+'' \<or> m = ''-'' then Inr (w\<lparr>mw_adding := (m = ''+'')\<rparr>)
      else if m \<notin> {''i'', ''m'', ''n'', ''p'', ''s'', ''t'', ''k'', ''l''}
      then Inl (q m @ '' is not a channel mode I manage (i m n p s t k l)'')
      else if m \<in> set (mw_seen w) then Inl (q m @ '' given twice'')
      else if length (mw_letters w) + 3 \<ge> 40 then Inl ''mode string too long''
      else
        let want = (if mw_adding w then CHR ''+'' else CHR ''-'');
            w1 = w\<lparr>mw_seen := m # mw_seen w,
                   mw_letters := mw_letters w @ (if mw_sign w \<noteq> Some want then [want] else []) @ m,
                   mw_sign := Some want,
                   mw_s := mw_s w \<or> (mw_adding w \<and> m = ''s''), mw_p := mw_p w \<or> (mw_adding w \<and> m = ''p'')\<rparr>
        in mode_arg m w1)"

fun mode_walk_all :: "string list \<Rightarrow> mode_walk \<Rightarrow> string + mode_walk" where
  "mode_walk_all [] w = Inr w"
| "mode_walk_all (m # ms) w = (case parse_mode_letter m w of Inl err \<Rightarrow> Inl err | Inr w1 \<Rightarrow> mode_walk_all ms w1)"

definition walk_start :: "string list \<Rightarrow> mode_walk" where
  "walk_start args = \<lparr>mw_seen = [], mw_letters = [], mw_sign = None, mw_args = args, mw_limit = 0, mw_key = None,
     mw_key_clear = False, mw_adding = True, mw_s = False, mw_p = False\<rparr>"

definition parse_modes :: "string \<Rightarrow> string list \<Rightarrow> string + parsed_modes" where
  "parse_modes modes args =
     (case mode_walk_all (utf8_chars modes) (walk_start args) of
        Inl err \<Rightarrow> Inl err
      | Inr w \<Rightarrow>
          let kept = (if mw_limit w > 0 then mw_letters w @ '' '' @ dec_int (mw_limit w) else mw_letters w) in
          if mw_letters w = [] then Inl ''no modes given''
          else if mw_args w \<noteq> [] then Inl ''wrong number of arguments for the modes''
          else if mw_s w \<and> mw_p w then Inl ''+s and +p together are refused''
          else if length kept > C_MODES_MAX then Inl ''mode string too long''
          else Inr \<lparr>pm_stored = kept, pm_key = mw_key w, pm_key_clear = mw_key_clear w\<rparr>)"

section \<open>chanmode\<close>

definition show_modes :: "env \<Rightarrow> bot_state \<Rightarrow> string \<Rightarrow> nat \<Rightarrow> bot_state" where
  "show_modes e st nick ci =
     (let c = st_chans st ! ci in
      say e st nick (trunc (c_name c @ '': stored modes '' @ get_modes st (Some c) @
        (if c_cfg_active c \<and> c_cfg_ts c > 0 \<and> c_cfg_modes c \<noteq> [] then [] else '' (default)'') @ '', key '' @
        (if c_key c = [] then ''none'' else ''set'') @ '', '' @
        (if get st (Some c) EnforceModes \<noteq> 0 then ''+enforcemodes'' else ''-enforcemodes'')) 256))"

definition new_chan_key :: "parsed_modes \<Rightarrow> chan \<Rightarrow> string" where
  "new_chan_key p c = (case pm_key p of
     Some k \<Rightarrow> k | None \<Rightarrow> if pm_key_clear p then [] else c_key c)"

definition chanmode_apply :: "env \<Rightarrow> bot_state \<Rightarrow> string \<Rightarrow> nat \<Rightarrow> string \<Rightarrow> bot_state" where
  "chanmode_apply e st nick ci kept =
     (let shown = (if kept = [] then ''network default'' else kept); c = st_chans st ! ci; name = c_name c;
          st1 = (if c_status c = CS_In \<and> c_i_am_opped c then
                   (case apply_stored e st ci of
                      ((r, note), s) \<Rightarrow> say e s nick (name @ '': modes stored ('' @ shown @ '') and applied: '' @
                        (if r < 0 then ''could not apply'' else trunc note 64) @ ''.''))
                 else say e st nick (name @ '': modes stored ('' @ shown @ ''); not applied, I am not opped there.''))
      in if CHR ''l'' \<in> set kept \<and> get st1 (chan_at st1 ci) DynamicLimit \<noteq> 0
         then say e st1 nick ''Warning: +dynamiclimit is on and overrides the fixed limit.'' else st1)"

definition chanmode_store :: "env \<Rightarrow> bot_state \<Rightarrow> string \<Rightarrow> nat \<Rightarrow> parsed_modes \<Rightarrow> bot_state" where
  "chanmode_store e st nick ci p =
     (let c = st_chans st ! ci; key = new_chan_key p c; changed = (key \<noteq> c_key c);
          st1 = upd_chan st ci (\<lambda>c. c\<lparr>c_key := key\<rparr>) in
      case local_c e st1 ci (pm_stored p) (c_cfg_settings c) of
        (False, st2) \<Rightarrow> say e (upd_chan st2 ci (\<lambda>d. d\<lparr>c_key := c_key c\<rparr>)) nick ''Error: could not store the modes.''
      | (True, st2) \<Rightarrow>
          let st3 = (if changed
                     then push_config e (upd_chan st2 ci (\<lambda>c. c\<lparr>c_timestamp := lww_next_ts (e_now e) (c_timestamp c)\<rparr>))
                     else st2)
          in chanmode_apply e st3 nick ci (pm_stored p))"

definition back_to_default :: parsed_modes where
  "back_to_default = \<lparr>pm_stored = [], pm_key = None, pm_key_clear = False\<rparr>"

definition chanmode :: "env \<Rightarrow> bot_state \<Rightarrow> string \<Rightarrow> string option \<Rightarrow> bot_state" where
  "chanmode e st nick args =
     (case chan_refused e st nick ''chanmode'' of
        (True, st1) \<Rightarrow> st1
      | (False, st1) \<Rightarrow>
          (case tokens '' '' (opt_bytes args) of
             [] \<Rightarrow> say e st1 nick ''Syntax: chanmode <#channel> [<modes> [args]|-]''
           | name # rest \<Rightarrow>
               (case find_chan e st1 nick name of
                  (None, st2) \<Rightarrow> st2
                | (Some ci, st2) \<Rightarrow>
                    (case rest of
                       [] \<Rightarrow> show_modes e st2 nick ci
                     | modes # av \<Rightarrow>
                         if length av > 8 then say e st2 nick ''Error: too many arguments.''
                         else (case (if modes = ''-'' \<and> av = [] then Inr back_to_default else parse_modes modes av) of
                             Inl err \<Rightarrow> say e st2 nick (''Error: bad mode: '' @ err @ ''.'')
                           | Inr p \<Rightarrow> chanmode_store e st2 nick ci p)))))"

section \<open>chanset\<close>

definition setting_item :: "bot_state \<Rightarrow> chan option \<Rightarrow> nat \<Rightarrow> string option" where
  "setting_item st c i = map_option (\<lambda>name. name @ ''='' @
     (if i < CS_COUNT then dec_int (get st c (cset_all ! i))
      else case get_flood st c (flood_all ! (i - CS_COUNT)) of
        Some (n, s) \<Rightarrow> dec_int n @ '':'' @ dec_int s | None \<Rightarrow> ''off'') @
     ''('' @ [''bnc'' ! item_source st c i] @ '')  '') (item_name i (c = None))"

definition add_item :: "string list \<times> string \<Rightarrow> string \<Rightarrow> string list \<times> string" where
  "add_item acc item = (case acc of (rows, row) \<Rightarrow>
     if length row + length item \<ge> 360 then (rows @ [row], item) else (rows, row @ item))"

definition settings_rows :: "bot_state \<Rightarrow> chan option \<Rightarrow> string list" where
  "settings_rows st c =
     (case foldl add_item ([], []) (List.map_filter (setting_item st c) [0..<CS_COUNT + FL_COUNT]) of
        (rows, row) \<Rightarrow> if row = [] then rows else rows @ [row])"

definition set_target :: "bot_state \<Rightarrow> nat option \<Rightarrow> string" where
  "set_target st ci = (case ci of Some i \<Rightarrow> c_name (st_chans st ! i) | None \<Rightarrow> ''default'')"

definition show_settings :: "env \<Rightarrow> bot_state \<Rightarrow> string \<Rightarrow> nat option \<Rightarrow> bot_state" where
  "show_settings e st nick ci =
     (let rows = settings_rows st (map_option (\<lambda>i. st_chans st ! i) ci) in
      says e st nick ((''Settings for '' @ set_target st ci @ '' (c = channel, n = network default, b = built-in):'') # rows))"

text \<open>One edit of the argument line: the item, its value, and what is left; or the reply that ends it.\<close>

definition two_args :: "string list \<Rightarrow> (string \<times> string \<times> string list) option" where
  "two_args ts = (case ts of typ # v # rest \<Rightarrow> if length typ \<le> 8 then Some (typ, v, rest) else None | _ \<Rightarrow> None)"

definition set_edit :: "bool \<Rightarrow> string \<Rightarrow> string list \<Rightarrow> string + string \<times> string \<times> string list" where
  "set_edit net tk ts =
     (if (take 1 tk = ''+'' \<or> take 1 tk = ''-'') \<and> length tk > 1 then
        (if setting_is_flag (drop 1 tk) then Inr (drop 1 tk, if take 1 tk = ''+'' then ''1'' else ''0'', ts)
         else Inl (''Error: '' @ q (drop 1 tk) @ '' is not an on/off option; give it a value.''))
      else if eq_ic tk ''key'' then Inl ''Error: the key moved: use chanmode <#channel> +k <key>.''
      else if tk = ''flood'' then
        (case two_args ts of
           None \<Rightarrow> Inl ''Syntax: flood <type> <N:S|off|default>''
         | Some (typ, v, rest) \<Rightarrow>
             Inr ((if net \<and> typ \<in> {''cmd'', ''msg''} then ''bflood'' else ''flood'') @ '' '' @ typ, v, rest))
      else if tk = ''bflood'' \<and> net then
        (case two_args ts of
           None \<Rightarrow> Inl ''Syntax: bflood <cmd|msg|ctcp> <N:S|off|default>''
         | Some (typ, v, rest) \<Rightarrow> Inr (''bflood '' @ typ, v, rest))
      else case ts of
        [] \<Rightarrow> Inl (''Error: '' @ q tk @ '' needs a value.'')
      | v # rest \<Rightarrow> Inr (tk, v, rest))"

fun set_edits :: "nat \<Rightarrow> bool \<Rightarrow> string \<Rightarrow> nat \<Rightarrow> string list \<Rightarrow> string + string \<times> nat" where
  "set_edits 0 net sets n ts = Inr (sets, n)"
| "set_edits (Suc k) net sets n ts = (case ts of
       [] \<Rightarrow> Inr (sets, n)
     | tk # rest \<Rightarrow>
         (case set_edit net tk rest of
            Inl msg \<Rightarrow> Inl msg
          | Inr (item, val, rest1) \<Rightarrow>
              (case settings_edit sets (D_SETTINGS_MAX + 1) net item val of
                 Inl why \<Rightarrow> Inl (''Error: '' @ why @ ''.'')
               | Inr sets1 \<Rightarrow> set_edits k net sets1 (n + 1) rest1)))"

definition chanset_store :: "env \<Rightarrow> bot_state \<Rightarrow> string \<Rightarrow> nat option \<Rightarrow> string \<Rightarrow> nat \<Rightarrow> bot_state" where
  "chanset_store e st nick ci sets n =
     (case (case ci of None \<Rightarrow> local_d e st (st_net_modes st) sets
                     | Some i \<Rightarrow> local_c e st i (c_cfg_modes (st_chans st ! i)) sets) of
        (False, st1) \<Rightarrow> say e st1 nick ''Error: could not store the settings.''
      | (True, st1) \<Rightarrow> say e st1 nick (set_target st1 ci @ '': '' @ dec n @ '' setting'' @ (if n = 1 then [] else ''s'') @
          '' changed (now: '' @ (if sets = [] then ''all built-in'' else sets) @ '').''))"

text \<open>Every edit takes a token, so their number is fuel enough.\<close>

definition chanset_edit :: "env \<Rightarrow> bot_state \<Rightarrow> string \<Rightarrow> nat option \<Rightarrow> string list \<Rightarrow> bot_state" where
  "chanset_edit e st nick ci ts =
     (let sets = (case ci of Some i \<Rightarrow> c_cfg_settings (st_chans st ! i) | None \<Rightarrow> st_net_settings st) in
      case set_edits (length ts) (ci = None) sets 0 ts of
        Inl msg \<Rightarrow> say e st nick msg
      | Inr (sets1, n) \<Rightarrow> if n = 0 then st else chanset_store e st nick ci sets1 n)"

definition set_chan :: "env \<Rightarrow> bot_state \<Rightarrow> string \<Rightarrow> string \<Rightarrow> nat option option \<times> bot_state" where
  "set_chan e st nick name =
     (if eq_ic name ''default'' then (Some None, st)
      else case find_chan e st nick name of (None, st1) \<Rightarrow> (None, st1) | (Some ci, st1) \<Rightarrow> (Some (Some ci), st1))"

definition chanset :: "env \<Rightarrow> bot_state \<Rightarrow> string \<Rightarrow> string option \<Rightarrow> bot_state" where
  "chanset e st nick args =
     (case chan_refused e st nick ''chanset'' of
        (True, st1) \<Rightarrow> st1
      | (False, st1) \<Rightarrow>
          (case tokens '' '' (opt_bytes args) of
             [] \<Rightarrow> say e st1 nick (''Syntax: chanset <#channel|default> [+opt -opt ...] [<name> <value|default>] '' @
               ''[flood <type> <N:S|off|default>]'')
           | name # rest \<Rightarrow>
               (case set_chan e st1 nick name of
                  (None, st2) \<Rightarrow> st2
                | (Some ci, st2) \<Rightarrow>
                    if rest = [] then show_settings e st2 nick ci else chanset_edit e st2 nick ci rest)))"

section \<open>Bans\<close>

definition mask_ok :: "string \<Rightarrow> bool" where
  "mask_ok m \<longleftrightarrow> length m \<ge> 5 \<and> length m \<le> BAN_MASK_MAX \<and> CHR ''|'' \<notin> set m \<and>
     (case position ((=) (CHR ''!'')) m of Some b \<Rightarrow> CHR ''@'' \<in> set (drop b m) | None \<Rightarrow> False)"

definition ban_chan :: "env \<Rightarrow> bot_state \<Rightarrow> string \<Rightarrow> string \<Rightarrow> nat option option \<times> bot_state" where
  "ban_chan e st nick name =
     (if name = ''*'' then (Some None, st)
      else case find_chan e st nick name of (None, st1) \<Rightarrow> (None, st1) | (Some ci, st1) \<Rightarrow> (Some (Some ci), st1))"

definition user_name :: "bot_state \<Rightarrow> nat \<Rightarrow> string" where
  "user_name st who = (if who < length (st_user_records st) then u_name (st_user_records st ! who) else ''admin'')"

definition first_word :: "string \<Rightarrow> string" where
  "first_word = takeWhile (\<lambda>c. c \<noteq> CHR '' '')"

text \<open>The optional minutes: how long, and what follows; nothing when they are out of range.\<close>

definition ban_time :: "env \<Rightarrow> string \<Rightarrow> (int \<times> string) option" where
  "ban_time e p0 =
     (let p = lstrip_spaces p0; w = first_word p; rest = drop (length w) p in
      if w = [] \<or> length w \<ge> 16 then Some (0, p)
      else if w = ''perm'' then Some (0, rest)
      else if list_all is_digit w \<and> length w \<le> 6 then
        (let mins = int (digits_val w) in
         if 1 \<le> mins \<and> mins \<le> 525600 then Some (e_now e + mins * 60, rest) else None)
      else Some (0, p))"

definition ban_sticky :: "string \<Rightarrow> bool \<times> string" where
  "ban_sticky p0 = (let p = lstrip_spaces p0 in
     if first_word p = ''sticky'' then (True, lstrip_spaces (drop 6 p)) else (False, p))"

fun chans_allow :: "env \<Rightarrow> string \<Rightarrow> nat list \<Rightarrow> bot_state \<Rightarrow> (string + unit) \<times> bot_state" where
  "chans_allow e m [] st = ban_allowed_why e st None m"
| "chans_allow e m (k # ks) st =
     (if c_is_managed (st_chans st ! k) then
        (case ban_allowed_why e st (Some k) m of
           (Inl hit, st1) \<Rightarrow> (Inl hit, st1) | (Inr _, st1) \<Rightarrow> chans_allow e m ks st1)
      else chans_allow e m ks st)"

definition ban_verdict :: "env \<Rightarrow> bot_state \<Rightarrow> nat option \<Rightarrow> string \<Rightarrow> (string + unit) \<times> bot_state" where
  "ban_verdict e st target m = (case target of
     Some ci \<Rightarrow> ban_allowed_why e st (Some ci) m
   | None \<Rightarrow> chans_allow e m [0..<length (st_chans st)] st)"

definition ban_name :: "bot_state \<Rightarrow> nat option \<Rightarrow> string" where
  "ban_name st target = (case target of Some ci \<Rightarrow> c_name (st_chans st ! ci) | None \<Rightarrow> ''*'')"

definition ban_store_cmd ::
  "env \<Rightarrow> bot_state \<Rightarrow> string \<Rightarrow> nat \<Rightarrow> nat option \<Rightarrow> string \<Rightarrow> int \<Rightarrow> bool \<Rightarrow> string \<Rightarrow> bot_state" where
  "ban_store_cmd e st nick who target m expires sticky reason =
     (case ban_verdict e st target m of
        (Inl hit, st1) \<Rightarrow> say e st1 nick (''Refused: '' @ m @ '' would hit '' @ trunc hit 128 @
          '' -- a bot or an authorised user is never banned.'')
      | (Inr _, st1) \<Rightarrow>
          (case local_ban e st1 (ban_name st1 target) m expires (if sticky then ''s'' else []) (user_name st1 who) reason False of
             (False, st2) \<Rightarrow> say e st2 nick ''Error: ban not stored (list full or bad value).''
           | (True, st2) \<Rightarrow> say e st2 nick (''Ban added: '' @ ban_name st1 target @ '' '' @ m @ '' ('' @
               (if expires \<noteq> 0 then ''timed'' else ''permanent'') @ (if sticky then '', sticky'' else []) @ '').'')))"

definition cmd_ban_add :: "env \<Rightarrow> bot_state \<Rightarrow> string \<Rightarrow> nat \<Rightarrow> string option \<Rightarrow> bot_state" where
  "cmd_ban_add e st nick who args =
     (case chan_refused e st nick ''+ban'' of
        (True, st1) \<Rightarrow> st1
      | (False, st1) \<Rightarrow>
          (case second_word (opt_bytes args) of
             None \<Rightarrow> say e st1 nick ''Syntax: +ban <#channel|*> <nick!user@host> [<minutes>|perm] [sticky] [reason]''
           | Some (ch, m, rest) \<Rightarrow>
               (case ban_chan e st1 nick ch of
                  (None, st2) \<Rightarrow> st2
                | (Some target, st2) \<Rightarrow>
                    if \<not> mask_ok m
                    then say e st2 nick ''Error: the mask must look like nick!user@host (wildcards allowed).''
                    else (case ban_time e rest of
                        None \<Rightarrow> say e st2 nick ''Error: minutes must be 1..525600 (or perm).''
                      | Some (expires, p) \<Rightarrow>
                          (case ban_sticky p of (sticky, reason) \<Rightarrow>
                             ban_store_cmd e st2 nick who target m expires sticky reason)))))"

definition cmd_ban_del :: "env \<Rightarrow> bot_state \<Rightarrow> string \<Rightarrow> nat \<Rightarrow> string option \<Rightarrow> bot_state" where
  "cmd_ban_del e st nick who args =
     (case chan_refused e st nick ''-ban'' of
        (True, st1) \<Rightarrow> st1
      | (False, st1) \<Rightarrow>
          (case second_word (opt_bytes args) of
             None \<Rightarrow> say e st1 nick ''Syntax: -ban <#channel|*> <nick!user@host>''
           | Some (ch, m, _) \<Rightarrow>
               (case ban_chan e st1 nick ch of
                  (None, st2) \<Rightarrow> st2
                | (Some target, st2) \<Rightarrow>
                    let cn = ban_name st2 target;
                        (gone, st3) = (if ban_get st2 cn m = None then (False, st2)
                          else local_ban e st2 cn m 0 [] (user_name st2 who) [] True)
                    in if gone then say e st3 nick (''Ban removed: '' @ cn @ '' '' @ m @ ''.'')
                       else say e st3 nick (''Error: no ban '' @ m @ '' on '' @ cn @ ''.''))))"

definition BANS_ROWS :: nat where "BANS_ROWS = 30"

definition ban_shown :: "env \<Rightarrow> string option \<Rightarrow> cfg_ban \<Rightarrow> bool" where
  "ban_shown e ch b \<longleftrightarrow> b_active b \<and>
     (case ch of Some c \<Rightarrow> eq_ic (b_chan b) c \<or> b_chan b = ''*'' | None \<Rightarrow> True) \<and>
     \<not> (b_expires b \<noteq> 0 \<and> b_expires b \<le> e_now e)"

definition ban_row :: "env \<Rightarrow> cfg_ban \<Rightarrow> string" where
  "ban_row e b = b_chan b @ '' '' @ b_mask b @ '' '' @
     (if b_expires b \<noteq> 0 then dec_int ((b_expires b - e_now e + 59) div 60) @ ''m'' else ''perm'') @
     (if CHR ''s'' \<in> set (b_flags b) then '' sticky'' else []) @ '' by '' @ b_setter b @
     (if b_reason b = [] then [] else '': '') @ b_reason b"

definition bans_cmd :: "env \<Rightarrow> bot_state \<Rightarrow> string \<Rightarrow> string option \<Rightarrow> bot_state" where
  "bans_cmd e st nick args =
     (let bs = filter (ban_shown e (fst (tok_next '' '' (opt_bytes args)))) (st_cfg_bans st);
          rows = map (ban_row e) (take BANS_ROWS bs);
          st1 = says e st nick rows
      in if bs = [] then say e st1 nick ''No network bans.''
         else if length bs > length rows then say e st1 nick (''... and '' @ dec (length bs - length rows) @ '' more.'')
         else st1)"

end
