(* ===== verification/Dcc.thy ===== *)
theory Dcc
  imports Listings
begin

text \<open>
  DCC chats (\<open>src/src/dcc.rs\<close>), which only ever connect out: the passive offer an admin asked for,
  the reply that completes it, and the time limits.  Addresses are parsed as \<open>std::net\<close> does.  The
  socket layer is an argument: \<open>dial\<close> answers a connection attempt with its error, if any.
\<close>

section \<open>Addresses\<close>

datatype ip = V4 "32 word" | V6 "16 word list"

definition hex_digit_val :: "char \<Rightarrow> nat option" where
  "hex_digit_val c = (if is_digit c then Some (digit_val c)
     else if 97 \<le> byte c \<and> byte c \<le> 102 then Some (byte c - 87)
     else if 65 \<le> byte c \<and> byte c \<le> 70 then Some (byte c - 55) else None)"

definition radix_digit :: "nat \<Rightarrow> char \<Rightarrow> bool" where
  "radix_digit base c = (case hex_digit_val c of Some v \<Rightarrow> v < base | None \<Rightarrow> False)"

text \<open>A number in base 10 or 16: all the digits there are, at most \<open>n\<close> of them, below a bound.\<close>

definition read_num :: "nat \<Rightarrow> nat \<Rightarrow> bool \<Rightarrow> nat \<Rightarrow> string \<Rightarrow> (nat \<times> string) option" where
  "read_num base n zero_ok bound s =
     (let ds = takeWhile (radix_digit base) s;
          v = foldl (\<lambda>a c. base * a + (case hex_digit_val c of Some d \<Rightarrow> d | None \<Rightarrow> 0)) 0 ds in
      if ds = [] \<or> length ds > n \<or> \<not> zero_ok \<and> hd ds = CHR ''0'' \<and> length ds > 1 \<or> v \<ge> bound then None
      else Some (v, drop (length ds) s))"

definition read_char :: "char \<Rightarrow> string \<Rightarrow> string option" where
  "read_char c s = (if take 1 s = [c] then Some (drop 1 s) else None)"

fun read_octets :: "nat \<Rightarrow> string \<Rightarrow> (nat list \<times> string) option" where
  "read_octets 0 s = Some ([], s)"
| "read_octets (Suc n) s = (case read_num 10 3 False 256 s of
     None \<Rightarrow> None
   | Some (v, r) \<Rightarrow>
       (case (if n = 0 then Some r else read_char (CHR ''.'') r) of
          None \<Rightarrow> None
        | Some r1 \<Rightarrow> map_option (\<lambda>(vs, r2). (v # vs, r2)) (read_octets n r1)))"

definition v4_of :: "nat list \<Rightarrow> 32 word" where
  "v4_of os = foldl (\<lambda>a v. push_bit 8 a OR word_of_nat v) 0 os"

definition parse_v4 :: "string \<Rightarrow> 32 word option" where
  "parse_v4 s = (case read_octets 4 s of Some (os, []) \<Rightarrow> Some (v4_of os) | _ \<Rightarrow> None)"

text \<open>Groups of an IPv6 address, from index \<open>i\<close> of \<open>limit\<close>; an embedded IPv4 ends them.\<close>

definition after_sep :: "nat \<Rightarrow> string \<Rightarrow> string option" where
  "after_sep i s = (if i = 0 then Some s else read_char (CHR '':'') s)"

definition group_v4 :: "nat \<Rightarrow> nat \<Rightarrow> string \<Rightarrow> (nat list \<times> string) option" where
  "group_v4 i limit s = (if Suc i < limit then
     (case after_sep i s of Some r \<Rightarrow> read_octets 4 r | None \<Rightarrow> None) else None)"

fun read_groups :: "nat \<Rightarrow> nat \<Rightarrow> nat \<Rightarrow> string \<Rightarrow> 16 word list \<times> bool \<times> string" where
  "read_groups 0 i limit s = ([], False, s)"
| "read_groups (Suc n) i limit s = (case group_v4 i limit s of
     Some (os, r) \<Rightarrow> ([word_of_nat (256 * os ! 0 + os ! 1), word_of_nat (256 * os ! 2 + os ! 3)], True, r)
   | None \<Rightarrow>
       (case (case after_sep i s of Some r \<Rightarrow> read_num 16 4 True 65536 r | None \<Rightarrow> None) of
          None \<Rightarrow> ([], False, s)
        | Some (v, r) \<Rightarrow> (case read_groups n (Suc i) limit r of (gs, four, r1) \<Rightarrow> (word_of_nat v # gs, four, r1))))"

definition parse_v6 :: "string \<Rightarrow> 16 word list option" where
  "parse_v6 s = (case read_groups 8 0 8 s of
     (head, four, r) \<Rightarrow>
       if length head = 8 then (if r = [] then Some head else None)
       else if four then None
       else if take 2 r \<noteq> ''::'' then None
       else
         let limit = 8 - (length head + 1) in
         (case read_groups limit 0 limit (drop 2 r) of
            (tail, _, r1) \<Rightarrow>
              if r1 = [] then Some (head @ replicate (8 - length head - length tail) 0 @ tail) else None))"

definition v4_mapped :: "16 word list \<Rightarrow> 32 word option" where
  "v4_mapped g = (if take 5 g = replicate 5 0 \<and> g ! 5 = 0xFFFF
     then Some (push_bit 16 (ucast (g ! 6)) OR ucast (g ! 7)) else None)"

definition dec_val :: "string \<Rightarrow> int" where
  "dec_val s = foldl (\<lambda>a c. 10 * a + int (digit_val c)) 0 s"

definition parse_addr :: "string \<Rightarrow> ip option" where
  "parse_addr a =
     (if a = [] \<or> length a \<ge> 46 then None
      else if list_all is_digit a then
        (if length a > 10 \<or> dec_val a \<ge> 2 ^ 32 then None else Some (V4 (word_of_int (dec_val a))))
      else if CHR '':'' \<in> set a then
        (case parse_v6 a of
           None \<Rightarrow> None
         | Some g \<Rightarrow> Some (case v4_mapped g of Some v \<Rightarrow> V4 v | None \<Rightarrow> V6 g))
      else map_option V4 (parse_v4 a))"

definition addr_allowed :: "ip \<Rightarrow> bool" where
  "addr_allowed sa = (case sa of
     V4 a \<Rightarrow> \<not> (drop_bit 24 a = 0 \<or> drop_bit 16 a = 0xA9FE \<or> drop_bit 28 a \<ge> 0xE)
   | V6 g \<Rightarrow> \<not> (list_all (\<lambda>s. s = 0) g \<or> g ! 0 AND 0xFFC0 = 0xFE80 \<or> g ! 0 AND 0xFF00 = 0xFF00 \<or>
       v4_mapped g \<noteq> None))"

text \<open>How an address is shown.\<close>

definition v4_text :: "32 word \<Rightarrow> string" where
  "v4_text a = dec (unat (drop_bit 24 a)) @ ''.'' @ dec (unat (drop_bit 16 a AND 0xFF)) @ ''.'' @
     dec (unat (drop_bit 8 a AND 0xFF)) @ ''.'' @ dec (unat (a AND 0xFF))"

definition hex_word :: "16 word \<Rightarrow> string" where
  "hex_word w = (let h = hexs [char_of (unat (drop_bit 8 w)), char_of (unat (w AND 0xFF))];
     t = dropWhile (\<lambda>c. c = CHR ''0'') h in if t = [] then ''0'' else t)"

definition zero_run :: "16 word list \<Rightarrow> nat \<Rightarrow> nat" where
  "zero_run g i = length (takeWhile (\<lambda>s. s = 0) (drop i g))"

definition longest_zeros :: "16 word list \<Rightarrow> nat \<times> nat" where
  "longest_zeros g = foldl (\<lambda>best i. if zero_run g i > snd best then (i, zero_run g i) else best) (0, 0) [0..<8]"

definition v6_text :: "16 word list \<Rightarrow> string" where
  "v6_text g = (case longest_zeros g of (i, n) \<Rightarrow>
     if n > 1 then join_char (CHR '':'') (map hex_word (take i g)) @ ''::'' @
       join_char (CHR '':'') (map hex_word (drop (i + n) g))
     else join_char (CHR '':'') (map hex_word g))"

definition ip_text :: "ip \<Rightarrow> string" where
  "ip_text sa = (case sa of V4 a \<Rightarrow> v4_text a | V6 g \<Rightarrow> v6_text g)"

section \<open>Closing\<close>

definition upd_dcc :: "bot_state \<Rightarrow> nat \<Rightarrow> (dcc_session \<Rightarrow> dcc_session) \<Rightarrow> bot_state" where
  "upd_dcc st i f = st\<lparr>st_dcc := (st_dcc st)[i := f (st_dcc st ! i)]\<rparr>"

definition dcc_free :: "bot_state \<Rightarrow> nat \<Rightarrow> bot_state" where
  "dcc_free st i = upd_dcc (st\<lparr>st_dcc_reply := (if st_dcc_reply st = Some i then None else st_dcc_reply st)\<rparr>) i
     (\<lambda>_. default_dcc)"

definition dcc_close :: "env \<Rightarrow> bot_state \<Rightarrow> nat \<Rightarrow> string option \<Rightarrow> bot_state" where
  "dcc_close e st i reason = dcc_free (case reason of
     Some r \<Rightarrow> upd_dcc st i (\<lambda>s. dcc_queue e i s r) | None \<Rightarrow> st) i"

definition give_up :: "env \<Rightarrow> bot_state \<Rightarrow> nat \<Rightarrow> string \<Rightarrow> bot_state" where
  "give_up e st i why =
     dcc_free (ircf e st (''PRIVMSG '' @ dc_nick (st_dcc st ! i) @ '' :DCC chat not opened: '' @ why)) i"

definition close_one :: "env \<Rightarrow> string \<Rightarrow> bot_state \<Rightarrow> nat \<Rightarrow> bot_state" where
  "close_one e reason st i = (case dc_phase (st_dcc st ! i) of
     DccOpen \<Rightarrow> dcc_close e st i (Some reason) | DccFree \<Rightarrow> st | _ \<Rightarrow> dcc_free st i)"

definition close_all :: "env \<Rightarrow> bot_state \<Rightarrow> string \<Rightarrow> bot_state" where
  "close_all e st reason = foldl (close_one e reason) st [0..<length (st_dcc st)]"

section \<open>The offer\<close>

definition offer_token :: "string \<Rightarrow> 32 word" where
  "offer_token rnd = (let t = v4_of (map byte rnd) AND 0x7FFFFFFF in if t = 0 then 1 else t)"

definition replace_chat :: "env \<Rightarrow> string \<Rightarrow> bot_state \<Rightarrow> nat \<Rightarrow> bot_state" where
  "replace_chat e uuid st i =
     (if dc_phase (st_dcc st ! i) \<noteq> DccFree \<and> dc_uuid (st_dcc st ! i) = uuid then
        (if dc_phase (st_dcc st ! i) = DccOpen then dcc_close e st i (Some ''Replaced by a new DCC request.'')
         else dcc_free st i)
      else st)"

definition offer_lines :: "string \<Rightarrow> string \<Rightarrow> 32 word \<Rightarrow> string list" where
  "offer_lines botnick my_ip token =
     [[CHR 0x01] @ ''DCC CHAT chat '' @ my_ip @ '' 0 '' @ dec_int (uint token) @ [CHR 0x01],
      ''DCC chat offered; accept it within '' @ dec_int DCC_OFFER_TIMEOUT @ '' s (irssi: /dcc chat '' @ botnick @
        ''). I connect out to your client, so open its DCC port range in your firewall and set its DCC address '' @
        ''to your public IP. A client without passive DCC can /dcc chat '' @ botnick @
        '' instead while this offer is open.'']"

text \<open>\<open>my_ip\<close> is the local address of the server link as an offer shows it, empty without a link.\<close>

definition dcc_offer :: "env \<Rightarrow> string \<Rightarrow> bot_state \<Rightarrow> string \<Rightarrow> string \<Rightarrow> nat \<Rightarrow> bot_state" where
  "dcc_offer e my_ip st nick user_host who =
     (if length nick \<ge> A2_NICK_MAX \<or> length user_host \<ge> MAX_MASK_LEN
      then say e st nick ''Error: your nick or mask is too long for a DCC chat.''
      else if my_ip = [] then say e st nick ''Error: cannot offer a DCC chat right now (no IRC connection).''
      else case random_bytes e st 4 of
        (None, st1) \<Rightarrow> say e st1 nick ''Error: RNG failure.''
      | (Some rnd, st1) \<Rightarrow>
          let token = offer_token rnd; u = st_user_records st1 ! who;
              st2 = foldl (replace_chat e (u_uuid u)) st1 [0..<length (st_dcc st1)] in
          (case position (\<lambda>s. dc_phase s = DccFree) (st_dcc st2) of
             None \<Rightarrow> say e st2 nick (''Error: all '' @ dec DCC_MAX_SESSIONS @ '' DCC chat slots are in use; try again later.'')
           | Some i \<Rightarrow>
               let botnick = trunc (st_current_nick st2) MAX_NICK;
                   st3 = upd_dcc st2 i (\<lambda>s. s\<lparr>dc_phase := DccOffered, dc_token := token, dc_phase_since := e_now e,
                           dc_nick := nick, dc_botnick := botnick, dc_user_host := user_host, dc_uuid := u_uuid u,
                           dc_name := u_name u\<rparr>)
               in says e st3 nick (offer_lines botnick my_ip token)))"

section \<open>The reply\<close>

definition digits_upto :: "string \<Rightarrow> nat \<Rightarrow> bool" where
  "digits_upto s maxlen \<longleftrightarrow> s \<noteq> [] \<and> length s \<le> maxlen \<and> list_all is_digit s"

definition ctcp_shape :: "string \<Rightarrow> string list \<Rightarrow> bool" where
  "ctcp_shape ctcp f \<longleftrightarrow> length ctcp < 256 \<and> length f \<ge> 5 \<and> length f \<le> 6 \<and>
     eq_ic (f ! 0) ''DCC'' \<and> eq_ic (f ! 1) ''CHAT'' \<and> eq_ic (f ! 2) ''chat''"

definition token_ok :: "32 word \<Rightarrow> string list \<Rightarrow> bool" where
  "token_ok token f \<longleftrightarrow> length f \<noteq> 6 \<or> digits_upto (f ! 5) 10 \<and> dec_val (f ! 5) = uint token"

definition open_offer :: "bot_state \<Rightarrow> string \<Rightarrow> nat option" where
  "open_offer st user_host =
     position (\<lambda>s. dc_phase s = DccOffered \<and> eq_ic (dc_user_host s) user_host) (st_dcc st)"

text \<open>Why the address and port of a reply are not dialled, or the two of them.\<close>

definition reply_addr :: "string \<Rightarrow> string \<Rightarrow> string + ip \<times> nat" where
  "reply_addr a p =
     (let good = digits_upto p 5; port = (if good then digits_val p else 0) in
      if good \<and> port = 0
      then Inl (''your client answered with a passive offer of its own; it has to listen on a port for me to connect to.'')
      else if \<not> good \<or> port < DCC_MIN_PORT \<or> port > 65535
      then Inl (if good then ''port '' @ dec port @ '' is not allowed (use '' @ dec DCC_MIN_PORT @ ''-65535).''
                else ''your client'' @ [CHR 0x27] @ ''s reply has no valid port.'')
      else case parse_addr a of
        Some sa \<Rightarrow> if addr_allowed sa then Inr (sa, port)
          else Inl (''your client sent an address I will not connect to; set its DCC address to your public IP.'')
      | None \<Rightarrow> Inl (''your client sent an address I will not connect to; set its DCC address to your public IP.''))"

text \<open>
  \<open>dial\<close> starts the connection: its error, or the poll token it was registered under.  The result
  also says what was dialled, if anything.
\<close>

definition dcc_dial ::
  "env \<Rightarrow> (ip \<Rightarrow> nat \<Rightarrow> string + nat) \<Rightarrow> bot_state \<Rightarrow> nat \<Rightarrow> ip \<Rightarrow> nat \<Rightarrow> bot_state" where
  "dcc_dial e dial st i sa port =
     (let peer = ip_text sa @ '' port '' @ dec port; st1 = upd_dcc st i (\<lambda>s. s\<lparr>dc_peer := peer\<rparr>) in
      case dial sa port of
        Inl err \<Rightarrow> give_up e st1 i (''connecting to '' @ peer @ '' failed: '' @ err @ ''.'')
      | Inr poll \<Rightarrow> upd_dcc st1 i (\<lambda>s. s\<lparr>dc_poll := Some poll, dc_phase := DccConnecting, dc_phase_since := e_now e\<rparr>))"

definition handle_ctcp ::
  "env \<Rightarrow> (ip \<Rightarrow> nat \<Rightarrow> string + nat) \<Rightarrow> bot_state \<Rightarrow> string \<Rightarrow> string \<Rightarrow> (ip \<times> nat) option \<times> bot_state" where
  "handle_ctcp e dial st user_host ctcp =
     (let f = tokens '' '' ctcp in
      case open_offer st user_host of
        None \<Rightarrow> (None, st)
      | Some i \<Rightarrow>
          if \<not> ctcp_shape ctcp f \<or> \<not> token_ok (dc_token (st_dcc st ! i)) f then (None, st)
          else case reply_addr (f ! 3) (f ! 4) of
            Inl why \<Rightarrow> (None, give_up e st i why)
          | Inr (sa, port) \<Rightarrow> (Some (sa, port), dcc_dial e dial st i sa port))"

text \<open>A connecting socket turned writable: \<open>Some (Inl err)\<close> it failed, \<open>None\<close> it is not done yet.\<close>

definition open_line :: "dcc_session \<Rightarrow> string" where
  "open_line s = dc_botnick s @ '': DCC chat open for '' @ dc_name s @ ''. Type commands here or use /botcmd '' @
     dc_botnick s @ '' <command> (the client script seals both); the replies come back here. '' @
     ''Anything that is not a sealed command closes this chat. Idle limit: '' @
     dec_int (DCC_IDLE_TIMEOUT div 60) @ '' min.''"

definition on_connect :: "env \<Rightarrow> bot_state \<Rightarrow> nat \<Rightarrow> (string + unit) option \<Rightarrow> bot_state" where
  "on_connect e st i outcome = (case outcome of
       None \<Rightarrow> st
     | Some (Inl err) \<Rightarrow> give_up e st i (''connecting to '' @ dc_peer (st_dcc st ! i) @ '' failed: '' @ err @
         ''. Check that your firewall lets that port in.'')
     | Some (Inr _) \<Rightarrow>
         upd_dcc st i (\<lambda>s. dcc_queue e i (s\<lparr>dc_phase := DccOpen, dc_phase_since := e_now e,
           dc_last_active := e_now e\<rparr>) (open_line s)))"

section \<open>Time limits\<close>

definition check_timeout :: "env \<Rightarrow> bot_state \<Rightarrow> nat \<Rightarrow> bot_state" where
  "check_timeout e st i =
     (let s = st_dcc st ! i in
      if dc_phase s = DccOpen \<and> dc_failed s then dcc_close e st i None
      else if dc_phase s = DccOffered \<and> e_now e - dc_phase_since s > DCC_OFFER_TIMEOUT
      then give_up e st i ''your client did not answer the offer in time.''
      else if dc_phase s = DccConnecting \<and> e_now e - dc_phase_since s > DCC_CONNECT_TIMEOUT
      then give_up e st i (''connecting to '' @ dc_peer s @ '' timed out. Check that your firewall lets that port in.'')
      else if dc_phase s = DccOpen \<and> e_now e - dc_last_active s > DCC_IDLE_TIMEOUT
      then dcc_close e st i (Some ''Idle limit reached; closing.'')
      else st)"

definition check_timeouts :: "env \<Rightarrow> bot_state \<Rightarrow> bot_state" where
  "check_timeouts e st = foldl (check_timeout e) st [0..<length (st_dcc st)]"

end
