(* ===== verification/Commands.thy ===== *)
theory Commands
  imports HubLink Help ChanCmd Dcc IrcNick Flood
begin

text \<open>
  Private messages and the commands they carry (\<open>src/src/commands.rs\<close>): signing in, opening a sealed
  command, the screens before it runs, and what every admin and oper command does.  What lies
  outside the model is gathered in a record \<open>world\<close>: whether the server link uses TLS, the lines the
  log keeps, how a connection attempt ends, the local address, the updater's two commands.
\<close>

record world =
  w_tls :: bool
  w_log :: "nat \<Rightarrow> string list"
  w_hub_dial :: "string \<Rightarrow> bool"
  w_dcc_dial :: "ip \<Rightarrow> nat \<Rightarrow> string + nat"
  w_my_ip :: string
  w_upgrade :: "env \<Rightarrow> bot_state \<Rightarrow> string \<Rightarrow> string \<Rightarrow> bot_state"
  w_updates :: "env \<Rightarrow> bot_state \<Rightarrow> string \<Rightarrow> bot_state"

definition S_DIE :: "32 word" where "S_DIE = 4"
definition CONFIG_FILE :: string where "CONFIG_FILE = ''.ircbot.cnf''"

section \<open>Signing in\<close>

definition lc_copy :: "string \<Rightarrow> nat \<Rightarrow> string option" where
  "lc_copy s cap = (if s \<noteq> [] \<and> length s < cap then Some (lowers s) else None)"

definition a2_context :: "nat \<Rightarrow> string \<Rightarrow> string \<Rightarrow> string \<Rightarrow> string option \<Rightarrow> string option" where
  "a2_context cap label botnick usernick extra =
     (case (lc_copy botnick A2_NICK_MAX, lc_copy usernick A2_NICK_MAX) of
        (Some b, Some u) \<Rightarrow>
          let out = label @ [CHR 0x00] @ b @ [CHR 0x00] @ u @ (case extra of Some x \<Rightarrow> CHR 0x00 # x | None \<Rightarrow> [])
          in if out \<noteq> [] \<and> length out < cap then Some out else None
      | _ \<Rightarrow> None)"

text \<open>The signature of an \<open>~A2A\<close> request, its "ts:nonce" text, and both of those read.\<close>

definition a2a_parse :: "env \<Rightarrow> string \<Rightarrow> (string \<times> string \<times> int \<times> 64 word) option" where
  "a2a_parse e arg =
     (if position ((=) (CHR '' '')) arg \<noteq> Some 88 then None
      else
        let tsn = drop 89 arg in
        if length tsn \<ge> 40 then None
        else case envelope_parse (tsn @ '':x'') of
          Some (ts, nonce, d) \<Rightarrow>
            if d = ''x'' \<and> \<bar>e_now e - ts\<bar> \<le> A2_TS_SKEW then
              (case b64_decode e (take 88 arg) of
                 Some s \<Rightarrow> if length s = 64 then Some (s, tsn, ts, nonce) else None
               | None \<Rightarrow> None)
            else None
        | None \<Rightarrow> None)"

definition a2a_verified :: "env \<Rightarrow> bot_state \<Rightarrow> string \<Rightarrow> string \<Rightarrow> nat \<times> nat \<Rightarrow> bool" where
  "a2a_verified e st m s cand = (case pubkey_b64_decode e (u_pubkey_b64 (st_user_records st ! fst cand)) of
     Some p \<Rightarrow> e_ed_verify e (fst (pub_halves p)) m s | None \<Rightarrow> False)"

definition a2_throttled :: "env \<Rightarrow> bot_state \<Rightarrow> nat \<Rightarrow> bool" where
  "a2_throttled e st who \<longleftrightarrow> e_now e - u_last_auth_reply (st_user_records st ! who) < A2_AUTH_REPLY_MIN_INTERVAL \<or>
     e_now e - st_last_auth_reply_any st < A2_AUTH_REPLY_GLOBAL_INTERVAL"

text \<open>The bot's public key, sealed to the user and bound to this request.\<close>

definition a2_lockbox :: "env \<Rightarrow> bot_state \<Rightarrow> string \<Rightarrow> string \<Rightarrow> string \<Rightarrow> nat \<Rightarrow> string option \<times> bot_state" where
  "a2_lockbox e st dest nick tsn who =
     (case a2_context 256 A2K_LABEL dest nick (Some tsn) of
        None \<Rightarrow> (None, st)
      | Some aad \<Rightarrow>
          (case pubkey_b64_decode e (u_pubkey_b64 (st_user_records st ! who)) of
             None \<Rightarrow> (None, st)
           | Some upub \<Rightarrow> seal e st None (snd (pub_halves upub)) A2K_LABEL aad (st_self_pub st)))"

definition a2_answer :: "env \<Rightarrow> bot_state \<Rightarrow> string \<Rightarrow> string \<Rightarrow> string \<Rightarrow> nat \<times> nat \<Rightarrow> bot_state" where
  "a2_answer e st nick dest tsn cand =
     (let who = fst cand in
      if a2_throttled e st who \<or> \<not> st_self_pub_set st then st
      else case a2_lockbox e st dest nick tsn who of
        (None, st1) \<Rightarrow> st1
      | (Some frame, st1) \<Rightarrow>
          let st2 = upd_user st1 who (\<lambda>u. u\<lparr>u_last_auth_reply := e_now e\<rparr>);
              st3 = mark_used e (st2\<lparr>st_last_auth_reply_any := e_now e\<rparr>) (Some who) (Some (snd cand)) (e_now e)
          in ircf e st3 (''NOTICE '' @ nick @ '' :~A2K '' @ e_b64 e frame))"

definition a2_handle_auth :: "env \<Rightarrow> bot_state \<Rightarrow> string \<Rightarrow> string \<Rightarrow> string \<Rightarrow> string \<Rightarrow> bot_state" where
  "a2_handle_auth e st nick user_host dest arg =
     (case a2a_parse e arg of
        None \<Rightarrow> st
      | Some (s, tsn, ts, nonce) \<Rightarrow>
          (case a2_context 256 A2A_LABEL dest nick (Some tsn) of
             None \<Rightarrow> st
           | Some m \<Rightarrow>
               (case List.find (a2a_verified e st m s) (user_candidates st user_host) of
                  None \<Rightarrow> st
                | Some cand \<Rightarrow>
                    if nonce_seen (st_admin_nonces st) nonce (e_now e) then st
                    else a2_answer e (st\<lparr>st_admin_nonces := nonce_record (st_admin_nonces st) nonce (e_now e)\<rparr>)
                           nick dest tsn cand)))"

section \<open>Sealed commands\<close>

text \<open>Who sent a command, its text, and the key its replies are sealed under.\<close>

record opened_cmd =
  oc_who :: nat
  oc_cmd :: string
  oc_rk :: "string option"

definition open_as ::
  "env \<Rightarrow> bot_state \<Rightarrow> string \<Rightarrow> string \<Rightarrow> string \<Rightarrow> string \<Rightarrow> bool \<Rightarrow> string option \<Rightarrow> nat \<times> nat \<Rightarrow>
     (string \<times> string option) option" where
  "open_as e st x label aad frame sealed only cand =
     (let u = st_user_records st ! fst cand in
      if only \<noteq> None \<and> only \<noteq> Some (u_uuid u) then None
      else case pubkey_b64_decode e (u_pubkey_b64 u) of
        None \<Rightarrow> None
      | Some upub \<Rightarrow> open_rk e x (snd (pub_halves (st_self_pub st))) (Some (snd (pub_halves upub))) label aad frame
                       (if sealed then Some A2R_LABEL else None))"

fun open_first :: "(nat \<times> nat \<Rightarrow> (string \<times> string option) option) \<Rightarrow> (nat \<times> nat) list \<Rightarrow>
    ((nat \<times> nat) \<times> string \<times> string option) option" where
  "open_first f [] = None"
| "open_first f (c # cs) = (case f c of Some r \<Rightarrow> Some (c, r) | None \<Rightarrow> open_first f cs)"

definition a2_unseal ::
  "env \<Rightarrow> bot_state \<Rightarrow> string \<Rightarrow> string \<Rightarrow> string \<Rightarrow> string option \<Rightarrow> string \<Rightarrow> bool \<Rightarrow>
     ((nat \<times> nat) \<times> string \<times> string option) option \<times> bot_state" where
  "a2_unseal e st nick user_host dest only b64 sealed =
     (let label = (if sealed then A2S_LABEL else A2_LABEL); cands = user_candidates st user_host in
      if length b64 > A2_B64_MAX then (None, st)
      else case (a2_context 160 label dest nick None, b64_decode e b64) of
        (Some aad, Some frame) \<Rightarrow>
          if length frame < SEAL_OVERHEAD \<or> \<not> st_self_pub_set st \<or> cands = [] then (None, st)
          else (case bot_key_decode e st of
              (None, st1) \<Rightarrow> (None, st1)
            | (Some (_, x), st1) \<Rightarrow> (open_first (open_as e st1 x label aad frame sealed only) cands, st1))
      | _ \<Rightarrow> (None, st))"

definition a2_fresh :: "env \<Rightarrow> bot_state \<Rightarrow> string \<Rightarrow> (string \<times> 64 word) option" where
  "a2_fresh e st pt =
     (if has_control_bytes pt then None
      else case envelope_parse (from_utf8_lossy pt) of
        None \<Rightarrow> None
      | Some (ts, nonce, cmd) \<Rightarrow>
          if \<bar>e_now e - ts\<bar> > A2_TS_SKEW \<or> nonce_seen (st_admin_nonces st) nonce (e_now e) then None
          else Some (cmd, nonce))"

definition a2_open_command ::
  "env \<Rightarrow> bot_state \<Rightarrow> string \<Rightarrow> string \<Rightarrow> string \<Rightarrow> string option \<Rightarrow> string \<Rightarrow> bool \<Rightarrow>
     opened_cmd option \<times> bot_state" where
  "a2_open_command e st nick user_host dest only b64 sealed =
     (case a2_unseal e st nick user_host dest only b64 sealed of
        (None, st1) \<Rightarrow> (None, st1)
      | (Some (cand, pt, rk), st1) \<Rightarrow>
          (case a2_fresh e st1 pt of
             None \<Rightarrow> (None, st1)
           | Some (cmd, nonce) \<Rightarrow>
               (Some \<lparr>oc_who = fst cand, oc_cmd = cmd, oc_rk = rk\<rparr>,
                mark_used e (st1\<lparr>st_admin_nonces := nonce_record (st_admin_nonces st1) nonce (e_now e)\<rparr>)
                  (Some (fst cand)) (Some (snd cand)) (e_now e))))"

section \<open>Connection commands\<close>

definition host_of :: "string \<Rightarrow> string" where
  "host_of s0 = (let s = trunc s0 256 in case last_colon s of Some i \<Rightarrow> take i s | None \<Rightarrow> s)"

definition cmd_jump :: "env \<Rightarrow> bot_state \<Rightarrow> string \<Rightarrow> cmd_args \<Rightarrow> bot_state" where
  "cmd_jump e st nick a = (case ca_1 a of
       None \<Rightarrow> disconnect e (ircf e st ''QUIT :Jumping servers...'')
     | Some arg1 \<Rightarrow>
         (case position (\<lambda>s. eq_ic (host_of s) (host_of arg1)) (st_server_list st) of
            None \<Rightarrow> say e st nick (''Error: Server '' @ q arg1 @ '' not in list.'')
          | Some idx \<Rightarrow>
              disconnect e (ircf e ((server_block_clear st idx)\<lparr>st_current_server_index := idx\<rparr>)
                (''QUIT :Jumping to '' @ arg1 @ ''...''))))"

definition cmd_join :: "env \<Rightarrow> bot_state \<Rightarrow> string \<Rightarrow> cmd_args \<Rightarrow> bot_state" where
  "cmd_join e st nick a = (case ca_1 a of
       None \<Rightarrow> say e st nick ''Syntax: join <#channel>''
     | Some arg1 \<Rightarrow>
         let name = chan_arg arg1 False; found = chan_find st name in
         if (case found of Some ci \<Rightarrow> c_is_managed (st_chans st ! ci) | None \<Rightarrow> False)
         then say e st nick (''Error: Channel '' @ name @ '' is already in my list.'')
         else
           let prev = (case found of Some ci \<Rightarrow> c_timestamp (st_chans st ! ci) | None \<Rightarrow> 0);
               (ci, st1) = (case found of Some ci \<Rightarrow> (Some ci, st) | None \<Rightarrow> chan_add e st name);
               st2 = (case ci of None \<Rightarrow> st1
                 | Some i \<Rightarrow> upd_chan st1 i (\<lambda>c. c\<lparr>
                     c_key := (case ca_2 a of Some k \<Rightarrow> trunc k MAX_KEY | None \<Rightarrow> c_key c),
                     c_is_managed := True, c_timestamp := lww_next_ts (e_now e) prev\<rparr>))
           in say e (push_config e (write_cfg e st2)) nick (''JOIN '' @ arg1 @ '' and saving config file.''))"

definition cmd_part :: "env \<Rightarrow> bot_state \<Rightarrow> string \<Rightarrow> cmd_args \<Rightarrow> bot_state" where
  "cmd_part e st nick a = (case ca_1 a of
       None \<Rightarrow> say e st nick ''Syntax: part <#channel>''
     | Some arg1 \<Rightarrow>
         let name = chan_arg arg1 False in
         (case chan_find st name of
            None \<Rightarrow> st
          | Some ci \<Rightarrow> write_cfg e (ircf e (upd_chan st ci (\<lambda>c. c\<lparr>c_is_managed := False,
              c_timestamp := lww_next_ts (e_now e) (c_timestamp c)\<rparr>)) (''PART '' @ name))))"

definition invite_bots :: "env \<Rightarrow> string \<Rightarrow> string \<Rightarrow> bot_state \<Rightarrow> bot_state" where
  "invite_bots e nick ch st = foldl (\<lambda>s t. send_command e s t (''INVITE '' @ ch @ '' '' @ nick)) st
     (filter (\<lambda>n. n \<noteq> []) (map tb_nick (st_trusted_bots st)))"

definition cmd_invite :: "env \<Rightarrow> bot_state \<Rightarrow> string \<Rightarrow> cmd_args \<Rightarrow> bot_state" where
  "cmd_invite e st nick a = (case ca_1 a of
       None \<Rightarrow> say e st nick ''Syntax: invite <#channel>''
     | Some arg1 \<Rightarrow>
         let ch = chan_arg arg1 True in
         if opped_in st ch
         then say e (ircf e st (''INVITE '' @ nick @ '' '' @ ch)) nick (''Inviting you to '' @ ch)
         else (case send_invite_request e st nick ch of
             (True, st1) \<Rightarrow> st1 | (False, st1) \<Rightarrow> invite_bots e nick ch st1))"

definition cmd_add_server :: "env \<Rightarrow> bot_state \<Rightarrow> string \<Rightarrow> cmd_args \<Rightarrow> bot_state" where
  "cmd_add_server e st nick a = (case ca_1 a of
       None \<Rightarrow> say e st nick ''Syntax: +server <irc.server.net:6667>''
     | Some s \<Rightarrow>
         if length (st_server_list st) < MAX_SERVERS then
           let st1 = server_block_clear st (length (st_server_list st)) in
           say e (write_cfg e (st1\<lparr>st_server_list := st_server_list st1 @ [s]\<rparr>)) nick
             (''Added server '' @ q s @ '' and saved config.'')
         else say e st nick ''Error: Server list is full.'')"

definition cmd_del_server :: "env \<Rightarrow> bot_state \<Rightarrow> string \<Rightarrow> cmd_args \<Rightarrow> bot_state" where
  "cmd_del_server e st nick a = (case ca_1 a of
       None \<Rightarrow> say e st nick ''Syntax: -server <server>''
     | Some s \<Rightarrow>
         (case position (\<lambda>x. eq_ic x s) (st_server_list st) of
            None \<Rightarrow> say e st nick (''Error: Server '' @ q s @ '' not found.'')
          | Some i \<Rightarrow>
              let st1 = server_block_remove st i in
              say e (write_cfg e (st1\<lparr>st_server_list := take i (st_server_list st1) @ drop (Suc i) (st_server_list st1)\<rparr>))
                nick (''Removed server '' @ q s @ '' and saved config.'')))"

section \<open>Hub commands\<close>

definition cmd_add_hub :: "env \<Rightarrow> (string \<Rightarrow> bool) \<Rightarrow> bot_state \<Rightarrow> string \<Rightarrow> cmd_args \<Rightarrow> bot_state" where
  "cmd_add_hub e dial st nick a = (case (ca_1 a, ca_2 a) of
       (Some addr, Some key) \<Rightarrow>
         if \<not> (case last_colon addr of Some c \<Rightarrow> c > 0 \<and> atoi (drop (Suc c) addr) > 0 | None \<Rightarrow> False)
         then say e st nick ''Error: address must be HOST:PORT (e.g. hub.example.com:7000).''
         else if list_ex (\<lambda>h. he_addr h = addr) (st_hubs st)
         then say e st nick (''Error: Hub '' @ q addr @ '' already exists. Remove it with -hub first to change its key.'')
         else (case b64_decode e key of
             Some d \<Rightarrow>
               if length d \<noteq> 32 \<and> length d \<noteq> HUB_KEY_RAW_LEN
               then say e st nick (''Error: pubkey must be base64 of a 32-byte Ed25519 key (44 chars) '' @
                      ''or 64-byte combined Curve25519 key (88 chars).'')
               else if length (st_hubs st) \<ge> MAX_SERVERS then say e st nick ''Error: Hub list is full.''
               else
                 let h = \<lparr>he_addr = trunc addr 256, he_ed_pub = take 32 d, he_ed_pub_set = True\<rparr>;
                     st1 = say e (write_cfg e (st\<lparr>st_hubs := st_hubs st @ [h]\<rparr>)) nick
                             (''Added Hub: '' @ addr @ '' (pubkey pinned)'')
                 in if \<not> st_hub st1 then hub_connect e dial (st1\<lparr>st_last_hub_connect_attempt := 0\<rparr>) else st1
           | None \<Rightarrow> say e st nick (''Error: pubkey must be base64 of a 32-byte Ed25519 key (44 chars) '' @
                      ''or 64-byte combined Curve25519 key (88 chars).''))
     | _ \<Rightarrow> say e st nick ''Syntax: +hub <host:port> <pubkey-b64>'')"

definition cmd_del_hub :: "env \<Rightarrow> (string \<Rightarrow> bool) \<Rightarrow> bot_state \<Rightarrow> string \<Rightarrow> cmd_args \<Rightarrow> bot_state" where
  "cmd_del_hub e dial st nick a = (case ca_1 a of
       None \<Rightarrow> say e st nick ''Syntax: -hub <host:port>''
     | Some addr \<Rightarrow>
         (case position (\<lambda>h. he_addr h = addr) (st_hubs st) of
            None \<Rightarrow> say e st nick (''Error: Hub '' @ q addr @ '' not found.'')
          | Some i \<Rightarrow>
              let is_current = (st_hub_connected st \<and> st_current_hub st = addr);
                  st1 = (if is_current
                         then hub_disconnect e (say e st nick (''Disconnecting from current hub: '' @ addr)) else st);
                  st2 = say e (write_cfg e (st1\<lparr>st_hubs := take i (st_hubs st1) @ drop (Suc i) (st_hubs st1)\<rparr>)) nick
                          (''Removed Hub: '' @ addr)
              in if is_current \<and> st_hubs st2 \<noteq> []
                 then hub_connect e dial ((say e st2 nick ''Reconnecting to another hub...'')\<lparr>st_last_hub_connect_attempt := 0\<rparr>)
                 else if is_current then say e st2 nick ''No other hubs available to connect to.''
                 else st2))"

definition generate_combined_keypair :: "env \<Rightarrow> bot_state \<Rightarrow> (string \<times> string) option \<times> bot_state" where
  "generate_combined_keypair e st = (case random_bytes e st HUB_KEY_RAW_LEN of
     (None, st1) \<Rightarrow> (None, st1) | (Some k, st1) \<Rightarrow> (Some (k, combined_pub_from_priv e k), st1))"

text \<open>The new key is kept only once the hub has its public half, then the link is made again with it.\<close>

definition rekey_commit ::
  "env \<Rightarrow> (string \<Rightarrow> bool) \<Rightarrow> bot_state \<Rightarrow> string \<Rightarrow> string \<Rightarrow> string \<Rightarrow> bot_state" where
  "rekey_commit e dial st nick priv pub =
     (let st1 = snd (self_pub_refresh e (st\<lparr>st_hub_key_raw := priv, st_hub_key := e_b64 e priv\<rparr>));
          st2 = write_cfg e st1;
          st3 = say e st2 nick ([CHR 0xE2, CHR 0x9C, CHR 0x93] @ '' Rekeyed (new key '' @ key_fingerprint e pub @
                  ''). New pubkey pushed to hub; reconnecting with new key. Clients must re-auth (/botforget '' @
                  st_current_nick st2 @ '').'')
      in hub_connect e dial ((hub_disconnect e st3)\<lparr>st_last_hub_connect_attempt := 0\<rparr>))"

definition cmd_rekey :: "env \<Rightarrow> (string \<Rightarrow> bool) \<Rightarrow> bot_state \<Rightarrow> string \<Rightarrow> bot_state" where
  "cmd_rekey e dial st nick =
     (if st_hubs st = [] then say e st nick ''Error: no hub configured; nothing to rekey.''
      else if \<not> st_hub_authenticated st \<or> \<not> st_hub st
      then say e st nick (''Error: not authenticated to a hub. Rekey needs an active session so the new key is '' @
             ''pushed under the old one. Try again once connected.'')
      else case generate_combined_keypair e st of
        (None, st1) \<Rightarrow> say e st1 nick ''Error: keypair generation failed.''
      | (Some (priv, pub), st1) \<Rightarrow>
          (case push_delta e st1 ''pub'' (e_b64 e pub) (e_now e) of
             (False, st2) \<Rightarrow> say e st2 nick ''Error: failed to push new pubkey to hub; key left UNCHANGED.''
           | (True, st2) \<Rightarrow> rekey_commit e dial st2 nick priv pub))"

section \<open>The log level\<close>

definition log_size :: "bot_state \<Rightarrow> cmd_args \<Rightarrow> int option" where
  "log_size st a =
     (case (case ca_2 a of None \<Rightarrow> Some (st_log_max st)
                         | Some s \<Rightarrow> if digits_upto s 10 then parse_u64 s else None) of
        Some v \<Rightarrow> if BOT_LOG_SIZE_MIN \<le> v \<and> v \<le> BOT_LOG_SIZE_MAX then Some v else None
      | None \<Rightarrow> None)"

definition cmd_setlog :: "env \<Rightarrow> bot_state \<Rightarrow> string \<Rightarrow> cmd_args \<Rightarrow> bot_state" where
  "cmd_setlog e st nick a = (case ca_1 a of
       None \<Rightarrow> say e st nick (''Syntax: setlog <loglevel> [maxbytes] :: LOGLEVELS: 0=NONE,15=INFO,63=DEBUG :: log file is '' @
                dec_int (st_log_max st) @ '' bytes max'')
     | Some arg1 \<Rightarrow>
         if \<not> digits_upto arg1 2 \<or> atoi arg1 > int LOG_LEVEL_MAX
         then say e st nick (''Invalid log level. Give a mask from 0 to '' @ dec LOG_LEVEL_MAX @ ''.'')
         else (case log_size st a of
             Some sz \<Rightarrow>
               write_cfg e (say e (st\<lparr>st_log_level := word_of_int (atoi arg1), st_log_max := sz\<rparr>) nick
                 (''Log level set to '' @ dec_int (atoi arg1) @ '', log file '' @ dec_int sz @ '' bytes max.''))
           | None \<Rightarrow> say e st nick (''Invalid log size. Give bytes from '' @ dec_int BOT_LOG_SIZE_MIN @ '' to '' @
               dec_int BOT_LOG_SIZE_MAX @ ''.'')))"

section \<open>What an admin may do\<close>

definition HUB_ONLY_CMDS :: "string list" where
  "HUB_ONLY_CMDS = [''+admin'', ''-admin'', ''+oper'', ''-oper'', ''+usermask'', ''-usermask'', ''+bot'', ''-bot'',
     ''join'', ''part'', ''chkey'', ''chanmode'', ''chanset'', ''+ban'', ''-ban'']"

text \<open>\<open>chkey #chan <key>\<close> is \<open>chanmode #chan +k <key>\<close>.\<close>

definition chkey_chan :: "env \<Rightarrow> bot_state \<Rightarrow> string \<Rightarrow> cmd_args \<Rightarrow> bot_state" where
  "chkey_chan e st nick a =
     (let k = opt_bytes (ca_1 a) @ '' +k '' @ opt_bytes (ca_2 a) in
      if ca_1 a = None \<or> ca_2 a = None \<or> length k \<ge> MAX_CHAN + MAX_KEY + 8
      then say e st nick ''Syntax: chkey <#channel> <key>''
      else chanmode e st nick (Some k))"

definition cmd_update :: "env \<Rightarrow> world \<Rightarrow> bot_state \<Rightarrow> string \<Rightarrow> cmd_args \<Rightarrow> bot_state" where
  "cmd_update e w st nick a =
     (if st_hubs st \<noteq> [] then say e st nick (''Updates are hub-managed on this bot; run upgrades from the hub console. '' @
        ''In-place '' @ q ''update'' @ '' is only available on standalone (hub-less) bots.'')
      else case ca_1 a of Some v \<Rightarrow> w_upgrade w e st nick v | None \<Rightarrow> w_updates w e st nick)"

text \<open>The commands about the connection and the bot itself, by their lower-case name.\<close>

definition bot_command ::
  "env \<Rightarrow> world \<Rightarrow> bot_state \<Rightarrow> string \<Rightarrow> string \<Rightarrow> nat \<Rightarrow> string \<Rightarrow> cmd_args \<Rightarrow> bot_state option" where
  "bot_command e w st nick user_host who c a =
     (if c = ''die'' then
        (let st1 = ircf e st ''QUIT :Sayonara.'' in Some (st1\<lparr>st_status := st_status st1 OR S_DIE\<rparr>))
      else if c = ''dcc'' then Some
        (if st_dcc_reply st \<noteq> None then say e st nick ''You are already in a DCC chat with me.''
         else dcc_offer e (w_my_ip w) st nick user_host who)
      else if c = ''jump'' then Some (cmd_jump e st nick a)
      else if c = ''join'' then Some (cmd_join e st nick a)
      else if c = ''part'' then Some (cmd_part e st nick a)
      else if c = ''op'' then Some (case ca_1 a of
          Some ch \<Rightarrow> ircf e st (''MODE '' @ ch @ '' +o '' @ nick) | None \<Rightarrow> say e st nick ''Syntax: op <#channel>'')
      else if c = ''invite'' then Some (cmd_invite e st nick a)
      else if c = ''givenick'' then Some
        ((generate_new_nick e (say e st nick (''You have about '' @ dec_int NICK_TAKE_TIME @ '' seconds to retrieve.'')))
           \<lparr>st_nick_release_time := e_now e\<rparr>)
      else if c = ''chnick'' then Some (cmd_chnick e st nick a)
      else if c = ''saveconf''
      then Some (say e (write_cfg e st) nick (''Configuration state saved to '' @ CONFIG_FILE @ ''.''))
      else if c = ''setlog'' then Some (cmd_setlog e st nick a)
      else if c = ''+server'' then Some (cmd_add_server e st nick a)
      else if c = ''-server'' then Some (cmd_del_server e st nick a)
      else if c = ''update'' then Some (cmd_update e w st nick a)
      else if c = ''+hub'' then Some (cmd_add_hub e (w_hub_dial w) st nick a)
      else if c = ''-hub'' then Some (cmd_del_hub e (w_hub_dial w) st nick a)
      else if c = ''rekey'' then Some (cmd_rekey e (w_hub_dial w) st nick)
      else None)"

text \<open>The commands that show or change records.\<close>

definition record_command ::
  "env \<Rightarrow> world \<Rightarrow> bot_state \<Rightarrow> string \<Rightarrow> nat \<Rightarrow> string \<Rightarrow> cmd_args \<Rightarrow> bot_state option" where
  "record_command e w st nick who c a =
     (if c = ''+bot'' then Some (cmd_add_bot e st nick a)
      else if c = ''-bot'' then Some (cmd_del_bot e st nick a)
      else if c = ''status'' then Some (cmd_status e (w_tls w) st nick)
      else if c = ''getlog'' then Some (cmd_getlog e (w_log w) st nick a)
      else if c = ''admins'' then Some (activity_run e st nick ActAdmins [])
      else if c = ''opers'' then Some (activity_run e st nick ActOpers [])
      else if c = ''match'' then Some (case ca_1 a of
          Some arg1 \<Rightarrow> activity_run e st nick ActMatch arg1 | None \<Rightarrow> say e st nick ''Syntax: match <name|*>'')
      else if c = ''+admin'' \<or> c = ''+oper'' then Some (cmd_add_user e st nick (c = ''+admin'') a)
      else if c = ''-admin'' \<or> c = ''-oper''
      then Some (cmd_del_user e st nick (if c = ''-admin'' then CHR ''a'' else CHR ''o'') a)
      else if c = ''+usermask'' then Some (cmd_add_usermask e st nick a)
      else if c = ''-usermask'' then Some (cmd_del_usermask e st nick a)
      else if c = ''bots'' then Some (cmd_bots e st nick a)
      else if c = ''servers'' then Some (cmd_servers e st nick)
      else if c = ''chanmode'' then Some (chanmode e st nick (ca_line a))
      else if c = ''chanset'' then Some (chanset e st nick (ca_line a))
      else if c = ''+ban'' then Some (cmd_ban_add e st nick who (ca_line a))
      else if c = ''-ban'' then Some (cmd_ban_del e st nick who (ca_line a))
      else if c = ''bans'' then Some (bans_cmd e st nick (ca_line a))
      else if c = ''chkey'' \<and> take 1 (opt_bytes (ca_1 a)) = ''#'' then Some (chkey_chan e st nick a)
      else if c = ''chkey'' then Some (cmd_chkey e st nick a)
      else if c = ''help'' then Some (admin_help e st nick (ca_1 a))
      else None)"

definition hub_only_refusal :: "string \<Rightarrow> string" where
  "hub_only_refusal c = ''Error: '' @ q c @ '' is disabled '' @ mdash @ '' network is in hub-only-mutation mode (opt '' @
     q ''h'' @ ''). Use the hub console.''"

definition admin_command ::
  "env \<Rightarrow> world \<Rightarrow> bot_state \<Rightarrow> string \<Rightarrow> string \<Rightarrow> nat \<Rightarrow> string \<Rightarrow> cmd_args \<Rightarrow> bot_state" where
  "admin_command e w st nick user_host who command a =
     (case (if is_opt_set st OPT_HUB_ONLY_MUTATIONS then List.find (eq_ic command) HUB_ONLY_CMDS else None) of
        Some c \<Rightarrow> say e st nick (hub_only_refusal c)
      | None \<Rightarrow>
          let c = lowers command in
          (case bot_command e w st nick user_host who c a of
             Some st1 \<Rightarrow> st1
           | None \<Rightarrow> (case record_command e w st nick who c a of Some st1 \<Rightarrow> st1 | None \<Rightarrow> st)))"

definition oper_command :: "env \<Rightarrow> bot_state \<Rightarrow> string \<Rightarrow> nat \<Rightarrow> string \<Rightarrow> cmd_args \<Rightarrow> bot_state" where
  "oper_command e st nick who command a =
     (if eq_ic command ''op'' then
        (case (case ca_1 a of Some x \<Rightarrow> fst (tok_next '' '' x) | None \<Rightarrow> None) of
           Some ch \<Rightarrow> ircf e st (''MODE '' @ ch @ '' +o '' @ nick) | None \<Rightarrow> st)
      else if eq_ic command ''chkey'' then oper_chkey e st nick who a
      else if eq_ic command ''help'' then oper_help e st nick (ca_1 a)
      else st)"

section \<open>Running a command\<close>

text \<open>The whole argument line, for the commands with a free-form tail.\<close>

definition arg_line :: "string \<Rightarrow> string option" where
  "arg_line cmd_line =
     (let cl = lstrip_spaces cmd_line; verb = first_word cl; a = lstrip_spaces (drop (length verb) cl) in
      if list_ex (\<lambda>t. eq_ic verb t) [''chanmode'', ''chanset'', ''+ban'', ''-ban'', ''bans''] \<and>
         length a < SEAL_MAX_PLAINTEXT + 1
      then Some a else None)"

definition split_args :: "string \<Rightarrow> string option \<times> cmd_args" where
  "split_args cmd_line =
     (let (c, r0) = tok_next '' '' cmd_line; (a1, r1) = tok_next '' '' r0; (a2, r2) = tok_next '' '' r1;
          (a3, _) = tok_next '' '' r2
      in (c, \<lparr>ca_1 = a1, ca_2 = a2, ca_3 = a3, ca_line = arg_line cmd_line\<rparr>))"

definition has_bar :: "string option \<Rightarrow> bool" where
  "has_bar s \<longleftrightarrow> CHR ''|'' \<in> set (opt_bytes s)"

definition run_user_command ::
  "env \<Rightarrow> world \<Rightarrow> bot_state \<Rightarrow> string \<Rightarrow> string \<Rightarrow> nat \<Rightarrow> string \<Rightarrow> bot_state" where
  "run_user_command e w st nick user_host who cmd_line =
     (let typ = u_typ (st_user_records st ! who); (command, a) = split_args cmd_line in
      case command of
        None \<Rightarrow> st
      | Some c \<Rightarrow>
          if typ \<noteq> CHR ''a'' \<and> typ \<noteq> CHR ''o'' then st
          else (case flood_cmd e st who nick of (r, st1) \<Rightarrow>
            if r \<noteq> Bf_Ok then st1
            else if CHR ''|'' \<in> set c \<or> has_bar (ca_1 a) \<or> has_bar (ca_2 a) \<or> has_bar (ca_3 a) \<or> has_bar (ca_line a)
            then say e st1 nick (''Error: '' @ q ''|'' @ '' is not allowed in commands.'')
            else if typ = CHR ''a'' then admin_command e w st1 nick user_host who c a
            else oper_command e st1 nick who c a))"

definition a2_dispatch ::
  "env \<Rightarrow> world \<Rightarrow> bot_state \<Rightarrow> string \<Rightarrow> string \<Rightarrow> string \<Rightarrow> opened_cmd \<Rightarrow> bot_state" where
  "a2_dispatch e w st nick user_host botnick oc =
     (let run = (\<lambda>s. (run_user_command e w s nick user_host (oc_who oc) (oc_cmd oc))\<lparr>st_a2r := default_a2r\<rparr>) in
      case oc_rk oc of
        None \<Rightarrow> run st
      | Some rk \<Rightarrow>
          (case a2_context (A2_NICK_MAX * 2 + 16) A2R_LABEL botnick nick None of
             Some aad \<Rightarrow>
               if length nick < A2_NICK_MAX
               then run (st\<lparr>st_a2r := \<lparr>ar_active = True, ar_key = rk, ar_aad = aad, ar_nick = nick, ar_seq = 0\<rparr>\<rparr>)
               else st\<lparr>st_a2r := default_a2r\<rparr>
           | None \<Rightarrow> st\<lparr>st_a2r := default_a2r\<rparr>))"

definition handle_private_message ::
  "env \<Rightarrow> world \<Rightarrow> bot_state \<Rightarrow> string \<Rightarrow> string \<Rightarrow> string \<Rightarrow> string \<Rightarrow> string \<Rightarrow> bot_state" where
  "handle_private_message e w st nick usr host dest msg =
     (let user_host = trunc (nick @ ''!'' @ usr @ ''@'' @ host) 256 in
      if \<not> eq_ic dest (st_current_nick st) then st
      else case handle_privmsg e st nick user_host msg of
        (True, st1) \<Rightarrow> st1
      | (False, st1) \<Rightarrow>
          (case host_ignored e st1 user_host of
             (True, st2) \<Rightarrow> st2
           | (False, st2) \<Rightarrow>
               if take 5 msg = ''~A2A '' then
                 (case flood_msg e st2 user_host of (r, st3) \<Rightarrow>
                    if r \<noteq> Bf_Ok then st3 else a2_handle_auth e st3 nick user_host dest (drop 5 msg))
               else
                 let sealed = (take 5 msg = ''~A2S '');
                     (oc, st3) = (if sealed \<or> take 4 msg = ''~A2 ''
                       then a2_open_command e st2 nick user_host dest None (drop (if sealed then 5 else 4) msg) sealed
                       else (None, st2))
                 in (case oc of
                       Some c \<Rightarrow> a2_dispatch e w st3 nick user_host dest c
                     | None \<Rightarrow> snd (flood_msg e st3 user_host))))"

section \<open>A line from a chat\<close>

definition handle_dcc_line :: "env \<Rightarrow> world \<Rightarrow> bot_state \<Rightarrow> nat \<Rightarrow> string \<Rightarrow> bool \<times> bot_state" where
  "handle_dcc_line e w st i line =
     (let s = st_dcc st ! i; sealed = (take 5 line = ''~A2S '') in
      if \<not> sealed \<and> take 4 line \<noteq> ''~A2 '' then (False, st)
      else case a2_open_command e st (dc_nick s) (dc_user_host s) (dc_botnick s) (Some (dc_uuid s))
                  (drop (if sealed then 5 else 4) line) sealed of
        (None, st1) \<Rightarrow> (False, st1)
      | (Some oc, st1) \<Rightarrow>
          if u_typ (st_user_records st1 ! oc_who oc) \<noteq> CHR ''a'' then (False, st1)
          else
            let st2 = (upd_dcc st1 i (\<lambda>d. d\<lparr>dc_last_active := e_now e\<rparr>))\<lparr>st_dcc_reply := Some i\<rparr>;
                st3 = a2_dispatch e w st2 (dc_nick s) (dc_user_host s) (dc_botnick s) oc
            in (True, st3\<lparr>st_dcc_reply := (if st_dcc_reply st3 = Some i then None else st_dcc_reply st3)\<rparr>))"

section \<open>Reading a chat\<close>

definition is_bad_byte :: "string \<Rightarrow> char \<Rightarrow> bool" where
  "is_bad_byte buf c \<longleftrightarrow> (byte c < 0x20 \<and> c \<noteq> CHR 0x0D) \<or> byte c = 0x7F \<or> (buf \<noteq> [] \<and> last buf = CHR 0x0D)"

definition chat_line :: "string \<Rightarrow> string" where
  "chat_line buf = (if buf \<noteq> [] \<and> last buf = CHR 0x0D then butlast buf else buf)"

text \<open>One byte: whether the chat is still this one, under the same poll token, and open.\<close>

definition dcc_byte :: "env \<Rightarrow> world \<Rightarrow> nat \<Rightarrow> nat \<Rightarrow> bot_state \<Rightarrow> char \<Rightarrow> bool \<times> bot_state" where
  "dcc_byte e w i poll st c =
     (let buf = dc_inbuf (st_dcc st ! i) in
      if c = CHR 0x0A then
        (let st1 = upd_dcc st i (\<lambda>s. s\<lparr>dc_inbuf := []\<rparr>); line = chat_line buf in
         if line = [] then (True, st1)
         else case handle_dcc_line e w st1 i (from_utf8_lossy line) of
           (False, st2) \<Rightarrow>
             (False, if dc_poll (st_dcc st2 ! i) = Some poll
                     then dcc_close e st2 i (Some ''That was not a valid sealed command from your key; closing.'') else st2)
         | (True, st2) \<Rightarrow>
             (dc_poll (st_dcc st2 ! i) = Some poll \<and> dc_phase (st_dcc st2 ! i) = DccOpen, st2))
      else if is_bad_byte buf c then (False, dcc_close e st i (Some ''Unexpected control byte; closing.''))
      else if length buf > A2_LINE_MAX then (False, dcc_close e st i (Some ''Line too long; closing.''))
      else (True, upd_dcc st i (\<lambda>s. s\<lparr>dc_inbuf := buf @ [c]\<rparr>)))"

fun dcc_bytes :: "env \<Rightarrow> world \<Rightarrow> nat \<Rightarrow> nat \<Rightarrow> bot_state \<Rightarrow> string \<Rightarrow> bool \<times> bot_state" where
  "dcc_bytes e w i poll st [] = (True, st)"
| "dcc_bytes e w i poll st (c # cs) =
     (case dcc_byte e w i poll st c of (True, st1) \<Rightarrow> dcc_bytes e w i poll st1 cs | (False, st1) \<Rightarrow> (False, st1))"

text \<open>What arrived on the socket, and whether the other end has closed it.\<close>

definition dcc_read :: "env \<Rightarrow> world \<Rightarrow> bot_state \<Rightarrow> nat \<Rightarrow> nat \<Rightarrow> string \<Rightarrow> bool \<Rightarrow> bot_state" where
  "dcc_read e w st i poll bytes eof =
     (case dcc_bytes e w i poll st bytes of (go, st1) \<Rightarrow> if go \<and> eof then dcc_free st1 i else st1)"

definition dcc_flush :: "env \<Rightarrow> nat \<Rightarrow> dcc_session \<Rightarrow> dcc_session" where
  "dcc_flush e i s = (case e_dcc e i (dc_outbuf s) of
     Some rest \<Rightarrow> s\<lparr>dc_outbuf := rest\<rparr> | None \<Rightarrow> s\<lparr>dc_failed := True\<rparr>)"

text \<open>A poll event: whether the socket can be read and written, what it holds, how a connect ended.\<close>

definition dcc_event ::
  "env \<Rightarrow> world \<Rightarrow> bot_state \<Rightarrow> nat \<Rightarrow> nat \<Rightarrow> bool \<Rightarrow> bool \<Rightarrow> (string + unit) option \<Rightarrow> string \<Rightarrow> bool \<Rightarrow>
     bot_state" where
  "dcc_event e w st i poll readable writable outcome bytes eof =
     (if i \<ge> length (st_dcc st) \<or> dc_poll (st_dcc st ! i) \<noteq> Some poll then st
      else case dc_phase (st_dcc st ! i) of
        DccConnecting \<Rightarrow>
          let st1 = (if writable then on_connect e st i outcome else st) in
          if readable \<and> dc_phase (st_dcc st1 ! i) = DccOpen then dcc_read e w st1 i poll bytes eof else st1
      | DccOpen \<Rightarrow>
          let st1 = (if writable then upd_dcc st i (dcc_flush e i) else st);
              st2 = (if \<not> dc_failed (st_dcc st1 ! i) \<and> readable then dcc_read e w st1 i poll bytes eof else st1);
              s = st_dcc st2 ! i
          in if dc_poll s = Some poll \<and> dc_phase s = DccOpen \<and> dc_failed s then dcc_close e st2 i None else st2
      | _ \<Rightarrow> st)"

end
