(* ===== verification/IrcParser.thy ===== *)
theory IrcParser
  imports Commands EnfEvents
begin

text \<open>
  One line from the server (\<open>src/src/irc_parser.rs\<close>): its prefix, command and parameters, and what
  every command the bot listens to changes.  The components meet here: the same MODE line feeds
  the live modes, the roster, the enforcement and the configuration.
\<close>

definition M_K :: "32 word" where "M_K = 64"
definition M_I :: "32 word" where "M_I = 128"

section \<open>Reading parameters\<close>

fun after_colon :: "string \<Rightarrow> string option" where
  "after_colon [] = None"
| "after_colon (c # s) = (if c = CHR '' '' \<and> take 1 s = '':'' then Some (drop 1 s) else after_colon s)"

definition irc_trailing :: "string \<Rightarrow> string" where
  "irc_trailing params = (if take 1 params = '':'' then drop 1 params
     else case after_colon params of Some r \<Rightarrow> r | None \<Rightarrow> params)"

definition second_tok :: "string \<Rightarrow> string option" where
  "second_tok params = (case tok_next '' '' params of (_, r1) \<Rightarrow> fst (tok_next '' '' r1))"

definition first_param :: "string \<Rightarrow> string" where
  "first_param params = first_word (if take 1 params = '':'' then drop 1 params else params)"

definition is_chan_name :: "string \<Rightarrow> bool" where
  "is_chan_name s \<longleftrightarrow> take 1 s = ''#'' \<or> take 1 s = ''&''"

definition nick_of :: "string \<Rightarrow> string option" where
  "nick_of prefix = fst (tok_next ''!'' prefix)"

text \<open>The nick, user and host of a prefix, as far as it has them.\<close>

definition prefix_parts :: "string \<Rightarrow> string option \<times> string option \<times> string option" where
  "prefix_parts prefix =
     (let (nick, r1) = tok_next ''!'' prefix; (usr, r2) = tok_next ''@'' r1 in (nick, usr, fst (tok_rest r2)))"

text \<open>The target and the text of a PRIVMSG or NOTICE.\<close>

definition dest_and_text :: "string \<Rightarrow> (string \<times> string) option" where
  "dest_and_text params = (case tok_next '' '' params of
       (Some dest, r) \<Rightarrow> (case fst (tok_rest r) of
           Some m \<Rightarrow> Some (dest, if take 1 m = '':'' then drop 1 m else m) | None \<Rightarrow> None)
     | _ \<Rightarrow> None)"

section \<open>Finding help\<close>

definition base_nick :: "string \<Rightarrow> string" where
  "base_nick s = rev (dropWhile (\<lambda>c. c = CHR ''_'') (rev s))"

definition mask_nick_part :: "string \<Rightarrow> string" where
  "mask_nick_part m = (case position ((=) (CHR ''!'')) m of Some b \<Rightarrow> trunc (take b m) MAX_NICK | None \<Rightarrow> [])"

definition helps :: "roster_entry \<Rightarrow> trusted_bot \<Rightarrow> bool" where
  "helps h tb \<longleftrightarrow> tb_uuid tb \<noteq> [] \<and>
     (eq_ic (tb_mask tb) (r_hostmask h) \<or> starts_with_ic (tb_mask tb) (r_nick h @ ''!'') \<or>
      (base_nick (mask_nick_part (tb_mask tb)) \<noteq> [] \<and>
       eq_ic (base_nick (mask_nick_part (tb_mask tb))) (base_nick (r_nick h))))"

definition find_uuid_for_helper :: "bot_state \<Rightarrow> roster_entry \<Rightarrow> string option" where
  "find_uuid_for_helper st h = map_option tb_uuid (List.find (helps h) (st_trusted_bots st))"

section \<open>MODE\<close>

record mode_change =
  mc_st :: bot_state
  mc_adding :: bool
  mc_arg :: "string option"
  mc_rest :: string

definition next_arg :: "mode_change \<Rightarrow> mode_change" where
  "next_arg mc = (case tok_next '' '' (mc_rest mc) of (a, r) \<Rightarrow> mc\<lparr>mc_arg := a, mc_rest := r\<rparr>)"

definition set_op_flag :: "string \<Rightarrow> bool \<Rightarrow> chan \<Rightarrow> chan" where
  "set_op_flag nick on c = (case position (\<lambda>r. eq_ic (r_nick r) nick) (c_roster c) of
     Some i \<Rightarrow> c\<lparr>c_roster := (c_roster c)[i := (c_roster c ! i)\<lparr>r_is_op := on\<rparr>]\<rparr> | None \<Rightarrow> c)"

definition me_opped :: "env \<Rightarrow> bot_state \<Rightarrow> nat \<Rightarrow> bot_state" where
  "me_opped e st ci = grant_held_ops e (upd_chan st ci (\<lambda>c. c\<lparr>c_enf_dirty := True, c_enf_ops_check := True,
     c_op_request_pending := False, c_op_request_retry_count := 0\<rparr>)) ci"

definition me_deopped :: "env \<Rightarrow> bot_state \<Rightarrow> nat \<Rightarrow> bot_state" where
  "me_deopped e st ci =
     (if c_op_request_pending (st_chans st ! ci) then st
      else upd_chan (ircf e (upd_chan st ci (\<lambda>c. c\<lparr>c_roster := []\<rparr>)) (''WHO '' @ c_name (st_chans st ! ci))) ci
             (\<lambda>c. c\<lparr>c_last_who_request := e_now e\<rparr>))"

definition op_change :: "env \<Rightarrow> bot_state \<Rightarrow> nat \<Rightarrow> string \<Rightarrow> bool \<Rightarrow> bot_state" where
  "op_change e st ci arg on =
     (if eq_ic arg (st_current_nick st) then
        (let st1 = upd_chan st ci (\<lambda>c. set_op_flag (st_current_nick st) on (c\<lparr>c_i_am_opped := on\<rparr>))
         in if on then me_opped e st1 ci else me_deopped e st1 ci)
      else upd_chan st ci (set_op_flag arg on))"

definition key_change_seen :: "bool \<Rightarrow> bool \<Rightarrow> string option \<Rightarrow> chan \<Rightarrow> chan" where
  "key_change_seen managed on arg c =
     (if managed then c
      else if on then (case arg of Some k \<Rightarrow> c\<lparr>c_key := trunc k MAX_KEY, c_modes := c_modes c OR M_K\<rparr> | None \<Rightarrow> c)
      else c\<lparr>c_key := [], c_modes := c_modes c AND NOT M_K\<rparr>)"

definition mode_seen :: "env \<Rightarrow> nat \<Rightarrow> bool \<Rightarrow> mode_change \<Rightarrow> string \<Rightarrow> mode_change" where
  "mode_seen e ci managed mc m =
     (let st = mc_st mc; on = mc_adding mc in
      if m = ''+'' then mc\<lparr>mc_adding := True\<rparr>
      else if m = ''-'' then mc\<lparr>mc_adding := False\<rparr>
      else if m \<in> {''o'', ''v'', ''b'', ''e'', ''I''} then
        (case mc_arg mc of
           None \<Rightarrow> mc
         | Some arg \<Rightarrow> next_arg (if m = ''o'' then mc\<lparr>mc_st := op_change e st ci arg on\<rparr> else mc))
      else if m = ''k'' then
        (let mc1 = mc\<lparr>mc_st := upd_chan st ci (key_change_seen managed on (mc_arg mc))\<rparr>
         in if mc_arg mc1 \<noteq> None then next_arg mc1 else mc1)
      else if m = ''l'' then (if on \<and> mc_arg mc \<noteq> None then next_arg mc else mc)
      else if m = ''i''
      then mc\<lparr>mc_st := upd_chan st ci (\<lambda>c. c\<lparr>c_modes := (if on then c_modes c OR M_I else c_modes c AND NOT M_I)\<rparr>)\<rparr>
      else mc)"

definition handle_mode_change :: "env \<Rightarrow> bot_state \<Rightarrow> string \<Rightarrow> string \<Rightarrow> string \<Rightarrow> bot_state" where
  "handle_mode_change e st ch modes args =
     (case chan_find st ch of
        None \<Rightarrow> st
      | Some ci \<Rightarrow>
          let st1 = (if length args < 1024 then live_apply e st ci modes args False else st);
              mc = next_arg \<lparr>mc_st = st1, mc_adding = True, mc_arg = None, mc_rest = args\<rparr>
          in mc_st (foldl (mode_seen e ci (key_managed st1 ci)) mc (utf8_chars modes)))"

definition chan_state_changed :: "bot_state \<Rightarrow> string \<Rightarrow> string \<Rightarrow> nat option" where
  "chan_state_changed st target modes =
     (if CHR ''k'' \<in> set modes \<or> CHR ''i'' \<in> set modes then
        (case chan_find st target of
           Some ci \<Rightarrow> if c_is_managed (st_chans st ! ci) \<and> (CHR ''i'' \<in> set modes \<or> \<not> key_managed st ci)
                      then Some ci else None
         | None \<Rightarrow> None)
      else None)"

definition irc_mode :: "env \<Rightarrow> bot_state \<Rightarrow> string option \<Rightarrow> string \<Rightarrow> bot_state" where
  "irc_mode e st prefix params =
     (let (target, r1) = tok_next '' '' params; (modes, r2) = tok_next '' '' r1; args = opt_bytes (fst (tok_rest r2)) in
      case (target, modes) of
        (Some t, Some m) \<Rightarrow>
          if \<not> is_chan_name t then st
          else
            let st1 = handle_mode_change e st t m args;
                st2 = (if length args < 1024 then on_mode e st1 t prefix m args else st1)
            in (case chan_state_changed st2 t m of
                  None \<Rightarrow> st2
                | Some ci \<Rightarrow> write_cfg e (push_channel e (upd_chan st2 ci (\<lambda>c. c\<lparr>
                    c_timestamp := lww_next_ts (e_now e) (c_timestamp c), c_enf_pending := True\<rparr>)) ci))
      | _ \<Rightarrow> st)"

section \<open>The bot's own name and mask\<close>

definition update_own_hostmask :: "env \<Rightarrow> bot_state \<Rightarrow> string \<Rightarrow> bot_state" where
  "update_own_hostmask e st m =
     (if m = [] \<or> st_actual_hostname st = m then st
      else
        let st1 = st\<lparr>st_actual_hostname := trunc m MAX_MASK_LEN, st_actual_hostname_ts := e_now e\<rparr>
        in if st_hub_connected st1 \<and> st_hub_authenticated st1 then sync_hostmask e st1 else st1)"

definition request_own_hostmask :: "env \<Rightarrow> bot_state \<Rightarrow> bot_state" where
  "request_own_hostmask e st = (if st_current_nick st \<noteq> [] then ircf e st (''WHO '' @ st_current_nick st) else st)"

definition tell_nick :: "env \<Rightarrow> bot_state \<Rightarrow> bot_state" where
  "tell_nick e st =
     (if st_hub_connected st \<and> st_hub_authenticated st
      then snd (push_delta e st ''n'' (st_current_nick st) (st_current_nick_ts st)) else st)"

definition irc_welcome :: "env \<Rightarrow> bot_state \<Rightarrow> string \<Rightarrow> bot_state" where
  "irc_welcome e st params =
     (let st1 = note_registered (st\<lparr>st_status := st_status st OR S_AUTHED\<rparr>); srv = first_word params;
          st2 = (if srv \<noteq> [] \<and> length srv < MAX_NICK \<and>
                   (st_current_nick st1 \<noteq> srv \<or> \<not> eq_ic srv (st_target_nick st1))
                 then tell_nick e (st1\<lparr>st_current_nick := srv, st_current_nick_ts := e_now e\<rparr>) else st1)
      in request_own_hostmask e st2)"

definition irc_nick_refused :: "env \<Rightarrow> bot_state \<Rightarrow> string \<Rightarrow> string \<Rightarrow> bot_state" where
  "irc_nick_refused e st cmd params =
     (let refused = second_tok params in
      if (case refused of Some r \<Rightarrow> is_chan_name r | None \<Rightarrow> False) then st
      else
        let st1 = st\<lparr>st_nick_change_pending := False\<rparr>;
            st2 = (case refused of
               Some r \<Rightarrow> if cmd = ''432'' \<and> eq_ic r (st_target_nick st1) \<and> \<not> eq_ic (st_nick_refused st1) r
                         then st1\<lparr>st_nick_refused := st_target_nick st1\<rparr> else st1
             | None \<Rightarrow> st1)
        in if st_status st2 AND S_AUTHED = 0 then generate_new_nick e st2 else st2)"

definition irc_nick :: "env \<Rightarrow> bot_state \<Rightarrow> string \<Rightarrow> string \<Rightarrow> bot_state" where
  "irc_nick e st prefix params =
     (case nick_of prefix of
        None \<Rightarrow> st
      | Some old \<Rightarrow>
          let nw = (if take 1 params = '':'' then drop 1 params else params); st1 = on_nick e st old nw in
          if \<not> eq_ic old (st_current_nick st1) then st1
          else
            let st2 = tell_nick e (st1\<lparr>st_current_nick := trunc nw MAX_NICK, st_current_nick_ts := e_now e\<rparr>);
                st3 = (request_own_hostmask e st2)\<lparr>st_nick_change_pending := False\<rparr>
            in if eq_ic (st_current_nick st3) (st_target_nick st3)
               then st3\<lparr>st_nick_generation_attempt := 0\<rparr> else st3)"

section \<open>Channels\<close>

definition irc_lockout :: "env \<Rightarrow> bot_state \<Rightarrow> string \<Rightarrow> chan_req \<Rightarrow> bot_state" where
  "irc_lockout e st params kind =
     (case (case second_tok params of Some ch \<Rightarrow> chan_find st ch | None \<Rightarrow> None) of
        None \<Rightarrow> st
      | Some ci \<Rightarrow>
          let st1 = upd_chan st ci (\<lambda>c. c\<lparr>c_status := CS_Out\<rparr>) in
          if c_is_managed (st_chans st1 ! ci) then snd (access_request e st1 ci kind) else st1)"

definition irc_no_join :: "bot_state \<Rightarrow> string \<Rightarrow> bot_state" where
  "irc_no_join st params =
     (case (case second_tok params of Some ch \<Rightarrow> chan_find st ch | None \<Rightarrow> None) of
        None \<Rightarrow> st | Some ci \<Rightarrow> upd_chan st ci (\<lambda>c. c\<lparr>c_join_disabled := True\<rparr>))"

definition irc_invite_only :: "env \<Rightarrow> bot_state \<Rightarrow> string \<Rightarrow> bot_state" where
  "irc_invite_only e st params =
     (case (case second_tok params of Some ch \<Rightarrow> chan_find st ch | None \<Rightarrow> None) of
        None \<Rightarrow> st
      | Some ci \<Rightarrow> if c_is_managed (st_chans st ! ci) then snd (access_request e st ci Invite) else st)"

definition prefix_sym :: "isupport \<Rightarrow> char \<Rightarrow> string \<Rightarrow> bool" where
  "prefix_sym isu letter modes = (case position ((=) letter) (is_prefix_modes isu) of
     Some i \<Rightarrow> i < length (is_prefix_syms isu) \<and> is_prefix_syms isu ! i \<in> set modes | None \<Rightarrow> False)"

definition who_entry ::
  "env \<Rightarrow> bot_state \<Rightarrow> string \<Rightarrow> string \<Rightarrow> string \<Rightarrow> string \<Rightarrow> string \<Rightarrow> bot_state" where
  "who_entry e st ch ident host nick modes =
     (let nuh = nick @ ''!'' @ ident @ ''@'' @ host; is_me = eq_ic nick (st_current_nick st);
          is_op = (CHR ''@'' \<in> set modes); isu = st_isup st;
          st1 = (if is_me then update_own_hostmask e st (trunc nuh MAX_MASK_LEN) else st) in
      case chan_find st1 ch of
        None \<Rightarrow> st1
      | Some ci \<Rightarrow> upd_chan st1 ci (\<lambda>c0.
          let c = (if is_me then c0\<lparr>c_i_am_opped := is_op\<rparr> else c0) in
          if length nuh < MAX_MASK_LEN
          then snd (roster_set nick nuh is_op (prefix_sym isu (CHR ''h'') modes) (prefix_sym isu (CHR ''v'') modes) c)
          else c))"

definition irc_who_reply :: "env \<Rightarrow> bot_state \<Rightarrow> string \<Rightarrow> bot_state" where
  "irc_who_reply e st params = (case tokens '' '' params of
       _ # ch # ident # host # _ # nick # modes # _ \<Rightarrow> who_entry e st ch ident host nick modes
     | _ \<Rightarrow> st)"

text \<open>Asking one trusted op for ops: through the hub when it is known there, else directly.\<close>

definition ask_helper :: "env \<Rightarrow> bot_state \<Rightarrow> nat \<Rightarrow> roster_entry \<Rightarrow> bot_state" where
  "ask_helper e st0 ci h =
     (let name = c_name (st_chans st0 ! ci); now = e_now e;
          st = upd_chan st0 ci (\<lambda>c. c\<lparr>c_last_op_request_time := now, c_op_request_pending := True\<rparr>) in
      if now - st_last_op_request_sent st \<ge> OP_REQUEST_MIN_INTERVAL then
        let (sent, st1) = (case find_uuid_for_helper st h of
               Some uuid \<Rightarrow> request_op e st uuid name | None \<Rightarrow> (False, st));
            st2 = (if sent then st1 else send_to_host e st1 (r_hostmask h) (r_nick h) (''OPME '' @ name))
        in upd_chan (st2\<lparr>st_last_op_request_sent := now\<rparr>) ci
             (\<lambda>c. c\<lparr>c_op_request_retry_count := c_op_request_retry_count c + 1\<rparr>)
      else st)"

definition op_helpers :: "bot_state \<Rightarrow> nat \<Rightarrow> roster_entry list" where
  "op_helpers st ci =
     filter (\<lambda>r. r_is_op r \<and> is_trusted_bot st (r_hostmask r)) (c_roster (st_chans st ! ci))"

definition seek_ops :: "env \<Rightarrow> bot_state \<Rightarrow> nat \<Rightarrow> bot_state" where
  "seek_ops e st ci =
     (let c = st_chans st ! ci; now = e_now e;
          st1 = (if c_op_request_retry_count c \<ge> 5 \<and> now - c_last_op_request_time c > 300
                 then upd_chan st ci (\<lambda>c. c\<lparr>c_op_request_retry_count := 0\<rparr>) else st);
          helpers = op_helpers st1 ci in
      if c_op_request_pending c \<and> now - c_last_op_request_time c < 60 then st
      else if c_op_request_retry_count (st_chans st1 ! ci) \<ge> 5 then st1
      else if helpers = []
      then upd_chan st1 ci (\<lambda>c. c\<lparr>c_op_request_pending := True, c_last_op_request_time := now - 30\<rparr>)
      else ask_helper e st1 ci (helpers ! e_rand e (length helpers)))"

definition irc_end_of_who :: "env \<Rightarrow> bot_state \<Rightarrow> string \<Rightarrow> bot_state" where
  "irc_end_of_who e st params =
     (case (case second_tok params of Some ch \<Rightarrow> chan_find st ch | None \<Rightarrow> None) of
        None \<Rightarrow> st
      | Some ci \<Rightarrow>
          let st1 = upd_chan st ci (\<lambda>c. c\<lparr>c_enf_dirty := True, c_enf_ops_check := True, c_who_done := True\<rparr>) in
          if c_i_am_opped (st_chans st1 ! ci)
          then upd_chan st1 ci (\<lambda>c. c\<lparr>c_op_request_pending := False, c_op_request_retry_count := 0\<rparr>)
          else seek_ops e st1 ci)"

section \<open>Joins, parts and kicks\<close>

definition left_chan :: "bool \<Rightarrow> chan \<Rightarrow> chan" where
  "left_chan clear c = live_reset (c\<lparr>c_status := CS_Out, c_roster := (if clear then [] else c_roster c),
     c_i_am_opped := False\<rparr>)"

definition is_self :: "bot_state \<Rightarrow> string \<Rightarrow> bool" where
  "is_self st n \<longleftrightarrow> eq_ic n (st_current_nick st) \<or> eq_ic n (st_target_nick st)"

definition irc_part :: "bot_state \<Rightarrow> string \<Rightarrow> string \<Rightarrow> bot_state" where
  "irc_part st prefix params =
     (case nick_of prefix of
        None \<Rightarrow> st
      | Some n \<Rightarrow>
          let ch = first_param params in
          if is_self st n then
            (case chan_find st ch of Some ci \<Rightarrow> upd_chan st ci (left_chan True) | None \<Rightarrow> st)
          else if ch \<noteq> [] \<and> length ch < MAX_CHAN then on_part st ch n else st)"

definition irc_kick :: "env \<Rightarrow> bot_state \<Rightarrow> string option \<Rightarrow> string \<Rightarrow> bot_state" where
  "irc_kick e st prefix params =
     (let (ch, r1) = tok_next '' '' params; (kicked, _) = tok_next '' '' r1 in
      case (ch, kicked) of
        (Some c, Some k) \<Rightarrow>
          let st1 = on_kick e st c prefix k in
          if eq_ic k (st_current_nick st1) then
            (case chan_find st1 c of Some ci \<Rightarrow> upd_chan st1 ci (left_chan False) | None \<Rightarrow> st1)
          else st1
      | _ \<Rightarrow> st)"

definition joined_chan :: "env \<Rightarrow> chan \<Rightarrow> chan" where
  "joined_chan e c = (live_reset (c\<lparr>c_status := CS_In, c_roster := [], c_i_am_opped := False\<rparr>))
     \<lparr>c_last_who_request := e_now e\<rparr>"

definition self_joined :: "env \<Rightarrow> bot_state \<Rightarrow> string \<Rightarrow> bot_state" where
  "self_joined e st params =
     (case chan_find st (if take 1 params = '':'' then drop 1 params else params) of
        None \<Rightarrow> st
      | Some ci \<Rightarrow>
          let name = c_name (st_chans st ! ci) in
          if \<not> c_is_managed (st_chans st ! ci)
          then upd_chan (ircf e st (''PART '' @ name @ '' :Channel removed'')) ci (\<lambda>c. c\<lparr>c_status := CS_Out\<rparr>)
          else live_request e (ircf e (upd_chan st ci (joined_chan e)) (''WHO '' @ name)) ci)"

definition irc_join :: "env \<Rightarrow> bot_state \<Rightarrow> string \<Rightarrow> string \<Rightarrow> bot_state" where
  "irc_join e st prefix params =
     (let mask_fits = (prefix \<noteq> [] \<and> length prefix < MAX_MASK_LEN); ch = first_param params in
      case nick_of prefix of
        None \<Rightarrow> st
      | Some n \<Rightarrow>
          let st1 = (if mask_fits \<and> eq_ic n (st_current_nick st) \<and> CHR ''!'' \<in> set prefix \<and> CHR ''@'' \<in> set prefix
                     then update_own_hostmask e st prefix else st)
          in if is_self st1 n then self_joined e st1 params
             else if mask_fits \<and> ch \<noteq> [] \<and> length ch < MAX_CHAN then on_join e st1 ch prefix
             else st1)"

section \<open>Text\<close>

definition full_mask :: "string \<Rightarrow> string option \<Rightarrow> string option \<Rightarrow> string option" where
  "full_mask nick usr host = (case (usr, host) of
     (Some u, Some h) \<Rightarrow> (let m = nick @ ''!'' @ u @ ''@'' @ h in if length m < MAX_MASK_LEN then Some m else None)
   | _ \<Rightarrow> None)"

definition ctcp_answer ::
  "env \<Rightarrow> world \<Rightarrow> bot_state \<Rightarrow> string \<Rightarrow> bool \<Rightarrow> string option \<Rightarrow> string \<Rightarrow> string \<Rightarrow> bot_state" where
  "ctcp_answer e w st nick whole nuh dest ctcp =
     (if starts_with_ic ctcp ''DCC '' then
        (if whole \<and> eq_ic dest (st_current_nick st)
         then snd (handle_ctcp e (w_dcc_dial w) st (opt_bytes nuh) ctcp) else st)
      else if eq_ic ctcp ''VERSION''
      then ircf e st (''NOTICE '' @ nick @ '' :'' @ [CHR 0x01] @ ''VERSION '' @ VERSION_RESPONSE @ [CHR 0x01])
      else if starts_with_ic ctcp ''PING ''
      then ircf e st (''NOTICE '' @ nick @ '' :'' @ [CHR 0x01] @ ctcp @ [CHR 0x01])
      else st)"

definition is_ctcp :: "string \<Rightarrow> bool" where
  "is_ctcp m \<longleftrightarrow> length m \<ge> 2 \<and> hd m = CHR 0x01 \<and> last m = CHR 0x01"

definition irc_privmsg :: "env \<Rightarrow> world \<Rightarrow> bot_state \<Rightarrow> string \<Rightarrow> string \<Rightarrow> bot_state" where
  "irc_privmsg e w st prefix params =
     (case (prefix_parts prefix, dest_and_text params) of
        ((Some nick, usr, host), Some (dest, m)) \<Rightarrow>
          if is_chan_name dest then
            (case (usr, host) of (Some u, Some h) \<Rightarrow> flood_text e st dest nick u h m | _ \<Rightarrow> st)
          else
            let nuh = full_mask nick usr host in
            if is_ctcp m then
              (case (case nuh of Some n \<Rightarrow> flood_ctcp e st n | None \<Rightarrow> (Bf_Ok, st)) of (r, st1) \<Rightarrow>
                 if r \<noteq> Bf_Ok then st1
                 else ctcp_answer e w st1 nick (usr \<noteq> None \<and> host \<noteq> None) nuh dest (take (length m - 2) (drop 1 m)))
            else handle_private_message e w st nick (case usr of Some u \<Rightarrow> u | None \<Rightarrow> ''(null)'')
                   (case host of Some h \<Rightarrow> h | None \<Rightarrow> ''(null)'') dest m
      | _ \<Rightarrow> st)"

definition is_service :: "string \<Rightarrow> bool" where
  "is_service nick \<longleftrightarrow> length nick \<ge> 4 \<and> eq_ic (drop (length nick - 4) nick) ''Serv''"

definition irc_notice :: "env \<Rightarrow> bot_state \<Rightarrow> string \<Rightarrow> string \<Rightarrow> bot_state" where
  "irc_notice e st prefix params =
     (if CHR ''!'' \<notin> set prefix then st
      else case (prefix_parts prefix, dest_and_text params) of
        ((Some nick, Some u, Some h), Some (dest, m)) \<Rightarrow>
          if is_chan_name dest then flood_text e st dest nick u h m
          else if eq_ic dest (st_current_nick st) \<and> take 1 m \<noteq> [CHR 0x01] \<and> \<not> is_service nick then
            (case full_mask nick (Some u) (Some h) of Some n \<Rightarrow> snd (flood_msg e st n) | None \<Rightarrow> st)
          else st
      | _ \<Rightarrow> st)"

section \<open>One line\<close>

definition irc_ban_entry :: "env \<Rightarrow> bot_state \<Rightarrow> string \<Rightarrow> bot_state" where
  "irc_ban_entry e st params =
     (let st1 = live_numeric e st ''367'' params in
      case tokens '' '' params of _ # ch # m # _ \<Rightarrow> unban_note_ban e st1 ch m | _ \<Rightarrow> st1)"

definition irc_ban_end :: "env \<Rightarrow> bot_state \<Rightarrow> string \<Rightarrow> bot_state" where
  "irc_ban_end e st params =
     (let st1 = live_numeric e st ''368'' params in
      case second_tok params of Some ch \<Rightarrow> unban_finish st1 ch | None \<Rightarrow> st1)"

text \<open>Commands of a user, which need a prefix to say whose they are.\<close>

definition user_line :: "env \<Rightarrow> world \<Rightarrow> bot_state \<Rightarrow> string \<Rightarrow> string \<Rightarrow> string \<Rightarrow> bot_state" where
  "user_line e w st cmd p params =
     (if cmd = ''PRIVMSG'' then irc_privmsg e w st p params
      else if cmd = ''NOTICE'' then irc_notice e st p params
      else if cmd = ''JOIN'' then irc_join e st p params
      else if cmd = ''PART'' then irc_part st p params
      else if cmd = ''QUIT'' then (case nick_of p of Some n \<Rightarrow> on_quit st n | None \<Rightarrow> st)
      else if cmd = ''NICK'' then irc_nick e st p params
      else st)"

definition server_line :: "env \<Rightarrow> world \<Rightarrow> bot_state \<Rightarrow> string option \<Rightarrow> string \<Rightarrow> string \<Rightarrow> bot_state" where
  "server_line e w st prefix cmd params =
     (if cmd = ''001'' then irc_welcome e st params
      else if cmd \<in> {''433'', ''432'', ''437''} then irc_nick_refused e st cmd params
      else if cmd = ''465'' \<or> cmd = ''463'' then note_refusal st (irc_trailing params) True
      else if cmd = ''ERROR'' then note_refusal st (irc_trailing params) False
      else if cmd = ''474'' then irc_lockout e st params Unban
      else if cmd = ''475'' then irc_lockout e st params Key
      else if cmd = ''005'' then (if length params < 1024 then isupport_parse st params else st)
      else if cmd = ''324'' \<or> cmd = ''329'' then live_numeric e st cmd params
      else if cmd = ''367'' then irc_ban_entry e st params
      else if cmd = ''368'' then irc_ban_end e st params
      else if cmd = ''405'' then irc_no_join st params
      else if cmd = ''473'' then irc_invite_only e st params
      else if cmd = ''MODE'' then irc_mode e st prefix params
      else if cmd = ''352'' then irc_who_reply e st params
      else if cmd = ''396'' then (if second_tok params \<noteq> None then request_own_hostmask e st else st)
      else if cmd = ''315'' then irc_end_of_who e st params
      else if cmd = ''KICK'' then irc_kick e st prefix params
      else case prefix of Some p \<Rightarrow> user_line e w st cmd p params | None \<Rightarrow> st)"

text \<open>The prefix, the command and the parameters of a line.\<close>

definition split_line :: "string \<Rightarrow> (string option \<times> string \<times> string) option" where
  "split_line line =
     (case (if take 1 line = '':'' then
              (case position ((=) (CHR '' '')) (drop 1 line) of
                 Some i \<Rightarrow> Some (Some (take i (drop 1 line)), drop (Suc i) (drop 1 line)) | None \<Rightarrow> None)
            else Some (None, line)) of
        None \<Rightarrow> None
      | Some (prefix, rest) \<Rightarrow>
          (case position ((=) (CHR '' '')) rest of
             Some sp \<Rightarrow> Some (prefix, take sp rest, drop (Suc sp) rest) | None \<Rightarrow> None))"

definition pong_seen :: "env \<Rightarrow> bot_state \<Rightarrow> bot_state" where
  "pong_seen e st = st\<lparr>st_last_pong_time := e_now e, st_pong_pending := False\<rparr>"

definition server_named :: "bot_state \<Rightarrow> string \<Rightarrow> string \<Rightarrow> bot_state" where
  "server_named st cmd params = (case (if cmd = ''004'' then second_tok params else None) of
     Some n \<Rightarrow> st\<lparr>st_actual_server_name := trunc n 256\<rparr> | None \<Rightarrow> st)"

definition handle_line :: "env \<Rightarrow> world \<Rightarrow> bot_state \<Rightarrow> string \<Rightarrow> bot_state" where
  "handle_line e w st line0 =
     (if take 6 line0 = ''PING :'' then pong_seen e (ircf e st (''PONG :'' @ drop 6 line0))
      else case split_line (trunc line0 MAX_BUFFER) of
        None \<Rightarrow> st
      | Some (prefix, cmd, params) \<Rightarrow>
          if cmd = ''PONG'' then pong_seen e st
          else server_line e w (server_named st cmd params) prefix cmd params)"

end
