(* ===== verification/IrcClient.thy ===== *)
theory IrcClient
  imports IrcParser Refusal
begin

text \<open>
  The link to the server over time (\<open>src/src/irc_client.rs\<close>): dialling the next server, what arrives on
  the socket cut into lines, and the tick that watches the hub, the registration, the keepalive
  and the nick.  The dialling itself is an argument.
\<close>

section \<open>Connecting\<close>

text \<open>The ports tried on a configured server: its own, or the plain port and then the TLS one.\<close>

definition server_ports :: "string \<Rightarrow> string \<times> string list" where
  "server_ports s0 = (let s = trunc s0 256 in case last_colon s of
     Some i \<Rightarrow> (take i s, [drop (Suc i) s]) | None \<Rightarrow> (s, [''6667'', ''6697'']))"

definition link_opened :: "env \<Rightarrow> bot_state \<Rightarrow> bot_state" where
  "link_opened e st0 =
     (let st = (isupport_reset (sendq_clear e (st0\<lparr>st_irc := True\<rparr>)))\<lparr>st_status := S_CONNECTED,
            st_last_pong_time := e_now e, st_pong_pending := False, st_connection_time := e_now e,
            st_current_nick := st_target_nick st0\<rparr>
      in ircf e (ircf e st (''NICK '' @ st_current_nick st)) (''USER '' @ st_user st @ '' 0 * :'' @ st_gecos st))"

text \<open>\<open>dial host ports\<close> says whether one of them answered.\<close>

definition irc_connect :: "env \<Rightarrow> (string \<Rightarrow> string list \<Rightarrow> bool) \<Rightarrow> bot_state \<Rightarrow> bot_state" where
  "irc_connect e dial st0 =
     (if st_irc st0 then st0
      else case pick_server st0 (e_now e) of
        (None, st1) \<Rightarrow> st1
      | (Some pick, st1) \<Rightarrow>
          let st2 = st1\<lparr>st_current_server_index := pick, st_irc_server_idx := Some pick,
                st_last_irc_attempt := e_now e, st_irc_refusal := [], st_irc_refusal_ban := False,
                st_nick_refused := []\<rparr>;
              (host, ports) = server_ports (st_server_list st2 ! pick);
              st3 = (if dial host ports then link_opened e st2 else st2)
          in st3\<lparr>st_current_server_index := st_current_server_index st3 + 1\<rparr>)"

section \<open>Reading\<close>

definition IRC_RBUF_CAP :: nat where "IRC_RBUF_CAP = MAX_BUFFER * 2 - 1"

text \<open>The complete lines of the bytes received so far, and what is left of them.\<close>

function cut_lines :: "string \<Rightarrow> string list \<times> string" where
  "cut_lines [] = ([], [])"
| "cut_lines [c] = ([], [c])"
| "cut_lines (c # d # s) =
     (if c = CHR 0x0D \<and> d = CHR 0x0A then (case cut_lines s of (ls, r) \<Rightarrow> ([] # ls, r))
      else case cut_lines (d # s) of
        ([], r) \<Rightarrow> ([], c # r)
      | (l # ls, r) \<Rightarrow> ((c # l) # ls, r))"
  by pat_completeness auto
termination
  by (relation "measure length") auto

text \<open>A line that drops the link ends the reading; no line can bring a new link up.\<close>

fun run_lines :: "env \<Rightarrow> world \<Rightarrow> bot_state \<Rightarrow> string list \<Rightarrow> bot_state" where
  "run_lines e w st [] = st"
| "run_lines e w st (l # ls) =
     (if \<not> st_irc st then st else run_lines e w (handle_line e w st (until_nul (from_utf8_lossy l))) ls)"

definition irc_read :: "env \<Rightarrow> world \<Rightarrow> bot_state \<Rightarrow> string \<Rightarrow> bool \<Rightarrow> string \<times> bot_state" where
  "irc_read e w st buf eof =
     (let (ls, rest) = cut_lines buf;
          st1 = run_lines e w (if ls = [] then st else st\<lparr>st_last_pong_time := e_now e\<rparr>) ls in
      if \<not> st_irc st1 then ([], st1)
      else (if length rest \<ge> IRC_RBUF_CAP then [] else rest, if eof then disconnect e st1 else st1))"

section \<open>The tick\<close>

definition hub_watchdog :: "env \<Rightarrow> bot_state \<Rightarrow> bot_state" where
  "hub_watchdog e st =
     (if st_hubs st \<noteq> [] \<and> st_hub st \<and> st_hub_authenticated st \<and> e_now e - st_last_hub_activity st > 120
      then drop_link st else st)"

definition keepalive :: "env \<Rightarrow> bot_state \<Rightarrow> bot_state" where
  "keepalive e st =
     (if \<not> st_pong_pending st \<and> e_now e - st_last_pong_time st > CHECK_LAG_TIMEOUT
      then (ircf e st (''PING :'' @ dec_int (e_now e)))\<lparr>st_pong_pending := True\<rparr> else st)"

definition reclaim_nick :: "env \<Rightarrow> bot_state \<Rightarrow> bot_state" where
  "reclaim_nick e st =
     (if \<not> st_nick_change_pending st \<and> \<not> eq_ic (st_current_nick st) (st_target_nick st) \<and>
         \<not> eq_ic (st_nick_refused st) (st_target_nick st) \<and>
         e_now e - st_nick_release_time st > NICK_TAKE_TIME \<and> e_now e - st_last_nick_attempt st > NICK_RETRY_TIME
      then attempt_nick_change e st (st_target_nick st) else st)"

definition is_authed :: "bot_state \<Rightarrow> bool" where
  "is_authed st \<longleftrightarrow> st_status st AND S_AUTHED \<noteq> 0"

definition check_status :: "env \<Rightarrow> (string \<Rightarrow> string list \<Rightarrow> bool) \<Rightarrow> bot_state \<Rightarrow> bot_state" where
  "check_status e dial st0 =
     (let st = hub_watchdog e st0 in
      if \<not> is_connected st then
        (if e_now e - st_last_irc_attempt st \<ge> IRC_RECONNECT_MIN_INTERVAL then irc_connect e dial st else st)
      else if \<not> is_authed st \<and> e_now e - st_connection_time st > IRC_REGISTER_TIMEOUT then disconnect e st
      else if e_now e - st_last_pong_time st > DEAD_SERVER_TIMEOUT then disconnect e st
      else
        let st1 = keepalive e st in
        if is_authed st1 then reclaim_nick e (check_joins e st1) else st1)"

end
