(* ===== verification/MainLoop.thy ===== *)
theory MainLoop
  imports IrcClient EnfSweep ConfigLoad
begin

text \<open>
  The loop of the program (\<open>src/src/main.rs\<close>, \<open>run\<close>): the work of a tick in its order, the events of the
  poll, the paced output that ends a turn, and the shutdown.  What the poll reports is an argument
  of the turn, and a whole run is a list of turns.
\<close>

text \<open>The bot, the time of the last debounced write, and the bytes of each link not yet complete.\<close>

record running =
  ru_st :: bot_state
  ru_last_write :: int
  ru_irc_buf :: string
  ru_hub_buf :: string

text \<open>
  What the poll reports: the bytes a link brought (whether they are the first of their connection,
  whether it closed), a failed write, an event of a chat under its poll token.
\<close>

datatype poll_event =
    Irc_In bool string bool
  | Irc_Broken
  | Hub_In bool string bool
  | Hub_Broken
  | Dcc_In nat nat bool bool "(string + unit) option" string bool

text \<open>How the two dials of the tick end.\<close>

record outside =
  ou_world :: world
  ou_irc_dial :: "string \<Rightarrow> string list \<Rightarrow> bool"

definition on_bot :: "(bot_state \<Rightarrow> bot_state) \<Rightarrow> running \<Rightarrow> running" where
  "on_bot f r = r\<lparr>ru_st := f (ru_st r)\<rparr>"

definition flush_config :: "env \<Rightarrow> running \<Rightarrow> running" where
  "flush_config e r =
     (if st_config_dirty (ru_st r) \<and> e_now e - ru_last_write r \<ge> CONFIG_WRITE_DEBOUNCE_S
      then r\<lparr>ru_st := (write_local e (ru_st r))\<lparr>st_config_dirty := False\<rparr>, ru_last_write := e_now e\<rparr>
      else r)"

definition hub_turn :: "env \<Rightarrow> outside \<Rightarrow> bot_state \<Rightarrow> bot_state" where
  "hub_turn e ou st =
     (if st_hubs st \<noteq> []
      then upgrade_ready_tick e (heartbeat e (hub_connect e (w_hub_dial (ou_world ou)) st)) else st)"

definition tick_work :: "env \<Rightarrow> outside \<Rightarrow> running \<Rightarrow> running" where
  "tick_work e ou r =
     (let r1 = on_bot (\<lambda>st. tick e (activity_tick e (check_joins e (check_status e (ou_irc_dial ou) st)) (e_now e))) r
      in on_bot (\<lambda>st. hub_turn e ou (check_timeouts e st)) (flush_config e r1))"

text \<open>An event for a link that is gone is dropped.\<close>

definition unread :: "bool \<Rightarrow> string \<Rightarrow> string \<Rightarrow> string" where
  "unread fresh buf bytes = (if fresh then bytes else buf @ bytes)"

definition poll_step :: "env \<Rightarrow> outside \<Rightarrow> running \<Rightarrow> poll_event \<Rightarrow> running" where
  "poll_step e ou r ev = (let st = ru_st r; w = ou_world ou in case ev of
       Irc_In fresh bytes eof \<Rightarrow>
         if \<not> st_irc st then r
         else (case irc_read e w st (unread fresh (ru_irc_buf r) bytes) eof of
           (rest, st1) \<Rightarrow> r\<lparr>ru_st := st1, ru_irc_buf := rest\<rparr>)
     | Irc_Broken \<Rightarrow> if \<not> st_irc st then r else r\<lparr>ru_st := disconnect e st\<rparr>
     | Hub_In fresh bytes eof \<Rightarrow>
         if \<not> st_hub st then r
         else (case hub_read e st (unread fresh (ru_hub_buf r) bytes) eof of
           (rest, st1) \<Rightarrow> r\<lparr>ru_st := st1, ru_hub_buf := rest\<rparr>)
     | Hub_Broken \<Rightarrow> if \<not> st_hub st then r else r\<lparr>ru_st := hub_disconnect e st\<rparr>
     | Dcc_In i poll readable writable outcome bytes eof \<Rightarrow>
         r\<lparr>ru_st := dcc_event e w st i poll readable writable outcome bytes eof\<rparr>)"

text \<open>How long the poll waits is asked of the send queue, which takes its credit for it.\<close>

definition ask_wait :: "env \<Rightarrow> bot_state \<Rightarrow> bot_state" where
  "ask_wait e st = (if st_irc st then snd (next_ms e st) else st)"

definition paced_output :: "env \<Rightarrow> bot_state \<Rightarrow> bot_state" where
  "paced_output e st = (if st_irc st then snd (drain e st) else st)"

definition dying :: "bot_state \<Rightarrow> bool" where
  "dying st \<longleftrightarrow> st_status st AND S_DIE \<noteq> 0"

definition loop_turn :: "env \<Rightarrow> outside \<Rightarrow> poll_event list \<Rightarrow> running \<Rightarrow> running" where
  "loop_turn e ou evs r =
     on_bot (paced_output e) (foldl (poll_step e ou) (on_bot (ask_wait e) (tick_work e ou r)) evs)"

text \<open>The loop ends with \<open>die\<close>, or with the list of turns: a signal.\<close>

fun loop_run :: "running \<Rightarrow> (env \<times> outside \<times> poll_event list) list \<Rightarrow> running" where
  "loop_run r [] = r"
| "loop_run r ((e, ou, evs) # ts) = (if dying (ru_st r) then r else loop_run (loop_turn e ou evs r) ts)"

definition shut_down :: "env \<Rightarrow> bot_state \<Rightarrow> bot_state" where
  "shut_down e st = hub_disconnect e (disconnect e (write_cfg e (close_all e st ''Bot shutting down.'')))"

end
