(* ===== verification/LinkProps.thy ===== *)
theory LinkProps
  imports MainLoop Frame
begin

text \<open>
  What the bot's links promise: a hub is believed only after it has proved that it holds the pinned
  key, an admin's sealed command and a bot's sealed frame run once, a chat is dialled only for an
  offer that is open, an oper changes nothing but the own key.
\<close>

section \<open>The hub proves itself\<close>

text \<open>What a hub can change of the bot: its records, its settings, its channels, what it says.\<close>

definition governed where
  "governed st = (st_user_records st, st_mask_records st, st_trusted_bots st, st_cfg_bans st, st_net_set st,
     st_net_modes st, st_net_settings st, st_opt_flags st, st_chans st, st_upgrade st, st_disk st, st_irc_out st,
     st_sendq st, st_hub_out st, st_recent_nonces st, st_target_nick st)"

lemma governed_upd [simp]:
  "governed (st\<lparr>st_session_key := k\<rparr>) = governed st" "governed (st\<lparr>st_hub_auth_state := a\<rparr>) = governed st"
  "governed (st\<lparr>st_hub_raw := r\<rparr>) = governed st" "governed (st\<lparr>st_hub_key_raw := k\<rparr>) = governed st"
  by (simp_all add: governed_def)

lemma disconnect_governed: "governed (hub_disconnect e st) = governed st"
  by (simp add: governed_def hub_disconnect_def)

lemma disconnect_idle: "\<not> st_hub_authenticated (hub_disconnect e st)" "st_hub_auth_state (hub_disconnect e st) = HA_None"
  by (simp_all add: hub_disconnect_def)

lemma idle_packets:
  "\<lbrakk>\<not> st_hub_authenticated st; st_hub_auth_state st = HA_None\<rbrakk> \<Longrightarrow>
     foldl (\<lambda>s (e, b). process_packet e s b) st pkts = st"
  by (induction pkts) (auto simp: process_packet_def)

lemma decode_governed:
  "governed (snd (bot_key_decode e st)) = governed st"
  "st_hub_authenticated (snd (bot_key_decode e st)) = st_hub_authenticated st"
  "st_session_key (snd (bot_key_decode e st)) = st_session_key st"
  "st_hub (snd (bot_key_decode e st)) = st_hub st"
  by (auto simp: bot_key_decode_def Let_def split: option.splits)

lemma challenge_cases:
  assumes "\<not> st_hub_authenticated st" "st_hub st" "st' = handle_challenge e st b"
  shows "governed st' = governed st \<and> \<not> st_hub_authenticated st' \<and>
    (st_hub_auth_state st' = HA_None \<or>
     st_hub_auth_state st' = SentSignature \<and> length b = 128 \<and> st_hub_remote_ed_pub_set st \<and>
     e_ed_verify e (st_hub_remote_ed_pub st) (hub_transcript st (take 32 b) (take 32 (drop 32 b))) (drop 64 b) \<and>
     fst (derive_session_key e st (take 32 (drop 32 b)) (take 32 b)) = Some (st_session_key st'))"
proof -
  obtain d st1 where d: "derive_session_key e st (take 32 (drop 32 b)) (take 32 b) = (d, st1)" by fastforce
  have st1: "governed st1 = governed st" "\<not> st_hub_authenticated st1" "st_hub st1"
    using d assms(1,2) decode_governed [of e st]
    by (auto simp: derive_session_key_def split: prod.splits option.splits)
  obtain s st2 where s: "sign_challenge e (st1\<lparr>st_session_key := the d\<rparr>) (take 32 b) (take 32 (drop 32 b)) = (s, st2)" by fastforce
  have st2: "governed st2 = governed st" "\<not> st_hub_authenticated st2" "st_session_key st2 = the d" "st_hub st2"
    using s st1 decode_governed [of e "st1\<lparr>st_session_key := the d\<rparr>"]
    by (auto simp: sign_challenge_def split: prod.splits option.splits)
  obtain r st3 where r: "send_raw e st2 (be32 64 @ the s) = (r, st3)" by fastforce
  have st3: "governed st3 = governed st" "\<not> st_hub_authenticated st3" "r \<Longrightarrow> st_session_key st3 = the d"
    "\<not> r \<Longrightarrow> st_hub_auth_state st3 = HA_None"
    using r st2 disconnect_governed [of e st2] disconnect_idle [of e st2]
    by (auto simp: send_raw_def split: if_splits)
  note dis = disconnect_governed disconnect_idle
  show ?thesis
  proof (cases "length b = 128 \<and> st_hub_remote_ed_pub_set st \<and>
      e_ed_verify e (st_hub_remote_ed_pub st) (hub_transcript st (take 32 b) (take 32 (drop 32 b))) (drop 64 b)")
    case False
    then have "st' = hub_disconnect e st" unfolding assms(3) handle_challenge_def Let_def by (simp only: if_True if_False simp_thms split: if_split) auto
    then show ?thesis using dis by simp
  next
    case True
    then have t: "st' = (case (d, st1) of (None, st1) \<Rightarrow> hub_disconnect e st1
      | (Some key, st1) \<Rightarrow> (case sign_challenge e (st1\<lparr>st_session_key := key\<rparr>) (take 32 b) (take 32 (drop 32 b)) of
             (None, st2) \<Rightarrow> hub_disconnect e st2
           | (Some s, st2) \<Rightarrow> (case send_raw e st2 (be32 64 @ s) of
                  (True, st3) \<Rightarrow> st3\<lparr>st_hub_auth_state := SentSignature\<rparr>
                | (False, st3) \<Rightarrow> st3)))"
      unfolding assms(3) handle_challenge_def Let_def d by simp
    show ?thesis
      using True t s r st1 st2 st3 dis d by (cases d; cases s; cases r) simp_all
  qed
qed

text \<open>C1: whatever packets arrive on a fresh hub link, either nothing of what a hub governs (records, settings,
  channels, what is said on IRC, what is stored) changes, or the first two packets proved the hub's
  identity: a challenge signed under the pinned key over this bot's id and the hub's fresh key, then an
  acknowledgement sealed under the session key derived from that same challenge.\<close>

theorem hub_proves_itself:
  assumes "\<not> st_hub_authenticated st" "st_hub st" "st_hub_auth_state st = SentUuid"
    "governed (foldl (\<lambda>s (e, b). process_packet e s b) st pkts) \<noteq> governed st"
  shows "\<exists>e1 b1 e2 b2 more key. pkts = (e1, b1) # (e2, b2) # more \<and> length b1 = 128 \<and> st_hub_remote_ed_pub_set st \<and>
    e_ed_verify e1 (st_hub_remote_ed_pub st) (hub_transcript st (take 32 b1) (take 32 (drop 32 b1))) (drop 64 b1) \<and>
    fst (derive_session_key e1 st (take 32 (drop 32 b1)) (take 32 b1)) = Some key \<and>
    gcm_open e2 key [] b2 = Some [CHR 0x01]"
proof -
  let ?run = "\<lambda>s ps. foldl (\<lambda>s (e, b). process_packet e s b) s ps"
  obtain e1 b1 rest where p1: "pkts = (e1, b1) # rest" using assms(4) by (cases pkts) auto
  define st1 where "st1 = process_packet e1 st b1"
  have "st1 = handle_challenge e1 st b1" using assms(1,3) by (simp add: st1_def process_packet_def)
  note c = challenge_cases [OF assms(1,2) this]
  have r1: "governed (?run st1 rest) \<noteq> governed st1" using assms(4) c by (simp add: p1 st1_def)
  then have sig: "st_hub_auth_state st1 \<noteq> HA_None" using idle_packets [of st1 rest] c by metis
  obtain e2 b2 more where p2: "rest = (e2, b2) # more" using r1 by (cases rest) auto
  have st2: "process_packet e2 st1 b2 = handle_ack e2 st1 b2" using c sig by (simp add: process_packet_def)
  have "gcm_open e2 (st_session_key st1) [] b2 = Some [CHR 0x01]"
  proof (rule ccontr)
    assume "gcm_open e2 (st_session_key st1) [] b2 \<noteq> Some [CHR 0x01]"
    then have "process_packet e2 st1 b2 = hub_disconnect e2 st1" by (simp add: st2 handle_ack_def)
    then have "?run st1 rest = hub_disconnect e2 st1" by (simp add: p2 idle_packets disconnect_idle)
    then show False using r1 disconnect_governed by simp
  qed
  then show ?thesis using c sig p1 p2 by auto
qed

text \<open>A bot that has just dialled a hub whose signature is sixty-four S, sealing with the tag of sixteen T.\<close>

definition demo_hub_env :: env where
  "demo_hub_env = (calm_env 100)\<lparr>e_ed_verify := \<lambda>_ _ s. s = replicate 64 (CHR ''S''),
     e_gcm_dec := \<lambda>_ _ _ ct tag. if tag = replicate 16 (CHR ''T'') then Some ct else None\<rparr>"

definition demo_dialled :: bot_state where
  "demo_dialled = lean_bot\<lparr>st_hub := True, st_hub_auth_state := SentUuid, st_hub_remote_ed_pub_set := True,
     st_hub_key_raw := replicate 64 (CHR ''k''), st_bot_uuid := ''u'',
     st_chans := [default_chan\<lparr>c_name := ''#c'', c_status := CS_In\<rparr>]\<rparr>"

definition demo_packets :: "(env \<times> string) list" where
  "demo_packets = [(demo_hub_env, replicate 64 (CHR ''c'') @ replicate 64 (CHR ''S'')),
     (demo_hub_env, replicate 12 (CHR ''i'') @ [CHR 0x01] @ replicate 16 (CHR ''T'')),
     (demo_hub_env, replicate 12 (CHR ''i'') @ [CHR 0x29] @ [CHR 0x00, CHR 0x00, CHR 0x00, CHR 0x06] @ ''bob|#c'' @ replicate 16 (CHR ''T''))]"



definition demo_signed :: bot_state where
  "demo_signed = demo_dialled\<lparr>st_session_key := replicate 32 (CHR 0x00),
     st_hub_raw := [be32 64], st_hub_auth_state := SentSignature\<rparr>"

lemma demo_hub_env_at [simp]:
  "e_ed_verify demo_hub_env k m s = (s = replicate 64 (CHR ''S''))" "e_x_dh demo_hub_env a b = Some []"
  "e_hkdf demo_hub_env a b c n = Some (replicate n (CHR 0x00))" "e_ed_sign demo_hub_env k m = []"
  "e_hub_raw demo_hub_env d" "e_now demo_hub_env = 100" "e_marker demo_hub_env = None"
  by (simp_all add: demo_hub_env_def calm_env_def)

lemma demo_dialled_at:
  "st_hub demo_dialled" "st_hub_remote_ed_pub_set demo_dialled" "st_hub_raw demo_dialled = []"
  "\<not> st_hub_authenticated demo_dialled" "st_hub_auth_state demo_dialled = SentUuid"
  by (simp_all add: demo_dialled_def lean_bot_def bot_new_def)

lemma demo_raw_key: "\<not> all_zero (replicate 64 (CHR ''k''))" by code_simp

lemma demo_keys: "bot_key_decode e (demo_dialled\<lparr>st_session_key := k\<rparr>) = (Some (replicate 32 (CHR ''k''), replicate 32 (CHR ''k'')), demo_dialled\<lparr>st_session_key := k\<rparr>)"
  "bot_key_decode e demo_dialled = (Some (replicate 32 (CHR ''k''), replicate 32 (CHR ''k'')), demo_dialled)"
  using demo_raw_key by (simp_all add: bot_key_decode_def split_priv_def demo_dialled_def)

lemma demo_challenge: "process_packet demo_hub_env demo_dialled (snd (demo_packets ! 0)) = demo_signed" 
proof -
  have "process_packet demo_hub_env demo_dialled b = handle_challenge demo_hub_env demo_dialled b" for b
    by (simp add: process_packet_def demo_dialled_at)
  then show ?thesis
    by (simp add: handle_challenge_def demo_packets_def Let_def derive_session_key_def sign_challenge_def demo_keys
      demo_dialled_at send_raw_def demo_signed_def)
qed

lemma demo_ack: "process_packet demo_hub_env demo_signed (snd (demo_packets ! 1)) = link_up demo_hub_env demo_signed"
proof -
  have g: "gcm_open demo_hub_env (replicate 32 (CHR 0x00)) [] (snd (demo_packets ! 1)) = Some [CHR 0x01]" by code_simp
  have k: "st_session_key demo_signed = replicate 32 (CHR 0x00)" by (simp add: demo_signed_def)
  have "process_packet demo_hub_env demo_signed b = handle_ack demo_hub_env demo_signed b" for b
    by (simp add: process_packet_def demo_signed_def demo_dialled_def lean_bot_def bot_new_def)
  moreover have "\<not> length (snd (demo_packets ! 1)) < GCM_IV_LEN + 1 + GCM_TAG_LEN" by (simp add: demo_packets_def limits)
  ultimately have "process_packet demo_hub_env demo_signed (snd (demo_packets ! 1)) = greet_hub demo_hub_env (link_up demo_hub_env demo_signed)"
    using g k by (simp add: handle_ack_def)
  also have "\<dots> = link_up demo_hub_env demo_signed"
    by (simp add: greet_hub_def Let_def push_config_def send_presence_def link_ready_def report_upgrade_result_def
      upgrade_ready_tick_def send_activity_def link_up_def demo_signed_def demo_dialled_def lean_bot_def bot_new_def demo_hub_env_def calm_env_def
      default_upgrade_def)
  finally show ?thesis .
qed

lemma demo_grant:
  "c_op_grant_held (st_chans (process_packet demo_hub_env (link_up demo_hub_env demo_signed) (snd (demo_packets ! 2))) ! 0) = [(''bob'', 100)]"
proof -
  let ?b = "snd (demo_packets ! 2)" and ?st = "(link_up demo_hub_env demo_signed)\<lparr>st_last_hub_activity := 100\<rparr>"
  have g: "gcm_open demo_hub_env (replicate 32 (CHR 0x00)) [] ?b = Some (CHR 0x29 # [CHR 0x00, CHR 0x00, CHR 0x00, CHR 0x06] @ ''bob|#c'')" by code_simp
  have n: "be32_val ([CHR 0x00, CHR 0x00, CHR 0x00, CHR 0x06] @ ''bob|#c'') = 6" "take 6 (drop 4 ([CHR 0x00, CHR 0x00, CHR 0x00, CHR 0x06] @ ''bob|#c'')) = ''bob|#c''"
    "until_nul (from_utf8_lossy ''bob|#c'') = ''bob|#c''" "length ([CHR 0x00, CHR 0x00, CHR 0x00, CHR 0x06] @ ''bob|#c'') = 10"
    "byte (CHR 0x29) = 0x29" "\<not> length ?b \<le> 28" by code_simp+
  have chan: "chan_find ?st ''#c'' = Some 0" "st_chans ?st = [default_chan\<lparr>c_name := ''#c'', c_status := CS_In\<rparr>]"
    "c_i_am_opped default_chan = False"
    by (simp_all add: chan_find_def link_up_def demo_signed_def demo_dialled_def eq_ic_refl default_chan_def)
  let ?r = "sscanf ''bob|#c'' [FSet 255 ''|'', FLit ''|'', FWord 64]"
  have s: "length ?r = 2" "conv_s ?r 1 [] = ''#c''" "mask_nick (conv_s ?r 0 []) MAX_NICK = ''bob''" by code_simp+
  have k: "st_session_key ?st = replicate 32 (CHR 0x00)" "st_hub_authenticated (link_up demo_hub_env demo_signed)"
    by (simp_all add: demo_signed_def link_up_def)
  have "process_packet demo_hub_env (link_up demo_hub_env demo_signed) ?b = hub_plain demo_hub_env ?st (CHR 0x29 # [CHR 0x00, CHR 0x00, CHR 0x00, CHR 0x06] @ ''bob|#c'')"
    using g k n(6) by (simp add: process_packet_def Let_def limits)
  also have "\<dots> = handle_response demo_hub_env ?st 0x29 ''bob|#c''"
    using n(1-5) by (simp only: hub_plain_def Let_def list.sel list.size drop_Suc_Cons drop0) (simp add: limits)
  also have "\<dots> = handle_op_grant demo_hub_env ?st ''bob|#c''"
    by (simp add: handle_response_def limits)
  also have "\<dots> = upd_chan ?st 0 (hold_grant demo_hub_env ''bob'')"
    using chan s by (simp add: handle_op_grant_def Let_def elect_chan_def)
  finally have "process_packet demo_hub_env (link_up demo_hub_env demo_signed) ?b = upd_chan ?st 0 (hold_grant demo_hub_env ''bob'')" .
  moreover have "c_op_grant_held (st_chans (upd_chan ?st 0 (hold_grant demo_hub_env ''bob'')) ! 0) = [(''bob'', 100)]"
    using chan(2) by (simp add: upd_chan_def hold_grant_def Let_def default_chan_def limits)
  ultimately show ?thesis by simp
qed

lemma hub_proves_itself_witness:
  "c_op_grant_held (st_chans (foldl (\<lambda>s (e, b). process_packet e s b) demo_dialled demo_packets) ! 0) = [(''bob'', 100)] \<and>
   e_ed_verify demo_hub_env (st_hub_remote_ed_pub demo_dialled)
     (hub_transcript demo_dialled (replicate 32 (CHR ''c'')) (replicate 32 (CHR ''c''))) (replicate 64 (CHR ''S''))"
proof -
  let ?st = "foldl (\<lambda>s (e, b). process_packet e s b) demo_dialled demo_packets"
  have o: "c_op_grant_held (st_chans ?st ! 0) = [(''bob'', 100)]" using demo_challenge demo_ack demo_grant by (simp add: demo_packets_def)
  have "c_op_grant_held (st_chans demo_dialled ! 0) = []" by (simp add: demo_dialled_def default_chan_def)
  then have "governed ?st \<noteq> governed demo_dialled" using o by (auto simp: governed_def)
  then show ?thesis using hub_proves_itself [of demo_dialled demo_packets] demo_dialled_at o
    by (auto simp: demo_packets_def)
qed

section \<open>Sealed frames of bots\<close>

text \<open>A text a bot took from a frame is not taken again, however many other frames come first.\<close>

definition b2_later :: "bot_state \<Rightarrow> (env \<times> string) list \<Rightarrow> bot_state" where
  "b2_later st fs = foldl (\<lambda>s (e, pt). snd (b2_accept e s pt)) st fs"

definition b2_stamp :: "string \<Rightarrow> int" where
  "b2_stamp pt = (case envelope_parse (from_utf8_lossy pt) of Some (ts, _) \<Rightarrow> ts | None \<Rightarrow> 0)"

lemma b2_accept_nonces:
  "\<exists>es. length es \<le> 1 \<and> st_recent_nonces (snd (b2_accept e st pt)) = nonce_records (st_recent_nonces st) es"
  by (auto simp: b2_accept_def nonce_records_def intro: exI [of _ "[]"] exI [of _ "[(x, y)]" for x y] split: option.split prod.split)

text \<open>The three ways a text can go.\<close>

lemma b2_accept_eq:
  assumes "\<not> has_control_bytes pt" "envelope_parse (from_utf8_lossy pt) = Some (ts, nonce, cmd)"
  shows "b2_accept e st pt = (if \<bar>e_now e - ts\<bar> > B2_TS_SKEW \<or> nonce_seen (st_recent_nonces st) nonce (e_now e)
     then (None, st) else (Some cmd, st\<lparr>st_recent_nonces := nonce_record (st_recent_nonces st) nonce (e_now e)\<rparr>))"
  using assms by (simp add: b2_accept_def)

lemma b2_accept_bad:
  assumes "has_control_bytes pt \<or> envelope_parse (from_utf8_lossy pt) = None"
  shows "b2_accept e st pt = (None, st)"
  using assms unfolding b2_accept_def by (elim disjE) (simp_all only: if_True option.case if_cancel)

lemma b2_parsed:
  assumes "\<not> (has_control_bytes pt \<or> envelope_parse (from_utf8_lossy pt) = None)"
  obtains ts nonce cmd where "\<not> has_control_bytes pt" "envelope_parse (from_utf8_lossy pt) = Some (ts, nonce, cmd)"
  using assms by (metis option.exhaust prod_cases3)

lemma b2_accept_Some:
  assumes "fst (b2_accept e st pt) = Some cmd"
  shows "\<exists>ts nonce. \<not> has_control_bytes pt \<and> envelope_parse (from_utf8_lossy pt) = Some (ts, nonce, cmd) \<and>
    \<bar>e_now e - ts\<bar> \<le> B2_TS_SKEW \<and> \<not> nonce_seen (st_recent_nonces st) nonce (e_now e) \<and>
    snd (b2_accept e st pt) = st\<lparr>st_recent_nonces := nonce_record (st_recent_nonces st) nonce (e_now e)\<rparr>"
proof -
  have "\<not> (has_control_bytes pt \<or> envelope_parse (from_utf8_lossy pt) = None)"
    using assms b2_accept_bad [of pt e st] by (metis fst_conv option.distinct(1))
  then obtain ts nonce w where p: "\<not> has_control_bytes pt" "envelope_parse (from_utf8_lossy pt) = Some (ts, nonce, w)"
    by (rule b2_parsed)
  note e = b2_accept_eq [OF p, of e st]
  have "\<bar>e_now e - ts\<bar> \<le> B2_TS_SKEW" "\<not> nonce_seen (st_recent_nonces st) nonce (e_now e)" "w = cmd"
    "snd (b2_accept e st pt) = st\<lparr>st_recent_nonces := nonce_record (st_recent_nonces st) nonce (e_now e)\<rparr>"
    using assms unfolding e by (simp_all split: if_splits)
  then show ?thesis using p by blast
qed

lemma b2_accept_None:
  assumes "fst (b2_accept e st pt) = None"
  shows "snd (b2_accept e st pt) = st"
proof (cases "has_control_bytes pt \<or> envelope_parse (from_utf8_lossy pt) = None")
  case False
  then obtain ts nonce w where p: "\<not> has_control_bytes pt" "envelope_parse (from_utf8_lossy pt) = Some (ts, nonce, w)"
    by (rule b2_parsed)
  show ?thesis
  proof (cases "\<bar>e_now e - ts\<bar> > B2_TS_SKEW \<or> nonce_seen (st_recent_nonces st) nonce (e_now e)")
    case True
    then have "b2_accept e st pt = (None, st)" unfolding b2_accept_eq [OF p] by (rule if_P)
    then show ?thesis by simp
  next
    case False
    then have "fst (b2_accept e st pt) = Some w" unfolding b2_accept_eq [OF p] by simp
    then show ?thesis using assms by simp
  qed
qed (simp add: b2_accept_bad)

lemma select_convs_nonces: "st_recent_nonces (st\<lparr>st_recent_nonces := c\<rparr>) = c"
  by simp

lemma b2_later_nonces:
  "\<exists>es. length es \<le> length fs \<and> st_recent_nonces (b2_later st fs) = nonce_records (st_recent_nonces st) es"
proof (induction fs arbitrary: st)
  case (Cons f fs)
  obtain e pt where f: "f = (e, pt)" by (cases f)
  obtain a where a: "length a \<le> 1" "st_recent_nonces (snd (b2_accept e st pt)) = nonce_records (st_recent_nonces st) a"
    using b2_accept_nonces by blast
  obtain b where b: "length b \<le> length fs"
    "st_recent_nonces (b2_later (snd (b2_accept e st pt)) fs) = nonce_records (nonce_records (st_recent_nonces st) a) b"
    using Cons.IH a(2) by metis
  have "nonce_records (nonce_records (st_recent_nonces st) a) b = nonce_records (st_recent_nonces st) (a @ b)"
    by (simp add: nonce_records_def)
  then have "st_recent_nonces (b2_later st (f # fs)) = nonce_records (st_recent_nonces st) (a @ b)"
    using b(2) by (simp add: b2_later_def f)
  moreover have "length (a @ b) \<le> length (f # fs)" using a(1) b(1) by simp
  ultimately show ?case by blast
next
  case Nil
  have "st_recent_nonces (b2_later st []) = nonce_records (st_recent_nonces st) []"
    by (simp add: b2_later_def nonce_records_def)
  then show ?case by (intro exI [of _ "[]"]) simp
qed

text \<open>C13: the text of a bot's sealed frame is acted on once: when the sender's clock was not ahead of this
  bot's, a text taken is refused at any later time, as long as fewer frames than the replay cache
  has places were taken in between.\<close>

theorem b2_text_taken_once:
  assumes "fst (b2_accept e st pt) = Some cmd" "nonce_ok cap (st_recent_nonces st)" "b2_stamp pt \<le> e_now e"
    "length fs < cap" "e_now e \<le> e_now e'"
  shows "b2_accept e' (b2_later (snd (b2_accept e st pt)) fs) pt = (None, b2_later (snd (b2_accept e st pt)) fs)"
proof -
  let ?later = "b2_later (snd (b2_accept e st pt)) fs"
  obtain ts nonce where p: "\<not> has_control_bytes pt" "envelope_parse (from_utf8_lossy pt) = Some (ts, nonce, cmd)"
    "snd (b2_accept e st pt) = st\<lparr>st_recent_nonces := nonce_record (st_recent_nonces st) nonce (e_now e)\<rparr>"
    using b2_accept_Some [OF assms(1)] by blast
  obtain es where es: "length es \<le> length fs" "st_recent_nonces (b2_later (snd (b2_accept e st pt)) fs) =
      nonce_records (nonce_record (st_recent_nonces st) nonce (e_now e)) es"
    using b2_later_nonces [where st = "snd (b2_accept e st pt)" and fs = fs] unfolding p(3) select_convs_nonces by blast
  then have "(nonce, e_now e) \<in> set (nc_entries (st_recent_nonces (b2_later (snd (b2_accept e st pt)) fs)))"
    using nonce_stays [OF assms(2)] assms(4) by simp
  moreover have "e_now e' - e_now e \<le> NONCE_TTL_SECONDS \<or> \<bar>e_now e' - ts\<bar> > B2_TS_SKEW"
    using assms(3,5) p(2) by (auto simp: b2_stamp_def limits)
  ultimately have "nonce_seen (st_recent_nonces ?later) nonce (e_now e') \<or> \<bar>e_now e' - ts\<bar> > B2_TS_SKEW"
    unfolding nonce_seen_def list_ex_iff by fastforce
  moreover have "b2_accept e' s pt = (None, s)"
    if "nonce_seen (st_recent_nonces s) nonce (e_now e') \<or> \<bar>e_now e' - ts\<bar> > B2_TS_SKEW" for s
    using that p(1,2) by (auto simp: b2_accept_def)
  ultimately show ?thesis by blast
qed

definition demo_b2 :: bot_state where
  "demo_b2 = lean_bot\<lparr>st_recent_nonces := nonce_new 2\<rparr>"

lemma b2_text_taken_once_witness:
  "b2_accept (calm_env 90) (b2_later (snd (b2_accept (calm_env 60) demo_b2 ''60:0000000000000001:OPME #c''))
      [(calm_env 61, ''61:0000000000000002:OPME #d'')]) ''60:0000000000000001:OPME #c'' =
   (None, b2_later (snd (b2_accept (calm_env 60) demo_b2 ''60:0000000000000001:OPME #c''))
      [(calm_env 61, ''61:0000000000000002:OPME #d'')])"
proof -
  have "fst (b2_accept (calm_env 60) demo_b2 ''60:0000000000000001:OPME #c'') = Some ''OPME #c'' \<and>
      b2_stamp ''60:0000000000000001:OPME #c'' = 60" by code_simp
  then have f: "fst (b2_accept (calm_env 60) demo_b2 ''60:0000000000000001:OPME #c'') = Some ''OPME #c''"
    and t: "b2_stamp ''60:0000000000000001:OPME #c'' \<le> e_now (calm_env 60)" by (simp_all add: calm_env_def)
  have n: "nonce_ok 2 (st_recent_nonces demo_b2)" by (simp add: nonce_ok_def demo_b2_def nonce_new_def)
  show ?thesis by (rule b2_text_taken_once [OF f n t]) (simp_all add: calm_env_def)
qed

definition b2_nonce :: "string \<Rightarrow> 64 word option" where
  "b2_nonce pt = (case envelope_parse (from_utf8_lossy pt) of Some (_, nonce, _) \<Rightarrow> Some nonce | None \<Rightarrow> None)"

lemma b2_accept_entries:
  assumes "b2_nonce pt \<noteq> Some n" "(n, t) \<in> set (nc_entries (st_recent_nonces (snd (b2_accept e st pt))))"
  shows "(n, t) \<in> set (nc_entries (st_recent_nonces st))"
proof (cases "fst (b2_accept e st pt)")
  case None
  then have "snd (b2_accept e st pt) = st" by (rule b2_accept_None)
  then show ?thesis using assms(2) by simp
next
  case (Some cmd)
  obtain ts nonce where p: "envelope_parse (from_utf8_lossy pt) = Some (ts, nonce, cmd)"
    "snd (b2_accept e st pt) = st\<lparr>st_recent_nonces := nonce_record (st_recent_nonces st) nonce (e_now e)\<rparr>"
    using b2_accept_Some [OF Some] by blast
  have "nonce \<noteq> n" using assms(1) p(1) by (simp add: b2_nonce_def)
  then show ?thesis using assms(2) set_update_subset_insert unfolding p(2) nonce_record_def by fastforce
qed

lemma b2_later_entries:
  assumes "\<forall>(e, p) \<in> set fs. b2_nonce p \<noteq> Some n" "(n, t) \<in> set (nc_entries (st_recent_nonces (b2_later st fs)))"
  shows "(n, t) \<in> set (nc_entries (st_recent_nonces st))"
  using assms
proof (induction fs arbitrary: st)
  case (Cons f fs)
  obtain e p where f: "f = (e, p)" by (cases f)
  have "b2_later st (f # fs) = b2_later (snd (b2_accept e st p)) fs" by (simp add: b2_later_def f)
  then have "(n, t) \<in> set (nc_entries (st_recent_nonces (snd (b2_accept e st p))))"
    using Cons.IH [of "snd (b2_accept e st p)"] Cons.prems by simp
  moreover have "b2_nonce p \<noteq> Some n" using Cons.prems(1) f by simp
  ultimately show ?case using b2_accept_entries by metis
qed (simp add: b2_later_def)

text \<open>C40: whenever a frame is taken whose stamp is ahead of this bot's clock, the same text is taken again at every
  time after its nonce is forgotten and before its stamp expires, whatever other frames came in
  between; and there is such a time, the second after the nonce's lifetime.\<close>

theorem b2_text_replayed:
  assumes "fst (b2_accept e st pt) = Some cmd" "e_now e < b2_stamp pt" "\<forall>(e1, p) \<in> set fs. b2_nonce p \<noteq> b2_nonce pt"
    "e_now e + NONCE_TTL_SECONDS < e_now e'" "e_now e' \<le> b2_stamp pt + B2_TS_SKEW"
  shows "fst (b2_accept e' (b2_later (snd (b2_accept e st pt)) fs) pt) = Some cmd \<and>
    e_now e + NONCE_TTL_SECONDS + 1 \<le> b2_stamp pt + B2_TS_SKEW"
proof
  let ?later = "b2_later (snd (b2_accept e st pt)) fs"
  obtain ts nonce where p: "\<not> has_control_bytes pt" "envelope_parse (from_utf8_lossy pt) = Some (ts, nonce, cmd)"
    "snd (b2_accept e st pt) = st\<lparr>st_recent_nonces := nonce_record (st_recent_nonces st) nonce (e_now e)\<rparr>"
    and first: "\<bar>e_now e - ts\<bar> \<le> B2_TS_SKEW" "\<not> nonce_seen (st_recent_nonces st) nonce (e_now e)"
    using b2_accept_Some [OF assms(1)] by blast
  have ts: "b2_stamp pt = ts" and n: "b2_nonce pt = Some nonce" using p(2) by (simp_all add: b2_stamp_def b2_nonce_def)
  have old: "e_now e' - t > NONCE_TTL_SECONDS"
    if t: "(nonce, t) \<in> set (nc_entries (st_recent_nonces ?later))" for t
  proof -
    have "(nonce, t) \<in> set (nc_entries (nonce_record (st_recent_nonces st) nonce (e_now e)))"
      using b2_later_entries [OF _ t] assms(3) n unfolding p(3) select_convs_nonces by simp
    then have "(nonce, t) = (nonce, e_now e) \<or> (nonce, t) \<in> set (nc_entries (st_recent_nonces st))"
      using set_update_subset_insert unfolding nonce_record_def by fastforce
    then show ?thesis
    proof
      assume "(nonce, t) \<in> set (nc_entries (st_recent_nonces st))"
      then have "e_now e - t > NONCE_TTL_SECONDS" using first(2) unfolding nonce_seen_def list_ex_iff by fastforce
      then show ?thesis using assms(4) by (simp add: limits)
    qed (use assms(4) in simp)
  qed
  have "\<not> nonce_seen (st_recent_nonces ?later) nonce (e_now e')"
    using old unfolding nonce_seen_def list_ex_iff by fastforce
  moreover have "\<bar>e_now e' - ts\<bar> \<le> B2_TS_SKEW" using first(1) assms(4,5) ts by (simp add: limits)
  moreover have "fst (b2_accept e' s pt) = Some cmd"
    if "\<not> nonce_seen (st_recent_nonces s) nonce (e_now e')" "\<bar>e_now e' - ts\<bar> \<le> B2_TS_SKEW" for s
    using that by (simp add: b2_accept_eq [OF p(1,2)])
  ultimately show "fst (b2_accept e' ?later pt) = Some cmd" by blast
  show "e_now e + NONCE_TTL_SECONDS + 1 \<le> b2_stamp pt + B2_TS_SKEW" using assms(2) by (simp add: limits)
qed

lemma e_now_calm: "e_now (calm_env t) = t"
  by (simp add: calm_env_def)

text \<open>A text stamped 60 is taken at 0 and again at 61.\<close>

lemma b2_text_replayed_witness:
  "fst (b2_accept (calm_env 61) (b2_later (snd (b2_accept (calm_env 0) demo_b2 ''60:0000000000000001:OPME #c''))
     [(calm_env 30, ''30:0000000000000002:OPME #d'')]) ''60:0000000000000001:OPME #c'') = Some ''OPME #c''"
proof -
  have "fst (b2_accept (calm_env 0) demo_b2 ''60:0000000000000001:OPME #c'') = Some ''OPME #c'' \<and>
      b2_stamp ''60:0000000000000001:OPME #c'' = 60 \<and>
      b2_nonce ''30:0000000000000002:OPME #d'' \<noteq> b2_nonce ''60:0000000000000001:OPME #c''" by code_simp
  then show ?thesis
    using b2_text_replayed [of "calm_env 0" demo_b2 "''60:0000000000000001:OPME #c''" "''OPME #c''"
      "[(calm_env 30, ''30:0000000000000002:OPME #d'')]" "calm_env 61"]
    by (simp add: limits e_now_calm)
qed

section \<open>Chats\<close>

lemma uint_drop: "uint (drop_bit n (a :: 32 word)) = uint a div 2 ^ n"
proof -
  have "take_bit 32 (uint a) = uint a" using uint_lt2p [of a] by (simp add: take_bit_int_eq_self)
  then show ?thesis by (simp only: unsigned_drop_bit_eq) (simp add: drop_bit_eq_div)
qed

lemma v4_allowed:
  "addr_allowed (V4 a) \<longleftrightarrow> 2 ^ 24 \<le> uint a \<and> uint a < 0xE0000000 \<and> uint a div 2 ^ 16 \<noteq> 0xA9FE"
proof -
  have "drop_bit 24 a = 0 \<longleftrightarrow> uint a div 2 ^ 24 = 0"
    by (simp only: word_uint_eq_iff uint_drop) simp
  moreover have "drop_bit 16 a = 0xA9FE \<longleftrightarrow> uint a div 2 ^ 16 = 0xA9FE"
    by (simp only: word_uint_eq_iff uint_drop) simp
  moreover have "drop_bit 28 a \<ge> 0xE \<longleftrightarrow> uint a div 2 ^ 28 \<ge> 0xE"
    by (simp only: word_le_def uint_drop) simp
  moreover have "uint a div 2 ^ 24 = 0 \<longleftrightarrow> uint a < 2 ^ 24" "uint a div 2 ^ 28 \<ge> 0xE \<longleftrightarrow> uint a \<ge> 0xE0000000"
    using uint_ge_0 [of a] by auto
  ultimately show ?thesis by (auto simp: addr_allowed_def)
qed

lemma reply_addr_right:
  assumes "reply_addr a p = Inr (sa, port)"
  shows "addr_allowed sa" "parse_addr a = Some sa" "DCC_MIN_PORT \<le> port" "port \<le> 65535"
    "digits_upto p 5" "digits_val p = port"
  using assms by (auto simp: reply_addr_def Let_def split: if_splits option.splits)

text \<open>C10: the bot dials out for a chat only at the address and the port that a client gave in answer to an offer
  open for that very sender: the address is not in 0/8, link local or multicast, the port is
  unprivileged, a token, where the reply carries one, is the offer's; and of the chats only that one
  changes.\<close>

theorem dcc_dials_only_its_offer:
  assumes "handle_ctcp e dial st user_host ctcp = (Some (sa, port), st')" "f = tokens '' '' ctcp"
  shows "addr_allowed sa \<and>
    (\<forall>a. sa = V4 a \<longrightarrow> 2 ^ 24 \<le> uint a \<and> uint a < 0xE0000000 \<and> uint a div 2 ^ 16 \<noteq> 0xA9FE) \<and>
    parse_addr (f ! 3) = Some sa \<and> digits_upto (f ! 4) 5 \<and> digits_val (f ! 4) = port \<and> 1024 \<le> port \<and> port \<le> 65535 \<and>
    (\<exists>i < length (st_dcc st). dc_phase (st_dcc st ! i) = DccOffered \<and> eq_ic (dc_user_host (st_dcc st ! i)) user_host \<and>
      (length f = 5 \<or> length f = 6 \<and> digits_upto (f ! 5) 10 \<and> dec_val (f ! 5) = uint (dc_token (st_dcc st ! i))) \<and>
      st' = dcc_dial e dial st i sa port)"
proof -
  obtain i where i: "open_offer st user_host = Some i" "ctcp_shape ctcp f" "token_ok (dc_token (st_dcc st ! i)) f"
    "reply_addr (f ! 3) (f ! 4) = Inr (sa, port)" "st' = dcc_dial e dial st i sa port"
    using assms by (auto simp: handle_ctcp_def Let_def split: option.splits if_splits sum.splits)
  note r = reply_addr_right [OF i(4)]
  have "i < length (st_dcc st) \<and> dc_phase (st_dcc st ! i) = DccOffered \<and> eq_ic (dc_user_host (st_dcc st ! i)) user_host"
    using position_SomeD [OF i(1) [unfolded open_offer_def]] by simp
  moreover have "length f = 5 \<or> length f = 6 \<and> digits_upto (f ! 5) 10 \<and> dec_val (f ! 5) = uint (dc_token (st_dcc st ! i))"
    using i(2,3) by (auto simp: ctcp_shape_def token_ok_def)
  moreover have "addr_allowed (V4 a) \<Longrightarrow> 2 ^ 24 \<le> uint a \<and> uint a < 0xE0000000 \<and> uint a div 2 ^ 16 \<noteq> 0xA9FE" for a
    using v4_allowed by blast
  ultimately show ?thesis using i(5) r by (fastforce simp: DCC_MIN_PORT_def)
qed

definition demo_offered :: bot_state where
  "demo_offered = lean_bot\<lparr>st_dcc := [default_dcc\<lparr>dc_phase := DccOffered, dc_user_host := ''a!b@c'', dc_token := 7\<rparr>]\<rparr>"

lemma dcc_dials_only_its_offer_witness:
  "fst (handle_ctcp (calm_env 100) (\<lambda>_ _. Inr 3) demo_offered ''A!b@c'' ''DCC CHAT chat 203.0.113.5 5000 7'') =
     Some (V4 0xCB007105, 5000) \<and> addr_allowed (V4 0xCB007105) \<and> (1024::nat) \<le> 5000 \<and> (5000::nat) \<le> 65535"
proof -
  let ?f = "tokens '' '' ''DCC CHAT chat 203.0.113.5 5000 7''"
  have "?f = [''DCC'', ''CHAT'', ''chat'', ''203.0.113.5'', ''5000'', ''7''] \<and>
    ctcp_shape ''DCC CHAT chat 203.0.113.5 5000 7'' ?f \<and> token_ok 7 ?f \<and>
    parse_addr ''203.0.113.5'' = Some (V4 0xCB007105) \<and> digits_upto ''5000'' 5" by code_simp
  then have f: "?f = [''DCC'', ''CHAT'', ''chat'', ''203.0.113.5'', ''5000'', ''7'']"
    and o: "ctcp_shape ''DCC CHAT chat 203.0.113.5 5000 7'' ?f" "token_ok 7 ?f"
    "parse_addr ''203.0.113.5'' = Some (V4 0xCB007105)" "digits_upto ''5000'' 5" by blast+
  have d: "st_dcc demo_offered = [default_dcc\<lparr>dc_phase := DccOffered, dc_user_host := ''a!b@c'', dc_token := 7\<rparr>]"
    by (simp add: demo_offered_def)
  have "eq_ic ''a!b@c'' ''A!b@c''" by code_simp
  then have "open_offer demo_offered ''A!b@c'' = Some 0" by (simp add: open_offer_def d)
  have al: "addr_allowed (V4 0xCB007105)" by (simp add: v4_allowed)
  have "digits_val ''5000'' = 5000" by (simp add: digits_val_def digit_val_def byte_def)
  then have "reply_addr ''203.0.113.5'' ''5000'' = Inr (V4 0xCB007105, 5000)"
    using o al by (simp add: reply_addr_def Let_def limits)
  then have r: "handle_ctcp (calm_env 100) (\<lambda>_ _. Inr 3) demo_offered ''A!b@c'' ''DCC CHAT chat 203.0.113.5 5000 7'' =
    (Some (V4 0xCB007105, 5000), dcc_dial (calm_env 100) (\<lambda>_ _. Inr 3) demo_offered 0 (V4 0xCB007105) 5000)"
    using \<open>open_offer demo_offered ''A!b@c'' = Some 0\<close> o f d by (simp add: handle_ctcp_def Let_def)
  show ?thesis using dcc_dials_only_its_offer [OF r refl] r by simp
qed

section \<open>Addresses as text\<close>

lemma radix_digit_dec: "radix_digit 10 c \<longleftrightarrow> is_digit c"
  by (auto simp: radix_digit_def hex_digit_val_def is_digit_def digit_val_def)

lemma dec_head: "n \<noteq> 0 \<Longrightarrow> hd (dec n) \<noteq> CHR ''0''"
proof (induction n rule: dec.induct)
  case (1 n)
  show ?case
  proof (cases "n < 10")
    case True
    then have "n \<in> {1, 2, 3, 4, 5, 6, 7, 8, 9}" using 1(2) by auto
    then show ?thesis by (subst dec.simps) (auto simp: char_of_def)
  qed (use 1 in \<open>subst dec.simps, auto simp: hd_append\<close>)
qed

lemma read_num_dec:
  assumes "n < 256" "rest = [] \<or> \<not> is_digit (hd rest)"
  shows "read_num 10 3 False 256 (dec n @ rest) = Some (n, rest)"
proof -
  have tw: "takeWhile (radix_digit 10) (dec n @ rest) = dec n"
    using dec_digits [of n] assms(2) by (cases rest) (auto simp: radix_digit_dec takeWhile_append)
  have f: "foldl (\<lambda>a c. 10 * a + (case hex_digit_val c of Some d \<Rightarrow> d | None \<Rightarrow> 0)) v s = foldl (\<lambda>v c. v * 10 + digit_val c) v s"
    if "\<forall>c \<in> set s. is_digit c" for v s
    using that by (induction s arbitrary: v) (auto simp: hex_digit_val_def mult.commute)
  have v: "foldl (\<lambda>a c. 10 * a + (case hex_digit_val c of Some d \<Rightarrow> d | None \<Rightarrow> 0)) 0 (dec n) = n"
    using f [OF dec_digits] digits_val_dec [of n] by (simp add: digits_val_def)
  have l: "length (dec n) \<le> 3" using length_dec [of n 3] assms(1) by simp
  have z: "length (dec n) > 1 \<Longrightarrow> hd (dec n) \<noteq> CHR ''0''"
    by (cases "n = 0") (auto simp: dec_head dec.simps [of 0])
  show ?thesis unfolding read_num_def tw Let_def v using l z assms(1) by auto
qed

lemma read_num_dot: "n < 256 \<Longrightarrow> read_num 10 3 False 256 (dec n @ CHR ''.'' # rest) = Some (n, CHR ''.'' # rest)"
proof -
  have "\<not> is_digit (CHR ''.'')" by code_simp
  then show "n < 256 \<Longrightarrow> read_num 10 3 False 256 (dec n @ CHR ''.'' # rest) = Some (n, CHR ''.'' # rest)"
    by (intro read_num_dec) simp_all
qed

lemma and_255: "(w :: 32 word) AND 0xFF = take_bit 8 w"
  by (simp add: take_bit_eq_mask mask_eq_exp_minus_1)

lemma octet_bounds: "unat (drop_bit 24 (a :: 32 word)) < 256" "unat ((a :: 32 word) AND 0xFF) < 256"
proof -
  have "uint (drop_bit 24 a) < 256" using uint_lt2p [of a] by (simp add: uint_drop)
  then have "drop_bit 24 a < 256" by (simp add: word_less_def)
  then show "unat (drop_bit 24 a) < 256" by (simp add: word_less_nat_alt)
  have "a AND 0xFF \<le> 0xFF" by (rule word_and_le1)
  then show "unat (a AND 0xFF) < 256" by (simp add: word_le_nat_alt)
qed

lemma v4_of_octets:
  "v4_of [unat (drop_bit 24 a), unat (drop_bit 16 a AND 0xFF), unat (drop_bit 8 a AND 0xFF), unat (a AND 0xFF)] = a"
proof -
  have "push_bit 8 (push_bit 8 (push_bit 8 (drop_bit 24 a) OR take_bit 8 (drop_bit 16 a)) OR take_bit 8 (drop_bit 8 a)) OR take_bit 8 a = a"
  proof (rule bit_word_eqI)
    fix i assume i: "i < LENGTH(32)"
    consider "i < 8" | "8 \<le> i" "i < 16" | "16 \<le> i" "i < 24" | "24 \<le> i" by linarith
    then show "bit (push_bit 8 (push_bit 8 (push_bit 8 (drop_bit 24 a) OR take_bit 8 (drop_bit 16 a)) OR take_bit 8 (drop_bit 8 a)) OR
        take_bit 8 a) i = bit a i"
      using i by cases (auto simp: bit_simps)
  qed
  then show ?thesis by (simp add: v4_of_def and_255)
qed

lemma v4_text_roundtrip: "parse_v4 (v4_text a) = Some a"
proof -
  have four: "(4::nat) = Suc (Suc (Suc (Suc 0)))" by simp
  have "read_octets (Suc (Suc (Suc (Suc 0)))) (dec p @ ''.'' @ dec r @ ''.'' @ dec s @ ''.'' @ dec t) = Some ([p, r, s, t], [])"
    if "p < 256" "r < 256" "s < 256" "t < 256" for p r s t
    using that read_num_dec [of t "[]"] by (simp add: read_num_dot read_char_def)
  then show ?thesis using octet_bounds v4_of_octets [of a] unfolding parse_v4_def v4_text_def four by simp
qed

lemma v4_text_shape:
  "length (v4_text a) < 46" "CHR ''.'' \<in> set (v4_text a)" "CHR '':'' \<notin> set (v4_text a)"
proof -
  have l: "length (dec n) \<le> 3" if "n < 256" for n using length_dec [of n 3] that by simp
  have d: "length (dec (unat (drop_bit 24 a))) \<le> 3" "length (dec (unat (drop_bit 16 a AND 0xFF))) \<le> 3"
    "length (dec (unat (drop_bit 8 a AND 0xFF))) \<le> 3" "length (dec (unat (a AND 0xFF))) \<le> 3"
    by (intro l octet_bounds)+
  then show "length (v4_text a) < 46" by (simp add: v4_text_def)
  have "\<not> is_digit (CHR '':'')" by code_simp
  then have "CHR '':'' \<notin> set (dec n)" for n using dec_digits by blast
  then show "CHR '':'' \<notin> set (v4_text a)" by (simp add: v4_text_def)
qed (simp add: v4_text_def)

text \<open>C18: the text the bot shows of an IPv4 address reads back as that address, so what a chat's messages name is
  what was dialled.\<close>

theorem address_text_roundtrip: "parse_addr (ip_text (V4 a)) = Some (V4 a)"
proof -
  have "\<not> is_digit (CHR ''.'')" by code_simp
  then have "\<not> list_all is_digit (v4_text a)" using v4_text_shape(2) [of a] by (auto simp: list_all_iff)
  moreover have "v4_text a \<noteq> []" using v4_text_shape(2) [of a] by auto
  ultimately show ?thesis using v4_text_shape [of a] v4_text_roundtrip [of a] by (simp add: parse_addr_def ip_text_def)
qed

end
