(* ===== verification/CommandProps.thy ===== *)
theory CommandProps
  imports Commands Frame
begin

text \<open>
  What the commands promise: a sealed command runs once, whoever sends its text again; an oper
  changes nothing but the own key, and that only while the network leaves records to its bots.
\<close>

section \<open>Nonces\<close>

lemma core_nonces: "core s' = core s \<Longrightarrow> st_admin_nonces s' = st_admin_nonces s"
  by (simp add: core_def)

lemma send_frame_nonces: "send_frame e st c p = (r, s') \<Longrightarrow> st_admin_nonces s' = st_admin_nonces st"
  using core_nonces core_send_frame_eq by blast

lemma act_clears_nonces: "st_admin_nonces (foldl (act_clear nu) st js) = st_admin_nonces st"
  by (induction js arbitrary: st) (simp_all add: act_clear_def)

lemma activity_nonces: "st_admin_nonces (send_activity e st) = st_admin_nonces st"
proof -
  have "st_admin_nonces (send_activity_loop e nu tot s buf first is) = st_admin_nonces s" for nu tot s buf first "is"
    by (induction e nu tot s buf first "is" rule: send_activity_loop.induct)
       (auto simp: Let_def act_clears_nonces dest: send_frame_nonces split: prod.split bool.split)
  then show ?thesis by (simp add: send_activity_def Let_def)
qed

lemma mark_used_nonces: "st_admin_nonces (mark_used e st u m t) = st_admin_nonces st"
  by (simp add: mark_used_def Let_def activity_nonces split: option.split)

lemma decode_nonces: "bot_key_decode e st = (r, s') \<Longrightarrow> st_admin_nonces s' = st_admin_nonces st"
  by (auto simp: bot_key_decode_def split: if_splits option.splits)

lemma random_nonces: "random_bytes e st n = (r, s') \<Longrightarrow> st_admin_nonces s' = st_admin_nonces st"
  by (auto simp: random_bytes_def)

lemma gcm_nonces: "gcm_seal e st k a p = (r, s') \<Longrightarrow> st_admin_nonces s' = st_admin_nonces st"
  by (auto simp: gcm_seal_def dest!: random_nonces split: option.splits prod.splits)

lemma seal_nonces: "seal e st s rx l a p = (r, s') \<Longrightarrow> st_admin_nonces s' = st_admin_nonces st"
  by (auto simp: seal_def Let_def dest!: random_nonces gcm_nonces split: if_splits option.splits prod.splits)

lemma unseal_nonces: "a2_unseal e st nick uh dest only b64 sealed = (r, s') \<Longrightarrow> st_admin_nonces s' = st_admin_nonces st"
  by (auto simp: a2_unseal_def Let_def dest!: decode_nonces split: if_splits option.splits prod.splits)

lemma ircf_nonces: "st_admin_nonces (ircf e st l) = st_admin_nonces st"
  by (rule core_nonces) (simp add: cores)

lemma lockbox_nonces: "a2_lockbox e st dest nick tsn who = (r, s') \<Longrightarrow> st_admin_nonces s' = st_admin_nonces st"
  by (auto simp: a2_lockbox_def dest!: seal_nonces split: option.splits)

lemma answer_nonces: "st_admin_nonces (a2_answer e st nick dest tsn cand) = st_admin_nonces st"
  by (auto simp: a2_answer_def Let_def ircf_nonces mark_used_nonces upd_user_def dest!: lockbox_nonces
      split: option.split prod.split)

text \<open>A run of the two operations that spend a nonce: opening a command, answering a sign-in.\<close>

datatype sealed_op =
    Open_op env string string string "string option" string bool
  | Sign_op env string string string string

fun sealed_do :: "bot_state \<Rightarrow> sealed_op \<Rightarrow> bot_state" where
  "sealed_do st (Open_op e nick uh dest only b64 sealed) = snd (a2_open_command e st nick uh dest only b64 sealed)"
| "sealed_do st (Sign_op e nick uh dest arg) = a2_handle_auth e st nick uh dest arg"

definition spends :: "nat \<Rightarrow> bot_state \<Rightarrow> bot_state \<Rightarrow> bool" where
  "spends n st st' \<longleftrightarrow> (\<exists>es. length es \<le> n \<and> st_admin_nonces st' = nonce_records (st_admin_nonces st) es)"

lemma spends_none: "st_admin_nonces st' = st_admin_nonces st \<Longrightarrow> spends n st st'"
  unfolding spends_def by (intro exI [of _ "[]"]) (simp add: nonce_records_def)

lemma spends_one:
  "st_admin_nonces st' = nonce_record (st_admin_nonces st) n t \<Longrightarrow> spends 1 st st'"
  unfolding spends_def by (intro exI [of _ "[(n, t)]"]) (simp add: nonce_records_def)

lemma spends_trans:
  assumes "spends m st st1" "spends n st1 st2"
  shows "spends (m + n) st st2"
proof -
  obtain a b where a: "length a \<le> m" "st_admin_nonces st1 = nonce_records (st_admin_nonces st) a"
    and b: "length b \<le> n" "st_admin_nonces st2 = nonce_records (st_admin_nonces st1) b"
    using assms unfolding spends_def by blast
  have "st_admin_nonces st2 = nonce_records (st_admin_nonces st) (a @ b)"
    using a(2) b(2) by (simp add: nonce_records_def)
  moreover have "length (a @ b) \<le> m + n" using a(1) b(1) by simp
  ultimately show ?thesis unfolding spends_def by blast
qed

text \<open>What a command that opened had to be.\<close>

lemma opened_fresh:
  assumes "fst (a2_open_command e st nick uh dest only b64 sealed) = Some oc"
  obtains cand pt rk st1 ts nonce where "a2_unseal e st nick uh dest only b64 sealed = (Some (cand, pt, rk), st1)"
    "\<not> has_control_bytes pt" "envelope_parse (from_utf8_lossy pt) = Some (ts, nonce, oc_cmd oc)"
    "\<bar>e_now e - ts\<bar> \<le> A2_TS_SKEW" "\<not> nonce_seen (st_admin_nonces st) nonce (e_now e)"
    "st_admin_nonces (snd (a2_open_command e st nick uh dest only b64 sealed)) =
       nonce_record (st_admin_nonces st) nonce (e_now e)"
proof -
  obtain r st1 where u: "a2_unseal e st nick uh dest only b64 sealed = (r, st1)" by fastforce
  note n = unseal_nonces [OF u]
  obtain cand pt rk where r: "r = Some (cand, pt, rk)" using assms u by (cases r) (auto simp: a2_open_command_def)
  obtain cmd nonce where f: "a2_fresh e st1 pt = Some (cmd, nonce)"
    using assms u r by (cases "a2_fresh e st1 pt") (auto simp: a2_open_command_def)
  have o: "oc_cmd oc = cmd" "st_admin_nonces (snd (a2_open_command e st nick uh dest only b64 sealed)) =
       nonce_record (st_admin_nonces st) nonce (e_now e)"
    using assms u r f n by (auto simp: a2_open_command_def mark_used_nonces)
  have "\<exists>ts. \<not> has_control_bytes pt \<and> envelope_parse (from_utf8_lossy pt) = Some (ts, nonce, cmd) \<and>
     \<bar>e_now e - ts\<bar> \<le> A2_TS_SKEW \<and> \<not> nonce_seen (st_admin_nonces st1) nonce (e_now e)"
    using f by (auto simp: a2_fresh_def split: if_splits option.splits)
  then show ?thesis using that u r o n by metis
qed

lemma open_spends: "spends 1 st (snd (a2_open_command e st nick uh dest only b64 sealed))"
proof (cases "fst (a2_open_command e st nick uh dest only b64 sealed)")
  case None
  obtain r st1 where u: "a2_unseal e st nick uh dest only b64 sealed = (r, st1)" by fastforce
  have "snd (a2_open_command e st nick uh dest only b64 sealed) = st1"
    using None u by (auto simp: a2_open_command_def split: option.splits)
  then show ?thesis using unseal_nonces [OF u] by (simp add: spends_none)
next
  case (Some oc)
  then show ?thesis by (rule opened_fresh) (rule spends_one)
qed

lemma sign_spends: "spends 1 st (a2_handle_auth e st nick uh dest arg)"
proof -
  have "spends 1 st (a2_answer e (st\<lparr>st_admin_nonces := nonce_record (st_admin_nonces st) n t\<rparr>) nick dest tsn c)"
    for n t tsn c by (rule spends_one) (simp add: answer_nonces)
  then show ?thesis by (auto simp: a2_handle_auth_def spends_none split: option.split)
qed

lemma run_spends: "spends (length ops) st (foldl sealed_do st ops)"
proof (induction ops arbitrary: st)
  case (Cons x ops)
  have "spends 1 st (sealed_do st x)" using open_spends sign_spends by (cases x) (simp_all only: sealed_do.simps)
  then show ?case using spends_trans [OF _ Cons.IH [of "sealed_do st x"]] by fastforce
qed (simp add: spends_none)

text \<open>C2: a sealed command runs once: a text a command was opened from is refused whenever it comes again, in the
  same frame or sealed afresh, to whatever name and in whatever chat, however far the sender's clock
  is off, as long as fewer commands and sign-ins than the replay cache has places came in between.\<close>

theorem sealed_command_runs_once:
  assumes "fst (a2_open_command e st nick uh dest only b64 sealed) = Some oc"
    "fst (a2_unseal e st nick uh dest only b64 sealed) = Some (cand, pt, rk)"
    "nonce_ok cap (st_admin_nonces st)" "length ops < cap" "e_now e \<le> e_now e'"
    "st' = foldl sealed_do (snd (a2_open_command e st nick uh dest only b64 sealed)) ops"
    "fst (a2_unseal e' st' nick' uh' dest' only' b64' sealed') = Some (cand', pt, rk')"
  shows "fst (a2_open_command e' st' nick' uh' dest' only' b64' sealed') = None"
proof -
  obtain ts nonce cmd where p: "envelope_parse (from_utf8_lossy pt) = Some (ts, nonce, cmd)" "\<bar>e_now e - ts\<bar> \<le> A2_TS_SKEW"
    and n: "st_admin_nonces (snd (a2_open_command e st nick uh dest only b64 sealed)) =
       nonce_record (st_admin_nonces st) nonce (e_now e)"
    by (rule opened_fresh [OF assms(1)]) (use assms(2) in auto)
  obtain es where "length es \<le> length ops"
    "st_admin_nonces st' = nonce_records (nonce_record (st_admin_nonces st) nonce (e_now e)) es"
    using run_spends [where st = "snd (a2_open_command e st nick uh dest only b64 sealed)" and ops = ops] n assms(6) by (auto simp: spends_def)
  then have mem: "(nonce, e_now e) \<in> set (nc_entries (st_admin_nonces st'))"
    using nonce_stays [OF assms(3)] assms(4) by simp
  obtain st2 where u: "a2_unseal e' st' nick' uh' dest' only' b64' sealed' = (Some (cand', pt, rk'), st2)"
    using assms(7) by (metis prod.collapse)
  have "e_now e' - e_now e \<le> NONCE_TTL_SECONDS \<or> \<bar>e_now e' - ts\<bar> > A2_TS_SKEW"
    using p(2) assms(5) by (auto simp: limits)
  then have "nonce_seen (st_admin_nonces st') nonce (e_now e') \<or> \<bar>e_now e' - ts\<bar> > A2_TS_SKEW"
    using mem unfolding nonce_seen_def list_ex_iff by fastforce
  then have "a2_fresh e' st2 pt = None" using p(1) unseal_nonces [OF u] by (auto simp: a2_fresh_def)
  then show ?thesis using u by (simp add: a2_open_command_def)
qed

definition demo_user_key :: string where
  "demo_user_key = replicate 86 (CHR ''k'') @ ''==''"

definition demo_a2_env :: "int \<Rightarrow> env" where
  "demo_a2_env t = (calm_env t)\<lparr>e_unb64 := \<lambda>_. Some (replicate 64 (CHR ''k'')), e_b64 := \<lambda>_. demo_user_key\<rparr>"

definition demo_admin :: bot_state where
  "demo_admin = lean_bot\<lparr>st_admin_nonces := nonce_new 2, st_self_pub_set := True, st_self_pub := replicate 64 (CHR ''p''),
     st_hub_key_raw := replicate 64 (CHR ''k''),
     st_user_records := [default_user\<lparr>u_uuid := ''u'', u_name := ''ann'', u_typ := CHR ''a'', u_is_active := True,
       u_has_pubkey := True, u_pubkey_b64 := demo_user_key\<rparr>],
     st_mask_records := [default_mask\<lparr>m_uuid := ''u'', m_mask := ''*'', m_is_active := True\<rparr>]\<rparr>"

definition demo_frame :: string where
  "demo_frame = replicate 44 (CHR ''f'') @ ''60:0000000000000001:status'' @ replicate 16 (CHR ''t'')"

lemma sealed_command_runs_once_witness:
  "map_option oc_cmd (fst (a2_open_command (demo_a2_env 60) demo_admin ''a'' ''a!b@c'' ''b'' None demo_frame False)) =
     Some ''status'' \<and>
   fst (a2_open_command (demo_a2_env 80)
     (snd (a2_open_command (demo_a2_env 60) demo_admin ''a'' ''a!b@c'' ''b'' None demo_frame False))
     ''e'' ''e!b@c'' ''b'' None demo_frame False) = None"
proof -
  let ?o = "a2_open_command (demo_a2_env 60) demo_admin ''a'' ''a!b@c'' ''b'' None demo_frame False"
  have "fst ?o = Some \<lparr>oc_who = 0, oc_cmd = ''status'', oc_rk = None\<rparr> \<and>
      fst (a2_unseal (demo_a2_env 60) demo_admin ''a'' ''a!b@c'' ''b'' None demo_frame False) =
        Some ((0, 0), ''60:0000000000000001:status'', None) \<and>
      fst (a2_unseal (demo_a2_env 80) (snd ?o) ''e'' ''e!b@c'' ''b'' None demo_frame False) =
        Some ((0, 0), ''60:0000000000000001:status'', None)" by code_simp
  then have o: "fst ?o = Some \<lparr>oc_who = 0, oc_cmd = ''status'', oc_rk = None\<rparr>" and
    u: "fst (a2_unseal (demo_a2_env 60) demo_admin ''a'' ''a!b@c'' ''b'' None demo_frame False) =
        Some ((0, 0), ''60:0000000000000001:status'', None)"
      "fst (a2_unseal (demo_a2_env 80) (snd ?o) ''e'' ''e!b@c'' ''b'' None demo_frame False) =
        Some ((0, 0), ''60:0000000000000001:status'', None)" by blast+
  have n: "nonce_ok 2 (st_admin_nonces demo_admin)" by (simp add: nonce_ok_def demo_admin_def nonce_new_def)
  show ?thesis
    using sealed_command_runs_once [OF o u(1) n, of "[]" "demo_a2_env 80" "snd ?o"] u(2) o
    by (simp add: demo_a2_env_def calm_env_def)
qed

section \<open>Opers\<close>

text \<open>What says who may do what and how channels are kept; the records of users come beside it.\<close>

definition rules where
  "rules st = (st_mask_records st, st_trusted_bots st, st_opt_flags st, st_hubs st, st_bot_uuid st,
     st_net_set st, st_net_ts st, st_net_modes st, st_net_settings st,
     map (\<lambda>c. (c_name c, c_key c, c_is_managed c, c_timestamp c, c_cfg_modes c, c_cfg_settings c, c_cfg_set c, c_cfg_ts c,
       c_cfg_active c)) (st_chans st),
     map (\<lambda>b. b\<lparr>b_push_pending := False\<rparr>) (st_cfg_bans st))"

definition same_rules :: "bot_state \<Rightarrow> bot_state \<Rightarrow> bool" where
  "same_rules st st' \<longleftrightarrow> rules st' = rules st \<and> st_user_records st' = st_user_records st"

lemma same_rules_refl [simp]: "same_rules st st"
  by (simp add: same_rules_def)

lemma same_rules_trans: "same_rules st st1 \<Longrightarrow> same_rules st1 st2 \<Longrightarrow> same_rules st st2"
  by (simp add: same_rules_def)

lemma core_rules:
  assumes "core st' = core st" shows "same_rules st st'"
proof -
  have "map c_name (st_chans st') = map c_name (st_chans st)"
    "map (\<lambda>c. (c_key c, c_is_managed c, c_timestamp c, c_cfg_modes c, c_cfg_settings c, c_cfg_set c, c_cfg_ts c, c_cfg_active c))
       (st_chans st') = map (\<lambda>c. (c_key c, c_is_managed c, c_timestamp c, c_cfg_modes c, c_cfg_settings c, c_cfg_set c,
         c_cfg_ts c, c_cfg_active c)) (st_chans st)"
    using assms by (simp_all add: core_def)
  then have "map (\<lambda>c. (c_name c, c_key c, c_is_managed c, c_timestamp c, c_cfg_modes c, c_cfg_settings c, c_cfg_set c,
      c_cfg_ts c, c_cfg_active c)) (st_chans st') = map (\<lambda>c. (c_name c, c_key c, c_is_managed c, c_timestamp c, c_cfg_modes c,
      c_cfg_settings c, c_cfg_set c, c_cfg_ts c, c_cfg_active c)) (st_chans st)"
    by (auto simp: list_eq_iff_nth_eq)
  then show ?thesis using assms by (simp add: same_rules_def rules_def core_def)
qed

lemma say_rules: "same_rules st (say e st nick m)"
  by (simp add: say_def core_rules cores)

lemma ircf_rules: "same_rules st (ircf e st l)"
  by (simp add: core_rules cores)

lemma says_rules: "same_rules st (says e st nick ls)"
  unfolding says_def by (induction ls arbitrary: st) (auto intro: same_rules_trans say_rules)

lemma help_rules: "same_rules st (oper_help e st nick t)"
proof -
  have "same_rules st (help_footer e (say e (help_header e st nick) nick m) nick)" for m
    unfolding help_footer_def help_header_def
    using same_rules_trans [OF same_rules_trans [OF says_rules say_rules] says_rules] .
  then show ?thesis by (auto simp: oper_help_def says_rules split: option.split)
qed

lemma frame_rules: "send_frame e st c p = (r, st') \<Longrightarrow> same_rules st st'"
  by (intro core_rules) (rule core_send_frame_eq)

lemma upd_rules:
  "same_rules st (st\<lparr>st_flood := f\<rparr>)" "same_rules st (st\<lparr>st_disk := d\<rparr>)" "same_rules st (st\<lparr>st_admin_delta_pending := b\<rparr>)"
  "same_rules st (st\<lparr>st_admin_delta_pending := b, st_config_dirty := b2\<rparr>)"
  "same_rules st (st\<lparr>st_cfg_bans := map (\<lambda>b. b\<lparr>b_push_pending := False\<rparr>) (st_cfg_bans st)\<rparr>)"
  "same_rules st (st\<lparr>st_a2r := a\<rparr>)"
  by (simp_all add: same_rules_def rules_def comp_def)

lemma push_config_rules: "same_rules st (push_config e st)"
  using same_rules_trans [OF frame_rules upd_rules(5)]
  by (auto simp: push_config_def Let_def dest: frame_rules split: prod.split bool.split)

lemma write_rules: "same_rules st (write_cfg e st)"
proof -
  have "same_rules st (write_file e st)" by (auto simp: write_file_def upd_rules split: option.split)
  then show ?thesis using same_rules_trans push_config_rules by (auto simp: write_cfg_def Let_def)
qed

lemma admin_loop_rules: "admin_loop e st p ls = (r, p2, st') \<Longrightarrow> same_rules st st'"
proof (induction ls arbitrary: st p)
  case (Cons l ls)
  note step = same_rules_trans [OF frame_rules Cons.IH]
  from Cons.prems show ?case
    by (auto simp: Cons.IH dest: frame_rules step split: if_splits prod.splits bool.splits)
qed simp

lemma admin_delta_rules: "same_rules st (push_admin_delta e st)"
proof -
  let ?s = "st\<lparr>st_admin_delta_pending := True, st_config_dirty := True\<rparr>"
  obtain r p st2 where l: "admin_loop e ?s [] (admin_lines ?s) = (r, p, st2)" by (metis prod.collapse)
  have s2: "same_rules st st2" using same_rules_trans [OF upd_rules(4) admin_loop_rules [OF l]] .
  obtain r3 st3 where f: "send_frame e st2 CMD_CONFIG_PUSH p = (r3, st3)" by fastforce
  have s3: "same_rules st st3" using same_rules_trans [OF s2 frame_rules [OF f]] .
  have w: "same_rules st (write_local e (st\<lparr>st_admin_delta_pending := True\<rparr>))"
    by (auto simp: write_local_def write_file_def same_rules_def rules_def split: option.split)
  show ?thesis
    using l f w same_rules_trans [OF s2 upd_rules(3)] same_rules_trans [OF s3 upd_rules(3)] s2 s3
    by (auto simp: push_admin_delta_def Let_def split: bool.split)
qed

lemma key_rules:
  "rules (set_user_key e st ui key) = rules st"
  "st_user_records (set_user_key e st ui key) = (st_user_records st)[ui := (st_user_records st ! ui)\<lparr>u_pubkey_b64 := key,
     u_has_pubkey := True, u_timestamp := lww_next_ts (e_now e) (u_timestamp (st_user_records st ! ui)),
     u_last_auth_reply := 0\<rparr>]"
proof -
  have "same_rules s (save_users e s)" for s
    unfolding save_users_def by (rule same_rules_trans [OF write_rules admin_delta_rules])
  then show "rules (set_user_key e st ui key) = rules st"
    "st_user_records (set_user_key e st ui key) = (st_user_records st)[ui := (st_user_records st ! ui)\<lparr>u_pubkey_b64 := key,
     u_has_pubkey := True, u_timestamp := lww_next_ts (e_now e) (u_timestamp (st_user_records st ! ui)),
     u_last_auth_reply := 0\<rparr>]"
    by (simp_all add: set_user_key_def same_rules_def upd_user_def rules_def)
qed

lemma flood_cmd_rules: "same_rules st (snd (flood_cmd e st who nick))"
proof -
  have ign: "same_rules st (snd (ignore_source st k t))" for st k t
    by (auto simp: ignore_source_def upd_rules split: prod.split sum.split)
  have at: "same_rules st (snd (cmd_at st u t))" for st u t
    using same_rules_trans [OF upd_rules(1) ign]
    by (auto simp: cmd_at_def Let_def upd_rules split: option.split prod.split cmd_step.split)
  have "same_rules st (emit_ignore e st t d)" for st t d
    by (intro core_rules) (simp add: emit_ignore_def cores split: option.split)
  note ign = this
  show ?thesis
  proof (cases "who < length (st_user_records st)")
    case True
    obtain r n st1 where c: "cmd_at st (u_uuid (st_user_records st ! who)) (e_ms e) = ((r, n), st1)" by (metis surj_pair)
    then have "same_rules st st1" using at by (metis snd_conv)
    then have "same_rules st (if r = Bf_Drop \<and> n then ircf e st1 (slow_down nick) else st1)"
      using same_rules_trans ircf_rules by simp
    then have "same_rules st (if r = Bf_IgnoreNew then emit_ignore e (if r = Bf_Drop \<and> n then ircf e st1 (slow_down nick) else st1) t d
        else (if r = Bf_Drop \<and> n then ircf e st1 (slow_down nick) else st1))" for t d
      using same_rules_trans ign by simp
    then show ?thesis using True by (simp only: flood_cmd_def Let_def c if_True prod.case snd_conv)
  qed (simp add: flood_cmd_def)
qed

text \<open>The user records an oper's command may leave: the own key may have changed, nothing else.\<close>

definition own_key_only :: "nat \<Rightarrow> user_record list \<Rightarrow> user_record list \<Rightarrow> bool" where
  "own_key_only who us us' \<longleftrightarrow> (\<exists>k h t r. us' = us[who := (us ! who)\<lparr>u_pubkey_b64 := k, u_has_pubkey := h,
     u_timestamp := t, u_last_auth_reply := r\<rparr>])"

lemma own_key_refl: "own_key_only who us us"
  unfolding own_key_only_def
  by (intro exI [of _ "u_pubkey_b64 (us ! who)"] exI [of _ "u_has_pubkey (us ! who)"] exI [of _ "u_timestamp (us ! who)"]
      exI [of _ "u_last_auth_reply (us ! who)"]) simp

text \<open>C6: an oper's command changes no rule of the bot (masks, bots, hubs, options, settings, channels' configuration,
  bans) and no user but the oper's own record, of which only the key; while the network keeps
  mutations to the hub, not even that.\<close>

theorem oper_changes_only_own_key:
  assumes "u_typ (st_user_records st ! who) = CHR ''o''"
    "st' = run_user_command e w st nick user_host who cmd_line"
  shows "rules st' = rules st \<and> own_key_only who (st_user_records st) (st_user_records st') \<and>
    (is_opt_set st OPT_HUB_ONLY_MUTATIONS \<longrightarrow> st_user_records st' = st_user_records st)"
proof -
  let ?good = "\<lambda>s'. rules s' = rules st \<and> own_key_only who (st_user_records st) (st_user_records s') \<and>
    (is_opt_set st OPT_HUB_ONLY_MUTATIONS \<longrightarrow> st_user_records s' = st_user_records st)"
  have same: "?good s'" if "same_rules st s'" for s' using that own_key_refl by (simp add: same_rules_def)
  obtain r st1 where f: "flood_cmd e st who nick = (r, st1)" by fastforce
  have st1: "same_rules st st1" using flood_cmd_rules [of st e who nick] f by simp
  then have opt: "is_opt_set st1 OPT_HUB_ONLY_MUTATIONS = is_opt_set st OPT_HUB_ONLY_MUTATIONS"
    by (simp add: same_rules_def rules_def is_opt_set_def)
  have keeps: "?good s'" if "same_rules st1 s'" for s' using same same_rules_trans [OF st1 that] .
  have key: "?good (oper_chkey e st1 nick who a)" for a
  proof (cases "is_opt_set st1 OPT_HUB_ONLY_MUTATIONS")
    case False
    have "same_rules st1 (snd (user_key_arg_ok e st1 nick k (Some who) ''chkey''))" for k
      by (auto simp: user_key_arg_ok_def say_rules split: option.split)
    moreover have "?good (say e (set_user_key e s who k) nick m)" if "same_rules st1 s" for s k m
      using say_rules [of "set_user_key e s who k" e nick m] key_rules [of e s who k] that st1 False opt
      by (auto simp: same_rules_def own_key_only_def)
    ultimately show ?thesis using False keeps say_rules [of st1 e nick]
      unfolding oper_chkey_def Let_def
      by (simp split: option.split prod.split bool.split) (metis snd_conv)
  qed (simp add: oper_chkey_def keeps say_rules)
  have oper: "?good (oper_command e st1 nick who v a)" for v a
  proof (cases "eq_ic v ''chkey'' \<and> \<not> eq_ic v ''op''")
    case True
    then have eq: "oper_command e st1 nick who v a = oper_chkey e st1 nick who a" by (simp add: oper_command_def)
    show ?thesis unfolding eq by (rule key)
  next
    case False
    have "same_rules st1 (oper_command e st1 nick who v a)"
      using False by (auto simp: oper_command_def ircf_rules help_rules split: option.split)
    then show ?thesis by (rule keeps)
  qed
  obtain c a where c: "split_args cmd_line = (c, a)" by fastforce
  show ?thesis
  proof (cases c)
    case None
    then show ?thesis using same [OF same_rules_refl] assms c by (simp add: run_user_command_def Let_def)
  next
    case (Some v)
    let ?bar = "CHR ''|'' \<in> set v \<or> has_bar (ca_1 a) \<or> has_bar (ca_2 a) \<or> has_bar (ca_3 a) \<or> has_bar (ca_line a)"
    have "st' = (if r \<noteq> Bf_Ok then st1
       else if ?bar then say e st1 nick (''Error: '' @ q ''|'' @ '' is not allowed in commands.'')
       else oper_command e st1 nick who v a)"
      using assms c Some f by (simp add: run_user_command_def Let_def)
    then show ?thesis using oper [of v a] keeps [OF say_rules] keeps [OF same_rules_refl] by (simp split: if_splits)
  qed
qed

definition demo_world :: world where
  "demo_world = \<lparr>w_tls = False, w_log = \<lambda>_. [], w_hub_dial = \<lambda>_. False, w_dcc_dial = \<lambda>_ _. Inl [], w_my_ip = [],
     w_upgrade = \<lambda>_ st _ _. st, w_updates = \<lambda>_ st _. st\<rparr>"

definition demo_oper :: bot_state where
  "demo_oper = demo_admin\<lparr>st_user_records := st_user_records demo_admin @
     [default_user\<lparr>u_uuid := ''v'', u_name := ''bob'', u_typ := CHR ''o'', u_is_active := True\<rparr>]\<rparr>"

lemma oper_changes_only_own_key_witness:
  "u_typ (st_user_records demo_oper ! 1) = CHR ''o'' \<and>
   rules (run_user_command (calm_env 100) demo_world demo_oper ''bob'' ''bob!b@home'' 1 ''-admin ann'') = rules demo_oper"
proof -
  have t: "u_typ (st_user_records demo_oper ! 1) = CHR ''o''" by (simp add: demo_oper_def demo_admin_def)
  show ?thesis using oper_changes_only_own_key [OF t refl, of "calm_env 100" demo_world "''bob''" "''bob!b@home''" "''-admin ann''"] t
    by simp
qed

end
