(* ===== verification/Spec2Isabelle.thy ===== *)
theory Spec2Isabelle
  imports Auth SendProps ChanCfgProps FloodProps EnfProps Version CryptoProps ConfigLoad MainLoop LinkProps CommandProps
begin

text \<open>
  A verification library for ircbot.rs, an IRC bot that is one of a fleet steered by a hub.  The
  bot holds an IRC connection and a hub connection, keeps channel configuration that every node
  must agree on, tracks the channels it sits in, and enforces that configuration.

  \<^bold>\<open>How the program is modelled.\<close>  A Rust struct is a record with the same fields, an enum a
  datatype, a \<open>Vec\<close> or fixed array a list, \<open>u8\<close>/\<open>u32\<close>/\<open>u64\<close> bit sets are words of that width and
  \<open>i64\<close> times are \<open>int\<close>.  Text is a list of bytes (the UTF-8 encoding of the Rust string), so every
  length limit of the code is a limit in bytes here too.  An operation on \<open>&mut BotState\<close> takes a
  \<open>bot_state\<close> and returns the updated one, next to its result; \<open>Result\<close> is a sum (\<open>Inl\<close> the error).
  Clock reads and the answers of sockets, of encryption and of the hub link are gathered in a
  record \<open>env\<close> that every such operation takes; the lines given to the server and the frames given
  to the hub are recorded in the state, oldest first.  Log lines are not modelled.

  \<^bold>\<open>Theories, from the bottom.\<close>
  \<^item> \<open>Prelude\<close>: bytes and ASCII classes, \<open>position\<close>, splitting and joining, decimal text, UTF-8
    boundaries.  \<open>Limits\<close>: the constants of \<open>consts.rs\<close>.  \<open>Ring\<close>, \<open>Slots\<close>: the array written round
    and round, and the tracker table with its laws in the locale \<open>slot_table\<close>.
  \<^item> \<open>CStr\<close> (\<open>cstr.rs\<close>): the C string helpers, \<open>strtoll\<close>, \<open>sscanf\<close>, the field splitters.
  \<^item> \<open>Glob\<close> (\<open>auth.rs\<close>, \<open>glob_overlap.rs\<close>): mask matching and the overlap table, each equal to its
    reference meaning.
  \<^item> \<open>State\<close> (\<open>state.rs\<close>): the bot's state and records, the record \<open>env\<close>.  \<open>lean_bot\<close> is a start state
    with its large tables emptied, for examples.  \<open>Lww\<close>: last-writer-wins and the replay cache.
    \<open>Version\<close> (\<open>updater.rs\<close>): version comparison.
  \<^item> \<open>Auth\<close> (\<open>auth.rs\<close>): who is authorised; the locale \<open>matcher\<close> is interpreted on the mask matcher.
  \<^item> \<open>HubOut\<close>, \<open>HubPush\<close> (\<open>hub_client.rs\<close>): frames out: activity reports, the rate-limited
    enforcement events, presence, deltas, the configuration push, requests.
  \<^item> \<open>Crypto\<close>, \<open>CryptoProps\<close> (\<open>crypto.rs\<close>): random draws, UUIDs, keys and sealed frames over the
    primitives of \<open>env\<close>; \<open>crypt_laws\<close> names what is documented of those.
  \<^item> \<open>Settings\<close>, \<open>ChanCfg\<close>, \<open>ChanCfgProps\<close> (\<open>chancfg.rs\<close>): the settings fields, the C|, D| and B|
    records, the ban table, and what holds of them after any run of operations.
  \<^item> \<open>Lines\<close>, \<open>Config\<close>, \<open>ConfigLoad\<close> (\<open>config.rs\<close>): the record codecs, the configuration file as text,
    its two ways to be saved, the load line by line and the migration.
  \<^item> \<open>HubSync\<close> (\<open>hub_client.rs\<close>): the records the hub sends, each by last-writer-wins, the purges, the
    tree.  \<open>Access\<close> (\<open>channel.rs\<close>, \<open>bot_comms.rs\<close>): joins, requests for access and the ~B2 frames of bots.
    \<open>HubLink\<close> (\<open>hub_client.rs\<close>): the frames in what arrives, the handshake, every command of the hub,
    the channel-request election, the follower's part in a network upgrade, dialling a hub.
  \<^item> \<open>ChanLive\<close> (\<open>chanlive.rs\<close>): the live state of a channel as the server's lines tell it.
    \<open>ChanModes\<close>, \<open>ChanModesProps\<close>: the stored modes and the MODE lines that bring the channel to them.
  \<^item> \<open>Refusal\<close>, \<open>IrcNick\<close>, \<open>IrcClient\<close> (\<open>irc_client.rs\<close>): how long a server that refused the bot is left
    alone, the nick attempts, choosing and dialling a server, cutting what arrives into lines, the
    status tick.
  \<^item> \<open>SendQ\<close>, \<open>SendFacts\<close>, \<open>SendProps\<close> (\<open>sendq.rs\<close>, \<open>irc_client.rs\<close>): the send queue: lanes, token
    bucket, packing of MODE lines.  \<open>Frame\<close>: what output leaves alone.
  \<^item> \<open>Flood\<close>, \<open>FloodProps\<close> (\<open>chanflood.rs\<close>, \<open>botflood.rs\<close>): flood windows and trackers, the ignore
    table, quiet mode.
  \<^item> \<open>Deal\<close>, \<open>Enf\<close>, \<open>EnfActs\<close>, \<open>EnfEvents\<close>, \<open>EnfSweep\<close> (\<open>chanenf.rs\<close>): how the bots of a channel share the
    work, cached verdicts and ban clocks, the acts and the job table, the events, the sweep and the
    tick.  \<open>EnfFacts\<close>, \<open>EnfProps\<close>: the caches change no outcome; what the acts spare.
  \<^item> \<open>Reports\<close>, \<open>Listings\<close>, \<open>Help\<close>, \<open>Users\<close>, \<open>ChanCmd\<close>, \<open>Commands\<close> (\<open>commands.rs\<close>, \<open>chancmd.rs\<close>): signing
    in, opening a sealed command, the screens, and every admin and oper command.  \<open>Dcc\<close> (\<open>dcc.rs\<close>):
    chats.  \<open>CommandProps\<close>: a sealed command runs once, what an oper may change.  \<open>LinkProps\<close>: the hub
    proves itself, bots' frames run once (unless a clock is ahead), where chats are dialled.
  \<^item> \<open>IrcParser\<close> (\<open>irc_parser.rs\<close>): the handler of every line of the server.  \<open>MainLoop\<close> (\<open>main.rs\<close>): one
    turn of the loop, the tick in its order, the shutdown.

  \<^bold>\<open>Runs.\<close>  A property of all reachable states is stated over a datatype of operations (\<open>cfg_op\<close>,
  \<open>send_op\<close>, \<open>flood_op\<close>, \<open>sealed_op\<close>), a function that performs one, and its fold over any list.

  \<^bold>\<open>Fuel and termination.\<close>  The loops are structural or have a \<open>termination\<close> proof; four take a bound.
  The drain loop of the send queue takes the number of queued lines, and \<open>drain_stops\<close> shows that it
  always ends for a reason of the code's, never because the bound ran out.  \<open>activity_tick_loop\<close> takes
  the number of parked queries, each turn answers one and parks none; \<open>fallback_loop\<close> takes the number
  of trusted bots, as the code's own loop does; \<open>set_edits\<close> takes the number of words, each edit uses
  one; \<open>uniq_name\<close> tries one suffix more than there are names, so one of them is free.

  \<^bold>\<open>Not modelled.\<close>  The primitives of cryptography and the encryption of the configuration file are
  fields of \<open>env\<close>; \<open>decrypt_file\<close> and the key derivation for it are left out.  Sockets, TLS and dialling
  are fields of \<open>env\<close>, of the record \<open>world\<close> of the commands and of the record \<open>outside\<close> of the loop: the
  code there is calls of the operating system (\<open>net.rs\<close>).  The updater's download, signature check
  and restart, the log files (\<open>logging.rs\<close> and the written command log), the locking of key memory
  (\<open>secret.rs\<close>), the start-up of \<open>main.rs\<close> (wizard, pass file, daemonising) and the two client
  programs under \<open>utils/\<close> are I/O and are left out.
\<close>

end
